(* ===== verification/Prelude.thy ===== *)
theory Prelude
  imports Main "HOL-Library.Word"
begin

text \<open>
  Shared vocabulary of the development: the fragments of the Go language and
  standard library that the SIP bridge uses everywhere.

  A Go string is a sequence of bytes, modelled by \<^typ>\<open>string\<close> (a \<^typ>\<open>char\<close> is
  one byte).  The functions of package strings are modelled on their ASCII
  behaviour: bytes above 127 are left alone by the case mappings and are never
  white space.  The functions of package strconv are modelled with their error
  values, the clamping of out-of-range numbers and the width they are asked
  for.  Go's \<open>(value, error)\<close> pairs become \<^typ>\<open>'e + 'a\<close> when the value of a failed
  call is not used by the caller, and stay pairs when it is.
\<close>

named_theorems go_defs \<open>definitions of the Go library model\<close>
named_theorems go_eval \<open>facts that evaluate the Go library model on concrete input\<close>
named_theorems inv_intros \<open>one preservation lemma per operation of a state\<close>

section \<open>Results\<close>

type_synonym ('e, 'a) result = "'e + 'a"

abbreviation Err :: "'e \<Rightarrow> ('e, 'a) result" where "Err \<equiv> Inl"
abbreviation Ok :: "'a \<Rightarrow> ('e, 'a) result" where "Ok \<equiv> Inr"

section \<open>Package strings\<close>

definition is_space :: "char \<Rightarrow> bool" where
  "is_space c \<longleftrightarrow> c \<in> {CHR '' '', CHR 0x09, CHR 0x0A, CHR 0x0B, CHR 0x0C, CHR 0x0D}"

definition lower_char :: "char \<Rightarrow> char" where
  "lower_char c = (let n = (of_char c :: nat) in
     if 65 \<le> n \<and> n \<le> 90 then char_of (n + 32) else c)"

definition upper_char :: "char \<Rightarrow> char" where
  "upper_char c = (let n = (of_char c :: nat) in
     if 97 \<le> n \<and> n \<le> 122 then char_of (n - 32) else c)"

definition ToLower :: "string \<Rightarrow> string" where "ToLower s = map lower_char s"
definition ToUpper :: "string \<Rightarrow> string" where "ToUpper s = map upper_char s"

definition EqualFold :: "string \<Rightarrow> string \<Rightarrow> bool" where
  "EqualFold s t \<longleftrightarrow> ToLower s = ToLower t"

definition TrimLeftSpace :: "string \<Rightarrow> string" where
  "TrimLeftSpace s = dropWhile is_space s"

definition TrimSpace :: "string \<Rightarrow> string" where
  "TrimSpace s = rev (dropWhile is_space (rev (dropWhile is_space s)))"

text \<open>\<open>strings.Split(s, sep)\<close> for a separator of one byte.\<close>

fun Split :: "string \<Rightarrow> char \<Rightarrow> string list" where
  "Split [] c = [[]]"
| "Split (x # xs) c = (if x = c then [] # Split xs c
     else (case Split xs c of [] \<Rightarrow> [[x]] | y # ys \<Rightarrow> (x # y) # ys))"

text \<open>\<open>strings.Cut\<close>: the text before and after the first separator; the whole
  string and nothing when it does not occur.\<close>

definition Cut :: "string \<Rightarrow> char \<Rightarrow> string \<times> string \<times> bool" where
  "Cut s c = (if c \<in> set s
     then (takeWhile (\<lambda>x. x \<noteq> c) s, tl (dropWhile (\<lambda>x. x \<noteq> c) s), True)
     else (s, [], False))"

text \<open>\<open>strings.SplitN(s, sep, n)\<close> for positive \<open>n\<close>.\<close>

fun SplitN :: "string \<Rightarrow> char \<Rightarrow> nat \<Rightarrow> string list" where
  "SplitN s c 0 = []"
| "SplitN s c (Suc 0) = [s]"
| "SplitN s c (Suc (Suc n)) = (case Cut s c of (b, a, found) \<Rightarrow>
     if found then b # SplitN a c (Suc n) else [s])"

definition HasPrefix :: "string \<Rightarrow> string \<Rightarrow> bool" where
  "HasPrefix s p \<longleftrightarrow> take (length p) s = p"

definition HasSuffix :: "string \<Rightarrow> string \<Rightarrow> bool" where
  "HasSuffix s p \<longleftrightarrow> HasPrefix (rev s) (rev p)"

definition TrimPrefix :: "string \<Rightarrow> string \<Rightarrow> string" where
  "TrimPrefix s p = (if HasPrefix s p then drop (length p) s else s)"

definition TrimSuffix :: "string \<Rightarrow> string \<Rightarrow> string" where
  "TrimSuffix s p = (if HasSuffix s p then take (length s - length p) s else s)"

fun Contains :: "string \<Rightarrow> string \<Rightarrow> bool" where
  "Contains [] p \<longleftrightarrow> p = []"
| "Contains (x # xs) p \<longleftrightarrow> HasPrefix (x # xs) p \<or> Contains xs p"

section \<open>Package strconv\<close>

datatype num_err = ErrSyntax | ErrRange

definition digit_char :: "nat \<Rightarrow> char" where "digit_char d = char_of (48 + d)"

fun nat_digits :: "nat \<Rightarrow> string" where
  "nat_digits n = (if n < 10 then [digit_char n]
     else nat_digits (n div 10) @ [digit_char (n mod 10)])"

declare nat_digits.simps [simp del]

definition Itoa :: "int \<Rightarrow> string" where
  "Itoa i = (if i < 0 then CHR ''-'' # nat_digits (nat (- i)) else nat_digits (nat i))"

text \<open>The value of one byte as a digit of any base up to 36.\<close>

definition digit_val :: "char \<Rightarrow> int option" where
  "digit_val c = (let n = (of_char c :: nat); l = (of_char (lower_char c) :: nat) in
     if 48 \<le> n \<and> n \<le> 57 then Some (int (n - 48))
     else if 97 \<le> l \<and> l \<le> 122 then Some (int (l - 97 + 10))
     else None)"

text \<open>The loop of \<open>strconv.ParseUint\<close>: it stops at the first byte that is no
  digit (syntax) or that overflows the width (range), whichever comes first.\<close>

fun parse_digits :: "int \<Rightarrow> bool \<Rightarrow> int \<Rightarrow> int \<Rightarrow> string \<Rightarrow> int \<times> num_err option" where
  "parse_digits base base0 maxv n [] = (n, None)"
| "parse_digits base base0 maxv n (c # cs) =
     (if c = CHR ''_'' \<and> base0 then parse_digits base base0 maxv n cs
      else (case digit_val c of
        None \<Rightarrow> (0, Some ErrSyntax)
      | Some d \<Rightarrow> if base \<le> d then (0, Some ErrSyntax)
          else if maxv < n * base + d then (maxv, Some ErrRange)
          else parse_digits base base0 maxv (n * base + d) cs))"

text \<open>Where underscores may stand in a base-prefixed literal.\<close>

datatype us_prev = USStart | USDigit | USUnder | USOther

fun underscore_loop :: "bool \<Rightarrow> us_prev \<Rightarrow> string \<Rightarrow> bool" where
  "underscore_loop hex p [] \<longleftrightarrow> p \<noteq> USUnder"
| "underscore_loop hex p (c # cs) \<longleftrightarrow>
     (let n = (of_char c :: nat); l = (of_char (lower_char c) :: nat) in
      if (48 \<le> n \<and> n \<le> 57) \<or> (hex \<and> 97 \<le> l \<and> l \<le> 102) then underscore_loop hex USDigit cs
      else if c = CHR ''_'' then p = USDigit \<and> underscore_loop hex USUnder cs
      else p \<noteq> USUnder \<and> underscore_loop hex USOther cs)"

definition strip_sign :: "string \<Rightarrow> string" where
  "strip_sign s = (case s of c # cs \<Rightarrow> if c = CHR ''-'' \<or> c = CHR ''+'' then cs else s | [] \<Rightarrow> [])"

definition underscoreOK :: "string \<Rightarrow> bool" where
  "underscoreOK s0 = (let s = strip_sign s0 in
     case s of
       z # b # cs \<Rightarrow> if z = CHR ''0'' \<and> lower_char b \<in> {CHR ''b'', CHR ''o'', CHR ''x''}
                   then underscore_loop (lower_char b = CHR ''x'') USDigit cs
                   else underscore_loop False USStart s
     | _ \<Rightarrow> underscore_loop False USStart s)"

text \<open>\<open>base = 0\<close> selects the base from the prefix of the literal.\<close>

definition base_prefix :: "string \<Rightarrow> int \<times> string" where
  "base_prefix s = (case s of
       z # cs \<Rightarrow> if z = CHR ''0'' then
           (case cs of
              b # d # ds \<Rightarrow>
                if lower_char b = CHR ''b'' then (2, d # ds)
                else if lower_char b = CHR ''o'' then (8, d # ds)
                else if lower_char b = CHR ''x'' then (16, d # ds)
                else (8, cs)
            | _ \<Rightarrow> (8, cs))
         else (10, s)
     | [] \<Rightarrow> (10, s))"

definition ParseUint :: "string \<Rightarrow> int \<Rightarrow> nat \<Rightarrow> int \<times> num_err option" where
  "ParseUint s base bits =
     (if s = [] then (0, Some ErrSyntax)
      else if base = 0 then
        (case base_prefix s of (b, ds) \<Rightarrow>
           (let r = parse_digits b True (2 ^ bits - 1) 0 ds in
            if snd r = None \<and> CHR ''_'' \<in> set ds \<and> \<not> underscoreOK s then (0, Some ErrSyntax) else r))
      else parse_digits base False (2 ^ bits - 1) 0 s)"

definition ParseInt :: "string \<Rightarrow> int \<Rightarrow> nat \<Rightarrow> int \<times> num_err option" where
  "ParseInt s base bits =
     (if s = [] then (0, Some ErrSyntax)
      else let neg = (hd s = CHR ''-''); u = ParseUint (strip_sign s) base 64;
               un = fst u; cutoff = 2 ^ (bits - 1) in
        if snd u = Some ErrSyntax then (0, Some ErrSyntax)
        else if \<not> neg \<and> cutoff \<le> un then (cutoff - 1, Some ErrRange)
        else if neg \<and> cutoff < un then (- cutoff, Some ErrRange)
        else (if neg then - un else un, None))"

text \<open>Go's \<open>int\<close> has 64 bits on every platform the bridge is built for.\<close>

definition Atoi :: "string \<Rightarrow> int \<times> num_err option" where
  "Atoi s = ParseInt s 10 64"

text \<open>Conversions to the fixed-width integer types of Go wrap around.\<close>

definition to_uint16 :: "int \<Rightarrow> int" where "to_uint16 i = i mod 2 ^ 16"
definition to_uint32 :: "int \<Rightarrow> int" where "to_uint32 i = i mod 2 ^ 32"
definition to_int32 :: "int \<Rightarrow> int" where
  "to_int32 i = (let m = i mod 2 ^ 32 in if m < 2 ^ 31 then m else m - 2 ^ 32)"
definition to_int64 :: "int \<Rightarrow> int" where
  "to_int64 i = (let m = i mod 2 ^ 64 in if m < 2 ^ 63 then m else m - 2 ^ 64)"

section \<open>Lemmas on the string functions\<close>

lemma Split_nonempty [simp]: "Split s c \<noteq> []"
  by (cases s) (auto split: list.splits)

lemma Split_no_sep [simp]: "c \<notin> set s \<Longrightarrow> Split s c = [s]"
  by (induction s) auto

lemma Split_append [simp]:
  "c \<notin> set s \<Longrightarrow> Split (s @ c # t) c = s # Split t c"
  by (induction s) auto

lemma Split_parts: "p \<in> set (Split s c) \<Longrightarrow> c \<notin> set p"
proof (induction s arbitrary: p)
  case (Cons x xs)
  then show ?case by (cases "Split xs c") (auto split: if_splits)
qed simp

lemma takeWhile_neq_append: "c \<notin> set s \<Longrightarrow> takeWhile (\<lambda>x. x \<noteq> c) (s @ c # t) = s"
  by (induction s) auto

lemma dropWhile_neq_append: "c \<notin> set s \<Longrightarrow> dropWhile (\<lambda>x. x \<noteq> c) (s @ c # t) = c # t"
  by (induction s) auto

lemma Cut_append [simp]: "c \<notin> set s \<Longrightarrow> Cut (s @ c # t) c = (s, t, True)"
  by (simp add: Cut_def takeWhile_neq_append dropWhile_neq_append)

lemma Cut_no_sep [simp]: "c \<notin> set s \<Longrightarrow> Cut s c = (s, [], False)"
  by (simp add: Cut_def)

lemma of_char_lt_256: "(of_char c :: nat) < 256"
  by (metis of_char_mod_256 mod_less_divisor zero_less_numeral)

lemma lower_char_idem [simp]: "lower_char (lower_char c) = lower_char c"
  by (auto simp: lower_char_def Let_def)

lemma ToLower_idem [simp]: "ToLower (ToLower s) = ToLower s"
  by (simp add: ToLower_def)

lemma ToLower_Nil [simp]: "ToLower [] = []"
  by (simp add: ToLower_def)

lemma ToLower_eq_Nil [simp]: "ToLower s = [] \<longleftrightarrow> s = []"
  by (simp add: ToLower_def)

lemma TrimSpace_Nil [simp]: "TrimSpace [] = []"
  by (simp add: TrimSpace_def)

lemma TrimSpace_id:
  "s \<noteq> [] \<Longrightarrow> \<not> is_space (hd s) \<Longrightarrow> \<not> is_space (last s) \<Longrightarrow> TrimSpace s = s"
proof -
  assume s: "s \<noteq> []" and h: "\<not> is_space (hd s)" and l: "\<not> is_space (last s)"
  from s h have 1: "dropWhile is_space s = s" by (cases s) auto
  from s l have "dropWhile is_space (rev s) = rev s" by (cases s rule: rev_cases) auto
  with 1 show ?thesis by (simp add: TrimSpace_def)
qed

lemma TrimSpace_nospace: "(\<And>c. c \<in> set s \<Longrightarrow> \<not> is_space c) \<Longrightarrow> TrimSpace s = s"
  by (cases "s = []") (auto intro!: TrimSpace_id)

lemma TrimSpace_idem [simp]: "TrimSpace (TrimSpace s) = TrimSpace s"
proof (cases "TrimSpace s = []")
  case False
  define t where "t = dropWhile is_space s"
  define u where "u = dropWhile is_space (rev t)"
  have eq: "TrimSpace s = rev u" by (simp add: TrimSpace_def t_def u_def)
  with False have u: "u \<noteq> []" by simp
  then have "\<not> is_space (hd u)" unfolding u_def by (rule hd_dropWhile)
  moreover have "\<not> is_space (last u)"
  proof -
    have "u \<noteq> [] \<Longrightarrow> last u = last (rev t)" unfolding u_def by (metis last_appendR takeWhile_dropWhile_id)
    moreover have "t \<noteq> []" using u by (auto simp: u_def)
    ultimately show ?thesis using u hd_dropWhile [of is_space s] by (simp add: t_def last_rev)
  qed
  ultimately show ?thesis unfolding eq using u by (intro TrimSpace_id) (auto simp: hd_rev last_rev)
qed simp

lemma HasPrefix_append [simp]: "HasPrefix (p @ s) p"
  by (simp add: HasPrefix_def)

lemma TrimPrefix_append [simp]: "TrimPrefix (p @ s) p = s"
  by (simp add: TrimPrefix_def)

section \<open>Lemmas on the numeric conversions\<close>

lemma of_char_digit_char: "d < 10 \<Longrightarrow> (of_char (digit_char d) :: nat) = 48 + d"
  by (simp add: digit_char_def)

lemma digit_val_digit_char [simp]: "d < 10 \<Longrightarrow> digit_val (digit_char d) = Some (int d)"
  by (simp add: digit_val_def of_char_digit_char Let_def)

lemma digit_val_nonneg: "digit_val c = Some d \<Longrightarrow> 0 \<le> d"
  by (auto simp: digit_val_def Let_def split: if_splits)

lemma digit_char_neq:
  assumes "d < 10" and "(of_char c :: nat) < 48 \<or> 57 < (of_char c :: nat)"
  shows "digit_char d \<noteq> c"
  using of_char_digit_char [OF assms(1)] assms(2) assms(1) by auto

lemma nat_digits_set: "c \<in> set (nat_digits n) \<Longrightarrow> \<exists>d < 10. c = digit_char d"
proof (induction n rule: nat_digits.induct)
  case (1 n)
  then show ?case
    by (subst (asm) (2) nat_digits.simps)
       (auto split: if_splits intro: exI [where x = "n mod 10"])
qed

lemma nat_digits_nonempty [simp]: "nat_digits n \<noteq> []"
  by (subst nat_digits.simps) simp

lemma parse_digits_append:
  "parse_digits b f m n s = (k, None) \<Longrightarrow> parse_digits b f m n (s @ t) = parse_digits b f m k t"
  by (induction s arbitrary: n) (auto split: option.splits if_splits)

lemma parse_digits_nat_digits:
  "int n \<le> m \<Longrightarrow> parse_digits 10 f m 0 (nat_digits n) = (int n, None)"
proof (induction n rule: nat_digits.induct)
  case (1 n)
  have us: "digit_char d \<noteq> CHR ''_''" if "d < 10" for d
    using that by (intro digit_char_neq) auto
  show ?case
  proof (cases "n < 10")
    case True
    then show ?thesis using 1(2) us by (subst nat_digits.simps) simp
  next
    case False
    have le: "int (n div 10) \<le> m" using 1(2) by linarith
    have eq: "int (n div 10) * 10 + int (n mod 10) = int n" by presburger
    have "parse_digits 10 f m 0 (nat_digits (n div 10)) = (int (n div 10), None)"
      using 1(1) False le by simp
    then show ?thesis using False 1(2) us eq
      by (subst nat_digits.simps) (simp add: parse_digits_append del: of_nat_mod of_nat_div)
  qed
qed

lemma nat_digits_not_sign:
  "hd (nat_digits n) \<noteq> CHR ''-''" "hd (nat_digits n) \<noteq> CHR ''+''"
proof -
  obtain d where "d < 10" "hd (nat_digits n) = digit_char d"
    using nat_digits_set [of "hd (nat_digits n)" n] by auto
  then show "hd (nat_digits n) \<noteq> CHR ''-''" "hd (nat_digits n) \<noteq> CHR ''+''"
    by (simp_all add: digit_char_neq)
qed

lemma ParseUint_nat_digits:
  "int n < 2 ^ bits \<Longrightarrow> ParseUint (nat_digits n) 10 bits = (int n, None)"
  by (simp add: ParseUint_def parse_digits_nat_digits)

lemma strip_sign_nat_digits [simp]: "strip_sign (nat_digits n) = nat_digits n"
  using nat_digits_not_sign [of n] by (cases "nat_digits n") (auto simp: strip_sign_def)

lemma ParseInt_Itoa:
  assumes "0 < bits" "bits \<le> 64" "- (2 ^ (bits - 1)) \<le> i" "i < 2 ^ (bits - 1)"
  shows "ParseInt (Itoa i) 10 bits = (i, None)"
proof -
  have le: "(2::int) ^ (bits - 1) \<le> 2 ^ 63" using assms(2) by (intro power_increasing) auto
  then have "\<bar>i\<bar> \<le> 2 ^ 63" using assms(3,4) by linarith
  then have "int (nat \<bar>i\<bar>) < 2 ^ 64" by simp
  then have u: "ParseUint (nat_digits (nat \<bar>i\<bar>)) 10 64 = (\<bar>i\<bar>, None)"
    using ParseUint_nat_digits by simp
  show ?thesis
  proof (cases "i < 0")
    case True
    then show ?thesis using u assms(3) by (simp add: ParseInt_def Itoa_def strip_sign_def Let_def)
  next
    case False
    then show ?thesis using u assms(4) nat_digits_not_sign [of "nat i"]
      by (simp add: ParseInt_def Itoa_def Let_def)
  qed
qed

lemma Atoi_Itoa: "- (2 ^ 63) \<le> i \<Longrightarrow> i < 2 ^ 63 \<Longrightarrow> Atoi (Itoa i) = (i, None)"
  unfolding Atoi_def by (rule ParseInt_Itoa) auto

lemma parse_digits_bound:
  "0 \<le> b \<Longrightarrow> 0 \<le> n \<Longrightarrow> n \<le> m \<Longrightarrow> 0 \<le> fst (parse_digits b f m n s) \<and> fst (parse_digits b f m n s) \<le> m"
proof (induction b f m n s rule: parse_digits.induct)
  case (2 base base0 maxv n c cs)
  show ?case
  proof (cases "c = CHR ''_'' \<and> base0")
    case True
    then show ?thesis using 2 by simp
  next
    case False
    then show ?thesis using 2(2-) digit_val_nonneg [of c]
      by (auto split: option.splits intro!: mult_nonneg_nonneg add_nonneg_nonneg)
  qed
qed simp

lemma base_prefix_pos: "base_prefix s = (b, r) \<Longrightarrow> 0 \<le> b"
  by (auto simp: base_prefix_def split: list.splits if_splits)

lemma ParseUint_bound:
  assumes "0 \<le> b"
  shows "0 \<le> fst (ParseUint s b bits)" "fst (ParseUint s b bits) < 2 ^ bits"
proof -
  have *: "0 \<le> fst (parse_digits b' f (2 ^ bits - 1) 0 t) \<and> fst (parse_digits b' f (2 ^ bits - 1) 0 t) \<le> 2 ^ bits - 1"
    if "0 \<le> b'" for b' f t
    using that by (intro parse_digits_bound) auto
  obtain b' r where bp: "base_prefix s = (b', r)" by (cases "base_prefix s")
  have "0 \<le> fst (ParseUint s b bits) \<and> fst (ParseUint s b bits) \<le> 2 ^ bits - 1"
    using * [OF assms, of False s] * [OF base_prefix_pos [OF bp], of True r]
    by (simp add: ParseUint_def Let_def bp)
  then show "0 \<le> fst (ParseUint s b bits)" "fst (ParseUint s b bits) < 2 ^ bits" by auto
qed

lemma ParseInt_bound:
  assumes "0 \<le> b"
  shows "- (2 ^ (bits - 1)) \<le> fst (ParseInt s b bits)" "fst (ParseInt s b bits) < 2 ^ (bits - 1)"
proof -
  define u where "u = fst (ParseUint (strip_sign s) b 64)"
  define k where "k = (2::int) ^ (bits - 1)"
  have *: "0 \<le> u" "1 \<le> k" using assms by (simp_all add: u_def k_def ParseUint_bound)
  have "fst (ParseInt s b bits) \<in> {0, k - 1, - k} \<or>
        (fst (ParseInt s b bits) = u \<and> u < k) \<or> (fst (ParseInt s b bits) = - u \<and> u \<le> k)"
    unfolding ParseInt_def Let_def u_def [symmetric] k_def [symmetric] by simp
  with * show "- (2 ^ (bits - 1)) \<le> fst (ParseInt s b bits)" "fst (ParseInt s b bits) < 2 ^ (bits - 1)"
    unfolding k_def [symmetric] by auto
qed

lemma Itoa_chars:
  "c \<in> set (Itoa i) \<Longrightarrow> c = CHR ''-'' \<or> (\<exists>d < 10. c = digit_char d)"
  by (auto simp: Itoa_def dest: nat_digits_set split: if_splits)

lemma Itoa_not_in:
  assumes "(of_char c :: nat) < 48 \<or> 57 < (of_char c :: nat)" "c \<noteq> CHR ''-''"
  shows "c \<notin> set (Itoa i)"
  using Itoa_chars [of c i] digit_char_neq [OF _ assms(1)] assms(2) by auto

lemma to_uint16_range: "0 \<le> to_uint16 i" "to_uint16 i < 2 ^ 16"
  by (simp_all add: to_uint16_def)

lemma to_uint32_range: "0 \<le> to_uint32 i" "to_uint32 i < 2 ^ 32"
  by (simp_all add: to_uint32_def)

lemma to_uint16_id: "0 \<le> i \<Longrightarrow> i < 2 ^ 16 \<Longrightarrow> to_uint16 i = i"
  by (simp add: to_uint16_def)

lemma to_uint32_id: "0 \<le> i \<Longrightarrow> i < 2 ^ 32 \<Longrightarrow> to_uint32 i = i"
  by (simp add: to_uint32_def)

section \<open>Components as state transformers\<close>

text \<open>A component is driven by a sequence of operations; an operation returns the next
  state, or \<^const>\<open>None\<close> where the code would panic.\<close>

fun run :: "('op \<Rightarrow> 's \<Rightarrow> 's option) \<Rightarrow> 'op list \<Rightarrow> 's \<Rightarrow> 's option" where
  "run step [] s = Some s"
| "run step (x # xs) s = (case step x s of None \<Rightarrow> None | Some s' \<Rightarrow> run step xs s')"

lemma run_append:
  "run step (xs @ ys) s = (case run step xs s of None \<Rightarrow> None | Some s' \<Rightarrow> run step ys s')"
  by (induction xs arbitrary: s) (auto split: option.splits)

text \<open>The contract of a component with an invariant.\<close>

locale keeps_inv =
  fixes step :: "'op \<Rightarrow> 's \<Rightarrow> 's option" and inv :: "'s \<Rightarrow> bool"
  assumes step_keeps: "inv s \<Longrightarrow> step x s = Some s' \<Longrightarrow> inv s'"
begin

lemma run_keeps: "inv s \<Longrightarrow> run step xs s = Some s' \<Longrightarrow> inv s'"
  by (induction xs arbitrary: s) (auto split: option.splits dest: step_keeps)

text \<open>A quantity that no operation decreases does not decrease over a run.\<close>

lemma run_mono:
  fixes f :: "'s \<Rightarrow> nat"
  assumes "\<And>x s s'. inv s \<Longrightarrow> step x s = Some s' \<Longrightarrow> f s \<le> f s'"
  shows "inv s \<Longrightarrow> run step xs s = Some s' \<Longrightarrow> f s \<le> f s'"
proof (induction xs arbitrary: s)
  case (Cons x xs)
  then obtain t where "step x s = Some t" "run step xs t = Some s'" by (auto split: option.splits)
  then show ?case using Cons assms step_keeps by (meson le_trans)
qed simp

text \<open>A property that every operation keeps once it holds.\<close>

lemma run_stable:
  assumes "\<And>x s s'. inv s \<Longrightarrow> P s \<Longrightarrow> step x s = Some s' \<Longrightarrow> P s'"
  shows "inv s \<Longrightarrow> P s \<Longrightarrow> run step xs s = Some s' \<Longrightarrow> P s'"
proof (induction xs arbitrary: s)
  case (Cons x xs)
  then obtain t where "step x s = Some t" "run step xs t = Some s'" by (auto split: option.splits)
  then show ?case using Cons assms step_keeps by metis
qed simp

end

text \<open>A component none of whose operations panics in a state that satisfies the
  invariant.\<close>

locale never_stuck = keeps_inv +
  assumes step_total: "inv s \<Longrightarrow> step x s \<noteq> None"
begin

lemma run_total: "inv s \<Longrightarrow> \<exists>s'. run step xs s = Some s' \<and> inv s'"
proof (induction xs arbitrary: s)
  case (Cons x xs)
  from step_total [OF Cons.prems, of x] obtain t where t: "step x s = Some t" by auto
  with step_keeps [OF Cons.prems] have "inv t" by auto
  from Cons.IH [OF this] t show ?case by auto
qed simp

end

text \<open>The contract of a signaling dialog towards its call: hanging up happens at most once,
  and only while the dialog is established.\<close>

locale hangup_once = keeps_inv step inv
  for step :: "'op \<Rightarrow> 's \<Rightarrow> 's option" and inv :: "'s \<Rightarrow> bool" +
  fixes byes :: "'s \<Rightarrow> nat" and established :: "'s \<Rightarrow> bool"
  assumes bye_established: "inv s \<Longrightarrow> step x s = Some s' \<Longrightarrow> byes s' \<noteq> byes s \<Longrightarrow>
      established s \<and> \<not> established s' \<and> byes s' = Suc (byes s)"
    and no_reestablish: "inv s \<Longrightarrow> step x s = Some s' \<Longrightarrow> 0 < byes s \<Longrightarrow> \<not> established s \<Longrightarrow> \<not> established s'"
begin

definition hung_up_at_most_once :: "'s \<Rightarrow> bool" where
  "hung_up_at_most_once s \<longleftrightarrow> byes s = 0 \<or> byes s = 1 \<and> \<not> established s"

lemma step_once:
  "inv s \<Longrightarrow> hung_up_at_most_once s \<Longrightarrow> step x s = Some s' \<Longrightarrow> hung_up_at_most_once s'"
  using bye_established [of s x s'] no_reestablish [of s x s'] unfolding hung_up_at_most_once_def
  by (cases "byes s' = byes s") auto

lemma run_byes:
  assumes "inv s" "byes s = 0" "run step xs s = Some s'"
  shows "byes s' \<le> 1" "byes s' = 1 \<Longrightarrow> \<not> established s'"
proof -
  have "hung_up_at_most_once s'"
    by (rule run_stable [OF step_once assms(1) _ assms(3)]) (auto simp: hung_up_at_most_once_def assms(2))
  then show "byes s' \<le> 1" "byes s' = 1 \<Longrightarrow> \<not> established s'" by (auto simp: hung_up_at_most_once_def)
qed

end

text \<open>A component refines a specification when every step it takes from a state of its invariant is,
  through the abstraction, a step of the specification or none at all. What the specification
  keeps, every run of the component keeps.\<close>

locale refines = keeps_inv step inv
  for step :: "'op \<Rightarrow> 's \<Rightarrow> 's option" and inv :: "'s \<Rightarrow> bool" +
  fixes abs :: "'s \<Rightarrow> 'a" and spec :: "'a \<Rightarrow> 'a \<Rightarrow> bool"
  assumes simulates: "inv s \<Longrightarrow> step x s = Some s' \<Longrightarrow> abs s' = abs s \<or> spec (abs s) (abs s')"
begin

lemma run_refines: "inv s \<Longrightarrow> run step xs s = Some s' \<Longrightarrow> spec\<^sup>*\<^sup>* (abs s) (abs s')"
proof (induction xs arbitrary: s)
  case (Cons x xs)
  then obtain t where t: "step x s = Some t" "run step xs t = Some s'" by (auto split: option.splits)
  have "spec\<^sup>*\<^sup>* (abs s) (abs t)" using simulates [OF Cons.prems(1) t(1)] by auto
  moreover have "spec\<^sup>*\<^sup>* (abs t) (abs s')" by (rule Cons.IH [OF step_keeps [OF Cons.prems(1) t(1)] t(2)])
  ultimately show ?case by simp
qed simp

lemma transport:
  assumes "\<And>a b. J a \<Longrightarrow> spec a b \<Longrightarrow> J b" "inv s" "J (abs s)" "run step xs s = Some s'"
  shows "J (abs s')"
  using run_refines [OF assms(2,4)] assms(3) by (induction rule: rtranclp_induct) (auto intro: assms(1))

end

end
