(* ===== verification/Stats.thy ===== *)
theory Stats
  imports Complex_Main Prelude
begin

text \<open>
  src/pkg/stats: the termination classes (termination.go), the health report
  and the per-call monitor with the metrics it moves (monitor.go).  A
  Prometheus vector is a map from the label values to the current number; the
  collectors themselves (prometheus/client\_golang) only add and subtract.
\<close>

section \<open>termination.go\<close>

datatype TerminationResult =
  ResultSuccess | ResultServerError | ResultClientError | ResultIndeterminate | ResultUpstreamError

record Termination =
  Result :: TerminationResult
  TReason :: string

definition Success :: "string \<Rightarrow> Termination" where
  "Success r = \<lparr>Result = ResultSuccess, TReason = r\<rparr>"
definition ServerError :: "string \<Rightarrow> Termination" where
  "ServerError r = \<lparr>Result = ResultServerError, TReason = r\<rparr>"
definition ClientError :: "string \<Rightarrow> Termination" where
  "ClientError r = \<lparr>Result = ResultClientError, TReason = r\<rparr>"
definition Indeterminate :: "string \<Rightarrow> Termination" where
  "Indeterminate r = \<lparr>Result = ResultIndeterminate, TReason = r\<rparr>"
definition UpstreamError :: "string \<Rightarrow> Termination" where
  "UpstreamError r = \<lparr>Result = ResultUpstreamError, TReason = r\<rparr>"

lemmas term_defs = Success_def ServerError_def ClientError_def Indeterminate_def UpstreamError_def

section \<open>monitor.go: health\<close>

datatype HealthStatus = HealthOK | HealthNotStarted | HealthStopped | HealthUnderLoad | HealthDisabled

text \<open>The CPU figures are read from the node's load monitor; rationals stand
  for the floating-point numbers.\<close>

record health_in =
  started_broken :: bool
  shutdown_broken :: bool
  cpu_idle :: rat
  num_cpu :: rat
  max_utilization :: rat

definition Health :: "health_in \<Rightarrow> HealthStatus" where
  "Health m = (if \<not> started_broken m then HealthNotStarted
     else if shutdown_broken m then HealthStopped
     else if cpu_idle m < num_cpu m * (1 - max_utilization m) then HealthUnderLoad
     else HealthOK)"

section \<open>monitor.go: call monitors\<close>

record CallMonitor =
  cm_dir :: string
  cm_toHost :: string
  cm_provider :: "string option"
  cm_providerAtStart :: "string option"
  cm_started :: bool
  cm_terminated :: bool

text \<open>The vectors the call monitors write: \<open>calls_active\<close> by direction, host
  and provider, \<open>calls_terminated\<close> and \<open>invite_error\<close> with result and reason.\<close>

type_synonym active_key = "string \<times> string \<times> string"
type_synonym term_key = "string \<times> string \<times> string \<times> TerminationResult \<times> string"

record Monitor =
  callsActive :: "active_key \<Rightarrow> int"
  callsTerminated :: "term_key \<Rightarrow> int"
  inviteErr :: "string \<times> string \<times> string \<times> string \<Rightarrow> int"
  inviteReqRaw :: int
  inviteReq :: "string \<Rightarrow> int"
  inviteAccept :: "active_key \<Rightarrow> int"
  terminationFailures :: "string \<Rightarrow> int"

definition NewCall :: "string \<Rightarrow> string \<Rightarrow> CallMonitor" where
  "NewCall dir toHost = \<lparr>cm_dir = dir, cm_toHost = toHost, cm_provider = None,
     cm_providerAtStart = None, cm_started = False, cm_terminated = False\<rparr>"

definition SetProvider :: "string \<Rightarrow> CallMonitor \<Rightarrow> CallMonitor" where
  "SetProvider p c = (if p = '''' then c else c\<lparr>cm_provider := Some p\<rparr>)"

definition ProviderUnknown :: string where "ProviderUnknown = ''unknown''"

definition providerLabel :: "CallMonitor \<Rightarrow> string" where
  "providerLabel c = (case cm_provider c of Some p \<Rightarrow> p | None \<Rightarrow> ProviderUnknown)"

definition bump :: "('k \<Rightarrow> int) \<Rightarrow> 'k \<Rightarrow> int \<Rightarrow> 'k \<Rightarrow> int" where
  "bump f k d = f(k := f k + d)"

definition InviteReqRaw :: "Monitor \<Rightarrow> Monitor" where
  "InviteReqRaw m = m\<lparr>inviteReqRaw := inviteReqRaw m + 1\<rparr>"

definition InviteReq :: "CallMonitor \<Rightarrow> Monitor \<Rightarrow> Monitor" where
  "InviteReq c m = m\<lparr>inviteReq := bump (inviteReq m) (cm_dir c) 1\<rparr>"

definition InviteAccept :: "CallMonitor \<Rightarrow> Monitor \<Rightarrow> Monitor" where
  "InviteAccept c m = m\<lparr>inviteAccept :=
     bump (inviteAccept m) (cm_dir c, cm_toHost c, providerLabel c) 1\<rparr>"

definition InviteErrorShort :: "Termination \<Rightarrow> CallMonitor \<Rightarrow> Monitor \<Rightarrow> Monitor" where
  "InviteErrorShort t c m = m\<lparr>
     inviteErr := bump (inviteErr m) (cm_dir c, ''unknown'', providerLabel c, TReason t) 1,
     callsTerminated := bump (callsTerminated m)
       (cm_dir c, ''unknown'', providerLabel c, Result t, TReason t) 1\<rparr>"

definition InviteError :: "string \<Rightarrow> CallMonitor \<Rightarrow> Monitor \<Rightarrow> Monitor" where
  "InviteError r c m = m\<lparr>
     inviteErr := bump (inviteErr m) (cm_dir c, cm_toHost c, providerLabel c, r) 1\<rparr>"

definition CallStart :: "CallMonitor \<Rightarrow> Monitor \<Rightarrow> CallMonitor \<times> Monitor" where
  "CallStart c m = (if cm_started c then (c, m)
     else let p = providerLabel c in
       (c\<lparr>cm_started := True, cm_providerAtStart := Some p\<rparr>,
        m\<lparr>callsActive := bump (callsActive m) (cm_dir c, cm_toHost c, p) 1\<rparr>))"

text \<open>The dereference of a nil \<open>providerRecordedAtCallStart\<close> would panic: \<^const>\<open>None\<close>.\<close>

definition CallEnd :: "CallMonitor \<Rightarrow> Monitor \<Rightarrow> (CallMonitor \<times> Monitor) option" where
  "CallEnd c m = (if \<not> cm_started c then Some (c, m)
     else (case cm_providerAtStart c of
       None \<Rightarrow> None
     | Some p \<Rightarrow> Some (c\<lparr>cm_started := False\<rparr>,
         m\<lparr>callsActive := bump (callsActive m) (cm_dir c, cm_toHost c, p) (- 1)\<rparr>)))"

definition CallTerminate :: "Termination \<Rightarrow> CallMonitor \<Rightarrow> Monitor \<Rightarrow> CallMonitor \<times> Monitor" where
  "CallTerminate t c m = (if cm_terminated c then (c, m)
     else (c\<lparr>cm_terminated := True\<rparr>,
       m\<lparr>callsTerminated := bump (callsTerminated m)
          (cm_dir c, cm_toHost c, providerLabel c, Result t, TReason t) 1\<rparr>))"

definition CallTerminationFailure :: "CallMonitor \<Rightarrow> Monitor \<Rightarrow> Monitor" where
  "CallTerminationFailure c m = m\<lparr>terminationFailures := bump (terminationFailures m) (cm_dir c) 1\<rparr>"

section \<open>All calls of a node\<close>

text \<open>The node holds one monitor per call; an operation names the call it is
  made on.  Each operation is one atomic step.\<close>

datatype mon_op = MNew string string | MSetProvider nat string | MStart nat | MEnd nat
  | MTerminate nat Termination | MInviteErrorShort nat Termination

type_synonym mon_state = "CallMonitor list \<times> Monitor"

fun mon_step :: "mon_op \<Rightarrow> mon_state \<Rightarrow> mon_state option" where
  "mon_step (MNew d h) (cs, m) = Some (cs @ [NewCall d h], m)"
| "mon_step (MSetProvider i p) (cs, m) =
     (if i < length cs then Some (cs[i := SetProvider p (cs ! i)], m) else Some (cs, m))"
| "mon_step (MStart i) (cs, m) =
     (if i < length cs then (case CallStart (cs ! i) m of (c', m') \<Rightarrow> Some (cs[i := c'], m'))
      else Some (cs, m))"
| "mon_step (MEnd i) (cs, m) =
     (if i < length cs then map_option (\<lambda>(c', m'). (cs[i := c'], m')) (CallEnd (cs ! i) m)
      else Some (cs, m))"
| "mon_step (MTerminate i t) (cs, m) =
     (if i < length cs then (case CallTerminate t (cs ! i) m of (c', m') \<Rightarrow> Some (cs[i := c'], m'))
      else Some (cs, m))"
| "mon_step (MInviteErrorShort i t) (cs, m) =
     (if i < length cs then Some (cs, InviteErrorShort t (cs ! i) m) else Some (cs, m))"

definition empty_monitor :: Monitor where
  "empty_monitor = \<lparr>callsActive = (\<lambda>_. 0), callsTerminated = (\<lambda>_. 0), inviteErr = (\<lambda>_. 0),
     inviteReqRaw = 0, inviteReq = (\<lambda>_. 0), inviteAccept = (\<lambda>_. 0), terminationFailures = (\<lambda>_. 0)\<rparr>"

text \<open>How many running calls are accounted under a label triple.\<close>

definition active_under :: "active_key \<Rightarrow> CallMonitor \<Rightarrow> bool" where
  "active_under k c \<longleftrightarrow> cm_started c \<and>
     (case cm_providerAtStart c of None \<Rightarrow> False | Some p \<Rightarrow> k = (cm_dir c, cm_toHost c, p))"

definition count_active :: "active_key \<Rightarrow> CallMonitor list \<Rightarrow> int" where
  "count_active k cs = (\<Sum>c\<leftarrow>cs. if active_under k c then 1 else 0)"

definition mon_inv :: "mon_state \<Rightarrow> bool" where
  "mon_inv s \<longleftrightarrow> (\<forall>k. callsActive (snd s) k = count_active k (fst s)) \<and>
     (\<forall>c\<in>set (fst s). cm_started c \<longrightarrow> cm_providerAtStart c \<noteq> None)"

lemma count_active_update:
  "i < length cs \<Longrightarrow> count_active k (cs[i := c]) =
     count_active k cs - (if active_under k (cs ! i) then 1 else 0) + (if active_under k c then 1 else 0)"
proof (induction cs arbitrary: i)
  case (Cons x xs)
  then show ?case by (cases i) (auto simp: count_active_def)
qed simp

lemma mon_invI:
  assumes "mon_inv (cs, m)" "i < length cs"
    and "\<And>k. callsActive m' k = callsActive m k
           - (if active_under k (cs ! i) then 1 else 0) + (if active_under k c then 1 else 0)"
    and "cm_started c \<longrightarrow> cm_providerAtStart c \<noteq> None"
  shows "mon_inv (cs[i := c], m')"
  using assms by (auto simp: mon_inv_def count_active_update dest!: set_update_subset_insert [THEN subsetD])

lemma mon_step_inv:
  assumes "mon_inv s"
  shows "\<exists>s'. mon_step x s = Some s' \<and> mon_inv s'"
proof (cases x)
  case (MNew d h)
  then show ?thesis using assms
    by (cases s) (auto simp: mon_inv_def NewCall_def count_active_def active_under_def)
next
  case (MSetProvider i p)
  then show ?thesis using assms
    by (cases s) (auto intro!: mon_invI simp: SetProvider_def active_under_def split: option.splits,
      auto simp: mon_inv_def split: option.splits)
next
  case (MStart i)
  obtain cs m where s: "s = (cs, m)" by (cases s)
  show ?thesis
  proof (cases "i < length cs \<and> \<not> cm_started (cs ! i)")
    case True
    then show ?thesis using assms MStart s
      by (auto simp: CallStart_def Let_def intro!: mon_invI simp: bump_def active_under_def)
  next
    case False
    then show ?thesis using assms MStart s by (auto simp: CallStart_def list_update_id)
  qed
next
  case (MEnd i)
  obtain cs m where s: "s = (cs, m)" by (cases s)
  show ?thesis
  proof (cases "i < length cs \<and> cm_started (cs ! i)")
    case True
    then obtain p where p: "cm_providerAtStart (cs ! i) = Some p"
      using assms s by (auto simp: mon_inv_def)
    show ?thesis using True assms MEnd s p
      by (auto simp: CallEnd_def intro!: mon_invI simp: bump_def active_under_def)
  next
    case False
    then show ?thesis using assms MEnd s by (auto simp: CallEnd_def list_update_id)
  qed
next
  case (MTerminate i t)
  then show ?thesis using assms
    by (cases s) (auto intro!: mon_invI simp: CallTerminate_def active_under_def split: option.splits,
      auto simp: mon_inv_def)
next
  case (MInviteErrorShort i t)
  then show ?thesis using assms
    by (cases s) (auto simp: mon_inv_def InviteErrorShort_def)
qed

interpretation monitor: never_stuck mon_step mon_inv
proof
  fix s s' x
  show "mon_inv s \<Longrightarrow> mon_step x s = Some s' \<Longrightarrow> mon_inv s'" using mon_step_inv [of s x] by auto
  show "mon_inv s \<Longrightarrow> mon_step x s \<noteq> None" using mon_step_inv [of s x] by auto
qed

text \<open>The gauge of active calls is balanced: after any sequence of operations on the
  call monitors of a node, in any interleaving and with providers set or changed at any
  time, no operation has panicked and \<open>calls_active\<close> shows, for every label triple,
  exactly the number of calls that were started under it and have not ended.\<close>

theorem calls_active_balanced:
  "\<exists>cs m. run mon_step ops ([], empty_monitor) = Some (cs, m) \<and>
     (\<forall>k. callsActive m k = count_active k cs) \<and> (\<forall>k. 0 \<le> callsActive m k)"
proof -
  have "mon_inv ([], empty_monitor)" by (simp add: mon_inv_def empty_monitor_def count_active_def)
  from monitor.run_total [OF this] obtain cs m where
    "run mon_step ops ([], empty_monitor) = Some (cs, m)" "mon_inv (cs, m)" by (metis surj_pair)
  moreover have "0 \<le> count_active k cs" for k
    unfolding count_active_def by (intro sum_list_nonneg) auto
  ultimately show ?thesis by (auto simp: mon_inv_def)
qed

text \<open>A rejection recorded before a call exists is counted on its own: after
  \<open>InviteErrorShort\<close> a later \<open>CallTerminate\<close> on the same monitor still counts, because
  only \<open>CallTerminate\<close> itself is limited to once.\<close>

theorem InviteErrorShort_not_once:
  assumes "\<not> cm_terminated c" "cm_toHost c = ''unknown''"
  shows "callsTerminated (snd (CallTerminate t c (InviteErrorShort t c m)))
      (cm_dir c, ''unknown'', providerLabel c, Result t, TReason t) =
    callsTerminated m (cm_dir c, ''unknown'', providerLabel c, Result t, TReason t) + 2"
  using assms by (simp add: CallTerminate_def InviteErrorShort_def bump_def)

theorem InviteErrorShort_not_once_witness:
  "callsTerminated (snd (CallTerminate (ClientError ''flood'') (NewCall ''in'' ''unknown'')
      (InviteErrorShort (ClientError ''flood'') (NewCall ''in'' ''unknown'') empty_monitor)))
      (''in'', ''unknown'', ''unknown'', ResultClientError, ''flood'') = 2"
  using InviteErrorShort_not_once [of "NewCall ''in'' ''unknown''" "ClientError ''flood''" empty_monitor]
  by (simp add: NewCall_def providerLabel_def ProviderUnknown_def ClientError_def empty_monitor_def)

end
