(* ===== verification/GoErrors.thy ===== *)
theory GoErrors
  imports Prelude
begin

text \<open>
  Errors as values.  A Go error is a tree of wrappers around a cause; the
  bridge inspects it with \<open>errors.Is\<close> (is a sentinel in the chain?) and
  \<open>errors.As\<close> (the first element of the chain of a given type).  The
  constructors below are the error types the sources build or look for:
  sentinels, \<open>psrpc.NewError\<close>, \<open>fmt.Errorf\<close> with \<open>%w\<close>, \<open>livekit.SIPStatus\<close>, the
  three types of src/pkg/sip/errors.go and the error types of package net.
  Unwrapping follows the \<open>Unwrap\<close> methods.
\<close>

section \<open>psrpc error codes\<close>

datatype psrpc_code =
    PsOK | Canceled | Unknown | InvalidArgument | MalformedRequest | MalformedResponse
  | DeadlineExceeded | NotFound | NotAcceptable | AlreadyExists | PermissionDenied
  | ResourceExhausted | FailedPrecondition | Aborted | OutOfRange | Unimplemented
  | Internal | Unavailable | DataLoss | Unauthenticated | UpstreamServerError
  | UpstreamClientError | PsOther string

section \<open>Errors and their chains\<close>

datatype sentinel =
    ErrSIPRequestTimeout | ErrAuthMaxRetry | ErrAuthMissingCreds | ErrAuthNoHeader
  | errTransferCallEnded | errReferSubscriptionTerminated
  | CtxDeadlineExceeded | CtxCanceled
  | ErrNoCommonMedia | ErrNoCommonCrypto | ErrSentinel string

datatype go_error =
    ESentinel sentinel
  | ENew string
  | EPsrpc psrpc_code go_error
  | EWrap string go_error
  | ESIPStatus int string
  | ESDP go_error
  | ETxTimeout int
  | ECarrierBlocked int string string int
  | EAddrError string
  | EDNSError string
  | EOpError string go_error

primrec chain :: "go_error \<Rightarrow> go_error list" where
  "chain (ESentinel s) = [ESentinel s]"
| "chain (ENew m) = [ENew m]"
| "chain (EPsrpc c e) = EPsrpc c e # chain e"
| "chain (EWrap m e) = EWrap m e # chain e"
| "chain (ESIPStatus c m) = [ESIPStatus c m]"
| "chain (ESDP e) = ESDP e # chain e"
| "chain (ETxTimeout n) = [ETxTimeout n]"
| "chain (ECarrierBlocked c m p k) = [ECarrierBlocked c m p k, ESIPStatus c m]"
| "chain (EAddrError m) = [EAddrError m]"
| "chain (EDNSError m) = [EDNSError m]"
| "chain (EOpError m e) = EOpError m e # chain e"

fun first_some :: "('a \<Rightarrow> 'b option) \<Rightarrow> 'a list \<Rightarrow> 'b option" where
  "first_some f [] = None"
| "first_some f (x # xs) = (case f x of Some y \<Rightarrow> Some y | None \<Rightarrow> first_some f xs)"

definition errors_Is :: "go_error \<Rightarrow> sentinel \<Rightarrow> bool" where
  "errors_Is e s \<longleftrightarrow> ESentinel s \<in> set (chain e)"

fun as_psrpc1 :: "go_error \<Rightarrow> psrpc_code option" where
  "as_psrpc1 (EPsrpc c e) = Some c"
| "as_psrpc1 _ = None"

fun as_sip1 :: "go_error \<Rightarrow> (int \<times> string) option" where
  "as_sip1 (ESIPStatus c m) = Some (c, m)"
| "as_sip1 _ = None"

fun is_addr_error :: "go_error \<Rightarrow> bool" where
  "is_addr_error (EAddrError m) = True"
| "is_addr_error _ = False"

fun is_dns_error :: "go_error \<Rightarrow> bool" where
  "is_dns_error (EDNSError m) = True"
| "is_dns_error _ = False"

fun is_op_error :: "go_error \<Rightarrow> bool" where
  "is_op_error (EOpError m e) = True"
| "is_op_error _ = False"

definition as_psrpc :: "go_error \<Rightarrow> psrpc_code option" where
  "as_psrpc e = first_some as_psrpc1 (chain e)"

definition as_SIPStatus :: "go_error \<Rightarrow> (int \<times> string) option" where
  "as_SIPStatus e = first_some as_sip1 (chain e)"

section \<open>Lemmas\<close>

lemma chain_nonempty [simp]: "chain e \<noteq> []"
  by (cases e) auto

lemma chain_hd [simp]: "hd (chain e) = e"
  by (cases e) auto

lemma chain_self [simp]: "e \<in> set (chain e)"
  by (cases e) auto

lemma first_some_None: "first_some f xs = None \<longleftrightarrow> (\<forall>x\<in>set xs. f x = None)"
  by (induction xs) (auto split: option.splits)

lemma first_some_Some: "first_some f xs = Some y \<Longrightarrow> \<exists>x\<in>set xs. f x = Some y"
  by (induction xs) (auto split: option.splits)

lemma as_psrpc_EPsrpc [simp]: "as_psrpc (EPsrpc c e) = Some c"
  by (simp add: as_psrpc_def)

lemma as_psrpc_EWrap [simp]: "as_psrpc (EWrap m e) = as_psrpc e"
  by (simp add: as_psrpc_def)

lemma as_SIPStatus_wrap [simp]:
  "as_SIPStatus (EPsrpc c e) = as_SIPStatus e" "as_SIPStatus (EWrap m e) = as_SIPStatus e"
  "as_SIPStatus (ESDP e) = as_SIPStatus e" "as_SIPStatus (EOpError m e) = as_SIPStatus e"
  by (simp_all add: as_SIPStatus_def)

lemma as_SIPStatus_leaf [simp]:
  "as_SIPStatus (ESIPStatus c m) = Some (c, m)" "as_SIPStatus (ESentinel s) = None"
  "as_SIPStatus (ENew m) = None" "as_SIPStatus (ETxTimeout n) = None"
  by (simp_all add: as_SIPStatus_def)

lemma errors_Is_wrap [simp]:
  "errors_Is (EPsrpc c e) s = errors_Is e s" "errors_Is (EWrap m e) s = errors_Is e s"
  "errors_Is (ESDP e) s = errors_Is e s" "errors_Is (EOpError m e) s = errors_Is e s"
  by (simp_all add: errors_Is_def)

lemma errors_Is_leaf [simp]:
  "errors_Is (ESentinel s) t = (s = t)" "errors_Is (ENew m) t = False"
  "errors_Is (ESIPStatus c m) t = False" "errors_Is (ETxTimeout n) t = False"
  by (auto simp: errors_Is_def)

end
