(* ===== verification/SipTypes.thy ===== *)
theory SipTypes
  imports Complex_Main Prelude Stats GoErrors
begin

text \<open>
  src/pkg/sip/types.go and src/pkg/sip/participant.go: transports, the bridge's
  own URI type, header lookup, the mapping of SIP headers to participant
  attributes and back, and the tables of call status and disconnect reasons.
  The message types of the SIP stack (sipgo) appear as plain records with the
  fields the sources read; its header-name folding \<open>sip.HeaderToLower\<close> and the
  header validation of livekit/protocol are function arguments.
\<close>

section \<open>Transports\<close>

datatype SIPTransport = SIP_TRANSPORT_AUTO | SIP_TRANSPORT_UDP | SIP_TRANSPORT_TCP | SIP_TRANSPORT_TLS

type_synonym Transport = string

definition TransportUDP :: Transport where "TransportUDP = ''udp''"
definition TransportTCP :: Transport where "TransportTCP = ''tcp''"
definition TransportTLS :: Transport where "TransportTLS = ''tls''"

lemmas transport_defs = TransportUDP_def TransportTCP_def TransportTLS_def

fun TransportFrom :: "SIPTransport \<Rightarrow> Transport" where
  "TransportFrom SIP_TRANSPORT_UDP = TransportUDP"
| "TransportFrom SIP_TRANSPORT_TCP = TransportTCP"
| "TransportFrom SIP_TRANSPORT_TLS = TransportTLS"
| "TransportFrom SIP_TRANSPORT_AUTO = ''''"

definition SIPTransportFrom :: "Transport \<Rightarrow> SIPTransport" where
  "SIPTransportFrom t = (if t = TransportUDP then SIP_TRANSPORT_UDP
     else if t = TransportTCP then SIP_TRANSPORT_TCP
     else if t = TransportTLS then SIP_TRANSPORT_TLS
     else SIP_TRANSPORT_AUTO)"

section \<open>Messages of the SIP stack\<close>

type_synonym params = "(string \<times> string) list"

record sip_uri =
  User :: string
  Host :: string
  Port :: int
  UriParams :: params

record addr_header =
  Address :: sip_uri
  AParams :: params

text \<open>The part of a SIP request the sources read: \<open>ReqHeader\<close> is
  \<open>req.GetHeader(name)\<close>.\<close>

record sip_request =
  Method :: string
  Recipient :: sip_uri
  ReqTo :: "addr_header option"
  ReqVia :: "string option"
  ReqHeader :: "string \<Rightarrow> string option"
  ReqBody :: string

definition get_param :: "params \<Rightarrow> string \<Rightarrow> string" where
  "get_param ps k = (case map_of ps k of Some v \<Rightarrow> v | None \<Rightarrow> '''')"

section \<open>The URI type\<close>

text \<open>A \<open>netip.Addr\<close> is its textual form, the zero (invalid) address being
  \<^const>\<open>None\<close>; the port of a \<open>netip.AddrPort\<close> is a 16-bit number.\<close>

record URI =
  uUser :: string
  uHost :: string
  uAddr :: "string option"
  uPort :: int
  uTransport :: Transport

definition addr_String :: "string option \<Rightarrow> string" where
  "addr_String a = (case a of Some s \<Rightarrow> s | None \<Rightarrow> ''invalid IP'')"

text \<open>\<open>net.SplitHostPort\<close>; \<^const>\<open>None\<close> is its \<open>*net.AddrError\<close>.  Splitting at the
  last colon is splitting the reversed string at its first one.\<close>

definition SplitHostPort :: "string \<Rightarrow> (string \<times> string) option" where
  "SplitHostPort hp = (case Cut (rev hp) CHR '':'' of (rp, rh, found) \<Rightarrow>
     if \<not> found then None
     else if hd hp = CHR ''['' then
       (case Cut hp CHR '']'' of (b, a, fnd) \<Rightarrow>
          if \<not> fnd \<or> rev rh \<noteq> b @ '']'' then None
          else if CHR ''['' \<in> set (tl hp) \<or> CHR '']'' \<in> set a then None
          else Some (tl b, rev rp))
     else if CHR '':'' \<in> set rh \<or> CHR ''['' \<in> set hp \<or> CHR '']'' \<in> set hp then None
     else Some (rev rh, rev rp))"

definition Normalize :: "URI \<Rightarrow> URI" where
  "Normalize u = (case SplitHostPort (uHost u) of
     None \<Rightarrow> u
   | Some (addr, sport) \<Rightarrow>
       (case Atoi sport of
          (port, None) \<Rightarrow> u\<lparr>uHost := addr, uPort := to_uint16 port\<rparr>
        | (_, Some _) \<Rightarrow> u))"

text \<open>\<open>transportFromURI\<close> of protocol.go.\<close>

definition transportFromURI :: "sip_uri \<Rightarrow> Transport" where
  "transportFromURI u = (let tr = get_param (UriParams u) ''transport'' in
     if tr \<noteq> '''' then ToLower tr else '''')"

definition ConvertURI :: "sip_uri \<Rightarrow> URI" where
  "ConvertURI u = (let
     uri = \<lparr>uUser = User u, uHost = Host u, uAddr = None, uPort = to_uint16 (Port u),
            uTransport = TransportUDP\<rparr>;
     tr = transportFromURI u;
     uri = (if tr \<noteq> '''' then uri\<lparr>uTransport := tr\<rparr> else uri)
   in Normalize uri)"

definition CreateURIFromUserAndAddress :: "string \<Rightarrow> string \<Rightarrow> Transport \<Rightarrow> URI" where
  "CreateURIFromUserAndAddress user address transport =
     Normalize \<lparr>uUser = user, uHost = address, uAddr = None, uPort = 0, uTransport = transport\<rparr>"

definition GetHost :: "URI \<Rightarrow> string" where
  "GetHost u = (if uHost u = '''' then addr_String (uAddr u) else uHost u)"

definition GetPort :: "URI \<Rightarrow> int" where
  "GetPort u = (if uPort u = 0 then (if uTransport u = TransportTLS then 5061 else 5060) else uPort u)"

definition GetPortOrNone :: "URI \<Rightarrow> int" where
  "GetPortOrNone u = (let port = GetPort u in if port = 5060 then 0 else port)"

definition GetHostPort :: "URI \<Rightarrow> string" where
  "GetHostPort u = GetHost u @ '':'' @ Itoa (GetPort u)"

definition GetDest :: "URI \<Rightarrow> string" where
  "GetDest u = (case uAddr u of Some a \<Rightarrow> a | None \<Rightarrow> uHost u) @ '':'' @ Itoa (GetPort u)"

definition GetURI :: "URI \<Rightarrow> sip_uri" where
  "GetURI u = \<lparr>User = uUser u, Host = GetHost u, Port = (if uPort u \<noteq> 0 then uPort u else 0),
     UriParams = (if uTransport u \<noteq> '''' then [(''transport'', uTransport u)] else [])\<rparr>"

definition GetContactURI :: "URI \<Rightarrow> sip_uri" where
  "GetContactURI u = (let su = GetURI u in
     if uTransport u = TransportUDP \<or> uTransport u = TransportTCP then
       (case uAddr u of Some a \<Rightarrow> su\<lparr>Host := a\<rparr> | None \<Rightarrow> su)
     else su)"

record SIPUri =
  sUser :: string
  sHost :: string
  sIp :: string
  sPort :: int
  sTransport :: SIPTransport

definition URI_ToSIPUri :: "URI \<Rightarrow> SIPUri" where
  "URI_ToSIPUri u = \<lparr>sUser = uUser u, sHost = GetHost u,
     sIp = (case uAddr u of Some a \<Rightarrow> a | None \<Rightarrow> ''''),
     sPort = to_uint32 (GetPort u), sTransport = SIPTransportFrom (uTransport u)\<rparr>"

section \<open>Tags\<close>

definition getTagFrom :: "params \<Rightarrow> string \<times> bool" where
  "getTagFrom ps = (case map_of ps ''tag'' of None \<Rightarrow> ('''', False) | Some t \<Rightarrow> (t, True))"

definition GetLocalTagUAS :: "sip_request \<Rightarrow> (go_error, string) result" where
  "GetLocalTagUAS r = (case ReqTo r of
     None \<Rightarrow> Err (ENew ''no To on Request'')
   | Some to \<Rightarrow> (case getTagFrom (AParams to) of
       (tag, ok) \<Rightarrow> if \<not> ok then Err (ENew ''no tag in To on Request'') else Ok tag))"

section \<open>Headers and attributes\<close>

text \<open>Header lists as the SIP stack builds them, without nil entries; \<open>hl\<close> is
  \<open>sip.HeaderToLower\<close>.\<close>

type_synonym Headers = "(string \<times> string) list"

fun GetHeader :: "(string \<Rightarrow> string) \<Rightarrow> Headers \<Rightarrow> string \<Rightarrow> string option" where
  "GetHeader hl [] name = None"
| "GetHeader hl (kv # h) name = (if hl (fst kv) = hl name then Some (snd kv) else GetHeader hl h name)"

datatype SIPHeaderOptions = SIP_NO_HEADERS | SIP_X_HEADERS | SIP_ALL_HEADERS

record signaling_info =
  sg_RemoteHeaders :: Headers
  sg_Tag :: string
  sg_SIPCallID :: string

definition headerToLog :: "(string \<times> string) list" where
  "headerToLog = [(''X-Twilio-AccountSid'', ''twilioAccSID''),
     (''X-Twilio-CallSid'', ''twilioCallSID''),
     (''X-call_leg_id'', ''telnyxCallLegID''),
     (''X-call_session_id'', ''telnyxCallSessionID'')]"

text \<open>\<open>pre\<close> is \<open>livekit.AttrSIPPrefix\<close>.\<close>

definition headerToAttr :: "string \<Rightarrow> (string \<times> string) list" where
  "headerToAttr pre = [
     (''X-Twilio-AccountSid'', pre @ ''twilio.accountSid''),
     (''X-Twilio-CallSid'', pre @ ''twilio.callSid''),
     (''X-Twilio-CallToken'', pre @ ''twilio.callToken''),
     (''X-call_leg_id'', pre @ ''telnyx.callLegID''),
     (''X-call_session_id'', pre @ ''telnyx.callSessionID''),
     (''X-Amzn-ConnectContactId'', pre @ ''amazon.contactId''),
     (''X-Amzn-ConnectInitialContactId'', pre @ ''amazon.initialContactId''),
     (''X-Amzn-SourceAccount'', pre @ ''amazon.sourceAccount''),
     (''X-Amzn-SourceArn'', pre @ ''amazon.sourceArn''),
     (''X-Amzn-TargetArn'', pre @ ''amazon.targetArn''),
     (''X-Lk-Test-Id'', ''lktest.id'')]"

definition map_all_headers ::
  "string \<Rightarrow> SIPHeaderOptions \<Rightarrow> Headers \<Rightarrow> (string \<rightharpoonup> string) \<Rightarrow> (string \<rightharpoonup> string)" where
  "map_all_headers hpre opts headers attrs =
     (if opts = SIP_NO_HEADERS then attrs
      else fold (\<lambda>h a. let name = ToLower (fst h) in
             if name = '''' then a
             else if opts = SIP_X_HEADERS \<and> \<not> HasPrefix name ''x-'' then a
             else a(hpre @ name \<mapsto> snd h)) headers attrs)"

text \<open>One mapping table, in the order the range loop happens to visit it.\<close>

definition map_headers ::
  "(string \<Rightarrow> string) \<Rightarrow> Headers \<Rightarrow> (string \<times> string) list \<Rightarrow> (string \<rightharpoonup> string) \<Rightarrow> (string \<rightharpoonup> string)" where
  "map_headers hl headers tbl attrs =
     fold (\<lambda>(hdr, name) a. case GetHeader hl headers hdr of
             Some v \<Rightarrow> a(name \<mapsto> v) | None \<Rightarrow> a) tbl attrs"

text \<open>\<open>pre\<close> and \<open>hpre\<close> are \<open>livekit.AttrSIPPrefix\<close> and \<open>livekit.AttrSIPHeaderPrefix\<close>;
  \<open>gtbl\<close> is an iteration order of \<^const>\<open>headerToAttr\<close>, \<open>rtbl\<close> one of \<open>hdrToAttr\<close>.\<close>

definition HeadersToAttrs ::
  "string \<Rightarrow> string \<Rightarrow> (string \<Rightarrow> string) \<Rightarrow> (string \<times> string) list \<Rightarrow> (string \<rightharpoonup> string) \<Rightarrow>
   (string \<times> string) list \<Rightarrow> SIPHeaderOptions \<Rightarrow> signaling_info option \<Rightarrow> Headers \<Rightarrow> (string \<rightharpoonup> string)" where
  "HeadersToAttrs pre hpre hl gtbl attrs rtbl opts c headers0 = (let
     headers = (case c of Some s \<Rightarrow> sg_RemoteHeaders s | None \<Rightarrow> headers0);
     a1 = map_all_headers hpre opts headers attrs;
     a2 = map_headers hl headers gtbl a1;
     a3 = map_headers hl headers rtbl a2
   in case c of
        None \<Rightarrow> a3
      | Some s \<Rightarrow> (let
          a4 = (if sg_Tag s \<noteq> '''' then a3(pre @ ''callTag'' \<mapsto> sg_Tag s) else a3)
        in if sg_SIPCallID s \<noteq> '''' then a4(pre @ ''callIDFull'' \<mapsto> sg_SIPCallID s) else a4))"

text \<open>\<open>valid\<close> is \<open>livekit.ValidateHeaderValue(hdr, val) == nil\<close>.\<close>

definition AttrsToHeaders ::
  "(string \<Rightarrow> string \<Rightarrow> bool) \<Rightarrow> (string \<rightharpoonup> string) \<Rightarrow> (string \<times> string) list \<Rightarrow>
   (string \<rightharpoonup> string) \<Rightarrow> (string \<rightharpoonup> string)" where
  "AttrsToHeaders valid attrs attrToHdr headers =
     (if attrToHdr = [] then headers
      else fold (\<lambda>(attr, hdr) h. case attrs attr of
             None \<Rightarrow> h
           | Some val \<Rightarrow> if \<not> valid hdr val then h else h(hdr \<mapsto> val)) attrToHdr headers)"

section \<open>Media encryption and random selection\<close>

datatype SIPMediaEncryption = SIP_MEDIA_ENCRYPT_DISABLE | SIP_MEDIA_ENCRYPT_ALLOW
  | SIP_MEDIA_ENCRYPT_REQUIRE | SIP_MEDIA_ENCRYPT_OTHER int

datatype Encryption = EncryptionNone | EncryptionAllow | EncryptionRequire

fun sdpEncryption :: "SIPMediaEncryption \<Rightarrow> Encryption \<times> go_error option" where
  "sdpEncryption SIP_MEDIA_ENCRYPT_DISABLE = (EncryptionNone, None)"
| "sdpEncryption SIP_MEDIA_ENCRYPT_ALLOW = (EncryptionAllow, None)"
| "sdpEncryption SIP_MEDIA_ENCRYPT_REQUIRE = (EncryptionRequire, None)"
| "sdpEncryption (SIP_MEDIA_ENCRYPT_OTHER n) =
     (EncryptionAllow, Some (ENew ''invalid SIP media encryption type''))"

text \<open>\<open>r\<close> is the value drawn by \<open>rand.Float64()\<close>, in the half-open unit interval.\<close>

definition SelectValue :: "rat \<Rightarrow> 'a \<Rightarrow> 'a \<Rightarrow> rat \<Rightarrow> 'a" where
  "SelectValue r thn els probElse =
     (if probElse \<le> 0 then thn else if r < probElse then thn else els)"

definition SelectValueBool :: "rat \<Rightarrow> bool \<Rightarrow> rat \<Rightarrow> bool" where
  "SelectValueBool r thn probElse = SelectValue r thn (\<not> thn) probElse"

section \<open>participant.go\<close>

datatype DisconnectReason =
    UNKNOWN_REASON | CLIENT_INITIATED | DUPLICATE_IDENTITY | SERVER_SHUTDOWN | PARTICIPANT_REMOVED
  | ROOM_DELETED | STATE_MISMATCH | JOIN_FAILURE | MIGRATION | SIGNAL_CLOSE | ROOM_CLOSED
  | USER_UNAVAILABLE | USER_REJECTED | SIP_TRUNK_FAILURE | CONNECTION_TIMEOUT | MEDIA_FAILURE
  | AGENT_ERROR | DR_OTHER int

definition terminationFromRoomDisconnect :: "DisconnectReason \<Rightarrow> Termination" where
  "terminationFromRoomDisconnect reason = (case reason of
      CLIENT_INITIATED \<Rightarrow> Success ''removed'' | ROOM_CLOSED \<Rightarrow> Success ''removed''
    | ROOM_DELETED \<Rightarrow> Success ''removed'' | PARTICIPANT_REMOVED \<Rightarrow> Success ''removed''
    | JOIN_FAILURE \<Rightarrow> ServerError ''room-failed'' | SIGNAL_CLOSE \<Rightarrow> ServerError ''room-failed''
    | STATE_MISMATCH \<Rightarrow> ServerError ''room-failed''
    | SERVER_SHUTDOWN \<Rightarrow> ServerError ''server-shutdown''
    | CONNECTION_TIMEOUT \<Rightarrow> ServerError ''connection-timeout''
    | MIGRATION \<Rightarrow> ServerError ''migration''
    | SIP_TRUNK_FAILURE \<Rightarrow> ServerError ''sip-trunk-failure''
    | MEDIA_FAILURE \<Rightarrow> ServerError ''media-failure''
    | AGENT_ERROR \<Rightarrow> ServerError ''agent-error''
    | DUPLICATE_IDENTITY \<Rightarrow> ClientError ''duplicate-identity''
    | USER_UNAVAILABLE \<Rightarrow> ClientError ''user-unavailable''
    | USER_REJECTED \<Rightarrow> ClientError ''user-rejected''
    | _ \<Rightarrow> ServerError ''room-disconnected'')"

definition disconnectReasonFromRoomClose :: "DisconnectReason \<Rightarrow> DisconnectReason" where
  "disconnectReasonFromRoomClose reason =
     (if reason = UNKNOWN_REASON then CLIENT_INITIATED else reason)"

datatype CallStatus = callDropped | callFlood | CallDialing | CallRinging | CallAutomation
  | CallActive | CallHangup | CallCancelled | callUnavailable | callRejected | callMediaFailed
  | callAcceptFailed | callNoACK | callHangupMedia

definition Attribute :: "CallStatus \<Rightarrow> string" where
  "Attribute v = (case v of
      CallDialing \<Rightarrow> ''dialing'' | CallRinging \<Rightarrow> ''ringing'' | CallAutomation \<Rightarrow> ''automation''
    | CallActive \<Rightarrow> ''active'' | CallHangup \<Rightarrow> ''hangup'' | callHangupMedia \<Rightarrow> ''hangup''
    | CallCancelled \<Rightarrow> ''hangup'' | _ \<Rightarrow> '''')"

section \<open>Properties of the URI type\<close>

lemma SIPTransportFrom_inverse: "SIPTransportFrom (TransportFrom t) = t"
  by (cases t) (auto simp: SIPTransportFrom_def transport_defs)

lemma SplitHostPort_plain:
  assumes "CHR '':'' \<notin> set h" "CHR ''['' \<notin> set h" "CHR '']'' \<notin> set h"
    and "CHR '':'' \<notin> set p" "CHR ''['' \<notin> set p" "CHR '']'' \<notin> set p"
  shows "SplitHostPort (h @ '':'' @ p) = Some (h, p)"
proof -
  have "Cut (rev (h @ '':'' @ p)) CHR '':'' = (rev p, rev h, True)"
    using assms(4) by (simp add: Cut_append)
  moreover have "hd (h @ '':'' @ p) \<noteq> CHR ''[''" using assms(2) by (cases h) auto
  ultimately show ?thesis using assms by (simp add: SplitHostPort_def)
qed

definition uri_wf :: "URI \<Rightarrow> bool" where
  "uri_wf u \<longleftrightarrow> 0 \<le> uPort u \<and> uPort u < 2 ^ 16"

lemma Normalize_wf: "uri_wf u \<Longrightarrow> uri_wf (Normalize u)"
  using to_uint16_range by (auto simp: Normalize_def uri_wf_def split: option.splits prod.splits)

lemma ConvertURI_wf: "uri_wf (ConvertURI u)"
  unfolding ConvertURI_def Let_def
  by (rule Normalize_wf) (use to_uint16_range in \<open>auto simp: uri_wf_def\<close>)

lemma GetPort_range: "uri_wf u \<Longrightarrow> 1 \<le> GetPort u \<and> GetPort u < 2 ^ 16"
  by (auto simp: GetPort_def uri_wf_def)

lemma Normalize_host_port:
  assumes "CHR '':'' \<notin> set h" "CHR ''['' \<notin> set h" "CHR '']'' \<notin> set h" "0 \<le> p" "p < 2 ^ 16"
  shows "Normalize (u\<lparr>uHost := h @ '':'' @ Itoa p\<rparr>) = u\<lparr>uHost := h, uPort := p\<rparr>"
proof -
  have "SplitHostPort (h @ '':'' @ Itoa p) = Some (h, Itoa p)"
    using assms by (intro SplitHostPort_plain) (auto simp: Itoa_not_in)
  moreover have "Atoi (Itoa p) = (p, None)" using assms by (intro Atoi_Itoa) auto
  ultimately show ?thesis using assms by (simp add: Normalize_def to_uint16_id)
qed

text \<open>Printing the host and port of a URI and parsing the result again gives the
  same host and port: \<open>CreateURIFromUserAndAddress(user, u.GetHostPort(), t)\<close> recovers
  \<open>u.GetHost()\<close> and \<open>u.GetPort()\<close>, also when the port of \<open>u\<close> is the default of its
  transport, for every host that is not an IPv6 literal.\<close>

theorem uri_host_port_roundtrip:
  assumes "uri_wf u"
    and "\<forall>c\<in>set (GetHost u). c \<noteq> CHR '':'' \<and> c \<noteq> CHR ''['' \<and> c \<noteq> CHR '']''"
  shows "CreateURIFromUserAndAddress user (GetHostPort u) t =
    \<lparr>uUser = user, uHost = GetHost u, uAddr = None, uPort = GetPort u, uTransport = t\<rparr>"
  using Normalize_host_port [of "GetHost u" "GetPort u"
      "\<lparr>uUser = user, uHost = GetHost u, uAddr = None, uPort = 0, uTransport = t\<rparr>"]
    GetPort_range [OF assms(1)] assms(2)
  by (auto simp: CreateURIFromUserAndAddress_def GetHostPort_def)

theorem uri_host_port_roundtrip_witness:
  "CreateURIFromUserAndAddress ''bob'' (GetHostPort
      \<lparr>uUser = ''a'', uHost = ''sip.example.com'', uAddr = None, uPort = 0, uTransport = TransportTLS\<rparr>) TransportTLS =
    \<lparr>uUser = ''bob'', uHost = ''sip.example.com'', uAddr = None, uPort = 5061, uTransport = TransportTLS\<rparr>"
  using uri_host_port_roundtrip [of
      "\<lparr>uUser = ''a'', uHost = ''sip.example.com'', uAddr = None, uPort = 0, uTransport = TransportTLS\<rparr>" "''bob''" TransportTLS]
  by (simp add: uri_wf_def GetHost_def GetPort_def)

section \<open>Properties of the attribute mapping\<close>

lemma map_headers_Cons:
  "map_headers hl hs ((h, n) # tbl) a =
     map_headers hl hs tbl (case GetHeader hl hs h of Some v \<Rightarrow> a(n \<mapsto> v) | None \<Rightarrow> a)"
  by (simp add: map_headers_def)

lemma map_headers_Nil [simp]: "map_headers hl hs [] a = a"
  by (simp add: map_headers_def)

lemma map_headers_other: "n \<notin> snd ` set tbl \<Longrightarrow> map_headers hl hs tbl a n = a n"
proof (induction tbl arbitrary: a)
  case (Cons x tbl)
  then show ?case by (cases x) (auto simp: map_headers_Cons split: option.splits)
qed simp

lemma map_headers_in:
  "distinct (map snd tbl) \<Longrightarrow> (h, n) \<in> set tbl \<Longrightarrow>
     map_headers hl hs tbl a n = (case GetHeader hl hs h of Some v \<Rightarrow> Some v | None \<Rightarrow> a n)"
proof (induction tbl arbitrary: a)
  case (Cons x tbl)
  obtain h' n' where x: "x = (h', n')" by (cases x)
  show ?case
  proof (cases "(h, n) = x")
    case True
    then have "n \<notin> snd ` set tbl" using Cons.prems(1) by (metis distinct.simps(2) list.set_map list.simps(9) snd_conv)
    then show ?thesis using True
      by (auto simp: map_headers_Cons map_headers_other split: option.splits)
  next
    case False
    then have "(h, n) \<in> set tbl" using Cons.prems(2) by auto
    moreover from this have "n' \<noteq> n" using Cons.prems(1) x by force
    ultimately show ?thesis using Cons x
      by (auto simp: map_headers_Cons split: option.splits)
  qed
qed simp

lemma map_headers_order:
  assumes "distinct (map snd t1)" "distinct (map snd t2)" "set t1 = set t2"
  shows "map_headers hl hs t1 a = map_headers hl hs t2 a"
proof
  fix n
  show "map_headers hl hs t1 a n = map_headers hl hs t2 a n"
  proof (cases "n \<in> snd ` set t1")
    case True
    then obtain h where "(h, n) \<in> set t1" by auto
    then show ?thesis using assms by (simp add: map_headers_in)
  next
    case False
    then show ?thesis using assms(3) by (simp add: map_headers_other)
  qed
qed

lemma headerToAttr_distinct: "distinct (map snd (headerToAttr pre))" if "pre = ''sip.''"
  using that by (simp add: headerToAttr_def)

text \<open>The attributes of a participant do not depend on the order in which Go's
  map iteration visits the two header tables, provided no two entries of a table
  write the same attribute.\<close>

theorem HeadersToAttrs_order_independent:
  assumes "distinct (map snd g1)" "distinct (map snd g2)" "set g1 = set g2"
    and "distinct (map snd r1)" "distinct (map snd r2)" "set r1 = set r2"
  shows "HeadersToAttrs pre hpre hl g1 attrs r1 opts c hs = HeadersToAttrs pre hpre hl g2 attrs r2 opts c hs"
  by (simp add: HeadersToAttrs_def map_headers_order [OF assms(1-3)] map_headers_order [OF assms(4-6)])

theorem HeadersToAttrs_order_independent_witness:
  "HeadersToAttrs ''sip.'' ''sip.h.'' ToLower (headerToAttr ''sip.'') Map.empty
     [(''X-A'', ''a''), (''X-B'', ''b'')] SIP_X_HEADERS None [(''x-a'', ''1''), (''X-b'', ''2'')]
   = HeadersToAttrs ''sip.'' ''sip.h.'' ToLower (rev (headerToAttr ''sip.'')) Map.empty
     [(''X-B'', ''b''), (''X-A'', ''a'')] SIP_X_HEADERS None [(''x-a'', ''1''), (''X-b'', ''2'')]"
  by (rule HeadersToAttrs_order_independent) (auto simp: headerToAttr_def)

end
