(* ===== verification/Protocol.thy ===== *)
theory Protocol
  imports SipTypes
begin

text \<open>
  src/pkg/sip/protocol.go: SIP status names, the transport of a request, the
  parsing of NOTIFY bodies, of the Event, Subscription-State and Reason
  headers, the mapping between psrpc errors and SIP statuses and the outcome
  of a REFER.  \<open>sipResponse\<close> (outbound.go), the loop every client transaction
  waits in, is here because \<open>sendBye\<close> and \<open>sendRefer\<close> use it.
\<close>

section \<open>Status names\<close>

definition statusNames :: "(int \<times> string) list" where
  "statusNames = [
     (100, ''Trying''), (180, ''Ringing''),
     (181, ''Call Is Being Forwarded''), (182, ''Queued''),
     (183, ''Session Progress''), (199, ''Early Dialog Terminated''),
     (200, ''OK''), (202, ''Accepted''),
     (204, ''No Notification''), (300, ''Multiple Choices''),
     (301, ''Moved Permanently''), (302, ''Moved Temporarily''),
     (305, ''Use Proxy''), (380, ''Alternative Service''),
     (400, ''Bad Request''), (401, ''Unauthorized''),
     (402, ''Payment Required''), (403, ''Forbidden''),
     (404, ''Not Found''), (405, ''Method Not Allowed''),
     (406, ''Not Acceptable''), (407, ''Proxy Authentication Required''),
     (408, ''Request Timeout''), (409, ''Conflict''),
     (410, ''Gone''), (411, ''Length Required''),
     (412, ''Conditional Request Failed''), (413, ''Request Entity Too Large''),
     (414, ''Request URI Too Long''), (415, ''Unsupported Media Type''),
     (416, ''Unsupported URI Scheme''), (417, ''Unknown Resource-Priority''),
     (420, ''Bad Extension''), (421, ''Extension Required''),
     (422, ''Session Interval Too Small''), (423, ''Interval Too Brief''),
     (424, ''Bad Location Information''), (425, ''Bad Alert Message''),
     (428, ''Use Identity Header''), (429, ''Provide Referrer Identity''),
     (430, ''Flow Failed''), (433, ''Anonymity Disallowed''),
     (436, ''Bad Identity Info''), (437, ''Unsupported Credential''),
     (438, ''Invalid Identity Header''), (439, ''First Hop Lacks Outbound Support''),
     (440, ''Max-Breadth Exceeded''), (469, ''Bad Info Package''),
     (470, ''Consent Needed''), (480, ''Temporarily Unavailable''),
     (481, ''Call Does Not Exist''), (482, ''Loop Detected''),
     (483, ''Too Many Hops''), (484, ''Address Incomplete''),
     (485, ''Ambiguous''), (486, ''Busy Here''),
     (487, ''Request Terminated''), (488, ''Not Acceptable Here''),
     (489, ''Bad Event''), (491, ''Request Pending''),
     (493, ''Undecipherable''), (494, ''Security Agreement Required''),
     (500, ''Internal Server Error''), (501, ''Not Implemented''),
     (502, ''Bad Gateway''), (503, ''Service Unavailable''),
     (504, ''Gateway Timeout''), (505, ''Version Not Supported''),
     (513, ''Message Too Large''), (555, ''Push Notification Service Not Supported''),
     (580, ''Precondition Failure''), (600, ''Busy Everywhere''),
     (603, ''Decline''), (604, ''Does Not Exist Anywhere''),
     (606, ''Not Acceptable Anywhere''), (607, ''Unwanted''),
     (608, ''Rejected'')]"

definition statusNamesMap :: "int \<Rightarrow> string" where
  "statusNamesMap c = (case map_of statusNames c of Some n \<Rightarrow> n | None \<Rightarrow> '''')"

definition sipStatus :: "int \<Rightarrow> string" where
  "sipStatus code = (let name = statusNamesMap code in
     if name \<noteq> '''' then name else ''Status '' @ Itoa code)"

definition sipStatusOr :: "int \<Rightarrow> string \<Rightarrow> string" where
  "sipStatusOr code defaultStatus = (let name = statusNamesMap code in
     if name \<noteq> '''' then name else defaultStatus)"

definition statusName :: "int \<Rightarrow> string" where
  "statusName status = (let name = statusNamesMap status in
     if name \<noteq> '''' then Itoa status @ ''-'' @ filter (\<lambda>c. c \<noteq> CHR '' '') name
     else ''status-'' @ Itoa status)"

record sip_response =
  StatusCode :: int
  RespReason :: string
  RespHeader :: "string \<Rightarrow> string option"
  RespBody :: string

text \<open>\<open>newResponse\<close> and \<open>Result.NewResponse\<close>: what is put into the status line.\<close>

definition newResponse :: "int \<Rightarrow> string \<Rightarrow> string \<Rightarrow> int \<times> string \<times> string" where
  "newResponse code reason body = (code, if reason = '''' then sipStatus code else reason, body)"

record ResultSt =
  RCode :: int
  RStatus :: string

definition NewResponse :: "ResultSt \<Rightarrow> int \<times> string \<times> string" where
  "NewResponse r = newResponse (if RCode r = 0 then 503 else RCode r) (RStatus r) ''''"

record EndCall =
  Report :: "go_error option"
  Status :: CallStatus
  Term :: Termination
  Reason :: DisconnectReason
  EHeaders :: "(string \<times> string) list"
  Code :: int

section \<open>Transport of a request\<close>

definition callTransportFromReq :: "sip_request \<Rightarrow> Transport" where
  "callTransportFromReq req = (let
     fromTo = (case ReqTo req of
         None \<Rightarrow> ''''
       | Some to \<Rightarrow> (if transportFromURI (Address to) \<noteq> '''' then transportFromURI (Address to)
           else let tr = get_param (AParams to) ''transport'' in
             if tr \<noteq> '''' then ToLower tr else ''''))
   in if fromTo \<noteq> '''' then fromTo
      else (case ReqVia req of Some t \<Rightarrow> ToLower t | None \<Rightarrow> ''''))"

definition legTransportFromReq :: "sip_request \<Rightarrow> Transport" where
  "legTransportFromReq req = (case ReqVia req of
     Some t \<Rightarrow> ToLower t
   | None \<Rightarrow> (if transportFromURI (Recipient req) \<noteq> '''' then transportFromURI (Recipient req)
       else (case ReqTo req of
           None \<Rightarrow> ''''
         | Some to \<Rightarrow> (if transportFromURI (Address to) \<noteq> '''' then transportFromURI (Address to)
             else let tr = get_param (AParams to) ''transport'' in
               if tr \<noteq> '''' then ToLower tr else ''''))))"

record sip_ports =
  cfg_SIPPort :: int
  cfg_TLSPort :: "int option"
  cfg_SIPHostname :: string

definition transportPort :: "sip_ports \<Rightarrow> Transport \<Rightarrow> int" where
  "transportPort c t = (if t = TransportTLS then
       (case cfg_TLSPort c of Some p \<Rightarrow> p | None \<Rightarrow> cfg_SIPPort c)
     else cfg_SIPPort c)"

definition getContactURI :: "sip_ports \<Rightarrow> string option \<Rightarrow> Transport \<Rightarrow> URI" where
  "getContactURI c ip t = \<lparr>uUser = '''',
     uHost = (if t = TransportTLS then cfg_SIPHostname c else ''''),
     uAddr = ip, uPort = to_uint16 (transportPort c t), uTransport = t\<rparr>"

definition ToSIPUri :: "string \<Rightarrow> sip_uri \<Rightarrow> SIPUri" where
  "ToSIPUri ip u = \<lparr>sUser = User u, sHost = Host u, sIp = ip, sPort = to_uint32 (Port u),
     sTransport = SIPTransportFrom (get_param (UriParams u) ''transport'')\<rparr>"

section \<open>Waiting for the response of a client transaction\<close>

text \<open>What the select of \<open>sipResponse\<close> can observe, in the order it is observed.
  \<open>TxCtxDone\<close> carries the cause of the context, \<open>TxResponse None\<close> a closed channel.\<close>

datatype tx_event = TxCtxDone go_error | TxStop | TxDone | TxResponse "sip_response option"

record tx_result =
  tx_res :: "(go_error, sip_response) result"
  tx_cancelled :: string
  tx_sentCancel :: bool
  tx_seen :: "int list"

definition tx_timeout_result :: "int \<Rightarrow> int list \<Rightarrow> tx_result" where
  "tx_timeout_result cnt seen = \<lparr>tx_res = Err (EPsrpc Canceled (ETxTimeout cnt)),
     tx_cancelled = '''', tx_sentCancel = False, tx_seen = seen\<rparr>"

text \<open>\<open>seen\<close> are the status codes passed to \<open>onResponse\<close>; \<^const>\<open>None\<close> means that the
  loop is still waiting after the given events.\<close>

fun sipResponse_loop :: "int \<Rightarrow> int list \<Rightarrow> tx_event list \<Rightarrow> tx_result option" where
  "sipResponse_loop cnt seen [] = None"
| "sipResponse_loop cnt seen (TxCtxDone cause # es) = Some
     \<lparr>tx_res = Err (EPsrpc Canceled (ESentinel ErrSIPRequestTimeout)),
      tx_cancelled = (if errors_Is cause ErrSIPRequestTimeout then ''timeout'' else ''hangup''),
      tx_sentCancel = True, tx_seen = seen\<rparr>"
| "sipResponse_loop cnt seen (TxStop # es) = Some
     \<lparr>tx_res = Err (EPsrpc Canceled (ENew ''service shutting down'')),
      tx_cancelled = ''shutdown'', tx_sentCancel = True, tx_seen = seen\<rparr>"
| "sipResponse_loop cnt seen (TxDone # es) = Some (tx_timeout_result cnt seen)"
| "sipResponse_loop cnt seen (TxResponse None # es) = Some (tx_timeout_result cnt seen)"
| "sipResponse_loop cnt seen (TxResponse (Some res) # es) =
     (if StatusCode res div 100 \<noteq> 1 then Some
        \<lparr>tx_res = Ok res, tx_cancelled = '''', tx_sentCancel = False, tx_seen = seen @ [StatusCode res]\<rparr>
      else sipResponse_loop (cnt + 1) (seen @ [StatusCode res]) es)"

definition sipResponse :: "tx_event list \<Rightarrow> tx_result option" where
  "sipResponse es = sipResponse_loop 0 [] es"

text \<open>\<open>start\<close> is the error of \<open>c.Transaction(req)\<close>, if any; events as above.\<close>

definition sendBye :: "go_error option \<Rightarrow> tx_event list \<Rightarrow> (go_error, sip_response) result option" where
  "sendBye start es = (case start of
     Some e \<Rightarrow> Some (Err e)
   | None \<Rightarrow> map_option tx_res (sipResponse es))"

definition byeSucceeded :: "(go_error, sip_response) result \<Rightarrow> bool" where
  "byeSucceeded r = (case r of Inl _ \<Rightarrow> False
     | Inr res \<Rightarrow> 200 \<le> StatusCode res \<and> StatusCode res < 300)"

text \<open>The response comes with the error of a rejected REFER.\<close>

definition sendRefer ::
  "go_error option \<Rightarrow> tx_event list \<Rightarrow> (sip_response option \<times> go_error option) option" where
  "sendRefer start es = (case start of
     Some e \<Rightarrow> Some (None, Some e)
   | None \<Rightarrow> (case sipResponse es of
       None \<Rightarrow> None
     | Some r \<Rightarrow> (case tx_res r of
         Inl e \<Rightarrow> Some (None, Some e)
       | Inr resp \<Rightarrow> if StatusCode resp = 200 \<or> StatusCode resp = 202 then Some (Some resp, None)
           else Some (Some resp, Some (ESIPStatus (to_int32 (StatusCode resp)) (RespReason resp))))))"

section \<open>NOTIFY\<close>

definition parseNotifyBody :: "string \<Rightarrow> (go_error, int \<times> string) result" where
  "parseNotifyBody body = (let v = SplitN body CHR '' '' 3 in
     if length v < 2 then
       Err (EPsrpc InvalidArgument (ENew ''invalid notify body: not enough tokens''))
     else if ToUpper (v ! 0) \<noteq> ''SIP/2.0'' then
       Err (EPsrpc InvalidArgument (ENew ''invalid notify body: wrong prefix or SIP version''))
     else (case ParseInt (v ! 1) 10 32 of
         (_, Some _) \<Rightarrow> Err (EPsrpc InvalidArgument (ENew ''strconv.ParseInt''))
       | (code, None) \<Rightarrow>
           if code < 100 \<or> code > 699 then
             Err (EPsrpc InvalidArgument (ENew (''invalid notify body: status '' @ Itoa code @ '' out of range'')))
           else if length v < 3 then Ok (code, '''')
           else (case Cut (v ! 2) CHR 0x0A of (b, a, found) \<Rightarrow>
             if found then Ok (code, TrimSuffix b [CHR 0x0D]) else Ok (code, v ! 2))))"

record SubscriptionState =
  State :: string
  SReason :: string
  Expires :: int

definition zero_sub :: SubscriptionState where
  "zero_sub = \<lparr>State = '''', SReason = '''', Expires = 0\<rparr>"

definition Terminated :: "SubscriptionState \<Rightarrow> bool" where
  "Terminated s \<longleftrightarrow> State s = ''terminated''"

definition SubscriptionState_String :: "SubscriptionState \<Rightarrow> string" where
  "SubscriptionState_String s = (if State s = '''' then ''<none>''
     else if SReason s = '''' then State s
     else State s @ '';reason='' @ SReason s)"

text \<open>One \<open>key=value\<close> line of a semicolon-separated header; \<^const>\<open>None\<close> when there is
  no equals sign.\<close>

definition param_line :: "string \<Rightarrow> (string \<times> string) option" where
  "param_line line0 = (let line = TrimSpace line0 in
     case Cut line CHR ''='' of (k, v, found) \<Rightarrow>
       if \<not> found then None else Some (ToLower (TrimSpace k), TrimSpace v))"

definition sub_param :: "SubscriptionState \<Rightarrow> string \<Rightarrow> SubscriptionState" where
  "sub_param st line = (case param_line line of
     None \<Rightarrow> st
   | Some (key, val) \<Rightarrow>
       if key = ''reason'' then st\<lparr>SReason := ToLower val\<rparr>
       else if key = ''expires'' then st\<lparr>Expires := fst (Atoi val)\<rparr>
       else st)"

definition ParseSubscriptionState :: "string \<Rightarrow> SubscriptionState" where
  "ParseSubscriptionState header = (let l = Split header CHR '';'' in
     foldl sub_param (zero_sub\<lparr>State := ToLower (TrimSpace (hd l))\<rparr>) (tl l))"

record notifyInfo =
  niMethod :: string
  niCSeq :: int
  niStatus :: int
  niReason :: string
  niSub :: SubscriptionState

text \<open>\<open>splitEventParams\<close>: the loop with its \<open>quoted\<close> flag; \<open>acc\<close> is \<open>v[start:i]\<close>
  reversed.  A backslash inside quotes skips the following byte.\<close>

fun splitEventParams_loop :: "bool \<Rightarrow> string \<Rightarrow> string \<Rightarrow> string list" where
  "splitEventParams_loop quoted acc [] = [rev acc]"
| "splitEventParams_loop quoted acc (c # cs) =
     (if c = CHR 0x5C then
        (if quoted then (case cs of [] \<Rightarrow> [rev (c # acc)]
             | d # ds \<Rightarrow> splitEventParams_loop quoted (d # c # acc) ds)
         else splitEventParams_loop quoted (c # acc) cs)
      else if c = CHR 0x22 then splitEventParams_loop (\<not> quoted) (c # acc) cs
      else if c = CHR '';'' \<and> \<not> quoted then rev acc # splitEventParams_loop quoted [] cs
      else splitEventParams_loop quoted (c # acc) cs)"

definition splitEventParams :: "string \<Rightarrow> string list" where
  "splitEventParams v = splitEventParams_loop False [] v"

fun event_ids :: "notifyInfo \<Rightarrow> string list \<Rightarrow> (go_error, notifyInfo) result" where
  "event_ids info [] = Ok info"
| "event_ids info (p # ps) = (case Cut p CHR ''='' of (key, val, _) \<Rightarrow>
     if \<not> EqualFold (TrimSpace key) ''id'' then event_ids info ps
     else (case ParseUint (TrimSpace val) 10 32 of
         (_, Some _) \<Rightarrow> Err (EPsrpc MalformedRequest (ENew (''invalid event id '' @ val)))
       | (cseq64, None) \<Rightarrow> event_ids (info\<lparr>niCSeq := to_uint32 cseq64\<rparr>) ps))"

definition handleNotify :: "sip_request \<Rightarrow> (go_error, notifyInfo) result" where
  "handleNotify req = (case (case ReqHeader req ''Event'' of None \<Rightarrow> ReqHeader req ''o'' | Some h \<Rightarrow> Some h) of
     None \<Rightarrow> Err (EPsrpc MalformedRequest (ENew ''no event in NOTIFY request''))
   | Some event \<Rightarrow> (let params = splitEventParams event in
       if \<not> EqualFold (TrimSpace (hd params)) ''refer'' then
         Err (EPsrpc Unimplemented (ENew ''unknown event''))
       else (case event_ids \<lparr>niMethod = ''REFER'', niCSeq = 0, niStatus = 0, niReason = '''',
                             niSub = zero_sub\<rparr> (tl params) of
           Inl e \<Rightarrow> Err e
         | Inr info0 \<Rightarrow> (let
             info = (case ReqHeader req ''Subscription-State'' of
                 Some h \<Rightarrow> info0\<lparr>niSub := ParseSubscriptionState h\<rparr> | None \<Rightarrow> info0);
             body = TrimSpace (ReqBody req)
           in if body = '''' then Ok info
              else (case parseNotifyBody body of
                  Inl e \<Rightarrow> Err e
                | Inr (status, reason) \<Rightarrow> Ok (info\<lparr>niStatus := status, niReason := reason\<rparr>))))))"

text \<open>\<open>handleReferNotify\<close>: what is sent on \<open>referDone\<close>, if anything.  \<open>sipcode\<close> is
  \<open>psrpc.GetErrorCode\<close> of a \<open>livekit.SIPStatus\<close> with the given status code.\<close>

datatype refer_action = ReferNone | ReferSend "go_error option"

definition handleReferNotify :: "(int \<Rightarrow> psrpc_code) \<Rightarrow> notifyInfo \<Rightarrow> int \<Rightarrow> refer_action" where
  "handleReferNotify sipcode info referCseq =
     (if niCSeq info \<noteq> 0 \<and> niCSeq info \<noteq> referCseq then ReferNone
      else if niStatus info = 200 then ReferSend None
      else if niStatus info = 0 \<or> (100 \<le> niStatus info \<and> niStatus info < 200) then
        (if \<not> Terminated (niSub info) then ReferNone
         else let reason = (if SReason (niSub info) = '''' then ''unspecified'' else SReason (niSub info)) in
           ReferSend (Some (EPsrpc UpstreamServerError
             (EWrap (''call transfer failed (reason '' @ reason @ '', last status '' @ Itoa (niStatus info) @ '')'')
               (ESentinel errReferSubscriptionTerminated)))))
      else (let st = ESIPStatus (to_int32 (niStatus info)) (niReason info);
                ec = sipcode (niStatus info);
                ec = (if ec = Internal \<or> ec = Unavailable then
                        (if niStatus info < 500 \<or> niStatus info \<ge> 600 then UpstreamClientError
                         else UpstreamServerError)
                      else ec)
            in ReferSend (Some (EPsrpc ec (EWrap ''call transfer failed'' st)))))"

section \<open>psrpc errors and SIP statuses\<close>

definition sipStatusForErrorCode :: "psrpc_code \<Rightarrow> int" where
  "sipStatusForErrorCode code = (case code of
      PsOK \<Rightarrow> 200
    | Canceled \<Rightarrow> 408 | DeadlineExceeded \<Rightarrow> 408
    | Unknown \<Rightarrow> 500 | MalformedResponse \<Rightarrow> 500 | Internal \<Rightarrow> 500 | DataLoss \<Rightarrow> 500
    | InvalidArgument \<Rightarrow> 400 | MalformedRequest \<Rightarrow> 400
    | NotFound \<Rightarrow> 404
    | NotAcceptable \<Rightarrow> 406
    | AlreadyExists \<Rightarrow> 409 | Aborted \<Rightarrow> 409
    | PermissionDenied \<Rightarrow> 403
    | ResourceExhausted \<Rightarrow> 480
    | FailedPrecondition \<Rightarrow> 481
    | OutOfRange \<Rightarrow> 416
    | Unimplemented \<Rightarrow> 501
    | Unavailable \<Rightarrow> 503
    | Unauthenticated \<Rightarrow> 401
    | UpstreamServerError \<Rightarrow> 502
    | UpstreamClientError \<Rightarrow> 480
    | PsOther _ \<Rightarrow> 500)"

text \<open>\<open>msg\<close> is the \<open>Error()\<close> method.\<close>

definition sipCodeAndMessageFromError :: "(go_error \<Rightarrow> string) \<Rightarrow> go_error option \<Rightarrow> int \<times> string" where
  "sipCodeAndMessageFromError msg err = (case err of
     None \<Rightarrow> (200, ''success'')
   | Some e \<Rightarrow> ((case as_psrpc e of Some c \<Rightarrow> sipStatusForErrorCode c | None \<Rightarrow> 500), msg e))"

section \<open>The Reason header\<close>

record ReasonHeader =
  rType :: string
  rCause :: int
  rText :: string

definition zero_reason :: ReasonHeader where
  "zero_reason = \<lparr>rType = '''', rCause = 0, rText = ''''\<rparr>"

definition IsZero :: "ReasonHeader \<Rightarrow> bool" where "IsZero r \<longleftrightarrow> r = zero_reason"

definition IsNormal :: "ReasonHeader \<Rightarrow> bool" where
  "IsNormal r = (if IsZero r then True
     else if rType r = ''q.850'' then rCause r = 16
     else if rType r = ''x.int'' then rCause r = 0
     else if rType r = ''release_cause'' then rCause r = 1
     else if rType r = ''sip'' then rCause r = 0 \<or> rCause r = 200
     else False)"

definition ReasonHeader_String :: "ReasonHeader \<Rightarrow> string" where
  "ReasonHeader_String r = (if IsZero r then ''<none>''
     else rType r @ ''-'' @ Itoa (rCause r) @ '': '' @ rText r)"

text \<open>\<open>strconv.Unquote\<close> on valid UTF-8.  \<open>unquote_char\<close> reads one character or escape of
  a quoted literal and returns the bytes it stands for and the rest.\<close>

fun digits_val :: "nat \<Rightarrow> nat \<Rightarrow> string \<Rightarrow> nat option" where
  "digits_val base n [] = Some n"
| "digits_val base n (c # cs) = (case digit_val c of
     Some d \<Rightarrow> if nat d < base then digits_val base (n * base + nat d) cs else None
   | None \<Rightarrow> None)"

definition utf8_encode :: "nat \<Rightarrow> string" where
  "utf8_encode v = (if v < 128 then [char_of v]
     else if v < 2048 then [char_of (192 + v div 64), char_of (128 + v mod 64)]
     else if v < 65536 then [char_of (224 + v div 4096), char_of (128 + v div 64 mod 64), char_of (128 + v mod 64)]
     else [char_of (240 + v div 262144), char_of (128 + v div 4096 mod 64),
           char_of (128 + v div 64 mod 64), char_of (128 + v mod 64)])"

definition valid_rune :: "nat \<Rightarrow> bool" where
  "valid_rune v \<longleftrightarrow> v < 55296 \<or> (57343 < v \<and> v \<le> 1114111)"

definition rune_width :: "char \<Rightarrow> nat" where
  "rune_width c = (let n = (of_char c :: nat) in
     if n < 192 then 1 else if n < 224 then 2 else if n < 240 then 3 else 4)"

definition simple_escape :: "char \<Rightarrow> nat option" where
  "simple_escape c = map_of [(CHR ''a'', 7), (CHR ''b'', 8), (CHR ''f'', 12), (CHR ''n'', 10),
     (CHR ''r'', 13), (CHR ''t'', 9), (CHR ''v'', 11), (CHR 0x5C, 92)] c"

definition unquote_escape :: "char \<Rightarrow> char \<Rightarrow> string \<Rightarrow> (string \<times> string) option" where
  "unquote_escape quote e r = (case simple_escape e of
     Some v \<Rightarrow> Some ([char_of v], r)
   | None \<Rightarrow>
       if e = CHR ''x'' \<or> e = CHR ''u'' \<or> e = CHR ''U'' then
         (let n = (if e = CHR ''x'' then 2 else if e = CHR ''u'' then 4 else 8) in
          if length r < n then None
          else (case digits_val 16 0 (take n r) of
              None \<Rightarrow> None
            | Some v \<Rightarrow> if e = CHR ''x'' then Some ([char_of v], drop n r)
                else if valid_rune v then Some (utf8_encode v, drop n r) else None))
       else if e = CHR 0x27 \<or> e = CHR 0x22 then (if e = quote then Some ([e], r) else None)
       else if length r < 2 then None
       else (case digits_val 8 0 (e # take 2 r) of
           None \<Rightarrow> None
         | Some v \<Rightarrow> if v > 255 then None else Some ([char_of v], drop 2 r)))"

definition unquote_char :: "char \<Rightarrow> string \<Rightarrow> (string \<times> string) option" where
  "unquote_char quote s = (case s of
     [] \<Rightarrow> None
   | c # cs \<Rightarrow>
       if c \<noteq> CHR 0x5C then Some (take (rune_width c) s, drop (rune_width c) s)
       else (case cs of [] \<Rightarrow> None | e # r \<Rightarrow> unquote_escape quote e r))"

lemma unquote_escape_le:
  "unquote_escape q e r = Some (out, r') \<Longrightarrow> length r' \<le> length r"
  unfolding unquote_escape_def
  by (auto simp: Let_def split: if_splits option.splits)

lemma rune_width_pos [simp]: "0 < rune_width c"
  by (simp add: rune_width_def Let_def)

lemma unquote_char_shorter:
  "unquote_char q s = Some (out, r) \<Longrightarrow> length r < length s"
  unfolding unquote_char_def
  by (auto simp: Suc_le_eq split: list.splits if_splits dest!: unquote_escape_le)

function unquote_loop :: "char \<Rightarrow> string \<Rightarrow> (string \<times> string) option" where
  "unquote_loop quote s = (if s = [] \<or> hd s = quote then Some ([], s)
     else if hd s = CHR 0x0A then None
     else (case unquote_char quote s of
         None \<Rightarrow> None
       | Some (out, r) \<Rightarrow>
           if quote = CHR 0x27 then Some (out, r)
           else (case unquote_loop quote r of None \<Rightarrow> None | Some (o2, r2) \<Rightarrow> Some (out @ o2, r2))))"
  by pat_completeness auto

termination
  by (relation "measure (\<lambda>(q, s). length s)") (auto dest: unquote_char_shorter)

declare unquote_loop.simps [simp del]

text \<open>The value is the empty string when the literal is malformed (the error is
  ignored by the callers).\<close>

definition Unquote :: "string \<Rightarrow> string" where
  "Unquote s = (case s of
     q # b \<Rightarrow>
       if q = CHR 0x60 then
         (case Cut b CHR 0x60 of (body, r, found) \<Rightarrow>
            if found \<and> r = [] then filter (\<lambda>c. c \<noteq> CHR 0x0D) body else '''')
       else if q = CHR 0x22 \<or> q = CHR 0x27 then
         (case unquote_loop q b of
            Some (out, r) \<Rightarrow> if r = [q] \<and> (q = CHR 0x27 \<longrightarrow> out \<noteq> []) then out else ''''
          | None \<Rightarrow> '''')
       else ''''
   | [] \<Rightarrow> '''')"

text \<open>\<open>ParseReasonHeader\<close>: the loop over the parameters threads the header and the
  \<open>reasoncode\<close> value.\<close>

definition reason_param :: "ReasonHeader \<times> string \<Rightarrow> string \<Rightarrow> ReasonHeader \<times> string" where
  "reason_param st line = (case st of (r, reasonCode) \<Rightarrow>
     (case param_line line of
        None \<Rightarrow> (r, reasonCode)
      | Some (key, val) \<Rightarrow>
          if key = ''cause'' then (r\<lparr>rCause := fst (Atoi val)\<rparr>, reasonCode)
          else if key = ''text'' then (r\<lparr>rText := Unquote val\<rparr>, reasonCode)
          else if key = ''description'' then
            (if rText r = '''' then (r\<lparr>rText := Unquote val\<rparr>, reasonCode) else (r, reasonCode))
          else if key = ''reasoncode'' then (r, val)
          else (r, reasonCode)))"

definition ParseReasonHeader :: "string \<Rightarrow> (go_error, ReasonHeader) result" where
  "ParseReasonHeader header = (let l = Split header CHR '';'' in
     if length l < 2 then Err (ENew ''no fields in the reason'')
     else let typ = ToLower (TrimSpace (hd l)) in
       (case foldl reason_param (zero_reason\<lparr>rType := typ\<rparr>, '''') (tl l) of (r, reasonCode) \<Rightarrow>
         Ok (if typ = ''x.int'' \<and> rCause r = 0 then
               (if reasonCode \<noteq> '''' then
                  r\<lparr>rCause := to_int64 (fst (ParseUint reasonCode 0 64))\<rparr>
                else if rText r \<noteq> '''' then
                  (case ParseUint (rText r) 0 64 of (v, e) \<Rightarrow>
                     r\<lparr>rCause := to_int64 v, rText := (if e = None then '''' else rText r)\<rparr>)
                else r)
             else r)))"

section \<open>Properties of the parsers\<close>

lemma ToUpper_sip [simp]: "ToUpper ''SIP/2.0'' = ''SIP/2.0''"
  by (simp add: ToUpper_def upper_char_def)

lemma SplitN3:
  assumes "c \<notin> set a" "c \<notin> set b"
  shows "SplitN (a @ c # b @ c # r) c 3 = [a, b, r]"
  using assms by (simp add: numeral_3_eq_3)

lemma SplitN_status_line:
  "SplitN (''SIP/2.0 '' @ Itoa code @ '' '' @ r) CHR '' '' 3 = [''SIP/2.0'', Itoa code, r]"
proof -
  have "CHR '' '' \<notin> set (Itoa code)" by (rule Itoa_not_in) auto
  then show ?thesis using SplitN3 [of "CHR '' ''" "''SIP/2.0''" "Itoa code" r] by simp
qed

lemma parseNotifyBody_line:
  assumes "100 \<le> code" "code \<le> 699"
  shows "parseNotifyBody (''SIP/2.0 '' @ Itoa code @ '' '' @ r) =
    (case Cut r CHR 0x0A of (b, a, found) \<Rightarrow>
       if found then Ok (code, TrimSuffix b [CHR 0x0D]) else Ok (code, r))"
proof -
  have "ParseInt (Itoa code) 10 32 = (code, None)" using assms by (intro ParseInt_Itoa) auto
  then show ?thesis using assms unfolding parseNotifyBody_def Let_def SplitN_status_line
    by (simp add: numeral_2_eq_2 split: prod.splits)
qed

lemma TrimSuffix_snoc [simp]: "TrimSuffix (s @ [c]) [c] = s"
  by (simp add: TrimSuffix_def HasSuffix_def HasPrefix_def)

text \<open>\<open>parseNotifyBody\<close> reads back every status line a notifier can print: for a
  status code from 100 to 699 and a reason phrase without a line feed, the code and
  the reason are recovered, whatever lines follow the first one.\<close>

theorem parseNotifyBody_status_line:
  assumes "100 \<le> code" "code \<le> 699" "CHR 0x0A \<notin> set reason"
  shows "parseNotifyBody (''SIP/2.0 '' @ Itoa code @ '' '' @ reason) = Ok (code, reason) \<and>
    parseNotifyBody (''SIP/2.0 '' @ Itoa code @ '' '' @ reason @ [CHR 0x0D, CHR 0x0A] @ rest) = Ok (code, reason)"
proof -
  have "Cut ((reason @ [CHR 0x0D]) @ CHR 0x0A # rest) CHR 0x0A = (reason @ [CHR 0x0D], rest, True)"
    using assms by (intro Cut_append) simp
  then have 1: "Cut (reason @ [CHR 0x0D, CHR 0x0A] @ rest) CHR 0x0A = (reason @ [CHR 0x0D], rest, True)"
    by simp
  have 2: "Cut reason CHR 0x0A = (reason, [], False)" using assms by simp
  show ?thesis unfolding parseNotifyBody_line [OF assms(1,2)] 1 2 by simp
qed

theorem parseNotifyBody_status_line_witness:
  "parseNotifyBody (''SIP/2.0 '' @ Itoa 486 @ '' '' @ ''Busy Here'') = Ok (486, ''Busy Here'')"
  using parseNotifyBody_status_line [of 486 "''Busy Here''" "[]"] by simp

text \<open>An accepted NOTIFY body carries a SIP response code: \<open>parseNotifyBody\<close> never
  returns a code outside 100 to 699, so narrowing it to the 32-bit
  \<open>livekit.SIPStatusCode\<close> is exact.\<close>

theorem parseNotifyBody_code_range:
  assumes "parseNotifyBody body = Ok (code, reason)"
  shows "100 \<le> code \<and> code \<le> 699 \<and> to_int32 code = code"
proof -
  from assms have "100 \<le> code \<and> code \<le> 699"
    by (auto simp: parseNotifyBody_def Let_def split: if_splits prod.splits option.splits)
  then show ?thesis by (simp add: to_int32_def Let_def)
qed

theorem parseNotifyBody_code_range_witness:
  "100 \<le> (202::int) \<and> (202::int) \<le> 699 \<and> to_int32 202 = 202"
proof -
  have "parseNotifyBody ''SIP/2.0 202 Accepted'' = Ok (202, ''Accepted'')" by code_simp
  then show ?thesis by (rule parseNotifyBody_code_range)
qed

text \<open>Joining with a separator, the inverse of splitting.\<close>

fun join :: "char \<Rightarrow> string list \<Rightarrow> string" where
  "join c [] = []"
| "join c [s] = s"
| "join c (s # t # ss) = s @ c # join c (t # ss)"

lemma join_Cons: "ss \<noteq> [] \<Longrightarrow> join c (s # ss) = s @ c # join c ss"
  by (cases ss) auto

lemma splitEventParams_loop_nonempty [simp]: "splitEventParams_loop q acc s \<noteq> []"
  by (induction q acc s rule: splitEventParams_loop.induct) (auto split: list.splits)

lemma splitEventParams_loop_join:
  "join CHR '';'' (splitEventParams_loop q acc s) = rev acc @ s"
  by (induction q acc s rule: splitEventParams_loop.induct)
     (auto simp: join_Cons split: list.splits)

text \<open>Splitting an Event header loses nothing: joining the parts of
  \<open>splitEventParams\<close> with semicolons gives the header value back, quoted strings and
  backslash escapes included.\<close>

theorem splitEventParams_join: "join CHR '';'' (splitEventParams v) = v"
  by (simp add: splitEventParams_def splitEventParams_loop_join)

text \<open>A value the header parsers leave alone: lower case, no separator, no space at
  the ends.\<close>

definition plain_token :: "string \<Rightarrow> bool" where
  "plain_token s \<longleftrightarrow> ToLower s = s \<and> TrimSpace s = s \<and> CHR '';'' \<notin> set s"

lemma TrimSpace_reason: "plain_token s \<Longrightarrow> s \<noteq> [] \<Longrightarrow> TrimSpace (''reason='' @ s) = ''reason='' @ s"
proof -
  assume p: "plain_token s" and s: "s \<noteq> []"
  have t: "TrimSpace s = s" using p by (simp add: plain_token_def)
  have "\<not> is_space (last s)"
  proof
    assume sp: "is_space (last s)"
    have "length (TrimSpace s) < length s"
    proof -
      have "length (TrimSpace s) \<le> length (dropWhile is_space (rev (dropWhile is_space s)))"
        by (simp add: TrimSpace_def)
      moreover have "dropWhile is_space s = [] \<or> last (dropWhile is_space s) = last s"
        by (metis dropWhile_eq_Nil_conv last_appendR takeWhile_dropWhile_id)
      moreover have "length (dropWhile is_space u) < length u" if "u \<noteq> []" "is_space (hd u)" for u
        using that by (cases u) (auto simp: le_imp_less_Suc length_dropWhile_le)
      ultimately show ?thesis
        using sp s length_dropWhile_le [of is_space s]
        by (metis (no_types, lifting) dropWhile.simps(1) hd_rev le_less_trans length_0_conv length_greater_0_conv
            length_rev less_le_trans list.size(3) rev_is_Nil_conv)
    qed
    with t show False by simp
  qed
  then show ?thesis using s by (intro TrimSpace_id) (auto simp: is_space_def)
qed

text \<open>A subscription state that is printed and parsed again is the same state with
  the same reason, for every state and reason that are lower case and free of
  semicolons and surrounding space.\<close>

theorem ParseSubscriptionState_String:
  assumes "plain_token (State s)" "plain_token (SReason s)" "State s \<noteq> ''''"
  shows "ParseSubscriptionState (SubscriptionState_String s) = s\<lparr>Expires := 0\<rparr>"
proof (cases "SReason s = ''''")
  case True
  then show ?thesis using assms
    by (simp add: SubscriptionState_String_def ParseSubscriptionState_def plain_token_def zero_sub_def Let_def)
next
  case False
  have nosep: "CHR '';'' \<notin> set (''reason='' @ SReason s)"
    using assms(2) by (simp add: plain_token_def)
  have "Split (State s @ CHR '';'' # (''reason='' @ SReason s)) CHR '';'' = [State s, ''reason='' @ SReason s]"
    unfolding Split_append [OF conjunct2 [OF conjunct2 [OF assms(1) [unfolded plain_token_def]]]]
      Split_no_sep [OF nosep] ..
  moreover have "param_line (''reason='' @ SReason s) = Some (''reason'', SReason s)"
  proof -
    have "Cut (''reason'' @ CHR ''='' # SReason s) CHR ''='' = (''reason'', SReason s, True)"
      by (rule Cut_append) simp
    moreover have "ToLower (TrimSpace ''reason'') = ''reason''" by code_simp
    ultimately show ?thesis
      using TrimSpace_reason [OF assms(2) False] assms(2)
      by (simp add: param_line_def Let_def plain_token_def)
  qed
  ultimately show ?thesis using assms False
    by (simp add: SubscriptionState_String_def ParseSubscriptionState_def sub_param_def zero_sub_def
        plain_token_def Let_def)
qed

theorem ParseSubscriptionState_String_witness:
  "ParseSubscriptionState (SubscriptionState_String
     \<lparr>State = ''terminated'', SReason = ''noresource'', Expires = 0\<rparr>) =
   \<lparr>State = ''terminated'', SReason = ''noresource'', Expires = 0\<rparr>"
proof -
  have "plain_token ''terminated''" "plain_token ''noresource''" by code_simp+
  then show ?thesis
    using ParseSubscriptionState_String [of "\<lparr>State = ''terminated'', SReason = ''noresource'', Expires = 0\<rparr>"]
    by simp
qed

end
