(* ===== verification/Refer.thy ===== *)
theory Refer
  imports Protocol
begin

text \<open>
  The outcome of a cold transfer, src/pkg/sip/protocol.go: after the REFER was
  accepted, NOTIFY requests report the progress of the transfer while the call
  itself may end at any moment.  \<open>waitReferResult\<close> selects over the context, the
  result channel and the end of the call; its inputs are modelled as the
  sequence of events in the order the select observes them.
\<close>

section \<open>Waiting for the result\<close>

datatype wait_event = WCtxDone go_error | WReferDone "go_error option" | WCallDone | WGrace

text \<open>The inner select, after the call ended: only a result or the grace period
  (\<open>referResultGrace\<close>) is watched.\<close>

fun waitReferGrace :: "wait_event list \<Rightarrow> go_error option option" where
  "waitReferGrace [] = None"
| "waitReferGrace (WReferDone r # es) = Some r"
| "waitReferGrace (WGrace # es) = Some (Some (EPsrpc Aborted (ESentinel errTransferCallEnded)))"
| "waitReferGrace (WCtxDone e # es) = waitReferGrace es"
| "waitReferGrace (WCallDone # es) = waitReferGrace es"

text \<open>\<^const>\<open>None\<close>: still waiting.  \<open>Some None\<close>: the transfer succeeded.\<close>

fun waitReferResult :: "wait_event list \<Rightarrow> go_error option option" where
  "waitReferResult [] = None"
| "waitReferResult (WCtxDone e # es) = Some (Some (EPsrpc Canceled (EWrap ''refer canceled'' e)))"
| "waitReferResult (WReferDone r # es) = Some r"
| "waitReferResult (WCallDone # es) = waitReferGrace es"
| "waitReferResult (WGrace # es) = waitReferResult es"

section \<open>The transfer of one call\<close>

text \<open>A dialog hands every NOTIFY to \<open>handleNotify\<close> and, when it parses, to
  \<open>handleReferNotify\<close> with the CSeq of the REFER it sent (\<open>sipInbound.handleNotify\<close>,
  \<open>sipOutbound.handleNotify\<close>).\<close>

datatype xfer_event = XNotify sip_request | XCallDone | XCtxDone go_error | XGrace

definition dialog_handleNotify ::
  "(int \<Rightarrow> psrpc_code) \<Rightarrow> int \<Rightarrow> sip_request \<Rightarrow> (go_error, refer_action) result" where
  "dialog_handleNotify sipcode referCseq req = (case handleNotify req of
     Inl e \<Rightarrow> Err e
   | Inr info \<Rightarrow> if niMethod info = ''REFER'' then Ok (handleReferNotify sipcode info referCseq)
       else Ok ReferNone)"

fun wait_event_of :: "(int \<Rightarrow> psrpc_code) \<Rightarrow> int \<Rightarrow> xfer_event \<Rightarrow> wait_event list" where
  "wait_event_of sipcode cseq (XNotify req) = (case dialog_handleNotify sipcode cseq req of
     Inr (ReferSend r) \<Rightarrow> [WReferDone r] | _ \<Rightarrow> [])"
| "wait_event_of sipcode cseq XCallDone = [WCallDone]"
| "wait_event_of sipcode cseq (XCtxDone e) = [WCtxDone e]"
| "wait_event_of sipcode cseq XGrace = [WGrace]"

definition transfer_outcome :: "(int \<Rightarrow> psrpc_code) \<Rightarrow> int \<Rightarrow> xfer_event list \<Rightarrow> go_error option option" where
  "transfer_outcome sipcode cseq evs = waitReferResult (concat (map (wait_event_of sipcode cseq) evs))"

section \<open>Properties\<close>

lemma waitReferGrace_success: "waitReferGrace es = Some None \<Longrightarrow> WReferDone None \<in> set es"
  by (induction es rule: waitReferGrace.induct) auto

lemma waitReferResult_success: "waitReferResult es = Some None \<Longrightarrow> WReferDone None \<in> set es"
  by (induction es rule: waitReferResult.induct) (auto dest: waitReferGrace_success)

lemma waitReferGrace_grace: "WGrace \<in> set es \<Longrightarrow> waitReferGrace es \<noteq> None"
  by (induction es rule: waitReferGrace.induct) auto

lemma waitReferResult_ends:
  "(\<exists>e. WCtxDone e \<in> set es) \<Longrightarrow> WCallDone \<notin> set es \<Longrightarrow> waitReferResult es \<noteq> None"
  by (induction es rule: waitReferResult.induct) auto

lemma waitReferResult_call_ends:
  "WGrace \<in> set post \<Longrightarrow> waitReferResult (pre @ WCallDone # post) \<noteq> None"
  by (induction pre rule: waitReferResult.induct) (auto simp: waitReferGrace_grace
      dest: waitReferGrace_grace [of "_ @ WCallDone # post"])

lemma handleNotify_method: "handleNotify req = Ok info \<Longrightarrow> niMethod info = ''REFER''"
proof -
  have ids: "event_ids i ps = Ok j \<Longrightarrow> niMethod j = niMethod i" for i ps j
    by (induction i ps rule: event_ids.induct) (auto split: if_splits prod.splits option.splits)
  assume "handleNotify req = Ok info"
  then show ?thesis
    by (auto simp: handleNotify_def Let_def dest!: ids
        split: if_splits option.splits sum.splits prod.splits)
qed

lemma handleReferNotify_success:
  "handleReferNotify sipcode info cseq = ReferSend None \<longleftrightarrow>
     niStatus info = 200 \<and> (niCSeq info = 0 \<or> niCSeq info = cseq)"
  by (auto simp: handleReferNotify_def Let_def)

text \<open>The NOTIFYs that leave the transfer undecided.\<close>

definition undecided :: "(int \<Rightarrow> psrpc_code) \<Rightarrow> int \<Rightarrow> xfer_event \<Rightarrow> bool" where
  "undecided sipcode cseq e \<longleftrightarrow> (\<exists>req. e = XNotify req) \<and> wait_event_of sipcode cseq e = []"

lemma concat_undecided:
  "(\<forall>e\<in>set es. undecided sipcode cseq e) \<Longrightarrow> concat (map (wait_event_of sipcode cseq) es) = []"
  by (auto simp: undecided_def)

lemma transfer_outcome_success:
  assumes "transfer_outcome sipcode cseq evs = Some None"
  shows "\<exists>req info. XNotify req \<in> set evs \<and> handleNotify req = Ok info \<and>
    niStatus info = 200 \<and> (niCSeq info = 0 \<or> niCSeq info = cseq)"
proof -
  from assms have "WReferDone None \<in> set (concat (map (wait_event_of sipcode cseq) evs))"
    unfolding transfer_outcome_def by (rule waitReferResult_success)
  then obtain ev where ev: "ev \<in> set evs" "WReferDone None \<in> set (wait_event_of sipcode cseq ev)"
    by auto
  from ev(2) obtain req where req: "ev = XNotify req" "dialog_handleNotify sipcode cseq req = Ok (ReferSend None)"
    by (cases ev rule: xfer_event.exhaust) (auto split: sum.splits refer_action.splits)
  then obtain info where "handleNotify req = Ok info" "handleReferNotify sipcode info cseq = ReferSend None"
    by (auto simp: dialog_handleNotify_def split: sum.splits if_splits)
  with ev req show ?thesis by (auto simp: handleReferNotify_success)
qed

text \<open>A transfer is reported as successful only on a NOTIFY that says so: if the
  wait ends without an error, one of the observed requests is a well-formed NOTIFY
  for this REFER (no event id, or the id of its CSeq) whose status line is 200.
  Neither the end of the call nor a provisional or terminated subscription counts as
  success.\<close>

theorem transfer_success_only_on_200:
  assumes "transfer_outcome sipcode cseq evs = Some None"
  shows "\<exists>req info. XNotify req \<in> set evs \<and> handleNotify req = Ok info \<and>
    niStatus info = 200 \<and> (niCSeq info = 0 \<or> niCSeq info = cseq)"
  by (rule transfer_outcome_success [OF assms])

definition notify_200 :: sip_request where
  "notify_200 = \<lparr>Method = ''NOTIFY'', Recipient = \<lparr>User = ''a'', Host = ''h'', Port = 5060, UriParams = []\<rparr>,
     ReqTo = None, ReqVia = None,
     ReqHeader = map_of [(''Event'', ''refer;id=7''), (''Subscription-State'', ''terminated;reason=noresource'')],
     ReqBody = ''SIP/2.0 200 OK''\<rparr>"

lemma notify_200_parsed:
  "handleNotify notify_200 = Ok \<lparr>niMethod = ''REFER'', niCSeq = 7, niStatus = 200, niReason = ''OK'',
     niSub = \<lparr>State = ''terminated'', SReason = ''noresource'', Expires = 0\<rparr>\<rparr>"
  by code_simp

theorem transfer_success_only_on_200_witness:
  "\<exists>req info. XNotify req \<in> set [XCallDone, XNotify notify_200] \<and> handleNotify req = Ok info \<and>
    niStatus info = 200 \<and> (niCSeq info = 0 \<or> niCSeq info = 7)"
  by (rule transfer_success_only_on_200 [where sipcode = "\<lambda>_. Internal"])
     (simp add: transfer_outcome_def dialog_handleNotify_def notify_200_parsed handleReferNotify_def)

text \<open>A successful result wins the race against the end of the call: when the call
  ends before the final NOTIFY is handled, the transfer still succeeds if that NOTIFY
  arrives within the grace period, whatever undecided NOTIFYs come before.\<close>

theorem transfer_result_beats_call_end:
  assumes "\<forall>e\<in>set pre. undecided sipcode cseq e" "\<forall>e\<in>set mid. undecided sipcode cseq e"
    and "handleNotify req = Ok info" "niStatus info = 200" "niCSeq info = 0 \<or> niCSeq info = cseq"
  shows "transfer_outcome sipcode cseq (pre @ [XCallDone] @ mid @ [XNotify req] @ post) = Some None"
proof -
  have "wait_event_of sipcode cseq (XNotify req) = [WReferDone None]"
    using assms(3-5) handleNotify_method [OF assms(3)]
      handleReferNotify_success [of sipcode info cseq]
    by (simp add: dialog_handleNotify_def)
  then show ?thesis
    unfolding transfer_outcome_def map_append concat_append concat_undecided [OF assms(1)]
      concat_undecided [OF assms(2)]
    by simp
qed

theorem transfer_result_beats_call_end_witness:
  "transfer_outcome (\<lambda>_. Internal) 7 ([] @ [XCallDone] @ [] @ [XNotify notify_200] @ [XGrace]) = Some None"
  by (rule transfer_result_beats_call_end [OF _ _ notify_200_parsed]) simp_all

text \<open>Waiting for a transfer ends: once the call has ended and the grace period has
  passed, or once the context of the request is done while the call is up, an outcome
  has been returned.\<close>

theorem transfer_wait_ends:
  assumes "(\<exists>pre post. evs = pre @ XCallDone # post \<and> XGrace \<in> set post) \<or>
    ((\<exists>e. XCtxDone e \<in> set evs) \<and> XCallDone \<notin> set evs)"
  shows "\<exists>r. transfer_outcome sipcode cseq evs = Some r"
  using assms
proof
  assume "\<exists>pre post. evs = pre @ XCallDone # post \<and> XGrace \<in> set post"
  then obtain pre post where e: "evs = pre @ XCallDone # post" "XGrace \<in> set post" by auto
  from e(2) have "WGrace \<in> set (concat (map (wait_event_of sipcode cseq) post))" by force
  then have "transfer_outcome sipcode cseq evs \<noteq> None"
    unfolding transfer_outcome_def e(1) by (simp add: waitReferResult_call_ends)
  then show ?thesis by auto
next
  assume *: "(\<exists>e. XCtxDone e \<in> set evs) \<and> XCallDone \<notin> set evs"
  let ?ws = "concat (map (wait_event_of sipcode cseq) evs)"
  have "\<exists>e. WCtxDone e \<in> set ?ws" using * by force
  moreover have "WCallDone \<notin> set (wait_event_of sipcode cseq ev)" if "ev \<in> set evs" for ev
  proof -
    have "ev \<noteq> XCallDone" using that * by auto
    then show ?thesis by (cases ev rule: xfer_event.exhaust) (auto split: sum.splits refer_action.splits)
  qed
  then have "WCallDone \<notin> set ?ws" by auto
  ultimately have "waitReferResult ?ws \<noteq> None" by (intro waitReferResult_ends)
  then show ?thesis unfolding transfer_outcome_def by auto
qed

theorem transfer_wait_ends_witness:
  "\<exists>r. transfer_outcome (\<lambda>_. Internal) 7 [XCallDone, XGrace] = Some r"
proof (rule transfer_wait_ends, rule disjI1, intro exI conjI)
  show "[XCallDone, XGrace] = [] @ XCallDone # [XGrace]" by simp
qed simp

text \<open>A rejected transfer keeps the SIP status the peer reported and never ends as a
  retryable internal or unavailable error: for a final status other than 200 the
  result wraps that status and its psrpc code is neither Internal nor Unavailable,
  5xx statuses counting as upstream server errors and the others as upstream client
  errors when the generic mapping has nothing better.\<close>

theorem refer_failure_classified:
  assumes "niCSeq info = 0 \<or> niCSeq info = cseq"
    and "niStatus info \<noteq> 200" "200 \<le> niStatus info" "niStatus info \<le> 699"
  shows "\<exists>e c. handleReferNotify sipcode info cseq = ReferSend (Some e) \<and>
    as_SIPStatus e = Some (niStatus info, niReason info) \<and> as_psrpc e = Some c \<and>
    c \<noteq> Internal \<and> c \<noteq> Unavailable \<and>
    (sipcode (niStatus info) \<in> {Internal, Unavailable} \<longrightarrow>
       c = (if 500 \<le> niStatus info \<and> niStatus info < 600 then UpstreamServerError else UpstreamClientError))"
proof -
  have "to_int32 (niStatus info) = niStatus info"
    using assms by (simp add: to_int32_def Let_def)
  then show ?thesis using assms by (auto simp: handleReferNotify_def Let_def)
qed

theorem refer_failure_classified_witness:
  "\<exists>e c. handleReferNotify (\<lambda>_. Internal) \<lparr>niMethod = ''REFER'', niCSeq = 7, niStatus = 603,
      niReason = ''Decline'', niSub = zero_sub\<rparr> 7 = ReferSend (Some e) \<and> as_SIPStatus e = Some (603, ''Decline'') \<and>
      as_psrpc e = Some c \<and> c = UpstreamClientError"
  using refer_failure_classified [of "\<lparr>niMethod = ''REFER'', niCSeq = 7, niStatus = 603,
      niReason = ''Decline'', niSub = zero_sub\<rparr>" 7 "\<lambda>_. Internal"] by auto

end
