(* ===== verification/InviteErrors.thy ===== *)
theory InviteErrors
  imports Protocol
begin

text \<open>
  src/pkg/sip/errors.go: the verdict on a failed outbound INVITE.  An error
  either classifies itself (\<open>SDPError\<close>, \<open>transactionTimeoutError\<close>,
  \<open>carrierBlockedError\<close>) or is classified by the SIP status, sentinel or network
  error found in its chain.  \<open>ApplySIPStatus\<close> of src/pkg/errors is here too.
\<close>

section \<open>Verdicts\<close>

record inviteFailure =
  ifEnd :: EndCall
  returnErr :: "go_error option"

definition afterInvite :: "inviteFailure \<Rightarrow> inviteFailure" where
  "afterInvite f = (if Result (Term (ifEnd f)) = ResultServerError then
     (let cause = (case returnErr f of None \<Rightarrow> ENew (TReason (Term (ifEnd f))) | Some e \<Rightarrow> e)
      in f\<lparr>returnErr := Some (EPsrpc FailedPrecondition cause)\<rparr>)
     else f)"

definition mk_end :: "CallStatus \<Rightarrow> Termination \<Rightarrow> DisconnectReason \<Rightarrow> go_error option \<Rightarrow> EndCall" where
  "mk_end st t dr rep = \<lparr>Report = rep, Status = st, Term = t, Reason = dr, EHeaders = [], Code = 0\<rparr>"

definition SDPError_ClassifyInvite :: "go_error \<Rightarrow> inviteFailure" where
  "SDPError_ClassifyInvite err = \<lparr>
     ifEnd = mk_end callRejected
       (if errors_Is err ErrNoCommonMedia then ClientError ''no-common-codec''
        else if errors_Is err ErrNoCommonCrypto then ClientError ''encryption-required''
        else ClientError ''sdp-error'')
       USER_REJECTED (Some err),
     returnErr = Some (ESDP err)\<rparr>"

definition transactionTimeoutError_ClassifyInvite :: "int \<Rightarrow> inviteFailure" where
  "transactionTimeoutError_ClassifyInvite responses = \<lparr>
     ifEnd = mk_end callUnavailable
       (if responses > 0 then ClientError ''no-final-response'' else Indeterminate ''upstream-no-response'')
       SIP_TRUNK_FAILURE (Some (ETxTimeout responses)),
     returnErr = Some (EPsrpc Canceled (ETxTimeout responses))\<rparr>"

definition carrierBlockedError_ClassifyInvite :: "int \<Rightarrow> string \<Rightarrow> string \<Rightarrow> int \<Rightarrow> inviteFailure" where
  "carrierBlockedError_ClassifyInvite code msg provider pcode = \<lparr>
     ifEnd = mk_end callRejected (ClientError ''carrier-blocked'') USER_REJECTED
       (Some (ECarrierBlocked code msg provider pcode)),
     returnErr = Some (ESIPStatus code msg)\<rparr>"

text \<open>\<open>errors.AsType[inviteClassifier]\<close> followed by \<open>ClassifyInvite\<close>.\<close>

fun classifier1 :: "go_error \<Rightarrow> inviteFailure option" where
  "classifier1 (ESDP e) = Some (SDPError_ClassifyInvite e)"
| "classifier1 (ETxTimeout n) = Some (transactionTimeoutError_ClassifyInvite n)"
| "classifier1 (ECarrierBlocked c m p k) = Some (carrierBlockedError_ClassifyInvite c m p k)"
| "classifier1 _ = None"

section \<open>From responses to errors\<close>

definition twilioPermanentBlockCodes :: "int list" where
  "twilioPermanentBlockCodes = [32203]"

definition sipStatusFromResponse :: "sip_response \<Rightarrow> int \<times> string" where
  "sipStatusFromResponse resp = (to_int32 (StatusCode resp),
     (case RespHeader resp ''X-Twilio-Error'' of Some v \<Rightarrow> v | None \<Rightarrow> RespReason resp))"

definition authError :: "sentinel \<Rightarrow> sip_response option \<Rightarrow> go_error" where
  "authError s resp = (case resp of
     None \<Rightarrow> EPsrpc FailedPrecondition (ESentinel s)
   | Some r \<Rightarrow> (case sipStatusFromResponse r of (code, status) \<Rightarrow>
       EPsrpc FailedPrecondition
         (EWrap ('' (last response '' @ Itoa code @ '': '' @ status @ '')'') (ESentinel s))))"

text \<open>\<open>strings.Fields(v)[0]\<close>; \<^const>\<open>None\<close> when there is no field.\<close>

definition first_field :: "string \<Rightarrow> string option" where
  "first_field v = (let s = dropWhile is_space v in
     if s = [] then None else Some (takeWhile (\<lambda>c. \<not> is_space c) s))"

definition parseLeadingProviderCode :: "string \<Rightarrow> int" where
  "parseLeadingProviderCode v = (case first_field v of
     None \<Rightarrow> 0
   | Some f \<Rightarrow> (case Atoi f of (n, None) \<Rightarrow> n | (_, Some _) \<Rightarrow> 0))"

definition carrierBlockFromResponse :: "sip_response \<Rightarrow> int \<times> string \<Rightarrow> go_error option" where
  "carrierBlockFromResponse resp st = (case RespHeader resp ''X-Twilio-Error'' of
     None \<Rightarrow> None
   | Some v \<Rightarrow> (let code = parseLeadingProviderCode v in
       if code \<noteq> 0 \<and> code \<in> set twilioPermanentBlockCodes
       then Some (ECarrierBlocked (fst st) (snd st) ''twilio'' code) else None))"

section \<open>Classification\<close>

type_synonym verdict = "CallStatus \<times> Termination \<times> DisconnectReason \<times> bool"

text \<open>By SIP status.  The flag tells whether the error is kept for the report;
  \<^const>\<open>None\<close> leaves the default verdict untouched.\<close>

definition classify_status :: "int \<Rightarrow> string \<Rightarrow> verdict option" where
  "classify_status code status =
     (if code = 401 \<or> code = 407 then Some (callRejected, ClientError ''auth-required'', USER_REJECTED, False)
      else if code = 403 then Some (callRejected, ClientError ''forbidden'', USER_REJECTED, False)
      else if code = 404 then Some (callUnavailable, ClientError ''not-found'', USER_UNAVAILABLE, False)
      else if code = 408 then Some (callUnavailable, ClientError ''request-timeout'', USER_UNAVAILABLE, False)
      else if code = 480 then Some (callUnavailable, ClientError ''unavailable'', USER_UNAVAILABLE, False)
      else if code = 486 then Some (callRejected, ClientError ''busy'', USER_REJECTED, False)
      else if code = 488 then Some (callRejected, ClientError ''not-acceptable'', USER_REJECTED, False)
      else if 400 \<le> code \<and> code < 500 then
        Some (callRejected, ClientError (''client-error-'' @ Itoa code), USER_UNAVAILABLE, False)
      else if 500 \<le> code \<and> code < 600 then
        (let body = ToLower status in
         if Contains body ''cps limit exceeded'' then
           Some (callRejected, ClientError ''cps-limit-exceeded'', SIP_TRUNK_FAILURE, True)
         else if Contains body ''concurrent call limit exceeded'' then
           Some (callRejected, ClientError ''concurrent-limit-exceeded'', SIP_TRUNK_FAILURE, True)
         else Some (callDropped, UpstreamError (''upstream-server-error-'' @ Itoa code), SIP_TRUNK_FAILURE, True))
      else if 600 \<le> code \<and> code < 700 then
        Some (callRejected, ClientError (''global-decline-'' @ Itoa code), USER_REJECTED, False)
      else None)"

definition verdict_failure :: "go_error \<Rightarrow> verdict \<Rightarrow> go_error \<Rightarrow> inviteFailure" where
  "verdict_failure err v ret = (case v of (st, t, dr, keep) \<Rightarrow>
     \<lparr>ifEnd = mk_end st t dr (if keep then Some err else None), returnErr = Some ret\<rparr>)"

definition classifyInviteError :: "go_error \<Rightarrow> inviteFailure" where
  "classifyInviteError err = (let ch = chain err;
     res = \<lparr>ifEnd = mk_end callDropped (ServerError ''invite-failed'') UNKNOWN_REASON (Some err),
            returnErr = Some err\<rparr> in
     case first_some classifier1 ch of
       Some f \<Rightarrow> f
     | None \<Rightarrow>
       (case as_SIPStatus err of
          Some (code, status) \<Rightarrow> (case classify_status code status of
              Some v \<Rightarrow> verdict_failure err v err | None \<Rightarrow> res)
        | None \<Rightarrow>
          if errors_Is err ErrSIPRequestTimeout then
            verdict_failure err (callUnavailable, ClientError ''no-answer'', USER_UNAVAILABLE, False) err
          else if errors_Is err CtxDeadlineExceeded then
            verdict_failure err (callDropped, ServerError ''deadline-exceeded'', UNKNOWN_REASON, True)
              (EPsrpc DeadlineExceeded err)
          else if errors_Is err CtxCanceled then
            verdict_failure err (callRejected, ClientError ''canceled'', USER_UNAVAILABLE, False)
              (EPsrpc Canceled err)
          else if list_ex is_addr_error ch then
            verdict_failure err (callDropped, ClientError ''address-error'', SIP_TRUNK_FAILURE, True)
              (EPsrpc InvalidArgument err)
          else if list_ex is_dns_error ch then
            verdict_failure err (callDropped, ClientError ''dns-resolution'', SIP_TRUNK_FAILURE, True)
              (EPsrpc InvalidArgument err)
          else if list_ex is_op_error ch then
            verdict_failure err (callDropped, ServerError ''network-error'', SIP_TRUNK_FAILURE, True)
              (EPsrpc Unavailable err)
          else if errors_Is err ErrAuthMaxRetry \<or> errors_Is err ErrAuthMissingCreds \<or> errors_Is err ErrAuthNoHeader then
            verdict_failure err (callRejected, ClientError ''auth-failed'', USER_REJECTED, True) err
          else res))"

text \<open>src/pkg/errors/errors.go; \<open>grpc\<close> maps the status code of a \<open>livekit.SIPStatus\<close>
  to the psrpc code of its gRPC status.\<close>

definition ApplySIPStatus :: "(int \<Rightarrow> psrpc_code) \<Rightarrow> go_error \<Rightarrow> go_error" where
  "ApplySIPStatus grpc err = (case as_SIPStatus err of
     None \<Rightarrow> err | Some (code, _) \<Rightarrow> EPsrpc (grpc code) err)"

section \<open>Properties\<close>

lemma classifyInviteError_status:
  assumes "first_some classifier1 (chain err) = None" "as_SIPStatus err = Some (code, status)"
    and "classify_status code status = Some v"
  shows "classifyInviteError err = verdict_failure err v err"
  using assms by (simp add: classifyInviteError_def)

lemma classify_status_some:
  "400 \<le> code \<Longrightarrow> code < 700 \<Longrightarrow> \<exists>st t dr k. classify_status code status = Some (st, t, dr, k) \<and>
     (Result t = ResultClientError \<or> (Result t = ResultUpstreamError \<and> 500 \<le> code \<and> code < 600))"
  by (auto simp: classify_status_def Let_def term_defs)

text \<open>A final SIP response from the peer is never counted against the bridge: an
  INVITE that failed with a status from 400 to 699, however the error is wrapped,
  terminates as a client error, or as an upstream error for a 5xx, and never as a
  server error; the error handed back to the caller is the one that came in.\<close>

theorem final_response_not_server_error:
  assumes "first_some classifier1 (chain err) = None"
    and "as_SIPStatus err = Some (code, status)" "400 \<le> code" "code < 700"
  shows "Result (Term (ifEnd (classifyInviteError err))) \<noteq> ResultServerError \<and>
    (Result (Term (ifEnd (classifyInviteError err))) = ResultUpstreamError \<longrightarrow> 500 \<le> code \<and> code < 600) \<and>
    returnErr (afterInvite (classifyInviteError err)) = Some err"
proof -
  obtain st t dr k where v: "classify_status code status = Some (st, t, dr, k)"
      "Result t = ResultClientError \<or> (Result t = ResultUpstreamError \<and> 500 \<le> code \<and> code < 600)"
    using classify_status_some [OF assms(3,4)] by blast
  have "classifyInviteError err = verdict_failure err (st, t, dr, k) err"
    by (rule classifyInviteError_status [OF assms(1,2) v(1)])
  then show ?thesis using v(2) by (auto simp: verdict_failure_def mk_end_def afterInvite_def)
qed

theorem final_response_not_server_error_witness:
  "Result (Term (ifEnd (classifyInviteError (EWrap ''invite'' (ESIPStatus 503 ''Service Unavailable''))))) \<noteq> ResultServerError"
proof -
  have "first_some classifier1 (chain (EWrap ''invite'' (ESIPStatus 503 ''Service Unavailable''))) = None"
    "as_SIPStatus (EWrap ''invite'' (ESIPStatus 503 ''Service Unavailable'')) = Some (503, ''Service Unavailable'')"
    by simp_all
  from final_response_not_server_error [OF this] show ?thesis by simp
qed

text \<open>Once an INVITE was sent, a failure on the bridge's side is handed back as
  FailedPrecondition, so that the caller does not dial again, and the original cause
  stays in the chain of the returned error; verdicts of any other class are unchanged.\<close>

theorem afterInvite_not_retryable:
  "Result (Term (ifEnd (classifyInviteError err))) = ResultServerError \<and>
     (\<exists>e. returnErr (afterInvite (classifyInviteError err)) = Some (EPsrpc FailedPrecondition e) \<and>
          err \<in> set (chain e)) \<or>
   Result (Term (ifEnd (classifyInviteError err))) \<noteq> ResultServerError \<and>
     afterInvite (classifyInviteError err) = classifyInviteError err"
proof (cases "Result (Term (ifEnd (classifyInviteError err))) = ResultServerError")
  case False
  then show ?thesis by (simp add: afterInvite_def)
next
  case True
  have none: "first_some classifier1 (chain err) = None"
  proof (rule ccontr)
    assume "first_some classifier1 (chain err) \<noteq> None"
    then obtain f where f: "first_some classifier1 (chain err) = Some f" by auto
    then obtain e where "classifier1 e = Some f" using first_some_Some by metis
    then have "Result (Term (ifEnd f)) \<noteq> ResultServerError"
      by (cases e) (auto simp: SDPError_ClassifyInvite_def transactionTimeoutError_ClassifyInvite_def
          carrierBlockedError_ClassifyInvite_def mk_end_def term_defs split: if_splits)
    then show False using True f by (simp add: classifyInviteError_def)
  qed
  have "\<exists>e. returnErr (classifyInviteError err) = Some e \<and> err \<in> set (chain e)"
    using none by (auto simp: classifyInviteError_def Let_def verdict_failure_def split: option.splits prod.splits)
  then show ?thesis using True by (auto simp: afterInvite_def)
qed

lemma no_classifier_auth: "first_some classifier1 (chain (authError s resp)) = None"
  by (cases resp) (auto simp: authError_def split: prod.splits)

text \<open>An authentication failure is always reported as such: whatever the last 401 or
  407 response said, the error built by \<open>authError\<close> is classified as the client error
  auth-failed with its detail kept for the report, and it is not re-bucketed by the
  status code of that response.\<close>

theorem authError_classified:
  assumes "s \<in> {ErrAuthMaxRetry, ErrAuthMissingCreds, ErrAuthNoHeader}"
  shows "classifyInviteError (authError s resp) =
    \<lparr>ifEnd = \<lparr>Report = Some (authError s resp), Status = callRejected, Term = ClientError ''auth-failed'',
        Reason = USER_REJECTED, EHeaders = [], Code = 0\<rparr>, returnErr = Some (authError s resp)\<rparr>"
proof -
  have "as_SIPStatus (authError s resp) = None" "errors_Is (authError s resp) t = (s = t)"
    "\<not> list_ex is_addr_error (chain (authError s resp))" "\<not> list_ex is_dns_error (chain (authError s resp))"
    "\<not> list_ex is_op_error (chain (authError s resp))" for t
    by (auto simp: authError_def split: option.splits prod.splits)
  note facts = this
  have "s \<noteq> ErrSIPRequestTimeout" "s \<noteq> CtxDeadlineExceeded" "s \<noteq> CtxCanceled"
    "s = ErrAuthMaxRetry \<or> s = ErrAuthMissingCreds \<or> s = ErrAuthNoHeader"
    using assms by auto
  then show ?thesis
    unfolding classifyInviteError_def Let_def no_classifier_auth facts(1,2)
    using facts(3-5) by (simp add: verdict_failure_def mk_end_def)
qed

theorem authError_classified_witness:
  "Term (ifEnd (classifyInviteError (authError ErrAuthMaxRetry (Some
     \<lparr>StatusCode = 407, RespReason = ''Proxy Authentication Required'', RespHeader = (\<lambda>_. None), RespBody = ''''\<rparr>)))) =
   ClientError ''auth-failed''"
  using authError_classified [of ErrAuthMaxRetry] by simp

text \<open>A permanent carrier block is told apart from an ordinary decline: when the
  response carries a Twilio error whose leading code is a known block code, the
  verdict is the client error carrier-blocked, the SIP status of the response is what
  the caller gets back, and it is also still found in the reported error.\<close>

theorem carrier_block_classified:
  assumes "RespHeader resp ''X-Twilio-Error'' = Some v" "parseLeadingProviderCode v = 32203"
    and "carrierBlockFromResponse resp (sipStatusFromResponse resp) = Some e"
  shows "Term (ifEnd (classifyInviteError e)) = ClientError ''carrier-blocked'' \<and>
    returnErr (classifyInviteError e) = Some (ESIPStatus (to_int32 (StatusCode resp)) v) \<and>
    Report (ifEnd (classifyInviteError e)) = Some e \<and>
    as_SIPStatus e = Some (to_int32 (StatusCode resp), v)"
  using assms
  by (auto simp: carrierBlockFromResponse_def sipStatusFromResponse_def classifyInviteError_def
      carrierBlockedError_ClassifyInvite_def mk_end_def as_SIPStatus_def split: if_splits)

definition twilio_603 :: sip_response where
  "twilio_603 = \<lparr>StatusCode = 603, RespReason = ''Decline'',
     RespHeader = map_of [(''X-Twilio-Error'', ''32203 Call blocked'')], RespBody = ''''\<rparr>"

theorem carrier_block_classified_witness:
  "Term (ifEnd (classifyInviteError (ECarrierBlocked 603 ''32203 Call blocked'' ''twilio'' 32203))) =
   ClientError ''carrier-blocked''"
proof -
  have "RespHeader twilio_603 ''X-Twilio-Error'' = Some ''32203 Call blocked''" by (simp add: twilio_603_def)
  moreover have "parseLeadingProviderCode ''32203 Call blocked'' = 32203" by code_simp
  moreover have "carrierBlockFromResponse twilio_603 (sipStatusFromResponse twilio_603) =
      Some (ECarrierBlocked 603 ''32203 Call blocked'' ''twilio'' 32203)" by code_simp
  ultimately show ?thesis using carrier_block_classified by blast
qed

lemma classifier1_returns: "returnErr f \<noteq> None" if "classifier1 x = Some f" for x f
    using that by (cases x) (auto simp: SDPError_ClassifyInvite_def transactionTimeoutError_ClassifyInvite_def
        carrierBlockedError_ClassifyInvite_def)

lemma classifiers_return: "returnErr f \<noteq> None" if "first_some classifier1 l = Some f" for l f
    using that classifier1_returns by (induction l) (auto split: option.splits)

lemma verdict_returns: "returnErr (verdict_failure err' v r) = Some r" for err' v r by (cases v) (simp add: verdict_failure_def)

text \<open>Every failure comes with an error for the caller.\<close>

lemma classifyInviteError_returns: "returnErr (classifyInviteError err) \<noteq> None"
proof (cases "first_some classifier1 (chain err)")
  case None
  show ?thesis
  proof (cases "as_SIPStatus err")
    case (Some st)
    then show ?thesis using None verdict_returns by (cases st; cases "classify_status (fst st) (snd st)") (simp_all add: classifyInviteError_def)
  next
    case N: None
    show ?thesis unfolding classifyInviteError_def Let_def None N option.case
      by (simp only: if_distrib [of returnErr] verdict_returns inviteFailure.simps option.simps if_split_mem1 cong: if_cong) simp
  qed
qed (use classifiers_return in \<open>simp add: classifyInviteError_def\<close>)

lemma afterInvite_returns: "returnErr (afterInvite f) = None \<Longrightarrow> returnErr f = None" by (auto simp: afterInvite_def Let_def split: if_splits)

section \<open>Verdicts on a transaction that does not complete\<close>

lemma sipResponse_loop_timeout:
  "sipResponse_loop cnt seen es = Some r \<Longrightarrow> tx_res r = Err (EPsrpc Canceled (ETxTimeout n)) \<Longrightarrow>
     n + int (length seen) = cnt + int (length (tx_seen r)) \<and> \<not> tx_sentCancel r"
  by (induction cnt seen es rule: sipResponse_loop.induct)
     (auto simp: tx_timeout_result_def split: if_splits)

text \<open>When an INVITE transaction dies without a final response, the verdict depends
  exactly on whether the peer ever answered: with no provisional response seen the
  failure is unattributable (upstream-no-response), and after at least one provisional
  response it is the peer's (no-final-response).\<close>

theorem transaction_timeout_verdict:
  assumes "sipResponse es = Some r" "tx_res r = Err (EPsrpc Canceled (ETxTimeout n))"
  shows "Term (ifEnd (classifyInviteError (EPsrpc Canceled (ETxTimeout n)))) =
    (if tx_seen r = [] then Indeterminate ''upstream-no-response'' else ClientError ''no-final-response'')"
proof -
  have "n = int (length (tx_seen r))"
    using sipResponse_loop_timeout [of 0 "[]" es r n] assms by (simp add: sipResponse_def)
  then show ?thesis
    by (simp add: classifyInviteError_def transactionTimeoutError_ClassifyInvite_def mk_end_def)
qed

theorem transaction_timeout_verdict_witness:
  "Term (ifEnd (classifyInviteError (EPsrpc Canceled (ETxTimeout 1)))) = ClientError ''no-final-response''"
proof -
  let ?ringing = "\<lparr>StatusCode = 180, RespReason = ''Ringing'', RespHeader = (\<lambda>_. None), RespBody = ''''\<rparr> :: sip_response"
  have "sipResponse [TxResponse (Some ?ringing), TxDone] = Some (tx_timeout_result 1 [180])"
    by (simp add: sipResponse_def)
  from transaction_timeout_verdict [OF this, of 1] show ?thesis by (simp add: tx_timeout_result_def)
qed

end
