(* ===== verification/SilenceFiller.thy ===== *)
theory SilenceFiller
  imports GoErrors
begin

text \<open>
  src/pkg/sip/silence_filler.go: RTP packets without a sequence gap but with a
  gap in the timestamp (silence suppression) are preceded by generated silence.
  Sequence numbers are 16-bit and timestamps 32-bit words that wrap around; the
  counters are 64-bit words.  The two sinks are represented by what is written
  to them, in order, and by the errors they return.
\<close>

record rtp_header =
  SequenceNumber :: "16 word"
  Timestamp :: "32 word"

record silenceFiller =
  maxGapSize :: int
  rtpSamplesPerFrame :: int
  pcmSamplesPerFrame :: int
  lastTS :: "64 word"
  lastSeq :: "64 word"
  packets :: "64 word"
  gapCount :: "64 word"
  gapSizeSum :: "64 word"

definition DefFramesPerSec :: int where "DefFramesPerSec = 50"

definition WithMaxGapSize :: "int \<Rightarrow> silenceFiller \<Rightarrow> silenceFiller" where
  "WithMaxGapSize n h = (if n > 0 then h\<lparr>maxGapSize := n\<rparr> else h)"

definition newSilenceFiller :: "int \<Rightarrow> int \<Rightarrow> (silenceFiller \<Rightarrow> silenceFiller) list \<Rightarrow> silenceFiller" where
  "newSilenceFiller rtpClockRate pcmSampleRate options =
     fold (\<lambda>opt h. opt h) options
       \<lparr>maxGapSize = 25, rtpSamplesPerFrame = rtpClockRate div DefFramesPerSec,
        pcmSamplesPerFrame = pcmSampleRate div DefFramesPerSec,
        lastTS = 0, lastSeq = 0, packets = 0, gapCount = 0, gapSizeSum = 0\<rparr>"

text \<open>\<^const>\<open>None\<close> is the panic of a division by a zero frame size.\<close>

definition isSilenceSuppression :: "silenceFiller \<Rightarrow> rtp_header \<Rightarrow> silenceFiller \<times> (bool \<times> int) option" where
  "isSilenceSuppression h hdr = (let
     pk = packets h + 1;
     lSeq = (ucast (lastSeq h) :: 16 word);
     lTS = (ucast (lastTS h) :: 32 word);
     h' = h\<lparr>packets := pk, lastSeq := ucast (SequenceNumber hdr), lastTS := ucast (Timestamp hdr)\<rparr>;
     expectedSeq = lSeq + 1;
     expectedTS = lTS + word_of_int (rtpSamplesPerFrame h);
     seqDiff = SequenceNumber hdr - expectedSeq;
     tsDiff = Timestamp hdr - expectedTS
   in if pk = 1 then (h', Some (False, 0))
      else if seqDiff \<noteq> 0 then (h', Some (False, 0))
      else if rtpSamplesPerFrame h = 0 then (h', None)
      else let missedFrames = uint tsDiff div rtpSamplesPerFrame h in
        if missedFrames = 0 then (h', Some (False, 0)) else (h', Some (True, missedFrames)))"

text \<open>What reaches the sinks: frames of silence on the PCM sink, packets on the
  encoded sink.\<close>

datatype sink_write = SilenceFrame "int list" | EncodedPacket rtp_header string

text \<open>\<open>pcm_err i\<close> is what the \<open>i\<close>-th write of silence returns.\<close>

fun fillWithSilence :: "(nat \<Rightarrow> go_error option) \<Rightarrow> nat \<Rightarrow> int \<Rightarrow> nat \<Rightarrow> sink_write list \<times> go_error option" where
  "fillWithSilence pcm_err i n 0 = ([], None)"
| "fillWithSilence pcm_err i n (Suc k) = (case pcm_err i of
     Some e \<Rightarrow> ([SilenceFrame (replicate (nat n) 0)], Some e)
   | None \<Rightarrow> (case fillWithSilence pcm_err (Suc i) n k of
       (ws, r) \<Rightarrow> (SilenceFrame (replicate (nat n) 0) # ws, r)))"

definition HandleRTP ::
  "(nat \<Rightarrow> go_error option) \<Rightarrow> go_error option \<Rightarrow> silenceFiller \<Rightarrow> rtp_header \<Rightarrow> string \<Rightarrow>
   silenceFiller \<times> (sink_write list \<times> go_error option) option" where
  "HandleRTP pcm_err enc_err h hdr payload = (case isSilenceSuppression h hdr of
     (h1, None) \<Rightarrow> (h1, None)
   | (h1, Some (isSup, missing)) \<Rightarrow>
       (if isSup \<and> missing \<le> maxGapSize h1 * 100 then
          (let h2 = h1\<lparr>gapCount := gapCount h1 + 1, gapSizeSum := gapSizeSum h1 + word_of_int missing\<rparr> in
           if missing \<le> maxGapSize h2 then
             (case fillWithSilence pcm_err 0 (pcmSamplesPerFrame h2) (nat missing) of
                (ws, Some e) \<Rightarrow> (h2, Some (ws, Some e))
              | (ws, None) \<Rightarrow> (h2, Some (ws @ [EncodedPacket hdr payload], enc_err)))
           else (h2, Some ([EncodedPacket hdr payload], enc_err)))
        else (h1, Some ([EncodedPacket hdr payload], enc_err))))"

section \<open>Properties\<close>

text \<open>A filler that has seen a packet with the given sequence number and timestamp.\<close>

definition seen_packet :: "16 word \<Rightarrow> 32 word \<Rightarrow> silenceFiller \<Rightarrow> bool" where
  "seen_packet s t h \<longleftrightarrow> packets h \<noteq> 0 \<and> packets h \<noteq> - 1 \<and> lastSeq h = ucast s \<and> lastTS h = ucast t"

lemma ucast_16_64 [simp]: "(ucast (ucast (s :: 16 word) :: 64 word) :: 16 word) = s"
  by (rule bit_word_eqI) (simp add: bit_simps)

lemma ucast_32_64 [simp]: "(ucast (ucast (t :: 32 word) :: 64 word) :: 32 word) = t"
  by (rule bit_word_eqI) (simp add: bit_simps)

lemma filler_params_step:
  "rtpSamplesPerFrame (fst (isSilenceSuppression h hdr)) = rtpSamplesPerFrame h"
  "maxGapSize (fst (isSilenceSuppression h hdr)) = maxGapSize h"
  "pcmSamplesPerFrame (fst (isSilenceSuppression h hdr)) = pcmSamplesPerFrame h"
  by (simp_all add: isSilenceSuppression_def Let_def)

lemma fillWithSilence_ok:
  "(\<And>i. pcm_err i = None) \<Longrightarrow>
     fillWithSilence pcm_err i n k = (replicate k (SilenceFrame (replicate (nat n) 0)), None)"
  by (induction k arbitrary: i) simp_all

lemma fillWithSilence_length: "length (fst (fillWithSilence pcm_err i n k)) \<le> k"
  by (induction k arbitrary: i) (auto split: option.splits prod.splits simp: prod_eq_iff)

lemma uint_word_of_gap:
  "0 \<le> a \<Longrightarrow> a < 2 ^ 32 \<Longrightarrow> uint (word_of_int a :: 32 word) = a"
  by (simp add: uint_word_of_int take_bit_int_eq_self)

text \<open>A consecutive packet whose timestamp is \<open>k\<close> frames late.\<close>

lemma isSilenceSuppression_gap:
  assumes h: "seen_packet s t h" and spf: "0 < rtpSamplesPerFrame h"
    and k: "int k * rtpSamplesPerFrame h < 2 ^ 32"
    and hdr: "SequenceNumber hdr = s + 1"
      "Timestamp hdr = t + word_of_int ((int k + 1) * rtpSamplesPerFrame h)"
  shows "snd (isSilenceSuppression h hdr) = Some (if k = 0 then (False, 0) else (True, int k))"
proof -
  let ?f = "rtpSamplesPerFrame h"
  have "Timestamp hdr - (t + word_of_int ?f) = word_of_int (int k * ?f)"
    by (simp add: hdr(2) algebra_simps wi_hom_add [symmetric] wi_hom_mult)
  then have u: "uint (Timestamp hdr - (t + word_of_int ?f)) = int k * ?f"
    using uint_word_of_gap [of "int k * ?f"] spf k by (simp del: of_int_mult of_int_of_nat_eq)
  have "packets h + 1 \<noteq> 1" using h by (simp add: seen_packet_def)
  then show ?thesis
    using h spf u hdr(1) by (simp add: isSilenceSuppression_def Let_def seen_packet_def)
qed

lemma HandleRTP_gap:
  assumes h: "seen_packet s t h" and spf: "0 < rtpSamplesPerFrame h"
    and k: "int k \<le> maxGapSize h" "int k * rtpSamplesPerFrame h < 2 ^ 32"
    and hdr: "SequenceNumber hdr = s + 1"
      "Timestamp hdr = t + word_of_int ((int k + 1) * rtpSamplesPerFrame h)"
    and ok: "\<And>i. pcm_err i = None"
  shows "snd (HandleRTP pcm_err enc_err h hdr payload) =
    Some (replicate k (SilenceFrame (replicate (nat (pcmSamplesPerFrame h)) 0)) @ [EncodedPacket hdr payload], enc_err)"
proof -
  obtain h1 where eq: "isSilenceSuppression h hdr = (h1, Some (if k = 0 then (False, 0) else (True, int k)))"
    using isSilenceSuppression_gap [OF h spf k(2) hdr] by (cases "isSilenceSuppression h hdr") auto
  have h1: "maxGapSize h1 = maxGapSize h" "pcmSamplesPerFrame h1 = pcmSamplesPerFrame h"
    using filler_params_step [of h hdr] eq by simp_all
  have "0 \<le> maxGapSize h" "int k \<le> maxGapSize h * 100" using k(1) by linarith+
  then show ?thesis using k(1) h1 ok
    by (simp add: HandleRTP_def eq Let_def fillWithSilence_ok)
qed

text \<open>Silence suppression is filled exactly: when a packet follows its predecessor
  without a sequence gap and its timestamp is \<open>k\<close> frames later than expected, with
  \<open>k\<close> at most the maximal gap, then exactly \<open>k\<close> frames of zero samples are written
  before the packet; sequence numbers and timestamps may wrap around in between.\<close>

theorem silence_gap_filled_exactly:
  assumes "seen_packet s t h" "0 < rtpSamplesPerFrame h"
    and "int k \<le> maxGapSize h" "int k * rtpSamplesPerFrame h < 2 ^ 32"
    and "\<forall>i. pcm_err i = None"
  shows "snd (HandleRTP pcm_err enc_err h
      \<lparr>SequenceNumber = s + 1, Timestamp = t + word_of_int ((int k + 1) * rtpSamplesPerFrame h)\<rparr> payload) =
    Some (replicate k (SilenceFrame (replicate (nat (pcmSamplesPerFrame h)) 0)) @
      [EncodedPacket \<lparr>SequenceNumber = s + 1,
        Timestamp = t + word_of_int ((int k + 1) * rtpSamplesPerFrame h)\<rparr> payload], enc_err)"
  using assms by (intro HandleRTP_gap) auto

definition filler_at_wrap :: silenceFiller where
  "filler_at_wrap = \<lparr>maxGapSize = 25, rtpSamplesPerFrame = 160, pcmSamplesPerFrame = 4,
     lastTS = 4294967200, lastSeq = 65535, packets = 9, gapCount = 0, gapSizeSum = 0\<rparr>"

theorem silence_gap_filled_exactly_witness:
  "snd (HandleRTP (\<lambda>_. None) None filler_at_wrap \<lparr>SequenceNumber = 0, Timestamp = 384\<rparr> ''x'') =
    Some ([SilenceFrame [0, 0, 0, 0], SilenceFrame [0, 0, 0, 0],
      EncodedPacket \<lparr>SequenceNumber = 0, Timestamp = 384\<rparr> ''x''], None)"
proof -
  have f: "rtpSamplesPerFrame filler_at_wrap = 160" "maxGapSize filler_at_wrap = 25"
    "pcmSamplesPerFrame filler_at_wrap = 4" by (simp_all add: filler_at_wrap_def)
  have four: "replicate 4 (0::int) = [0, 0, 0, 0]" by code_simp
  have two: "replicate (Suc (Suc 0)) x = [x, x]" for x :: sink_write by simp
  have "seen_packet 65535 4294967200 filler_at_wrap"
    by (simp add: filler_at_wrap_def seen_packet_def)
  from silence_gap_filled_exactly [OF this, of "Suc (Suc 0)" "\<lambda>_. None" None "''x''"]
  moreover have "(65536 :: 16 word) = 0" "(4294967680 :: 32 word) = 384"
    by (simp_all add: word_uint_eq_iff)
  ultimately show ?thesis unfolding f two by (simp add: four)
qed

text \<open>A gap never floods the PCM sink: whatever the packet and the state, at most
  \<open>maxGapSize\<close> frames of silence are generated before it, and when the sinks accept
  the writes the packet itself is always forwarded, as the last write.\<close>

theorem silence_bounded_and_packet_forwarded:
  assumes "0 \<le> maxGapSize h" "rtpSamplesPerFrame h \<noteq> 0" "\<forall>i. pcm_err i = None"
  shows "\<exists>ws. snd (HandleRTP pcm_err enc_err h hdr payload) = Some (ws @ [EncodedPacket hdr payload], enc_err) \<and>
    int (length ws) \<le> maxGapSize h \<and>
    set ws \<subseteq> {SilenceFrame (replicate (nat (pcmSamplesPerFrame h)) 0)}"
proof -
  have "snd (isSilenceSuppression h hdr) \<noteq> None"
    using assms(2) by (auto simp: isSilenceSuppression_def Let_def)
  then obtain h1 b m where eq: "isSilenceSuppression h hdr = (h1, Some (b, m))"
    by (metis eq_snd_iff option.exhaust surj_pair)
  have p: "maxGapSize h1 = maxGapSize h" "pcmSamplesPerFrame h1 = pcmSamplesPerFrame h"
    using filler_params_step [of h hdr] eq by simp_all
  show ?thesis using assms p
    by (auto simp: HandleRTP_def eq Let_def fillWithSilence_ok)
qed

theorem silence_bounded_and_packet_forwarded_witness:
  "\<exists>ws. snd (HandleRTP (\<lambda>_. None) None filler_at_wrap \<lparr>SequenceNumber = 0, Timestamp = 800000\<rparr> ''x'') =
     Some (ws @ [EncodedPacket \<lparr>SequenceNumber = 0, Timestamp = 800000\<rparr> ''x''], None) \<and>
    int (length ws) \<le> 25 \<and> set ws \<subseteq> {SilenceFrame [0, 0, 0, 0]}"
proof -
  have f: "rtpSamplesPerFrame filler_at_wrap = 160" "maxGapSize filler_at_wrap = 25"
    "pcmSamplesPerFrame filler_at_wrap = 4" by (simp_all add: filler_at_wrap_def)
  have four: "replicate 4 (0::int) = [0, 0, 0, 0]" by code_simp
  show ?thesis
    using silence_bounded_and_packet_forwarded [of filler_at_wrap "\<lambda>_. None" None
      "\<lparr>SequenceNumber = 0, Timestamp = 800000\<rparr>" "''x''"]
    unfolding f by (simp add: four)
qed

section \<open>A whole stream\<close>

fun run_filler :: "silenceFiller \<Rightarrow> rtp_header list \<Rightarrow> sink_write list" where
  "run_filler h [] = []"
| "run_filler h (p # ps) = (case HandleRTP (\<lambda>_. None) None h p '''' of
     (h', Some (ws, _)) \<Rightarrow> ws @ run_filler h' ps
   | (h', None) \<Rightarrow> [])"

text \<open>The packets of a sender that suppresses \<open>k\<close> frames before each packet.\<close>

fun dtx_stream :: "int \<Rightarrow> 16 word \<Rightarrow> 32 word \<Rightarrow> nat list \<Rightarrow> rtp_header list" where
  "dtx_stream f s t [] = []"
| "dtx_stream f s t (k # ks) = (let t' = t + word_of_int ((int k + 1) * f) in
     \<lparr>SequenceNumber = s + 1, Timestamp = t'\<rparr> # dtx_stream f (s + 1) t' ks)"

lemma HandleRTP_state:
  "fst (HandleRTP pe ee h hdr pl) = (let h1 = fst (isSilenceSuppression h hdr) in
     h1\<lparr>gapCount := gapCount (fst (HandleRTP pe ee h hdr pl)), gapSizeSum := gapSizeSum (fst (HandleRTP pe ee h hdr pl))\<rparr>)"
  by (auto simp: HandleRTP_def Let_def split: prod.splits option.splits)

lemma HandleRTP_fields:
  "rtpSamplesPerFrame (fst (HandleRTP pe ee h hdr pl)) = rtpSamplesPerFrame h"
  "maxGapSize (fst (HandleRTP pe ee h hdr pl)) = maxGapSize h"
  "packets (fst (HandleRTP pe ee h hdr pl)) = packets h + 1"
  "lastSeq (fst (HandleRTP pe ee h hdr pl)) = ucast (SequenceNumber hdr)"
  "lastTS (fst (HandleRTP pe ee h hdr pl)) = ucast (Timestamp hdr)"
  by (subst HandleRTP_state, simp add: isSilenceSuppression_def Let_def)+

lemma run_filler_dtx:
  assumes "lastSeq h = ucast s" "lastTS h = ucast t" "0 < rtpSamplesPerFrame h"
    and "0 < unat (packets h)" "unat (packets h) + length ks < 2 ^ 64"
    and "\<forall>k\<in>set ks. int k \<le> maxGapSize h" "maxGapSize h * rtpSamplesPerFrame h < 2 ^ 32"
  shows "length (run_filler h (dtx_stream (rtpSamplesPerFrame h) s t ks)) = (\<Sum>k\<leftarrow>ks. k + 1)"
  using assms
proof (induction ks arbitrary: h s t)
  case (Cons k ks)
  let ?f = "rtpSamplesPerFrame h"
  let ?t = "t + word_of_int ((int k + 1) * ?f)"
  let ?p = "\<lparr>SequenceNumber = s + 1, Timestamp = ?t\<rparr>"
  let ?h = "fst (HandleRTP (\<lambda>_. None) None h ?p '''')"
  have pk: "packets h \<noteq> 0" using Cons.prems(4) by auto
  have "unat (- 1 :: 64 word) = 2 ^ 64 - 1"
    by (simp add: unsigned_minus_1_eq_mask mask_eq_exp_minus_1)
  then have "packets h \<noteq> - 1" using Cons.prems(5) by auto
  then have seen: "seen_packet s t h" using Cons.prems(1,2) pk by (simp add: seen_packet_def)
  have "int k * ?f \<le> maxGapSize h * ?f" using Cons.prems(3,6) by (intro mult_right_mono) auto
  then have "int k * ?f < 2 ^ 32" using Cons.prems(7) by linarith
  then have out: "snd (HandleRTP (\<lambda>_. None) None h ?p '''') =
      Some (replicate k (SilenceFrame (replicate (nat (pcmSamplesPerFrame h)) 0)) @ [EncodedPacket ?p ''''], None)"
    using Cons.prems(3,6) by (intro HandleRTP_gap [OF seen]) auto
  have un: "unat (packets h + 1) = unat (packets h) + 1"
    using Cons.prems(5) by (simp add: unat_word_ariths)
  have "length (run_filler ?h (dtx_stream (rtpSamplesPerFrame ?h) (s + 1) ?t ks)) = (\<Sum>k\<leftarrow>ks. k + 1)"
    by (rule Cons.IH) (use Cons.prems un in \<open>simp_all add: HandleRTP_fields\<close>)
  then have "length (run_filler ?h (dtx_stream ?f (s + 1) ?t ks)) = (\<Sum>k\<leftarrow>ks. k + 1)"
    unfolding HandleRTP_fields .
  then show ?case using out
    by (cases "HandleRTP (\<lambda>_. None) None h ?p ''''") (simp add: Let_def)
qed simp

text \<open>C35: over a whole stream with silence suppression the filler keeps the timeline: for
  every sequence of suppressed gaps no longer than the maximal gap, the number of
  frames that reach the sinks (silence and packets together) is the number of frames
  the sender's timestamp advanced by, however often the 16-bit sequence number and the
  32-bit timestamp wrap around.\<close>

theorem silence_filler_keeps_timeline:
  assumes "h = newSilenceFiller clock pcm []" "50 \<le> clock" "clock \<le> 2 ^ 30"
    and "\<forall>k\<in>set ks. k \<le> 25" "length ks < 2 ^ 63"
  shows "length (run_filler h (\<lparr>SequenceNumber = s, Timestamp = t\<rparr> #
      dtx_stream (clock div 50) s t ks)) = 1 + (\<Sum>k\<leftarrow>ks. k + 1)"
proof -
  let ?p = "\<lparr>SequenceNumber = s, Timestamp = t\<rparr>"
  have f: "rtpSamplesPerFrame h = clock div 50" "maxGapSize h = 25" "packets h = 0"
    using assms(1) by (simp_all add: newSilenceFiller_def DefFramesPerSec_def)
  have first: "snd (HandleRTP (\<lambda>_. None) None h ?p '''') = Some ([EncodedPacket ?p ''''], None)"
    by (simp add: HandleRTP_def isSilenceSuppression_def Let_def f)
  have "length (run_filler (fst (HandleRTP (\<lambda>_. None) None h ?p ''''))
      (dtx_stream (rtpSamplesPerFrame (fst (HandleRTP (\<lambda>_. None) None h ?p ''''))) s t ks)) = (\<Sum>k\<leftarrow>ks. k + 1)"
  proof (rule run_filler_dtx)
    show "0 < rtpSamplesPerFrame (fst (HandleRTP (\<lambda>_. None) None h ?p ''''))"
      using assms(2) by (simp add: HandleRTP_fields f pos_imp_zdiv_pos_iff)
    show "maxGapSize (fst (HandleRTP (\<lambda>_. None) None h ?p '''')) *
        rtpSamplesPerFrame (fst (HandleRTP (\<lambda>_. None) None h ?p '''')) < 2 ^ 32"
    proof -
      have "25 * (clock div 50) \<le> clock" using assms(2) by linarith
      then show ?thesis using assms(3) unfolding HandleRTP_fields f by simp
    qed
  qed (use assms(4,5) in \<open>auto simp: HandleRTP_fields f\<close>)
  then show ?thesis using first unfolding HandleRTP_fields f
    by (cases "HandleRTP (\<lambda>_. None) None h ?p ''''") simp
qed

theorem silence_filler_keeps_timeline_witness:
  "length (run_filler (newSilenceFiller 8000 48000 []) (\<lparr>SequenceNumber = 65535, Timestamp = 4294967200\<rparr> #
      dtx_stream (8000 div 50) 65535 4294967200 [0, 3, 0])) = 1 + (\<Sum>k\<leftarrow>[0, 3, 0]. k + 1)"
  by (rule silence_filler_keeps_timeline [OF refl]) simp_all

end
