(* ===== verification/DigestAuth.thy ===== *)
theory DigestAuth
  imports Protocol
begin

text \<open>
  src/pkg/sealer/sealer.go, src/pkg/sip/digest_nonce.go and the digest
  authentication of inbound INVITEs in src/pkg/sip/inbound.go.

  A challenge carries its creation time, sealed with keys that all servers
  share, so that any of them can check the retry.  The block cipher, the base64
  codec and the digest computation are parameters; what is relied on is
  collected in \<open>aead_ok\<close> and \<open>b64_ok\<close>.
\<close>

section \<open>sealer.go\<close>

text \<open>\<open>seal k n p a\<close> is the AEAD's ciphertext followed by its tag.\<close>

record 'k aead =
  aead_seal :: "'k \<Rightarrow> string \<Rightarrow> string \<Rightarrow> string \<Rightarrow> string"
  aead_open :: "'k \<Rightarrow> string \<Rightarrow> string \<Rightarrow> string \<Rightarrow> string option"

definition nonceSize :: nat where "nonceSize = 12"
definition tagSize :: nat where "tagSize = 16"

text \<open>The contract of \<open>cipher.AEAD\<close>: what was sealed opens to the plaintext, the output
  is longer by the tag, and only outputs of Seal open.\<close>

definition aead_ok :: "'k aead \<Rightarrow> bool" where
  "aead_ok A \<longleftrightarrow>
     (\<forall>k n p a. aead_open A k n (aead_seal A k n p a) a = Some p) \<and>
     (\<forall>k n p a. length (aead_seal A k n p a) = length p + tagSize) \<and>
     (\<forall>k n c a p. aead_open A k n c a = Some p \<longrightarrow> c = aead_seal A k n p a)"

text \<open>\<open>sha\<close> derives the AES key from a configured string (\<open>sha256.Sum256\<close> and
  \<open>aes.NewCipher\<close>, which accept every input of that length).\<close>

fun new_aeads :: "(string \<Rightarrow> 'k) \<Rightarrow> nat \<Rightarrow> string list \<Rightarrow> (go_error, 'k list) result" where
  "new_aeads sha i [] = Ok []"
| "new_aeads sha i (key # keys) =
     (if key = '''' then Err (ENew (''sealer: key '' @ Itoa (int i) @ '' is empty''))
      else (case new_aeads sha (Suc i) keys of Inl e \<Rightarrow> Err e | Inr ks \<Rightarrow> Ok (sha key # ks)))"

definition NewAESGCM :: "(string \<Rightarrow> 'k) \<Rightarrow> string list \<Rightarrow> (go_error, 'k list) result" where
  "NewAESGCM sha keys = (if keys = [] then Err (ENew ''sealer: no keys'') else new_aeads sha 0 keys)"

definition ErrInvalid :: go_error where
  "ErrInvalid = ESentinel (ErrSentinel ''sealer: invalid sealed value'')"

definition Overhead :: nat where "Overhead = nonceSize + tagSize"

text \<open>\<open>rnd\<close> is what the random source delivers for the nonce; \<^const>\<open>None\<close> a short read.\<close>

definition Seal :: "'k aead \<Rightarrow> 'k list \<Rightarrow> string option \<Rightarrow> string \<Rightarrow> string \<Rightarrow> string \<Rightarrow> (go_error, string) result" where
  "Seal A ks rnd dst plain aad = (case rnd of
     None \<Rightarrow> Err (EWrap ''sealer: reading nonce'' (ENew ''read''))
   | Some nonce \<Rightarrow> Ok (dst @ nonce @ aead_seal A (hd ks) nonce plain aad))"

fun open_any :: "'k aead \<Rightarrow> 'k list \<Rightarrow> string \<Rightarrow> string \<Rightarrow> string \<Rightarrow> string option" where
  "open_any A [] nonce body aad = None"
| "open_any A (k # ks) nonce body aad = (case aead_open A k nonce body aad of
     Some out \<Rightarrow> Some out | None \<Rightarrow> open_any A ks nonce body aad)"

definition Open :: "'k aead \<Rightarrow> 'k list \<Rightarrow> string \<Rightarrow> string \<Rightarrow> string \<Rightarrow> (go_error, string) result" where
  "Open A ks dst sealed aad = (if length sealed < nonceSize + tagSize then Err ErrInvalid
     else (case open_any A ks (take nonceSize sealed) (drop nonceSize sealed) aad of
        Some out \<Rightarrow> Ok (dst @ out) | None \<Rightarrow> Err ErrInvalid))"

section \<open>digest\_nonce.go\<close>

text \<open>\<open>binary.BigEndian\<close>: the low \<open>n\<close> bytes of a number, most significant first.\<close>

fun be_bytes :: "nat \<Rightarrow> int \<Rightarrow> string" where
  "be_bytes 0 x = []"
| "be_bytes (Suc n) x = be_bytes n (x div 256) @ [char_of (nat (x mod 256))]"

definition be_value :: "string \<Rightarrow> int" where
  "be_value s = foldl (\<lambda>a c. a * 256 + int (of_char c)) 0 s"

text \<open>Instants and durations are nanoseconds.  \<open>t.UnixMicro()\<close> rounds down.\<close>

definition UnixMicro :: "int \<Rightarrow> int" where "UnixMicro t = t div 1000"

text \<open>\<open>t.Sub(u)\<close> saturates at the range of a 64-bit duration.\<close>

definition time_Sub :: "int \<Rightarrow> int \<Rightarrow> int" where
  "time_Sub t u = max (- (2 ^ 63)) (min (2 ^ 63 - 1) (t - u))"

definition second :: int where "second = 1000000000"
definition authChallengeTimeout :: int where "authChallengeTimeout = 30 * second"
definition digestNonceTTL :: int where "digestNonceTTL = authChallengeTimeout"

definition errDigestNonceExpired :: sentinel where
  "errDigestNonceExpired = ErrSentinel ''digest nonce expired''"

definition digestNonceAAD :: "string \<Rightarrow> string" where
  "digestNonceAAD sipCallID = ''sip-digest-nonce'' @ [CHR 0x00] @ sipCallID"

record b64 =
  b64_enc :: "string \<Rightarrow> string"
  b64_dec :: "string \<Rightarrow> string option"

definition b64_ok :: "b64 \<Rightarrow> bool" where
  "b64_ok B \<longleftrightarrow> (\<forall>s. b64_dec B (b64_enc B s) = Some s)"

definition issueDigestNonce ::
  "'k aead \<Rightarrow> b64 \<Rightarrow> 'k list \<Rightarrow> string option \<Rightarrow> string \<Rightarrow> int \<Rightarrow> (go_error, string) result" where
  "issueDigestNonce A B ks rnd sipCallID now =
     (case Seal A ks rnd '''' (be_bytes 8 (UnixMicro now mod 2 ^ 64)) (digestNonceAAD sipCallID) of
        Inl e \<Rightarrow> Err e | Inr b \<Rightarrow> Ok (b64_enc B b))"

definition checkDigestNonce ::
  "'k aead \<Rightarrow> b64 \<Rightarrow> 'k list \<Rightarrow> string \<Rightarrow> string \<Rightarrow> int \<Rightarrow> go_error option" where
  "checkDigestNonce A B ks nonce sipCallID now = (case b64_dec B nonce of
     None \<Rightarrow> Some (EWrap ''base64'' ErrInvalid)
   | Some b \<Rightarrow> (case Open A ks '''' b (digestNonceAAD sipCallID) of
       Inl e \<Rightarrow> Some e
     | Inr plain \<Rightarrow>
         if length plain \<noteq> 8 then Some (EWrap ''timestamp length'' ErrInvalid)
         else let created = to_int64 (be_value plain) * 1000; age = time_Sub now created in
           if age > digestNonceTTL \<or> age < - digestNonceTTL
           then Some (EWrap ''age'' (ESentinel errDigestNonceExpired)) else None))"

section \<open>inbound.go: digest authentication\<close>

record InboundAuth =
  Realm :: string
  Username :: string
  Password :: string

record credentials =
  cr_Username :: string
  cr_Nonce :: string
  cr_URI :: string
  cr_Response :: string

text \<open>\<open>parse\<close> is \<open>digest.ParseCredentials\<close>; \<open>digest realm nonce uri user password\<close> is the
  MD5 response for method INVITE, \<^const>\<open>None\<close> its error.\<close>

record digest_lib =
  parse_cred :: "string \<Rightarrow> credentials option"
  digest_fn :: "string \<Rightarrow> string \<Rightarrow> string \<Rightarrow> string \<Rightarrow> string \<Rightarrow> string option"

record 'k auth_env =
  env_aead :: "'k aead"
  env_b64 :: b64
  env_digest :: digest_lib
  env_keys :: "'k list"

definition inviteHasAuth :: "sip_request \<Rightarrow> bool" where
  "inviteHasAuth r \<longleftrightarrow> ReqHeader r ''Proxy-Authorization'' \<noteq> None \<or> ReqHeader r ''Authorization'' \<noteq> None"

definition sipCallID_of :: "sip_request \<Rightarrow> string" where
  "sipCallID_of req = (case ReqHeader req ''Call-ID'' of Some v \<Rightarrow> v | None \<Rightarrow> '''')"

definition mk_result :: "int \<Rightarrow> string \<Rightarrow> ResultSt" where
  "mk_result c s = \<lparr>RCode = c, RStatus = s\<rparr>"

definition validateAuthorization ::
  "'k auth_env \<Rightarrow> sip_request \<Rightarrow> InboundAuth \<Rightarrow> int \<Rightarrow> ResultSt \<times> bool" where
  "validateAuthorization E req auth now = (case ReqHeader req ''Proxy-Authorization'' of
     None \<Rightarrow> (mk_result 407 '''', False)
   | Some creds \<Rightarrow> (case parse_cred (env_digest E) creds of
       None \<Rightarrow> (mk_result 401 ''Bad credentials'', False)
     | Some cred \<Rightarrow>
         if cr_Username cred \<noteq> Username auth then (mk_result 401 ''Unauthorized'', False)
         else let nerr = checkDigestNonce (env_aead E) (env_b64 E) (env_keys E) (cr_Nonce cred) (sipCallID_of req) now in
           if (case nerr of None \<Rightarrow> False | Some e \<Rightarrow> \<not> errors_Is e errDigestNonceExpired)
           then (mk_result 401 ''Bad credentials'', False)
           else let stale = (nerr \<noteq> None) in
             (case digest_fn (env_digest E) (Realm auth) (cr_Nonce cred) (cr_URI cred) (cr_Username cred) (Password auth) of
                None \<Rightarrow> (mk_result 401 ''Bad credentials'', False)
              | Some resp \<Rightarrow>
                  if cr_Response cred \<noteq> resp then (mk_result 401 ''Unauthorized'', False)
                  else if stale then (mk_result 407 ''Expired nonce'', True)
                  else (mk_result 200 ''OK'', False))))"

record challenge =
  ch_Realm :: string
  ch_Nonce :: string
  ch_Stale :: bool

definition UserAgent :: string where "UserAgent = ''LiveKit''"

text \<open>\<open>now\<close> and \<open>now'\<close> are the two readings of the clock.\<close>

definition handleInviteAuth ::
  "'k auth_env \<Rightarrow> string option \<Rightarrow> sip_request \<Rightarrow> InboundAuth \<Rightarrow> int \<Rightarrow> int \<Rightarrow> ResultSt \<times> challenge option" where
  "handleInviteAuth E rnd req auth0 now now' = (let
     auth = (if Realm auth0 = '''' then auth0\<lparr>Realm := UserAgent\<rparr> else auth0) in
     if Username auth = '''' \<or> Password auth = '''' then (mk_result 200 '''', None)
     else (case validateAuthorization E req auth now of (result, stale) \<Rightarrow>
       if RCode result \<noteq> 407 then (result, None)
       else (case issueDigestNonce (env_aead E) (env_b64 E) (env_keys E) rnd (sipCallID_of req) now' of
           Inl e \<Rightarrow> (mk_result 500 ''Internal error'', None)
         | Inr nonce \<Rightarrow> (mk_result 407 ''Unauthorized'',
             Some \<lparr>ch_Realm = Realm auth, ch_Nonce = nonce, ch_Stale = stale\<rparr>))))"

section \<open>Lemmas\<close>

lemma be_bytes_length [simp]: "length (be_bytes n x) = n"
  by (induction n arbitrary: x) auto

lemma be_value_snoc: "be_value (s @ [c]) = be_value s * 256 + int (of_char c)"
  by (simp add: be_value_def)

lemma of_char_byte: "0 \<le> b \<Longrightarrow> b < 256 \<Longrightarrow> int (of_char (char_of (nat b))) = b"
  by (simp add: nat_less_iff)

lemma be_value_be_bytes: "0 \<le> x \<Longrightarrow> x < 256 ^ n \<Longrightarrow> be_value (be_bytes n x) = x"
proof (induction n arbitrary: x)
  case (Suc n)
  have "x div 256 < 256 ^ n" using Suc.prems by (simp add: div_less_iff_less_mult)
  then have "be_value (be_bytes n (x div 256)) = x div 256" using Suc by simp
  then show ?case using of_char_byte [of "x mod 256"] by (simp add: be_value_snoc)
qed (simp add: be_value_def)

lemma to_int64_of_mod: "- (2 ^ 63) \<le> m \<Longrightarrow> m < 2 ^ 63 \<Longrightarrow> to_int64 (m mod 2 ^ 64) = m"
proof -
  assume m: "- (2 ^ 63) \<le> m" "m < 2 ^ 63"
  show ?thesis
  proof (cases "0 \<le> m")
    case True
    then show ?thesis using m by (simp add: to_int64_def)
  next
    case False
    have "(m + 2 ^ 64) mod 2 ^ 64 = m + 2 ^ 64" using m False by (intro mod_pos_pos_trivial) auto
    then have "m mod 2 ^ 64 = m + 2 ^ 64" by simp
    then show ?thesis using m False by (simp add: to_int64_def Let_def)
  qed
qed

lemma open_any_sound:
  "aead_ok A \<Longrightarrow> open_any A ks n c a = Some p \<Longrightarrow> \<exists>k\<in>set ks. c = aead_seal A k n p a"
  by (induction ks) (auto simp: aead_ok_def split: option.splits)

lemma open_any_complete:
  assumes "aead_ok A" "k \<in> set ks"
    and "\<And>k' p'. k' \<in> set ks \<Longrightarrow> aead_open A k' n (aead_seal A k n p a) a = Some p' \<Longrightarrow> p' = p"
  shows "open_any A ks n (aead_seal A k n p a) a = Some p"
  using assms by (induction ks) (auto simp: aead_ok_def split: option.splits)

text \<open>Keys that do not open each other's values: a value sealed with one of them opens,
  if at all, to what was sealed.\<close>

definition keys_separate :: "'k aead \<Rightarrow> 'k list \<Rightarrow> bool" where
  "keys_separate A ks \<longleftrightarrow> (\<forall>k\<in>set ks. \<forall>k'\<in>set ks. \<forall>n p a p'.
     aead_open A k' n (aead_seal A k n p a) a = Some p' \<longrightarrow> p' = p)"

lemma Open_Seal:
  assumes "aead_ok A" "keys_separate A ks" "k \<in> set ks" "length nonce = nonceSize"
  shows "Open A ks '''' (nonce @ aead_seal A k nonce plain aad) aad = Ok plain"
proof -
  have "length (aead_seal A k nonce plain aad) = length plain + tagSize"
    using assms(1) by (simp add: aead_ok_def)
  moreover have "open_any A ks nonce (aead_seal A k nonce plain aad) aad = Some plain"
    using assms by (intro open_any_complete) (auto simp: keys_separate_def)
  ultimately show ?thesis using assms(4) by (simp add: Open_def)
qed

lemma checkDigestNonce_fresh:
  assumes ok: "aead_ok A" "b64_ok B" and ks: "keys_separate A ks'" "hd ks \<in> set ks'"
    and rnd: "length r = nonceSize"
    and issued: "issueDigestNonce A B ks (Some r) cid now = Ok nonce"
    and now: "- (2 ^ 63) \<le> UnixMicro now" "UnixMicro now < 2 ^ 63"
  shows "checkDigestNonce A B ks' nonce cid now' =
    (if time_Sub now' (UnixMicro now * 1000) > digestNonceTTL \<or> time_Sub now' (UnixMicro now * 1000) < - digestNonceTTL
     then Some (EWrap ''age'' (ESentinel errDigestNonceExpired)) else None)"
proof -
  let ?plain = "be_bytes 8 (UnixMicro now mod 2 ^ 64)"
  have n: "nonce = b64_enc B (r @ aead_seal A (hd ks) r ?plain (digestNonceAAD cid))"
    using issued by (simp add: issueDigestNonce_def Seal_def)
  have o: "Open A ks' '''' (r @ aead_seal A (hd ks) r ?plain (digestNonceAAD cid)) (digestNonceAAD cid) = Ok ?plain"
    by (rule Open_Seal [OF ok(1) ks rnd])
  have v: "to_int64 (be_value ?plain) = UnixMicro now"
    using now to_int64_of_mod by (simp add: be_value_be_bytes)
  show ?thesis using ok(2) o v by (simp add: checkDigestNonce_def n b64_ok_def Let_def)
qed

section \<open>Properties\<close>

text \<open>A digest nonce issued by one server is accepted by every server that holds the
  issuing key, for the same Call-ID, exactly while its age (to the microsecond) is
  within the time limit of 30 seconds in either direction; after that it is reported
  as expired and not as invalid.\<close>

theorem digest_nonce_roundtrip:
  assumes "aead_ok A" "b64_ok B" "keys_separate A ks'" "hd ks \<in> set ks'" "length r = nonceSize"
    and "issueDigestNonce A B ks (Some r) cid now = Ok nonce"
    and "- (2 ^ 63) \<le> now" "now < 2 ^ 63" "- (2 ^ 62) \<le> now' - now" "now' - now < 2 ^ 62"
  shows "checkDigestNonce A B ks' nonce cid now' =
    (if \<bar>now' - UnixMicro now * 1000\<bar> \<le> 30 * second then None
     else Some (EWrap ''age'' (ESentinel errDigestNonceExpired)))"
proof -
  have "- (2 ^ 63) \<le> UnixMicro now" "UnixMicro now < 2 ^ 63"
    using assms(7,8) by (simp_all add: UnixMicro_def)
  then have "checkDigestNonce A B ks' nonce cid now' =
      (if time_Sub now' (UnixMicro now * 1000) > digestNonceTTL \<or> time_Sub now' (UnixMicro now * 1000) < - digestNonceTTL
       then Some (EWrap ''age'' (ESentinel errDigestNonceExpired)) else None)"
    by (rule checkDigestNonce_fresh [OF assms(1-6)])
  moreover have "UnixMicro now * 1000 \<le> now" "now - UnixMicro now * 1000 < 1000"
    unfolding UnixMicro_def by linarith+
  then have "time_Sub now' (UnixMicro now * 1000) = now' - UnixMicro now * 1000"
    using assms(9,10) by (simp add: time_Sub_def)
  ultimately show ?thesis
    by (auto simp: digestNonceTTL_def authChallengeTimeout_def second_def abs_le_iff)
qed

text \<open>An authenticated-encryption scheme that satisfies the contract, for evaluation.\<close>

definition demo_aead :: "string aead" where
  "demo_aead = \<lparr>aead_seal = (\<lambda>k n p a. p @ replicate 16 CHR ''t''),
     aead_open = (\<lambda>k n c a. if length c < 16 then None
        else if drop (length c - 16) c = replicate 16 CHR ''t'' then Some (take (length c - 16) c) else None)\<rparr>"

definition demo_b64 :: b64 where
  "demo_b64 = \<lparr>b64_enc = (\<lambda>s. s), b64_dec = Some\<rparr>"

lemma demo_aead_ok: "aead_ok demo_aead"
proof -
  have "c = take (length c - 16) c @ replicate 16 CHR ''t''"
    if "drop (length c - 16) c = replicate 16 CHR ''t''" for c
    using append_take_drop_id [of "length c - 16" c] that by simp
  then show ?thesis by (auto simp: aead_ok_def demo_aead_def tagSize_def split: if_splits)
qed

lemma demo_keys_separate: "keys_separate demo_aead ks"
  by (auto simp: keys_separate_def demo_aead_def)

lemma demo_b64_ok: "b64_ok demo_b64"
  by (simp add: b64_ok_def demo_b64_def)

lemma demo_issue:
  "issueDigestNonce demo_aead demo_b64 [''k1''] (Some (replicate 12 CHR ''r'')) ''cid'' 5000000 =
   Ok (replicate 12 CHR ''r'' @ be_bytes 8 5000 @ replicate 16 CHR ''t'')"
  by (simp add: issueDigestNonce_def Seal_def demo_aead_def demo_b64_def UnixMicro_def)

lemma demo_check:
  "checkDigestNonce demo_aead demo_b64 [''k2'', ''k1'']
     (replicate 12 CHR ''r'' @ be_bytes 8 5000 @ replicate 16 CHR ''t'') ''cid'' 7000000 = None"
  using checkDigestNonce_fresh [OF demo_aead_ok demo_b64_ok demo_keys_separate _ _ demo_issue,
      of "[''k2'', ''k1'']" 7000000]
  by (simp add: nonceSize_def UnixMicro_def time_Sub_def digestNonceTTL_def authChallengeTimeout_def second_def)

theorem digest_nonce_roundtrip_witness:
  "checkDigestNonce demo_aead demo_b64 [''k2'', ''k1'']
     (replicate 12 CHR ''r'' @ be_bytes 8 5000 @ replicate 16 CHR ''t'') ''cid'' 7000000 = None"
  using digest_nonce_roundtrip [OF demo_aead_ok demo_b64_ok demo_keys_separate _ _ demo_issue,
      of "[''k2'', ''k1'']" 7000000]
  by (simp add: nonceSize_def UnixMicro_def second_def)

lemma handleInviteAuth_complete:
  assumes "ReqHeader req ''Proxy-Authorization'' = Some hv" "parse_cred (env_digest E) hv = Some cred" "cr_Username cred = Username auth"
    "checkDigestNonce (env_aead E) (env_b64 E) (env_keys E) (cr_Nonce cred) (sipCallID_of req) now = None"
    "digest_fn (env_digest E) (if Realm auth = '''' then UserAgent else Realm auth) (cr_Nonce cred) (cr_URI cred)
       (Username auth) (Password auth) = Some (cr_Response cred)"
  shows "RCode (fst (handleInviteAuth E rnd req auth now now')) = 200"
proof -
  have "validateAuthorization E req (if Realm auth = '''' then auth\<lparr>Realm := UserAgent\<rparr> else auth) now = (mk_result 200 ''OK'', False)"
    using assms by (cases "Realm auth = ''''") (simp_all add: validateAuthorization_def)
  then show ?thesis by (simp add: handleInviteAuth_def mk_result_def Let_def)
qed

lemma handleInviteAuth_challenge:
  assumes "ReqHeader req ''Proxy-Authorization'' = None" "Username auth \<noteq> ''''" "Password auth \<noteq> ''''"
    and "issueDigestNonce (env_aead E) (env_b64 E) (env_keys E) rnd (sipCallID_of req) now' = Ok nonce"
  shows "handleInviteAuth E rnd req auth now now' = (mk_result 407 ''Unauthorized'',
    Some \<lparr>ch_Realm = (if Realm auth = '''' then UserAgent else Realm auth), ch_Nonce = nonce, ch_Stale = False\<rparr>)"
  using assms by (simp add: handleInviteAuth_def validateAuthorization_def mk_result_def Let_def)

lemma handleInviteAuth_checked:
  assumes "Username auth \<noteq> ''''" "Password auth \<noteq> ''''"
    and "RCode (fst (handleInviteAuth E rnd req auth now now')) = 200"
  obtains hv cred where "ReqHeader req ''Proxy-Authorization'' = Some hv"
    "parse_cred (env_digest E) hv = Some cred" "cr_Username cred = Username auth"
    "checkDigestNonce (env_aead E) (env_b64 E) (env_keys E) (cr_Nonce cred) (sipCallID_of req) now = None"
    "digest_fn (env_digest E) (if Realm auth = '''' then UserAgent else Realm auth) (cr_Nonce cred) (cr_URI cred)
       (Username auth) (Password auth) = Some (cr_Response cred)"
proof -
  define auth1 where "auth1 = (if Realm auth = '''' then auth\<lparr>Realm := UserAgent\<rparr> else auth)"
  have a1: "Username auth1 = Username auth" "Password auth1 = Password auth"
    "Realm auth1 = (if Realm auth = '''' then UserAgent else Realm auth)"
    by (auto simp: auth1_def)
  have "RCode (fst (validateAuthorization E req auth1 now)) = 200"
    using assms a1 unfolding handleInviteAuth_def auth1_def [symmetric] Let_def
    by (auto simp: mk_result_def split: prod.splits if_splits sum.splits)
  then show thesis using that a1
    by (auto simp: validateAuthorization_def mk_result_def Let_def split: option.splits if_splits)
qed

text \<open>C11: authentication cannot be passed without the password: when a user name and a
  password are configured, the result is 200 only if the INVITE carries parseable
  credentials with that user name whose response is the digest computed from the
  configured password over the very nonce they name, and that nonce decodes to a value
  sealed with one of the accepted keys for this Call-ID at most 30 seconds ago (or
  ahead).\<close>

theorem invite_auth_sound:
  assumes "aead_ok (env_aead E)" "Username auth \<noteq> ''''" "Password auth \<noteq> ''''"
    and "RCode (fst (handleInviteAuth E rnd req auth now now')) = 200"
  shows "\<exists>hv cred. ReqHeader req ''Proxy-Authorization'' = Some hv \<and>
    parse_cred (env_digest E) hv = Some cred \<and> cr_Username cred = Username auth \<and>
    digest_fn (env_digest E) (if Realm auth = '''' then UserAgent else Realm auth) (cr_Nonce cred) (cr_URI cred)
      (Username auth) (Password auth) = Some (cr_Response cred) \<and>
    (\<exists>k\<in>set (env_keys E). \<exists>n plain. b64_dec (env_b64 E) (cr_Nonce cred) =
        Some (n @ aead_seal (env_aead E) k n plain (digestNonceAAD (sipCallID_of req))) \<and>
      length plain = 8 \<and> \<bar>time_Sub now (to_int64 (be_value plain) * 1000)\<bar> \<le> 30 * second)"
proof -
  obtain hv cred where c: "ReqHeader req ''Proxy-Authorization'' = Some hv"
      "parse_cred (env_digest E) hv = Some cred" "cr_Username cred = Username auth"
      "checkDigestNonce (env_aead E) (env_b64 E) (env_keys E) (cr_Nonce cred) (sipCallID_of req) now = None"
      "digest_fn (env_digest E) (if Realm auth = '''' then UserAgent else Realm auth) (cr_Nonce cred) (cr_URI cred)
         (Username auth) (Password auth) = Some (cr_Response cred)"
    using handleInviteAuth_checked assms(2-4) .
  from c(4) obtain b plain where b: "b64_dec (env_b64 E) (cr_Nonce cred) = Some b"
      "Open (env_aead E) (env_keys E) '''' b (digestNonceAAD (sipCallID_of req)) = Ok plain" "length plain = 8"
      "\<bar>time_Sub now (to_int64 (be_value plain) * 1000)\<bar> \<le> digestNonceTTL"
    by (auto simp: checkDigestNonce_def Let_def abs_le_iff not_less split: option.splits sum.splits if_splits)
  from b(2) have "open_any (env_aead E) (env_keys E) (take nonceSize b) (drop nonceSize b)
      (digestNonceAAD (sipCallID_of req)) = Some plain"
    by (auto simp: Open_def split: if_splits option.splits)
  from open_any_sound [OF assms(1) this] obtain k where k: "k \<in> set (env_keys E)"
      "drop nonceSize b = aead_seal (env_aead E) k (take nonceSize b) plain (digestNonceAAD (sipCallID_of req))"
    by auto
  have "b = take nonceSize b @ aead_seal (env_aead E) k (take nonceSize b) plain (digestNonceAAD (sipCallID_of req))"
    using k(2) append_take_drop_id [of nonceSize b] by metis
  with b k(1) c show ?thesis
    by (auto simp: digestNonceTTL_def authChallengeTimeout_def)
qed

definition demo_req :: "string \<Rightarrow> sip_request" where
  "demo_req hv = \<lparr>Method = ''INVITE'', Recipient = \<lparr>User = ''a'', Host = ''h'', Port = 5060, UriParams = []\<rparr>,
     ReqTo = None, ReqVia = None,
     ReqHeader = map_of [(''Proxy-Authorization'', hv), (''Call-ID'', ''cid'')], ReqBody = ''''\<rparr>"

definition demo_nonce :: string where
  "demo_nonce = replicate 12 CHR ''r'' @ be_bytes 8 5000 @ replicate 16 CHR ''t''"

definition demo_env :: "string auth_env" where
  "demo_env = \<lparr>env_aead = demo_aead, env_b64 = demo_b64,
     env_digest = \<lparr>parse_cred = (\<lambda>hv. Some \<lparr>cr_Username = ''bob'', cr_Nonce = demo_nonce, cr_URI = ''sip:h'', cr_Response = hv\<rparr>),
       digest_fn = (\<lambda>r n u us p. Some (us @ p))\<rparr>,
     env_keys = [''k2'', ''k1'']\<rparr>"

lemma demo_validate:
  "validateAuthorization demo_env (demo_req ''bobpw'') \<lparr>Realm = ''r'', Username = ''bob'', Password = ''pw''\<rparr> 7000000 =
   (mk_result 200 ''OK'', False)"
proof -
  have "checkDigestNonce demo_aead demo_b64 [''k2'', ''k1''] demo_nonce ''cid'' 7000000 = None"
    using demo_check unfolding demo_nonce_def .
  then show ?thesis
    by (simp add: validateAuthorization_def demo_env_def demo_req_def sipCallID_of_def Let_def)
qed

theorem invite_auth_sound_witness:
  "\<exists>hv cred. ReqHeader (demo_req ''bobpw'') ''Proxy-Authorization'' = Some hv \<and>
    parse_cred (env_digest demo_env) hv = Some cred \<and> cr_Response cred = ''bobpw''"
proof -
  let ?auth = "\<lparr>Realm = ''r'', Username = ''bob'', Password = ''pw''\<rparr>"
  have "aead_ok (env_aead demo_env)" using demo_aead_ok by (simp add: demo_env_def)
  moreover have "RCode (fst (handleInviteAuth demo_env None (demo_req ''bobpw'') ?auth 7000000 7000000)) = 200"
    by (simp add: handleInviteAuth_def demo_validate mk_result_def)
  ultimately show ?thesis
    using invite_auth_sound [of demo_env ?auth None "demo_req ''bobpw''" 7000000 7000000]
    by (auto simp: demo_env_def)
qed

end
