(* ===== verification/Analytics.thy ===== *)
theory Analytics
  imports Protocol
begin

text \<open>
  src/pkg/sip/signaling\_events.go and src/pkg/sip/analytics.go: the signaling
  events of a call and the call state that is pushed to the state handler.
  The handler is represented by the sequence of calls it receives.
\<close>

section \<open>signaling\_events.go\<close>

datatype SignalingEventType =
    EventInviteReceived | EventTryingSent | EventInviteAuthorized | EventRingingSent
  | EventCallDispatched | EventRoomJoined | EventAnsweredSent | EventAckReceived
  | EventCancelReceived | EventRejected
  | EventCallRequested | EventInviteSent | EventProvisionalReceived | EventAuthChallenged
  | EventAnsweredReceived | EventAckSent | EventFailed | EventCancelSent | EventLateAnswerReceived
  | EventByeReceived | EventByeSent | EventCallEnded

datatype CallDirection = SCD_UNKNOWN | SCD_INBOUND | SCD_OUTBOUND

text \<open>Instants are nanoseconds; the zero time is \<^const>\<open>None\<close>.\<close>

record SignalingEvent =
  evType :: SignalingEventType
  evTime :: "int option"
  evCallID :: string
  evSIPCallID :: string
  evDirection :: CallDirection
  evTrunkID :: string
  evRoomID :: string
  evDispatchRuleID :: string
  evParticipantID :: string
  evSIPMethod :: string
  evStatusCode :: int
  evCSeq :: "32 word"
  evTransport :: Transport
  evReason :: string
  evResult :: string
  evDuration :: int
  evWithPIN :: bool

definition new_event :: "SignalingEventType \<Rightarrow> int option \<Rightarrow> SignalingEvent" where
  "new_event typ t = \<lparr>evType = typ, evTime = t, evCallID = '''', evSIPCallID = '''',
     evDirection = SCD_UNKNOWN, evTrunkID = '''', evRoomID = '''', evDispatchRuleID = '''',
     evParticipantID = '''', evSIPMethod = '''', evStatusCode = 0, evCSeq = 0, evTransport = '''',
     evReason = '''', evResult = '''', evDuration = 0, evWithPIN = False\<rparr>"

datatype AuthResult = AuthNotFound | AuthDrop | AuthPassword | AuthAccept | AuthQuotaExceeded
  | AuthNoTrunkFound | AuthRouteNotAllowed | AuthRejectedAsError | AuthFailureOther | AuthOther int

fun authResultName :: "AuthResult \<Rightarrow> string" where
  "authResultName AuthNotFound = ''not-found''"
| "authResultName AuthDrop = ''drop''"
| "authResultName AuthPassword = ''password''"
| "authResultName AuthAccept = ''accept''"
| "authResultName AuthQuotaExceeded = ''quota-exceeded''"
| "authResultName AuthNoTrunkFound = ''no-trunk''"
| "authResultName AuthRouteNotAllowed = ''route-not-allowed''"
| "authResultName AuthRejectedAsError = ''rejected-as-error''"
| "authResultName AuthFailureOther = ''other''"
| "authResultName (AuthOther n) = ''other''"

datatype DispatchResult = DispatchAccept | DispatchRequestPin | DispatchNoRuleReject
  | DispatchNoRuleDrop | DispatchServiceUnavailable | DispatchOther int

fun dispatchResultName :: "DispatchResult \<Rightarrow> string" where
  "dispatchResultName DispatchAccept = ''accept''"
| "dispatchResultName DispatchRequestPin = ''request-pin''"
| "dispatchResultName DispatchNoRuleReject = ''no-rule-reject''"
| "dispatchResultName DispatchNoRuleDrop = ''no-rule-drop''"
| "dispatchResultName DispatchServiceUnavailable = ''service-unavailable''"
| "dispatchResultName (DispatchOther n) = ''other''"

definition lookupEvent :: "SignalingEventType \<Rightarrow> int option \<Rightarrow> int \<Rightarrow> string \<Rightarrow> SignalingEvent" where
  "lookupEvent typ t d result = (new_event typ t)\<lparr>evResult := result, evDuration := d\<rparr>"

fun is_tx_timeout :: "go_error \<Rightarrow> bool" where
  "is_tx_timeout (ETxTimeout n) = True"
| "is_tx_timeout _ = False"

definition byeOutcome :: "(go_error, sip_response) result \<Rightarrow> string" where
  "byeOutcome r = (if byeSucceeded r then ''ok''
     else (case r of
         Inr _ \<Rightarrow> ''error''
       | Inl e \<Rightarrow> if list_ex is_tx_timeout (chain e) \<or> errors_Is e ErrSIPRequestTimeout then ''timeout'' else ''error''))"

definition reasonCause :: "ReasonHeader \<Rightarrow> string" where
  "reasonCause r = (if IsZero r then '''' else rType r @ '';cause='' @ Itoa (rCause r))"

definition messageCause :: "string option \<Rightarrow> string" where
  "messageCause h = (case h of
     None \<Rightarrow> ''''
   | Some v \<Rightarrow> (case ParseReasonHeader v of Inl _ \<Rightarrow> '''' | Inr r \<Rightarrow> reasonCause r))"

definition inviteResponseEvent :: "SignalingEventType \<Rightarrow> int option \<Rightarrow> int \<Rightarrow> 32 word \<Rightarrow> SignalingEvent" where
  "inviteResponseEvent typ t statusCode cseq =
     (new_event typ t)\<lparr>evSIPMethod := ''INVITE'', evStatusCode := statusCode, evCSeq := cseq\<rparr>"

fun result_name :: "TerminationResult \<Rightarrow> string" where
  "result_name ResultSuccess = ''success''"
| "result_name ResultServerError = ''server_error''"
| "result_name ResultClientError = ''client_error''"
| "result_name ResultIndeterminate = ''indeterminate''"
| "result_name ResultUpstreamError = ''upstream_error''"

definition callEndedEvent :: "int option \<Rightarrow> Termination \<Rightarrow> int \<Rightarrow> SignalingEvent" where
  "callEndedEvent t term statusCode = (new_event EventCallEnded t)
     \<lparr>evStatusCode := statusCode, evResult := result_name (Result term), evReason := TReason term\<rparr>"

section \<open>analytics.go\<close>

datatype CallInfoStatus = SCS_CALL_INCOMING | SCS_PARTICIPANT_JOINED | SCS_ACTIVE | SCS_DISCONNECTED | SCS_ERROR

record SIPCallInfo =
  CallId :: string
  SipCallId :: string
  ciDirection :: CallDirection
  TrunkId :: string
  RoomId :: string
  DispatchRuleId :: string
  ciStatus :: CallInfoStatus
  ciStatusCode :: "(int \<times> string) option"
  ciError :: string
  ciReason :: DisconnectReason
  StartedAtNs :: int
  EndedAtNs :: int

datatype TransferStatus = STS_TRANSFER_ONGOING | STS_TRANSFER_FAILED | STS_TRANSFER_SUCCESSFUL

record SIPTransferInfo =
  TransferId :: string
  tiCallId :: string
  TransferTo :: string
  InitiatedAtNs :: int
  CompletedAtNs :: int
  tiStatus :: TransferStatus
  tiError :: string
  tiStatusCode :: "(int \<times> string) option"

datatype handler_call = HUpdate SIPCallInfo | HTransfer SIPTransferInfo | HContext SIPCallInfo
  | HEvent SignalingEvent

text \<open>\<open>cs_events\<close> tells whether the handler also implements \<open>SignalingEventHandler\<close>;
  \<open>cs_calls\<close> are the calls it received, oldest first.\<close>

record CallState =
  cs_info :: SIPCallInfo
  cs_transfers :: "string \<rightharpoonup> SIPTransferInfo"
  cs_dirty :: bool
  cs_events :: bool
  cs_calls :: "handler_call list"

definition NewCallState :: "bool \<Rightarrow> SIPCallInfo \<Rightarrow> CallState" where
  "NewCallState evs initial = \<lparr>cs_info = initial, cs_transfers = Map.empty, cs_dirty = True,
     cs_events = evs, cs_calls = []\<rparr>"

definition deliver :: "handler_call \<Rightarrow> CallState \<Rightarrow> CallState" where
  "deliver h s = s\<lparr>cs_calls := cs_calls s @ [h]\<rparr>"

definition flushLocked :: "CallState \<Rightarrow> CallState" where
  "flushLocked s = (deliver (HUpdate (cs_info s)) s)\<lparr>cs_dirty := False\<rparr>"

definition DeferUpdate :: "(SIPCallInfo \<Rightarrow> SIPCallInfo) \<Rightarrow> CallState \<Rightarrow> CallState" where
  "DeferUpdate upd s = s\<lparr>cs_dirty := True, cs_info := upd (cs_info s)\<rparr>"

definition Update :: "(SIPCallInfo \<Rightarrow> SIPCallInfo) \<Rightarrow> CallState \<Rightarrow> CallState" where
  "Update upd s = flushLocked (s\<lparr>cs_dirty := True, cs_info := upd (cs_info s)\<rparr>)"

text \<open>\<open>guid\<close> is the generated transfer id, \<open>now\<close> the clock.\<close>

definition StartTransfer :: "string \<Rightarrow> int \<Rightarrow> string \<Rightarrow> CallState \<Rightarrow> CallState \<times> string" where
  "StartTransfer guid now transferTo s = (let
     ti = \<lparr>TransferId = guid, tiCallId = CallId (cs_info s), TransferTo = transferTo,
           InitiatedAtNs = now, CompletedAtNs = 0, tiStatus = STS_TRANSFER_ONGOING,
           tiError = '''', tiStatusCode = None\<rparr>;
     s1 = deliver (HTransfer ti) s
   in (s1\<lparr>cs_transfers := (cs_transfers s1)(guid \<mapsto> ti)\<rparr>, guid))"

text \<open>\<open>msg\<close> is the \<open>Error()\<close> method.\<close>

definition EndTransfer :: "(go_error \<Rightarrow> string) \<Rightarrow> int \<Rightarrow> string \<Rightarrow> go_error option \<Rightarrow> CallState \<Rightarrow> CallState" where
  "EndTransfer msg now transferID inErr s = (let
     s1 = s\<lparr>cs_transfers := (cs_transfers s)(transferID := None)\<rparr>
   in case cs_transfers s transferID of
        None \<Rightarrow> s1
      | Some ti \<Rightarrow> (let
          ti1 = ti\<lparr>CompletedAtNs := now\<rparr>;
          ti2 = (case inErr of
              Some e \<Rightarrow> ti1\<lparr>tiError := msg e, tiStatus := STS_TRANSFER_FAILED\<rparr>
            | None \<Rightarrow> ti1\<lparr>tiStatus := STS_TRANSFER_SUCCESSFUL\<rparr>);
          ti3 = (case inErr of
              Some e \<Rightarrow> (case as_SIPStatus e of Some st \<Rightarrow> ti2\<lparr>tiStatusCode := Some st\<rparr> | None \<Rightarrow> ti2)
            | None \<Rightarrow> ti2)
        in deliver (HTransfer ti3) s1))"

definition RecordCallContext :: "(SIPCallInfo \<Rightarrow> SIPCallInfo) option \<Rightarrow> CallState \<Rightarrow> CallState" where
  "RecordCallContext appendInfo s = (let
     s1 = (case appendInfo of Some f \<Rightarrow> s\<lparr>cs_info := f (cs_info s)\<rparr> | None \<Rightarrow> s)
   in deliver (HContext (cs_info s1)) s1)"

definition Flush :: "CallState \<Rightarrow> CallState" where
  "Flush s = (if \<not> cs_dirty s then s else flushLocked s)"

definition ForceFlush :: "CallState \<Rightarrow> CallState" where
  "ForceFlush s = flushLocked s"

definition stamp_event :: "SIPCallInfo \<Rightarrow> SignalingEvent \<Rightarrow> SignalingEvent" where
  "stamp_event info ev = (let
     ev1 = ev\<lparr>evCallID := CallId info, evSIPCallID := SipCallId info, evDirection := ciDirection info,
              evTrunkID := TrunkId info, evRoomID := RoomId info\<rparr>
   in if evType ev \<noteq> EventCallDispatched then ev1\<lparr>evDispatchRuleID := DispatchRuleId info\<rparr> else ev1)"

definition EmitSignalingEvent :: "SignalingEvent \<Rightarrow> CallState \<Rightarrow> CallState" where
  "EmitSignalingEvent ev s = (if evTime ev = None \<or> \<not> cs_events s then s
     else deliver (HEvent (stamp_event (cs_info s) ev)) s)"

text \<open>On a nil \<open>CallState\<close> nothing is emitted.\<close>

definition emit_opt :: "SignalingEvent \<Rightarrow> CallState option \<Rightarrow> CallState option" where
  "emit_opt ev s = map_option (EmitSignalingEvent ev) s"

section \<open>Properties\<close>

datatype cs_op = OpDefer "SIPCallInfo \<Rightarrow> SIPCallInfo" | OpUpdate "SIPCallInfo \<Rightarrow> SIPCallInfo"
  | OpStartTransfer string int string | OpEndTransfer "go_error \<Rightarrow> string" int string "go_error option"
  | OpContext "(SIPCallInfo \<Rightarrow> SIPCallInfo) option" | OpFlush | OpForceFlush | OpEmit SignalingEvent

fun cs_step :: "cs_op \<Rightarrow> CallState \<Rightarrow> CallState option" where
  "cs_step (OpDefer f) s = Some (DeferUpdate f s)"
| "cs_step (OpUpdate f) s = Some (Update f s)"
| "cs_step (OpStartTransfer g t to) s = Some (fst (StartTransfer g t to s))"
| "cs_step (OpEndTransfer m t i e) s = Some (EndTransfer m t i e s)"
| "cs_step (OpContext f) s = Some (RecordCallContext f s)"
| "cs_step OpFlush s = Some (Flush s)"
| "cs_step OpForceFlush s = Some (ForceFlush s)"
| "cs_step (OpEmit ev) s = Some (EmitSignalingEvent ev s)"

text \<open>The call information the handler was last given.\<close>

fun info_of :: "handler_call \<Rightarrow> SIPCallInfo option" where
  "info_of (HUpdate i) = Some i"
| "info_of (HContext i) = Some i"
| "info_of _ = None"

definition last_info :: "handler_call list \<Rightarrow> SIPCallInfo option" where
  "last_info hs = first_some info_of (rev hs)"

lemma last_info_snoc [simp]:
  "last_info (hs @ [h]) = (case info_of h of Some i \<Rightarrow> Some i | None \<Rightarrow> last_info hs)"
  by (simp add: last_info_def split: option.splits)

definition cs_synced :: "CallState \<Rightarrow> bool" where
  "cs_synced s \<longleftrightarrow> cs_dirty s \<or> last_info (cs_calls s) = Some (cs_info s)"

lemmas cs_defs = DeferUpdate_def Update_def flushLocked_def deliver_def StartTransfer_def
  EndTransfer_def RecordCallContext_def Flush_def ForceFlush_def EmitSignalingEvent_def Let_def

lemma cs_step_synced: "cs_synced s \<Longrightarrow> cs_step x s = Some s' \<Longrightarrow> cs_synced s'"
  by (cases x) (auto simp: cs_synced_def cs_defs split: option.splits if_splits)

interpretation call_state: never_stuck cs_step cs_synced
proof
  fix s s' x
  show "cs_synced s \<Longrightarrow> cs_step x s = Some s' \<Longrightarrow> cs_synced s'" by (rule cs_step_synced)
  show "cs_synced s \<Longrightarrow> cs_step x s \<noteq> None" by (cases x) auto
qed

text \<open>No update of a call is lost: after any sequence of operations on the call state
  followed by a flush, the information last delivered to the state handler is the
  current information of the call, and a second flush delivers nothing more.\<close>

theorem call_state_flush_delivers:
  "\<exists>s. run cs_step ops (NewCallState evs initial) = Some s \<and>
     last_info (cs_calls (Flush s)) = Some (cs_info s) \<and> Flush (Flush s) = Flush s"
proof -
  have "cs_synced (NewCallState evs initial)" by (simp add: cs_synced_def NewCallState_def)
  from call_state.run_total [OF this] obtain s where
    "run cs_step ops (NewCallState evs initial) = Some s" "cs_synced s" by metis
  then show ?thesis by (auto simp: cs_synced_def Flush_def flushLocked_def deliver_def)
qed

text \<open>How many transfer notifications with an id were delivered, by state.\<close>

definition transfer_count :: "(TransferStatus \<Rightarrow> bool) \<Rightarrow> string \<Rightarrow> CallState \<Rightarrow> nat" where
  "transfer_count P i s = length (filter (\<lambda>h. case h of HTransfer ti \<Rightarrow> TransferId ti = i \<and> P (tiStatus ti) | _ \<Rightarrow> False)
     (cs_calls s))"

abbreviation "xfer_started \<equiv> transfer_count (\<lambda>st. st = STS_TRANSFER_ONGOING)"
abbreviation "xfer_ended \<equiv> transfer_count (\<lambda>st. st \<noteq> STS_TRANSFER_ONGOING)"

definition transfers_inv :: "CallState \<Rightarrow> bool" where
  "transfers_inv s \<longleftrightarrow> (\<forall>i. xfer_ended i s \<le> xfer_started i s) \<and>
     (\<forall>i ti. cs_transfers s i = Some ti \<longrightarrow> TransferId ti = i \<and> xfer_ended i s < xfer_started i s)"

lemma transfer_count_deliver:
  "transfer_count P i (deliver h s) = transfer_count P i s +
     (case h of HTransfer ti \<Rightarrow> if TransferId ti = i \<and> P (tiStatus ti) then 1 else 0 | _ \<Rightarrow> 0)"
  by (simp add: transfer_count_def deliver_def split: handler_call.splits)

lemma transfer_count_upd [simp]:
  "transfer_count P i (s\<lparr>cs_transfers := m\<rparr>) = transfer_count P i s"
  by (simp add: transfer_count_def)

lemma transfers_inv_other:
  assumes "transfers_inv s" "cs_transfers s' = cs_transfers s"
    and "cs_calls s' = cs_calls s \<or> (\<exists>h. cs_calls s' = cs_calls s @ [h] \<and> (\<forall>ti. h \<noteq> HTransfer ti))"
  shows "transfers_inv s'"
proof -
  have "transfer_count P i s' = transfer_count P i s" for P i
    using assms(3)
  proof
    assume "\<exists>h. cs_calls s' = cs_calls s @ [h] \<and> (\<forall>ti. h \<noteq> HTransfer ti)"
    then obtain h where "cs_calls s' = cs_calls s @ [h]" "\<forall>ti. h \<noteq> HTransfer ti" by auto
    then show ?thesis by (cases h) (simp_all add: transfer_count_def)
  qed (simp add: transfer_count_def)
  then show ?thesis using assms(1,2) by (simp add: transfers_inv_def)
qed

lemma StartTransfer_inv: "transfers_inv s \<Longrightarrow> transfers_inv (fst (StartTransfer g t to s))"
proof -
  assume inv: "transfers_inv s"
  obtain ti where s': "fst (StartTransfer g t to s) =
      (deliver (HTransfer ti) s)\<lparr>cs_transfers := (cs_transfers s)(g \<mapsto> ti)\<rparr>"
      "TransferId ti = g" "tiStatus ti = STS_TRANSFER_ONGOING"
    by (simp add: StartTransfer_def Let_def deliver_def)
  have c: "transfer_count P i (fst (StartTransfer g t to s)) =
      transfer_count P i s + (if g = i \<and> P STS_TRANSFER_ONGOING then 1 else 0)" for P i
    unfolding s'(1) using s'(2,3) by (simp add: transfer_count_deliver)
  have "cs_transfers (fst (StartTransfer g t to s)) = (cs_transfers s)(g \<mapsto> ti)"
    by (simp add: s'(1))
  then show ?thesis using inv s'(2) unfolding transfers_inv_def c
    by (auto simp: less_Suc_eq_le le_SucI)
qed

lemma EndTransfer_inv: "transfers_inv s \<Longrightarrow> transfers_inv (EndTransfer m t i e s)"
proof (cases "cs_transfers s i")
  case None
  assume "transfers_inv s"
  then show ?thesis using None by (auto simp: transfers_inv_def EndTransfer_def Let_def transfer_count_def)
next
  case (Some ti)
  assume inv: "transfers_inv s"
  let ?s1 = "s\<lparr>cs_transfers := (cs_transfers s)(i := None)\<rparr>"
  obtain ti' where ti': "EndTransfer m t i e s = deliver (HTransfer ti') ?s1"
      "TransferId ti' = TransferId ti" "tiStatus ti' \<noteq> STS_TRANSFER_ONGOING"
    using Some by (auto simp: EndTransfer_def Let_def split: option.splits)
  have "TransferId ti = i" "xfer_ended i s < xfer_started i s" using inv Some by (auto simp: transfers_inv_def)
  then show ?thesis using inv ti'(2,3) unfolding ti'(1)
    by (auto simp: transfers_inv_def transfer_count_deliver Suc_le_eq) (auto simp: deliver_def split: if_splits)
qed

interpretation transfers: never_stuck cs_step transfers_inv
proof
  fix s s' x
  show "transfers_inv s \<Longrightarrow> cs_step x s = Some s' \<Longrightarrow> transfers_inv s'"
    by (cases x) (auto simp: StartTransfer_inv EndTransfer_inv,
      auto intro!: transfers_inv_other [of s] simp: cs_defs split: option.splits)
  show "transfers_inv s \<Longrightarrow> cs_step x s \<noteq> None" by (cases x) auto
qed

text \<open>The end of a transfer is reported at most once per start: for every sequence of
  operations and every transfer id, the handler never receives more final transfer
  states than initial ones, and a second \<open>EndTransfer\<close> of the same id is silent.\<close>

theorem transfer_end_reported_once:
  "\<exists>s. run cs_step ops (NewCallState evs initial) = Some s \<and> (\<forall>i. xfer_ended i s \<le> xfer_started i s) \<and>
     (\<forall>i m t e m' t' e'. cs_calls (EndTransfer m' t' i e' (EndTransfer m t i e s)) = cs_calls (EndTransfer m t i e s))"
proof -
  have "transfers_inv (NewCallState evs initial)"
    by (simp add: transfers_inv_def NewCallState_def transfer_count_def)
  from transfers.run_total [OF this] obtain s where
    "run cs_step ops (NewCallState evs initial) = Some s" "transfers_inv s" by metis
  moreover have "cs_transfers (EndTransfer m t i e s) i = None" for i m t e
    by (auto simp: EndTransfer_def Let_def deliver_def split: option.splits)
  then have "cs_calls (EndTransfer m' t' i e' (EndTransfer m t i e s)) = cs_calls (EndTransfer m t i e s)" for i m t e m' t' e'
    by (simp add: EndTransfer_def [of m' t' i e'])
  ultimately show ?thesis by (auto simp: transfers_inv_def)
qed

end
