(* ===== verification/MediaStats.thy ===== *)
theory MediaStats
  imports Stats SilenceFiller
begin

text \<open>
  Statistics of the media plane (media.go, media\_latency.go, the statistics of media\_port.go and
  room.go, and the telephone-event handler of media\_pipeline.go): the jitter-buffer totals of a call,
  sequence-number accounting of a stream, sample rates, latencies, packet labels and the removal of
  repeated telephone-event packets. Counters are 64-bit words; durations and clocks are integers in
  the unit the code reads them in; rationals stand for floating-point rates. An atomic counter shared
  by several writers is a field updated in the order of the additions.
\<close>

section \<open>Jitter buffers\<close>

record BufferStats =
  bs_PacketsLost :: "64 word"
  bs_PacketsDropped :: "64 word"
  bs_SSRCSwitches :: "64 word"
  bs_PacketsReordered :: "64 word"
  bs_SequenceRestarts :: "64 word"
  bs_PacketsStray :: "64 word"
  bs_PacketsDuplicate :: "64 word"

text \<open>\<open>add\<close>: the shared total and the previous value of one buffer.\<close>

definition acc_add :: "64 word \<Rightarrow> 64 word \<times> 64 word \<Rightarrow> 64 word \<times> 64 word" where
  "acc_add cur tp = (case tp of (tot, prev) \<Rightarrow> if cur \<le> prev then (tot, prev) else (tot + (cur - prev), cur))"

definition add_field ::
  "(BufferStats \<Rightarrow> 64 word) \<Rightarrow> ((64 word \<Rightarrow> 64 word) \<Rightarrow> BufferStats \<Rightarrow> BufferStats) \<Rightarrow> 64 word \<Rightarrow>
   BufferStats \<times> BufferStats \<Rightarrow> BufferStats \<times> BufferStats" where
  "add_field get upd cur tp = (case tp of (tot, prev) \<Rightarrow> case acc_add cur (get tot, get prev) of (t, p) \<Rightarrow>
     (upd (\<lambda>_. t) tot, upd (\<lambda>_. p) prev))"

definition onPacketLoss :: "64 word \<Rightarrow> 64 word \<Rightarrow> BufferStats \<times> BufferStats \<Rightarrow> BufferStats \<times> BufferStats" where
  "onPacketLoss packetsLost packetsDropped tp =
     add_field bs_PacketsDropped bs_PacketsDropped_update packetsDropped
       (add_field bs_PacketsLost bs_PacketsLost_update packetsLost tp)"

definition onStats :: "BufferStats \<Rightarrow> BufferStats \<times> BufferStats \<Rightarrow> BufferStats \<times> BufferStats" where
  "onStats st tp =
     add_field bs_PacketsDuplicate bs_PacketsDuplicate_update (bs_PacketsDuplicate st)
     (add_field bs_PacketsStray bs_PacketsStray_update (bs_PacketsStray st)
     (add_field bs_SequenceRestarts bs_SequenceRestarts_update (bs_SequenceRestarts st)
     (add_field bs_PacketsReordered bs_PacketsReordered_update (bs_PacketsReordered st)
     (add_field bs_SSRCSwitches bs_SSRCSwitches_update (bs_SSRCSwitches st) tp))))"

text \<open>The buffers of a call report in any order; each has its own previous values, all share the
  totals.\<close>

datatype jitter_report = RLoss "64 word" "64 word" | RStats BufferStats

definition jitter_step :: "nat \<times> jitter_report \<Rightarrow> BufferStats \<times> (nat \<Rightarrow> BufferStats) \<Rightarrow> BufferStats \<times> (nat \<Rightarrow> BufferStats)" where
  "jitter_step r s = (case (case snd r of RLoss l d \<Rightarrow> onPacketLoss l d | RStats st \<Rightarrow> onStats st) (fst s, snd s (fst r)) of
     (t, p) \<Rightarrow> (t, (snd s)(fst r := p)))"

section \<open>Streams\<close>

definition maxPositiveSeqDiff :: int where "maxPositiveSeqDiff = 30 * DefFramesPerSec"
definition maxNegativeSeqDiff :: int where "maxNegativeSeqDiff = - 5 * DefFramesPerSec"
definition rapidPacketThreshold :: int where "rapidPacketThreshold = (1000 div DefFramesPerSec) div 2"
definition delayedPacketThreshold :: int where "delayedPacketThreshold = (1000 div DefFramesPerSec) * 3 div 2"

definition Diff16 :: "16 word \<Rightarrow> 16 word \<Rightarrow> int" where
  "Diff16 cur prev = sint (cur - prev)"

record rtpCountingStats =
  rs_packets :: "64 word"
  rs_bytes :: "64 word"
  rs_resets :: "64 word"
  rs_gaps :: "64 word"
  rs_gapsSum :: "64 word"
  rs_late :: "64 word"
  rs_lateSum :: "64 word"
  rs_delayedPackets :: "64 word"
  rs_delayedSum :: "64 word"
  rs_rapidPackets :: "64 word"

record rtpStreamStats =
  st_packets :: "64 word"
  st_lastSeq :: "64 word"
  st_lastPacket :: int
  st_stats :: rtpCountingStats

definition count_seq :: "int \<Rightarrow> rtpCountingStats \<Rightarrow> rtpCountingStats" where
  "count_seq diff s = (if diff > maxPositiveSeqDiff \<or> diff < maxNegativeSeqDiff then s\<lparr>rs_resets := rs_resets s + 1\<rparr>
     else if diff < 0 then s\<lparr>rs_late := rs_late s + 1, rs_lateSum := rs_lateSum s + word_of_int (- diff)\<rparr>
     else if diff > 1 then s\<lparr>rs_gaps := rs_gaps s + 1, rs_gapsSum := rs_gapsSum s + word_of_int diff\<rparr>
     else s)"

definition count_time :: "int \<Rightarrow> rtpCountingStats \<Rightarrow> rtpCountingStats" where
  "count_time sinceLast s = (if sinceLast < rapidPacketThreshold then s\<lparr>rs_rapidPackets := rs_rapidPackets s + 1\<rparr>
     else if sinceLast > delayedPacketThreshold
       then s\<lparr>rs_delayedPackets := rs_delayedPackets s + 1, rs_delayedSum := rs_delayedSum s + word_of_int sinceLast\<rparr>
     else s)"

definition stream_HandleRTP :: "int \<Rightarrow> rtp_header \<Rightarrow> nat \<Rightarrow> rtpStreamStats \<Rightarrow> rtpStreamStats" where
  "stream_HandleRTP now hdr len h = (let
     count = st_packets h + 1;
     s1 = (st_stats h)\<lparr>rs_packets := rs_packets (st_stats h) + 1, rs_bytes := rs_bytes (st_stats h) + of_nat len\<rparr>;
     lSeq = (ucast (st_lastSeq h) :: 16 word);
     s2 = (if count > 1 then count_time (now - st_lastPacket h) (count_seq (Diff16 (SequenceNumber hdr) lSeq) s1) else s1)
   in \<lparr>st_packets = count, st_lastSeq = ucast (SequenceNumber hdr), st_lastPacket = now, st_stats = s2\<rparr>)"

section \<open>Latency\<close>

record LatencyStats =
  la_Count :: "64 word"
  la_SumNs :: "64 word"
  la_MaxNs :: "64 word"

text \<open>The compare-and-swap loop ends with the maximum.\<close>

definition Record_latency :: "int \<Rightarrow> LatencyStats \<Rightarrow> LatencyStats" where
  "Record_latency d s = (let ns = word_of_int d in
     s\<lparr>la_Count := la_Count s + 1, la_SumNs := la_SumNs s + ns, la_MaxNs := if ns \<le> la_MaxNs s then la_MaxNs s else ns\<rparr>)"

record LatencyStatsSnapshot =
  ls_Count :: "64 word"
  ls_AvgNs :: "64 word"
  ls_MaxNs :: "64 word"

definition Load_latency :: "LatencyStats \<Rightarrow> LatencyStatsSnapshot" where
  "Load_latency s = \<lparr>ls_Count = la_Count s, ls_AvgNs = (if la_Count s > 0 then la_SumNs s div la_Count s else 0), ls_MaxNs = la_MaxNs s\<rparr>"

text \<open>The exit wrappers: the entry time is recorded when the frame comes in, the latency when it has
  been written.\<close>

definition latency_exit :: "int \<Rightarrow> int \<Rightarrow> LatencyStats \<Rightarrow> LatencyStats" where
  "latency_exit entry now s = (if entry > 0 then Record_latency (now - entry) s else s)"

section \<open>Sample rates\<close>

text \<open>Clocks in nanoseconds, \<^const>\<open>None\<close> the zero time; rates in samples per second. The clock is
  monotonic.\<close>

record port_rates =
  pr_AudioInSamples :: "64 word"
  pr_AudioOutSamples :: "64 word"
  pr_AudioRX :: rat
  pr_AudioTX :: rat
  pr_lastTime :: "int option"
  pr_lastIn :: "64 word"
  pr_lastOut :: "64 word"

definition seconds :: "int \<Rightarrow> rat" where
  "seconds ns = of_int ns / 1000000000"

definition rate :: "64 word \<Rightarrow> 64 word \<Rightarrow> int \<Rightarrow> rat" where
  "rate cur prev dt = of_int (uint (cur - prev)) / seconds dt"

definition PortStats_Update :: "int \<Rightarrow> port_rates \<Rightarrow> port_rates" where
  "PortStats_Update t s = (let
     lastTime = (case pr_lastTime s of Some l \<Rightarrow> l | None \<Rightarrow> t);
     s1 = (if t - lastTime > 0 then s\<lparr>pr_AudioRX := rate (pr_AudioInSamples s) (pr_lastIn s) (t - lastTime),
             pr_AudioTX := rate (pr_AudioOutSamples s) (pr_lastOut s) (t - lastTime)\<rparr> else s)
   in s1\<lparr>pr_lastTime := Some t, pr_lastIn := pr_AudioInSamples s, pr_lastOut := pr_AudioOutSamples s\<rparr>)"

definition write_samples :: "nat \<Rightarrow> nat \<Rightarrow> port_rates \<Rightarrow> port_rates" where
  "write_samples inn out s = s\<lparr>pr_AudioInSamples := pr_AudioInSamples s + of_nat inn, pr_AudioOutSamples := pr_AudioOutSamples s + of_nat out\<rparr>"

definition ratePPM :: "rat \<Rightarrow> int \<Rightarrow> rat" where
  "ratePPM r expected = (if expected \<le> 0 then 0 else (r - of_int expected) / of_int expected * 1000000)"

section \<open>Labels of packets\<close>

definition staticPayloadTypes :: "(int \<times> string) list" where
  "staticPayloadTypes = [(0, ''Auto_PCMU/8000''), (3, ''Auto_GSM/8000''), (4, ''Auto_G723/8000''), (5, ''Auto_DVI4/8000''),
     (6, ''Auto_DVI4/16000''), (7, ''Auto_LPC/8000''), (8, ''Auto_PCMA/8000''), (9, ''Auto_G722/8000''), (10, ''Auto_L16/44100/2''),
     (11, ''Auto_L16/44100''), (12, ''Auto_QCELP/8000''), (13, ''Auto_CN/8000''), (14, ''Auto_MPA/90000''), (15, ''Auto_G728/16000''),
     (16, ''Auto_DVI4/11025''), (17, ''Auto_DVI4/22050''), (18, ''Auto_G729/8000''), (25, ''Auto_CELLB/90000''), (26, ''Auto_JPEG/90000''),
     (28, ''Auto_NV/90000''), (31, ''Auto_H261/90000''), (32, ''Auto_MPV/90000''), (33, ''Auto_MP2T/90000''), (34, ''Auto_H263/90000'')]"

definition payload_label :: "string \<Rightarrow> 8 word \<Rightarrow> string" where
  "payload_label typ pt = (let
     t1 = (if typ = '''' \<and> pt < 96 then (case map_of staticPayloadTypes (uint pt) of Some s \<Rightarrow> s | None \<Rightarrow> '''') else typ)
   in if t1 = '''' then Itoa (uint pt) else t1)"

definition writer_label :: "8 word \<Rightarrow> 8 word \<Rightarrow> string \<Rightarrow> string \<Rightarrow> 8 word \<Rightarrow> string" where
  "writer_label audioPT dtmfPT audioType dtmfType pt =
     payload_label (if pt = audioPT then audioType else if pt = dtmfPT then dtmfType else '''') pt"

section \<open>Telephone events\<close>

text \<open>\<open>decode\<close> is \<open>dtmf.Decode\<close>: the event code and its digit. The state is the last event seen and
  the digits handed on.\<close>

definition event_id :: "32 word \<Rightarrow> 8 word \<Rightarrow> 64 word" where
  "event_id ts code = or (push_bit 8 (ucast ts)) (ucast code)"

definition handleEventRTP ::
  "(string \<Rightarrow> (8 word \<times> char) option) \<Rightarrow> rtp_header \<times> string \<Rightarrow> 64 word \<times> char list \<Rightarrow> 64 word \<times> char list" where
  "handleEventRTP decode pkt s = (case decode (snd pkt) of
     None \<Rightarrow> s
   | Some (code, digit) \<Rightarrow> (let eid = event_id (Timestamp (fst pkt)) code in
       if eid = fst s then s else (eid, snd s @ [digit])))"

section \<open>The totals of a call\<close>

definition zero_stats :: BufferStats where
  "zero_stats = \<lparr>bs_PacketsLost = 0, bs_PacketsDropped = 0, bs_SSRCSwitches = 0, bs_PacketsReordered = 0, bs_SequenceRestarts = 0,
     bs_PacketsStray = 0, bs_PacketsDuplicate = 0\<rparr>"

definition jitter_fields :: "(BufferStats \<Rightarrow> 64 word) list" where
  "jitter_fields = [bs_PacketsLost, bs_PacketsDropped, bs_SSRCSwitches, bs_PacketsReordered, bs_SequenceRestarts, bs_PacketsStray,
     bs_PacketsDuplicate]"

text \<open>The counters a report carries; those it does not carry are zero.\<close>

fun reported :: "jitter_report \<Rightarrow> BufferStats" where
  "reported (RLoss l d) = zero_stats\<lparr>bs_PacketsLost := l, bs_PacketsDropped := d\<rparr>"
| "reported (RStats st) = st\<lparr>bs_PacketsLost := 0, bs_PacketsDropped := 0\<rparr>"

definition highest :: "(BufferStats \<Rightarrow> 64 word) \<Rightarrow> nat \<Rightarrow> (nat \<times> jitter_report) list \<Rightarrow> 64 word" where
  "highest f b rs = fold max (map (\<lambda>r. f (reported (snd r))) (filter (\<lambda>r. fst r = b) rs)) 0"

lemma acc_add_max: "acc_add cur (t, p) = (t + (max p cur - p), max p cur)"
  by (auto simp: acc_add_def max_def)

lemma jitter_step_field:
  assumes "f \<in> set jitter_fields"
  shows "f (snd (jitter_step r s) b) = (if b = fst r then max (f (snd s b)) (f (reported (snd r))) else f (snd s b)) \<and>
    f (fst (jitter_step r s)) = f (fst s) + (f (snd (jitter_step r s) (fst r)) - f (snd s (fst r)))"
  using assms unfolding jitter_fields_def
  by (cases "snd r") (auto simp: jitter_step_def onPacketLoss_def onStats_def add_field_def acc_add_max zero_stats_def)

lemma jitter_prev:
  assumes "f \<in> set jitter_fields" "\<And>b. f (p b) = 0"
  shows "f (snd (fold jitter_step rs (T, p)) b) = highest f b rs"
proof (induction rs rule: rev_induct)
  case (snoc r rs)
  then show ?case using jitter_step_field [OF assms(1), of r "fold jitter_step rs (T, p)" b] by (auto simp: highest_def max.commute)
qed (simp add: highest_def assms(2))

text \<open>The jitter-buffer totals of a call add up: whatever the number of buffers and the order of
  their reports, each total is its value before plus, for every buffer, the highest value that
  buffer reported. A later buffer, which counts from zero, and a repeated or stale report never
  lower a total or count anything twice.\<close>

theorem jitter_totals_add_up:
  assumes "f \<in> set jitter_fields" "\<forall>r\<in>set rs. fst r < n"
  shows "f (fst (fold jitter_step rs (T, \<lambda>_. zero_stats))) = f T + (\<Sum>b<n. highest f b rs)"
  using assms(2)
proof (induction rs rule: rev_induct)
  case (snoc r rs)
  let ?s = "fold jitter_step rs (T, \<lambda>_. zero_stats)"
  have z: "f zero_stats = 0" using assms(1) by (auto simp: jitter_fields_def zero_stats_def)
  note p = jitter_prev [OF assms(1), of "\<lambda>_. zero_stats", OF z]
  have "(\<Sum>b<n. highest f b (rs @ [r])) = (\<Sum>b<n. highest f b rs) + (highest f (fst r) (rs @ [r]) - highest f (fst r) rs)"
  proof -
    have "highest f b (rs @ [r]) = highest f b rs" if "b \<noteq> fst r" for b using that by (simp add: highest_def)
    then have "(\<Sum>b\<in>{..<n} - {fst r}. highest f b (rs @ [r])) = (\<Sum>b\<in>{..<n} - {fst r}. highest f b rs)" by (auto intro: sum.cong)
    moreover have "fst r \<in> {..<n}" using snoc.prems by simp
    ultimately show ?thesis by (simp add: sum.remove [of "{..<n}" "fst r"])
  qed
  moreover have "f (fst (jitter_step r ?s)) = f (fst ?s) + (highest f (fst r) (rs @ [r]) - highest f (fst r) rs)"
    using jitter_step_field [OF assms(1), of r ?s "fst r"] p [where T = T and rs = rs and b = "fst r"]
      p [where T = T and rs = "rs @ [r]" and b = "fst r"] by simp
  ultimately show ?case using snoc by simp
qed (simp add: highest_def)

theorem jitter_totals_add_up_witness:
  "bs_PacketsLost (fst (fold jitter_step [(0, RLoss 3 0), (1, RLoss 2 1), (0, RLoss 5 0), (1, RLoss 1 1)] (zero_stats, \<lambda>_. zero_stats))) = 7"
proof -
  let ?rs = "[(0, RLoss 3 0), (1, RLoss 2 1), (0, RLoss 5 0), (1, RLoss 1 1)]"
  have two: "(\<Sum>b<2. g b) = g 0 + g 1" for g :: "nat \<Rightarrow> 64 word" by (simp add: numeral_2_eq_2)
  have h: "highest bs_PacketsLost 0 ?rs = 5" "highest bs_PacketsLost 1 ?rs = 2" by (simp_all add: highest_def max_def)
  have m: "bs_PacketsLost \<in> set jitter_fields" "\<forall>r\<in>set ?rs. fst r < (2::nat)" by (simp_all add: jitter_fields_def)
  from jitter_totals_add_up [OF m, of zero_stats] show ?thesis unfolding two h by (simp add: zero_stats_def)
qed

section \<open>Telephone events are handed on once\<close>

lemma event_id_bits: "bit (event_id ts code) n \<longleftrightarrow> (if n < 8 then bit code n else n < 40 \<and> bit ts (n - 8))"
  by (auto simp: event_id_def bit_or_iff bit_push_bit_iff bit_ucast_iff dest: bit_imp_le_length)

lemma event_id_inj: "event_id ts code = event_id ts' code' \<longleftrightarrow> ts = ts' \<and> code = code'"
proof
  assume e: "event_id ts code = event_id ts' code'"
  have "bit code n = bit code' n" if "n < 8" for n using event_id_bits [of ts code n] event_id_bits [of ts' code' n] e that by simp
  moreover have "bit ts n = bit ts' n" if "n < 32" for n
    using event_id_bits [of ts code "n + 8"] event_id_bits [of ts' code' "n + 8"] e that by simp
  ultimately show "ts = ts' \<and> code = code'" by (auto intro!: bit_word_eqI)
qed simp

lemma event_id_fresh: "event_id ts code \<noteq> - 1"
proof
  assume "event_id ts code = - 1"
  then have "bit (event_id ts code) 63" by simp
  then show False by (simp add: event_id_bits)
qed

text \<open>The events of a list of packets, without those that do not decode.\<close>

definition events :: "(string \<Rightarrow> (8 word \<times> char) option) \<Rightarrow> (rtp_header \<times> string) list \<Rightarrow> ((32 word \<times> 8 word) \<times> char) list" where
  "events decode pkts = List.map_filter (\<lambda>p. map_option (\<lambda>(code, digit). ((Timestamp (fst p), code), digit)) (decode (snd p))) pkts"

fun forwarded :: "(32 word \<times> 8 word) option \<Rightarrow> ((32 word \<times> 8 word) \<times> char) list \<Rightarrow> char list" where
  "forwarded prev [] = []"
| "forwarded prev (e # es) = (if prev = Some (fst e) then forwarded prev es else snd e # forwarded (Some (fst e)) es)"

lemma handle_events:
  assumes "\<And>ts code. (lst = event_id ts code) = (prev = Some (ts, code))"
  shows "snd (fold (handleEventRTP decode) pkts (lst, ds)) = ds @ forwarded prev (events decode pkts)"
  using assms
proof (induction pkts arbitrary: lst prev ds)
  case Nil
  then show ?case by (simp add: events_def)
next
  case (Cons p pkts)
  show ?case
  proof (cases "decode (snd p)")
    case None
    then show ?thesis using Cons by (simp add: handleEventRTP_def events_def map_filter_simps)
  next
    case (Some cd)
    obtain code digit where cd: "cd = (code, digit)" by fastforce
    let ?k = "(Timestamp (fst p), code)"
    show ?thesis
    proof (cases "prev = Some ?k")
      case True
      then have "lst = event_id (Timestamp (fst p)) code" using Cons.prems by simp
      then show ?thesis using Cons.IH [OF Cons.prems] Some cd True by (simp add: handleEventRTP_def events_def map_filter_simps)
    next
      case False
      then have "event_id (Timestamp (fst p)) code \<noteq> lst" using Cons.prems by metis
      then show ?thesis using Cons.IH [of "event_id (Timestamp (fst p)) code" "Some ?k" "ds @ [digit]"] Some cd False
        by (auto simp: handleEventRTP_def events_def map_filter_simps event_id_inj)
    qed
  qed
qed

lemma forwarded_remdups:
  "(\<forall>e\<in>set es. snd e = digit (fst e)) \<Longrightarrow> forwarded None es = map digit (remdups_adj (map fst es))"
  "(\<forall>e\<in>set es. snd e = digit (fst e)) \<Longrightarrow> digit k # forwarded (Some k) es = map digit (remdups_adj (k # map fst es))"
proof (induction es arbitrary: k)
  case (Cons e es)
  { case 1 then show ?case using Cons.IH(2) [of "fst e"] by simp }
  { case 2 then show ?case using Cons.IH(2) [of k] Cons.IH(2) [of "fst e"] by (cases es) auto }
qed simp_all

text \<open>C36: a pressed key is reported once: from the telephone-event packets of a stream, which repeat
  every event several times, the handler hands on one digit for each run of packets with the same
  timestamp and event code, in order, and nothing for packets that do not decode. Two events that
  share a timestamp but not the code are both reported, and no pair of timestamp and code is ever
  taken for another or for the initial value.\<close>

theorem dtmf_events_once:
  assumes "\<And>pl code d. decode pl = Some (code, d) \<Longrightarrow> d = digit code"
  shows "snd (fold (handleEventRTP decode) pkts (- 1, [])) = map (\<lambda>(ts, code). digit code) (remdups_adj (map fst (events decode pkts)))"
proof -
  have "snd (fold (handleEventRTP decode) pkts (- 1, [])) = forwarded None (events decode pkts)"
    using handle_events [of "- 1" None decode pkts "[]"] event_id_fresh by (metis append_Nil option.distinct(1))
  also have "\<dots> = map (\<lambda>(ts, code). digit code) (remdups_adj (map fst (events decode pkts)))"
    by (rule forwarded_remdups(1)) (auto simp: events_def List.map_filter_def dest: assms split: option.splits)
  finally show ?thesis .
qed

definition demo_decode :: "string \<Rightarrow> (8 word \<times> char) option" where
  "demo_decode pl = (if pl = '''' then None else Some (of_nat (of_char (hd pl)), hd pl))"

theorem dtmf_events_once_witness:
  "snd (fold (handleEventRTP demo_decode)
     [(\<lparr>SequenceNumber = 1, Timestamp = 160\<rparr>, ''1''), (\<lparr>SequenceNumber = 2, Timestamp = 160\<rparr>, ''1''), (\<lparr>SequenceNumber = 3, Timestamp = 160\<rparr>, ''''),
      (\<lparr>SequenceNumber = 4, Timestamp = 160\<rparr>, ''2''), (\<lparr>SequenceNumber = 5, Timestamp = 320\<rparr>, ''2'')] (- 1, [])) = ''122''"
proof -
  have d: "d = char_of (unat code)" if "demo_decode pl = Some (code, d)" for pl code d
    using that of_char_lt_256 [of "hd pl"] by (auto simp: demo_decode_def unat_of_nat split: if_splits)
  let ?pkts = "[(\<lparr>SequenceNumber = 1, Timestamp = 160\<rparr>, ''1''), (\<lparr>SequenceNumber = 2, Timestamp = 160\<rparr>, ''1''),
    (\<lparr>SequenceNumber = 3, Timestamp = 160\<rparr>, ''''), (\<lparr>SequenceNumber = 4, Timestamp = 160\<rparr>, ''2''), (\<lparr>SequenceNumber = 5, Timestamp = 320\<rparr>, ''2'')]"
  have e: "remdups_adj (map fst (events demo_decode ?pkts)) = [(160, 49), (160, 50), (320, 50)]"
    by (simp add: events_def map_filter_simps demo_decode_def)
  have "snd (fold (handleEventRTP demo_decode) ?pkts (- 1, [])) = map (\<lambda>(ts, code). char_of (unat code)) [(160 :: 32 word, 49 :: 8 word), (160, 50), (320, 50)]"
    using dtmf_events_once [where decode = demo_decode and digit = "\<lambda>code. char_of (unat code)" and pkts = ?pkts] d unfolding e by blast
  also have "\<dots> = ''122''" by code_simp
  finally show ?thesis .
qed

section \<open>Sequence numbers of a stream\<close>

definition new_stream :: rtpStreamStats where
  "new_stream = \<lparr>st_packets = 0, st_lastSeq = 0, st_lastPacket = 0, st_stats = \<lparr>rs_packets = 0, rs_bytes = 0, rs_resets = 0, rs_gaps = 0,
     rs_gapsSum = 0, rs_late = 0, rs_lateSum = 0, rs_delayedPackets = 0, rs_delayedSum = 0, rs_rapidPackets = 0\<rparr>\<rparr>"

text \<open>The sequence numbers of a stream that advances by the given steps.\<close>

fun seqs :: "16 word \<Rightarrow> nat list \<Rightarrow> 16 word list" where
  "seqs s [] = [s]"
| "seqs s (d # ds) = s # seqs (s + of_nat d) ds"

definition handle_all :: "(int \<times> rtp_header \<times> nat) list \<Rightarrow> rtpStreamStats \<Rightarrow> rtpStreamStats" where
  "handle_all = fold (\<lambda>(now, hdr, len). stream_HandleRTP now hdr len)"

lemma Diff16_step: "d < 2 ^ 15 \<Longrightarrow> Diff16 (s + of_nat d) s = int d"
proof -
  assume "d < 2 ^ 15"
  then have "sint (of_nat d :: 16 word) = int d" by (simp add: signed_of_nat signed_take_bit_int_eq_self)
  then show ?thesis by (simp add: Diff16_def)
qed

definition stream_counts :: "rtpStreamStats \<Rightarrow> 64 word \<times> 64 word \<times> 64 word \<times> 64 word" where
  "stream_counts h = (rs_resets (st_stats h), rs_late (st_stats h), rs_gaps (st_stats h), rs_gapsSum (st_stats h))"

lemma count_time_keeps [simp]:
  "rs_resets (count_time t s) = rs_resets s" "rs_late (count_time t s) = rs_late s" "rs_gaps (count_time t s) = rs_gaps s"
  "rs_gapsSum (count_time t s) = rs_gapsSum s"
  by (simp_all add: count_time_def)

lemma stream_step:
  assumes "st_lastSeq h = ucast s" "1 \<le> uint (st_packets h)" "uint (st_packets h) + 1 < 2 ^ 64" "1 \<le> d" "d \<le> 1500"
    and "SequenceNumber hdr = s + of_nat d"
  shows "stream_counts (stream_HandleRTP now hdr len h) = (rs_resets (st_stats h), rs_late (st_stats h),
      rs_gaps (st_stats h) + (if d > 1 then 1 else 0), rs_gapsSum (st_stats h) + (if d > 1 then of_nat d else 0))"
    "st_lastSeq (stream_HandleRTP now hdr len h) = ucast (s + of_nat d)"
    "uint (st_packets (stream_HandleRTP now hdr len h)) = uint (st_packets h) + 1"
proof -
  have p: "uint (st_packets h + 1) = uint (st_packets h) + 1" using assms(3) by (simp add: uint_word_ariths)
  then have "st_packets h + 1 > 1" using assms(2) by (simp add: word_less_def)
  moreover have "Diff16 (SequenceNumber hdr) (ucast (st_lastSeq h)) = int d"
    using Diff16_step [of d s] assms(5,6) by (simp add: assms(1) ucast_16_64)
  ultimately show "stream_counts (stream_HandleRTP now hdr len h) = (rs_resets (st_stats h), rs_late (st_stats h),
      rs_gaps (st_stats h) + (if d > 1 then 1 else 0), rs_gapsSum (st_stats h) + (if d > 1 then of_nat d else 0))"
    using assms(4,5) by (auto simp: stream_HandleRTP_def stream_counts_def Let_def count_seq_def maxPositiveSeqDiff_def
        maxNegativeSeqDiff_def DefFramesPerSec_def)
  show "st_lastSeq (stream_HandleRTP now hdr len h) = ucast (s + of_nat d)" using assms(6) by (simp add: stream_HandleRTP_def Let_def)
  show "uint (st_packets (stream_HandleRTP now hdr len h)) = uint (st_packets h) + 1" using p by (simp add: stream_HandleRTP_def Let_def)
qed

lemma stream_run:
  assumes "map (\<lambda>(_, hdr, _). SequenceNumber hdr) pkts = tl (seqs s ds)" "\<forall>d\<in>set ds. 1 \<le> d \<and> d \<le> 1500"
    and "st_lastSeq h = ucast s" "1 \<le> uint (st_packets h)" "uint (st_packets h) + int (length ds) < 2 ^ 64"
  shows "stream_counts (handle_all pkts h) = (rs_resets (st_stats h), rs_late (st_stats h),
    rs_gaps (st_stats h) + of_nat (length (filter (\<lambda>d. d > 1) ds)), rs_gapsSum (st_stats h) + of_nat (sum_list (filter (\<lambda>d. d > 1) ds)))"
  using assms
proof (induction ds arbitrary: s pkts h)
  case Nil
  then show ?case by (simp add: handle_all_def stream_counts_def)
next
  case (Cons d ds)
  obtain now hdr len pkts' where p: "pkts = (now, hdr, len) # pkts'" "SequenceNumber hdr = s + of_nat d"
      "map (\<lambda>(_, hdr, _). SequenceNumber hdr) pkts' = tl (seqs (s + of_nat d) ds)"
    using Cons.prems(1) by (cases pkts; cases ds) auto
  let ?h = "stream_HandleRTP now hdr len h"
  have st: "stream_counts ?h = (rs_resets (st_stats h), rs_late (st_stats h), rs_gaps (st_stats h) + (if d > 1 then 1 else 0),
        rs_gapsSum (st_stats h) + (if d > 1 then of_nat d else 0))"
      "st_lastSeq ?h = ucast (s + of_nat d)" "uint (st_packets ?h) = uint (st_packets h) + 1"
    by (rule stream_step [where d = d]; use Cons.prems p(2) in simp)+
  have "stream_counts (handle_all pkts' ?h) = (rs_resets (st_stats ?h), rs_late (st_stats ?h),
    rs_gaps (st_stats ?h) + of_nat (length (filter (\<lambda>d. d > 1) ds)), rs_gapsSum (st_stats ?h) + of_nat (sum_list (filter (\<lambda>d. d > 1) ds)))"
    by (rule Cons.IH [OF p(3) _ st(2)]) (use Cons.prems st(3) in auto)
  then show ?case using st(1) p(1) by (auto simp: handle_all_def stream_counts_def)
qed

text \<open>Losses are told from wrap-around: for a stream that arrives in order, where each sequence
  number is the previous one plus a step of 1 to 1500 modulo 65536, the statistics count no reset
  and no late packet, one gap for every step greater than one, and the sum of those steps, however
  often the 16-bit numbers wrap.\<close>

theorem stream_gaps_counted:
  assumes "map (\<lambda>(_, hdr, _). SequenceNumber hdr) pkts = seqs s ds" "\<forall>d\<in>set ds. 1 \<le> d \<and> d \<le> 1500" "length pkts < 2 ^ 64"
  shows "rs_resets (st_stats (handle_all pkts new_stream)) = 0 \<and> rs_late (st_stats (handle_all pkts new_stream)) = 0 \<and>
    rs_gaps (st_stats (handle_all pkts new_stream)) = of_nat (length (filter (\<lambda>d. d > 1) ds)) \<and>
    rs_gapsSum (st_stats (handle_all pkts new_stream)) = of_nat (sum_list (filter (\<lambda>d. d > 1) ds))"
proof -
  obtain now hdr len pkts' where p: "pkts = (now, hdr, len) # pkts'" "SequenceNumber hdr = s"
      "map (\<lambda>(_, hdr, _). SequenceNumber hdr) pkts' = tl (seqs s ds)"
    using assms(1) by (cases pkts; cases ds) auto
  let ?h = "stream_HandleRTP now hdr len new_stream"
  have len: "length (seqs s ds) = Suc (length ds)" for s by (induction s ds rule: seqs.induct) simp_all
  have h: "st_lastSeq ?h = ucast s" "uint (st_packets ?h) = 1" "stream_counts ?h = (0, 0, 0, 0)"
    using p(2) by (simp_all add: stream_HandleRTP_def new_stream_def Let_def stream_counts_def)
  have "length pkts = Suc (length ds)" using arg_cong [OF assms(1), of length] by (simp add: len)
  then have "stream_counts (handle_all pkts' ?h) = (rs_resets (st_stats ?h), rs_late (st_stats ?h),
    rs_gaps (st_stats ?h) + of_nat (length (filter (\<lambda>d. d > 1) ds)), rs_gapsSum (st_stats ?h) + of_nat (sum_list (filter (\<lambda>d. d > 1) ds)))"
    by (intro stream_run [OF p(3) assms(2) h(1)]) (use assms(3) h(2) in simp_all)
  then show ?thesis using h(3) p(1) by (simp add: handle_all_def stream_counts_def)
qed

theorem stream_gaps_counted_witness:
  "rs_gapsSum (st_stats (handle_all [(0, \<lparr>SequenceNumber = 65534, Timestamp = 0\<rparr>, 160), (20, \<lparr>SequenceNumber = 65535, Timestamp = 160\<rparr>, 160),
     (60, \<lparr>SequenceNumber = 2, Timestamp = 640\<rparr>, 160)] new_stream)) = 3"
  using stream_gaps_counted [of "[(0, \<lparr>SequenceNumber = 65534, Timestamp = 0\<rparr>, 160), (20, \<lparr>SequenceNumber = 65535, Timestamp = 160\<rparr>, 160),
     (60, \<lparr>SequenceNumber = 2, Timestamp = 640\<rparr>, 160)]" 65534 "[1, 3]"] by simp

section \<open>Latencies and rates\<close>

definition new_latency :: LatencyStats where
  "new_latency = \<lparr>la_Count = 0, la_SumNs = 0, la_MaxNs = 0\<rparr>"

lemma latency_run:
  assumes "\<forall>d\<in>set ds. 0 \<le> d" "sum_list ds < 2 ^ 64" "length ds < 2 ^ 64"
  shows "uint (la_Count (fold Record_latency ds new_latency)) = int (length ds) \<and> uint (la_SumNs (fold Record_latency ds new_latency)) = sum_list ds \<and>
    uint (la_MaxNs (fold Record_latency ds new_latency)) = fold max ds 0"
  using assms
proof (induction ds rule: rev_induct)
  case (snoc d ds)
  let ?s = "fold Record_latency ds new_latency"
  have nn: "0 \<le> d" "0 \<le> sum_list ds" using snoc.prems(1) by (auto intro: sum_list_nonneg)
  then have lt: "d < 2 ^ 64" "sum_list ds < 2 ^ 64" "sum_list ds + d < 2 ^ 64" using snoc.prems(2) by simp_all
  then have IH: "uint (la_Count ?s) = int (length ds)" "uint (la_SumNs ?s) = sum_list ds" "uint (la_MaxNs ?s) = fold max ds 0"
    using snoc by simp_all
  have u: "uint (word_of_int d :: 64 word) = d" using nn lt by (simp add: uint_word_of_int)
  have c: "uint (la_Count ?s + 1) = int (length ds) + 1" "uint (la_SumNs ?s + word_of_int d) = sum_list ds + d"
    using IH u nn lt snoc.prems(3) by (simp_all add: uint_word_ariths)
  define M where "M = fold max ds (0::int)"
  have "fold max (ds @ [d]) 0 = (if d \<le> M then M else d)" by (simp add: M_def max_def_raw)
  moreover have "word_of_int d \<le> la_MaxNs ?s \<longleftrightarrow> d \<le> M" using u IH(3) by (simp add: word_le_def M_def)
  moreover have "fold Record_latency (ds @ [d]) new_latency = Record_latency d ?s" by simp
  ultimately show ?case using c u IH(3) unfolding M_def [symmetric]
    by (simp add: Record_latency_def [of d ?s] Let_def)
qed (simp add: new_latency_def)

lemma fold_max_sum:
  assumes "\<forall>d\<in>set ds. (0::int) \<le> d"
  shows "sum_list ds \<le> int (length ds) * fold max ds 0 \<and> (\<forall>d\<in>set ds. d \<le> fold max ds 0) \<and> fold max ds 0 \<in> insert 0 (set ds)"
  using assms
proof (induction ds rule: rev_induct)
  case (snoc d ds)
  define M where "M = fold max ds (0::int)"
  from snoc have IH: "sum_list ds \<le> int (length ds) * M" "\<forall>d\<in>set ds. d \<le> M" "M \<in> insert 0 (set ds)" by (auto simp: M_def)
  have M': "fold max (ds @ [d]) 0 = max d M" by (simp add: M_def)
  have "int (length ds) * M \<le> int (length ds) * max d M" by (intro mult_left_mono) auto
  then have "sum_list ds + d \<le> int (length ds) * max d M + max d M" using IH(1) by linarith
  then have "sum_list (ds @ [d]) \<le> int (length (ds @ [d])) * max d M" by (simp add: algebra_simps)
  moreover have "max d M \<in> insert 0 (set (ds @ [d]))" using IH(3) by (auto simp: max_def)
  moreover have "\<forall>x\<in>set (ds @ [d]). x \<le> max d M" using IH(2) by auto
  ultimately show ?case unfolding M' by blast
qed simp

text \<open>The latency report is the report of the recorded latencies: after recording durations whose
  sum fits in 64 bits, the snapshot has their number, the integer average and the greatest of them,
  and the average does not exceed the maximum.\<close>

theorem latency_snapshot_exact:
  assumes "\<forall>d\<in>set ds. 0 \<le> d" "sum_list ds < 2 ^ 64" "length ds < 2 ^ 64" "ds \<noteq> []"
  shows "uint (ls_Count (Load_latency (fold Record_latency ds new_latency))) = int (length ds) \<and>
    uint (ls_AvgNs (Load_latency (fold Record_latency ds new_latency))) = sum_list ds div int (length ds) \<and>
    uint (ls_MaxNs (Load_latency (fold Record_latency ds new_latency))) = Max (set ds) \<and>
    ls_AvgNs (Load_latency (fold Record_latency ds new_latency)) \<le> ls_MaxNs (Load_latency (fold Record_latency ds new_latency))"
proof -
  let ?s = "fold Record_latency ds new_latency"
  have r: "uint (la_Count ?s) = int (length ds)" "uint (la_SumNs ?s) = sum_list ds" "uint (la_MaxNs ?s) = fold max ds 0"
    using latency_run [OF assms(1-3)] by simp_all
  note m = fold_max_sum [OF assms(1)]
  have n: "0 < int (length ds)" using assms(4) by simp
  have "la_Count ?s > 0" using r(1) n by (simp add: word_less_def)
  then have avg: "uint (ls_AvgNs (Load_latency ?s)) = sum_list ds div int (length ds)"
    using r by (simp add: Load_latency_def uint_div)
  have "fold max ds 0 = Max (set ds)"
  proof (rule sym, rule Max_eqI)
    show "fold max ds 0 \<in> set ds"
    proof (cases "fold max ds 0 = 0")
      case True
      obtain d where "d \<in> set ds" using assms(4) by (cases ds) auto
      then have "d = 0" using m assms(1) True by force
      then show ?thesis using \<open>d \<in> set ds\<close> True by simp
    qed (use m in auto)
  qed (use m in auto)
  moreover have "sum_list ds div int (length ds) \<le> fold max ds 0"
    using m n by (metis div_le_mono div_mult_self_is_m mult.commute order_less_imp_not_eq2 zdiv_mono1 nonzero_mult_div_cancel_left)
  ultimately show ?thesis using avg r n by (auto simp: Load_latency_def word_le_def)
qed

theorem latency_snapshot_exact_witness:
  "uint (ls_MaxNs (Load_latency (fold Record_latency [20, 40, 30] new_latency))) = 40"
  using latency_snapshot_exact [of "[20, 40, 30]"] by simp

text \<open>One interval of the statistics loop: frames are written, then the rates are updated.\<close>

definition stats_interval :: "nat \<times> nat \<times> int \<Rightarrow> port_rates \<Rightarrow> port_rates" where
  "stats_interval iv s = (case iv of (inn, out, t) \<Rightarrow> PortStats_Update t (write_samples inn out s))"

text \<open>The reported rates account for every sample: over one interval of the statistics loop, the
  receive and transmit rates times the length of the interval are exactly the samples written in
  it, also when the 64-bit sample counters wrap in between; the first update only starts the
  measurement.\<close>

theorem rates_account_for_samples:
  assumes "pr_lastIn s = pr_AudioInSamples s" "pr_lastOut s = pr_AudioOutSamples s" "inn < 2 ^ 64" "out < 2 ^ 64"
  shows "case pr_lastTime s of
      None \<Rightarrow> pr_AudioRX (stats_interval (inn, out, t) s) = pr_AudioRX s \<and> pr_AudioTX (stats_interval (inn, out, t) s) = pr_AudioTX s
    | Some t0 \<Rightarrow> t0 < t \<longrightarrow> pr_AudioRX (stats_interval (inn, out, t) s) * seconds (t - t0) = of_nat inn \<and>
        pr_AudioTX (stats_interval (inn, out, t) s) * seconds (t - t0) = of_nat out"
proof -
  have "seconds (t - t0) \<noteq> 0" if "t0 < t" for t0 using that by (simp add: seconds_def)
  moreover have "uint (of_nat inn :: 64 word) = int inn" "uint (of_nat out :: 64 word) = int out"
    using assms(3,4) by (simp_all add: unsigned_of_nat take_bit_nat_eq_self)
  ultimately show ?thesis using assms(1,2)
    by (auto simp: stats_interval_def PortStats_Update_def write_samples_def rate_def Let_def split: option.split)
qed

theorem rates_account_for_samples_witness:
  "pr_AudioRX (stats_interval (480, 960, 3000000000) \<lparr>pr_AudioInSamples = - 1, pr_AudioOutSamples = 5, pr_AudioRX = 0, pr_AudioTX = 0,
     pr_lastTime = Some 1000000000, pr_lastIn = - 1, pr_lastOut = 5\<rparr>) * 2 = 480"
  using rates_account_for_samples [of "\<lparr>pr_AudioInSamples = - 1, pr_AudioOutSamples = 5, pr_AudioRX = 0, pr_AudioTX = 0,
     pr_lastTime = Some 1000000000, pr_lastIn = - 1, pr_lastOut = 5\<rparr>" 480 960 3000000000] by (simp add: seconds_def)

end
