(* ===== verification/MediaPort.thy ===== *)
theory MediaPort
  imports Stats GoErrors
begin

text \<open>
  The media port of a call (media\_port.go): the UDP connection with its symmetric mode, the media
  timeout, and the comparison of media descriptions. Offers and answers are in the theory \<open>MediaNegotiation\<close>.

  IP addresses are words; the zero \<open>netip.Addr\<close> is a constructor of its own. Clocks are integers in
  nanoseconds. The SDP package, the socket and the media pipeline are parameters: parsing,
  answering and applying an SDP, and the outcome of building a pipeline. The writers of audio and
  DTMF are represented by the generation of the pipeline they are connected to.
\<close>

section \<open>Addresses\<close>

datatype Addr = NoAddr | IPv4 "32 word" | IPv6 "128 word"

record AddrPort =
  ap_Addr :: Addr
  ap_Port :: "16 word"

definition IsValid :: "AddrPort \<Rightarrow> bool" where
  "IsValid a \<longleftrightarrow> ap_Addr a \<noteq> NoAddr"

definition IsUnspecified :: "Addr \<Rightarrow> bool" where
  "IsUnspecified a \<longleftrightarrow> a = IPv4 0 \<or> a = IPv6 0"

definition IsPrivate :: "Addr \<Rightarrow> bool" where
  "IsPrivate a = (case a of
     NoAddr \<Rightarrow> False
   | IPv4 w \<Rightarrow> drop_bit 24 w = 10 \<or> drop_bit 20 w = 0xAC1 \<or> drop_bit 16 w = 0xC0A8
   | IPv6 w \<Rightarrow> drop_bit 121 w = 0x7E)"

section \<open>The UDP connection\<close>

definition dstChangePrintInterval :: int where "dstChangePrintInterval = 10 * 1000 * 1000 * 1000"

text \<open>\<open>uc_sent\<close> lists what was handed to the socket.\<close>

record udpConn =
  uc_closed :: bool
  uc_discardStop :: bool
  uc_symmetric :: bool
  uc_src :: "AddrPort option"
  uc_dst :: "AddrPort option"
  uc_srcChangeCount :: "64 word"
  uc_dstChangeCount :: "64 word"
  uc_lastSrcPrint :: int
  uc_lastDstPrint :: int
  uc_deadline :: "int option"
  uc_sent :: "(AddrPort \<times> string) list"

definition newUDPConn :: "bool \<Rightarrow> udpConn" where
  "newUDPConn symmetric = \<lparr>uc_closed = False, uc_discardStop = False, uc_symmetric = symmetric, uc_src = None, uc_dst = None,
     uc_srcChangeCount = 0, uc_dstChangeCount = 0, uc_lastSrcPrint = 0, uc_lastDstPrint = 0, uc_deadline = None, uc_sent = []\<rparr>"

definition SetSymmetric :: "bool \<Rightarrow> udpConn \<Rightarrow> udpConn" where
  "SetSymmetric enabled c = c\<lparr>uc_symmetric := enabled\<rparr>"

definition GetSrc :: "udpConn \<Rightarrow> AddrPort \<times> bool" where
  "GetSrc c = (case uc_src c of None \<Rightarrow> (\<lparr>ap_Addr = NoAddr, ap_Port = 0\<rparr>, False) | Some a \<Rightarrow> (a, IsValid a))"

definition SetDst :: "int \<Rightarrow> AddrPort \<Rightarrow> udpConn \<Rightarrow> udpConn" where
  "SetDst now addr c = (if \<not> IsValid addr then c
     else (let c1 = c\<lparr>uc_dst := Some addr\<rparr> in
       case uc_dst c of
         None \<Rightarrow> c1
       | Some prev \<Rightarrow> if \<not> IsValid prev then c1
           else if prev \<noteq> addr then (let c2 = c1\<lparr>uc_dstChangeCount := uc_dstChangeCount c1 + 1\<rparr> in
             if now - uc_lastDstPrint c2 > dstChangePrintInterval then c2\<lparr>uc_lastDstPrint := now\<rparr> else c2)
           else c1))"

text \<open>What \<open>ReadFromUDPAddrPort\<close> returned: the number of bytes, the source, the error, if any, and
  whether that is an exceeded deadline.\<close>

record udp_read =
  ur_n :: nat
  ur_addr :: AddrPort
  ur_err :: "go_error option"
  ur_deadline :: bool

definition EOF :: go_error where "EOF = ENew ''EOF''"

definition note_src :: "int \<Rightarrow> AddrPort \<Rightarrow> udpConn \<Rightarrow> udpConn" where
  "note_src now addr c = (let c1 = c\<lparr>uc_src := Some addr\<rparr> in
     case uc_src c of
       None \<Rightarrow> c1
     | Some prev \<Rightarrow> if \<not> IsValid prev then c1
         else if prev \<noteq> addr then (let c2 = c1\<lparr>uc_srcChangeCount := uc_srcChangeCount c1 + 1\<rparr> in
           if now - uc_lastSrcPrint c2 > dstChangePrintInterval
           then c2\<lparr>uc_lastSrcPrint := now, uc_srcChangeCount := uc_srcChangeCount c2 + 1\<rparr> else c2)
         else c1)"

definition follow_src :: "int \<Rightarrow> AddrPort \<Rightarrow> udpConn \<Rightarrow> udpConn" where
  "follow_src now addr c = (if \<not> uc_symmetric c then c
     else (case uc_dst c of
         None \<Rightarrow> SetDst now addr c
       | Some dst \<Rightarrow> if IsUnspecified (ap_Addr dst) then c
           else if \<not> IsValid dst \<or> dst \<noteq> addr then SetDst now addr c
           else c))"

text \<open>\<open>closedNow\<close>: the connection was closed while the read was waiting.\<close>

definition Read_conn :: "int \<Rightarrow> bool \<Rightarrow> udp_read \<Rightarrow> udpConn \<Rightarrow> udpConn \<times> nat \<times> go_error option" where
  "Read_conn now closedNow r c = (if uc_closed c then (c, 0, Some EOF)
     else if closedNow \<and> ur_err r \<noteq> None \<and> ur_deadline r then (c, ur_n r, Some EOF)
     else (follow_src now (ur_addr r) (note_src now (ur_addr r) c), ur_n r, ur_err r))"

definition Write_conn :: "(go_error, nat) result \<Rightarrow> string \<Rightarrow> udpConn \<Rightarrow> udpConn \<times> (go_error, nat) result" where
  "Write_conn res b c = (case uc_dst c of
     None \<Rightarrow> (c, Ok (length b))
   | Some dst \<Rightarrow> if IsUnspecified (ap_Addr dst) then (c, Ok (length b))
       else (c\<lparr>uc_sent := uc_sent c @ [(dst, b)]\<rparr>, res))"

text \<open>The discard loop: what each round observes, that is whether the loop was told to stop, the
  error of setting the deadline, and the outcome of the read. \<^const>\<open>None\<close>: still discarding.\<close>

datatype discard_round = DStop | DDeadlineErr | DPacket | DTimeout | DReadErr

fun discardLoop :: "nat \<Rightarrow> discard_round list \<Rightarrow> nat option" where
  "discardLoop n [] = None"
| "discardLoop n (DStop # rs) = Some n"
| "discardLoop n (DDeadlineErr # rs) = Some n"
| "discardLoop n (DPacket # rs) = discardLoop (Suc n) rs"
| "discardLoop n (DTimeout # rs) = discardLoop n rs"
| "discardLoop n (DReadErr # rs) = Some n"

definition stopDiscarding :: "udpConn \<Rightarrow> udpConn" where
  "stopDiscarding c = c\<lparr>uc_discardStop := True, uc_deadline := None\<rparr>"

definition Reopen :: "udpConn \<Rightarrow> udpConn" where
  "Reopen c = c\<lparr>uc_closed := False, uc_deadline := None\<rparr>"

definition Close_conn :: "int \<Rightarrow> udpConn \<Rightarrow> udpConn" where
  "Close_conn now c = (stopDiscarding c)\<lparr>uc_closed := True, uc_deadline := Some (now - 1000000000)\<rparr>"

section \<open>Symmetric media\<close>

datatype conn_op = CRead int bool udp_read | CWrite string "(go_error, nat) result" | CSetDst int AddrPort | CSetSymmetric bool
  | CClose int | CReopen

fun conn_step :: "conn_op \<Rightarrow> udpConn \<Rightarrow> udpConn option" where
  "conn_step (CRead now closedNow r) c = Some (fst (Read_conn now closedNow r c))"
| "conn_step (CWrite b res) c = Some (fst (Write_conn res b c))"
| "conn_step (CSetDst now a) c = Some (SetDst now a c)"
| "conn_step (CSetSymmetric b) c = Some (SetSymmetric b c)"
| "conn_step (CClose now) c = Some (Close_conn now c)"
| "conn_step CReopen c = Some (Reopen c)"

text \<open>Where media may go: to the destination that was set, or, in symmetric mode, where media came
  from.\<close>

definition conn_inv :: "AddrPort set \<Rightarrow> udpConn \<Rightarrow> bool" where
  "conn_inv A c \<longleftrightarrow> (\<forall>a. uc_dst c = Some a \<longrightarrow> IsValid a \<and> a \<in> A) \<and>
     (\<forall>(a, b)\<in>set (uc_sent c). IsValid a \<and> \<not> IsUnspecified (ap_Addr a) \<and> a \<in> A)"

text \<open>The addresses an operation names, and those it can make a destination in symmetric mode.\<close>

fun op_dst :: "bool \<Rightarrow> conn_op \<Rightarrow> AddrPort set" where
  "op_dst symm (CSetDst now a) = {a}"
| "op_dst symm (CRead now closedNow r) = (if symm then {ur_addr r} else {})"
| "op_dst symm _ = {}"

lemma SetDst_fields [simp]:
  "uc_sent (SetDst now a c) = uc_sent c" "uc_symmetric (SetDst now a c) = uc_symmetric c" "uc_closed (SetDst now a c) = uc_closed c"
  "uc_dst (SetDst now a c) = (if IsValid a then Some a else uc_dst c)"
  by (auto simp: SetDst_def Let_def split: option.split)

lemma note_src_fields [simp]:
  "uc_sent (note_src now a c) = uc_sent c" "uc_symmetric (note_src now a c) = uc_symmetric c" "uc_closed (note_src now a c) = uc_closed c"
  "uc_dst (note_src now a c) = uc_dst c"
  by (auto simp: note_src_def Let_def split: option.split)

lemma follow_src_fields [simp]:
  "uc_sent (follow_src now a c) = uc_sent c" "uc_symmetric (follow_src now a c) = uc_symmetric c"
  by (auto simp: follow_src_def split: option.split)

lemma follow_src_dst:
  "uc_dst (follow_src now a c) = uc_dst c \<or> uc_symmetric c \<and> IsValid a \<and> uc_dst (follow_src now a c) = Some a"
  by (auto simp: follow_src_def split: option.split)

lemma conn_step_inv:
  assumes "conn_inv A c" "conn_step x c = Some c'" "op_dst symm x \<subseteq> A" "uc_symmetric c \<longrightarrow> symm" "\<forall>b. x = CSetSymmetric b \<and> b \<longrightarrow> symm"
  shows "conn_inv A c' \<and> (uc_symmetric c' \<longrightarrow> symm)"
proof (cases x)
  case (CRead now closedNow r)
  then show ?thesis using assms follow_src_dst [of now "ur_addr r" "note_src now (ur_addr r) c"]
    by (auto simp: Read_conn_def conn_inv_def split: if_splits)
next
  case (CWrite b res)
  then show ?thesis using assms by (auto simp: Write_conn_def conn_inv_def split: option.splits if_splits)
qed (use assms in \<open>auto simp: conn_inv_def SetSymmetric_def Close_conn_def stopDiscarding_def Reopen_def split: if_splits\<close>)

text \<open>C30: media goes only where it may: whatever is read, written, set, closed and reopened, every
  packet that was sent went to an address that was set as the destination, or, if the connection
  is or was made symmetric, to one a packet had come from; and never to the unspecified address of
  a call on hold.\<close>

theorem media_sent_only_where_told:
  assumes "run conn_step ops (newUDPConn sym0) = Some c" "(a, b) \<in> set (uc_sent c)"
  shows "\<not> IsUnspecified (ap_Addr a) \<and> IsValid a \<and> ((\<exists>now. CSetDst now a \<in> set ops) \<or>
    (sym0 \<or> CSetSymmetric True \<in> set ops) \<and> (\<exists>now closedNow r. CRead now closedNow r \<in> set ops \<and> ur_addr r = a))"
proof -
  define symm where "symm = (sym0 \<or> CSetSymmetric True \<in> set ops)"
  define A where "A = (\<Union>x\<in>set ops. op_dst symm x)"
  have "conn_inv A c' \<and> (uc_symmetric c' \<longrightarrow> symm)"
    if "run conn_step xs c0 = Some c'" "conn_inv A c0" "uc_symmetric c0 \<longrightarrow> symm" "set xs \<subseteq> set ops" for xs c0 c'
    using that
  proof (induction xs arbitrary: c0)
    case (Cons x xs)
    then obtain c1 where c1: "conn_step x c0 = Some c1" "run conn_step xs c1 = Some c'" by (auto split: option.splits)
    have "op_dst symm x \<subseteq> A" using Cons.prems(4) by (auto simp: A_def)
    moreover have "\<forall>b. x = CSetSymmetric b \<and> b \<longrightarrow> symm" using Cons.prems(4) by (auto simp: symm_def)
    ultimately show ?case using Cons.IH [OF c1(2)] conn_step_inv [OF Cons.prems(2) c1(1)] Cons.prems by auto
  qed simp
  from this [OF assms(1)] have "conn_inv A c" by (auto simp: conn_inv_def newUDPConn_def symm_def)
  then have i: "IsValid a" "\<not> IsUnspecified (ap_Addr a)" "a \<in> A" using assms(2) by (auto simp: conn_inv_def)
  then obtain x where x: "x \<in> set ops" "a \<in> op_dst symm x" by (auto simp: A_def)
  have "(\<exists>now. CSetDst now a \<in> set ops) \<or> symm \<and> (\<exists>now closedNow r. CRead now closedNow r \<in> set ops \<and> ur_addr r = a)"
    using x by (cases x rule: conn_op.exhaust) (auto split: if_splits)
  then show ?thesis using i by (auto simp: symm_def)
qed

definition demo_addr :: "16 word \<Rightarrow> AddrPort" where
  "demo_addr p = \<lparr>ap_Addr = IPv4 0x0A000001, ap_Port = p\<rparr>"

definition demo_read :: "16 word \<Rightarrow> udp_read" where
  "demo_read p = \<lparr>ur_n = 172, ur_addr = demo_addr p, ur_err = None, ur_deadline = False\<rparr>"

theorem media_sent_only_where_told_witness:
  "\<exists>c. run conn_step [CSetDst 5 (demo_addr 4000), CWrite ''x'' (Ok 1), CRead 6 False (demo_read 4002), CWrite ''y'' (Ok 1)] (newUDPConn True) = Some c \<and>
     uc_sent c = [(demo_addr 4000, ''x''), (demo_addr 4002, ''y'')] \<and> \<not> IsUnspecified (ap_Addr (demo_addr 4002))"
proof -
  let ?ops = "[CSetDst 5 (demo_addr 4000), CWrite ''x'' (Ok 1), CRead 6 False (demo_read 4002), CWrite ''y'' (Ok 1)]"
  have r: "\<exists>c. run conn_step ?ops (newUDPConn True) = Some c \<and> uc_sent c = [(demo_addr 4000, ''x''), (demo_addr 4002, ''y'')]"
    by (simp add: newUDPConn_def SetDst_def IsValid_def demo_addr_def demo_read_def Write_conn_def Read_conn_def IsUnspecified_def note_src_def
        follow_src_def Let_def)
  then obtain c where c: "run conn_step ?ops (newUDPConn True) = Some c" "uc_sent c = [(demo_addr 4000, ''x''), (demo_addr 4002, ''y'')]" by blast
  from media_sent_only_where_told [OF c(1), of "demo_addr 4002" "''y''"] c show ?thesis by auto
qed

text \<open>Symmetric media follows the peer, except on hold: after a packet from a valid address, a
  symmetric connection sends there; while the destination is the unspecified address, nothing is
  sent and packets that keep arriving do not change that.\<close>

theorem symmetric_media_follows_source:
  assumes "uc_symmetric c" "\<not> uc_closed c" "IsValid (ur_addr r)" "\<not> (closedNow \<and> ur_err r \<noteq> None \<and> ur_deadline r)"
    and "Read_conn now closedNow r c = (c1, n, err)" "Write_conn res b c1 = (c2, wr)"
  shows "if \<exists>d. uc_dst c = Some d \<and> IsUnspecified (ap_Addr d) then uc_dst c2 = uc_dst c \<and> uc_sent c2 = uc_sent c
    else if IsUnspecified (ap_Addr (ur_addr r)) then uc_sent c2 = uc_sent c
    else uc_sent c2 = uc_sent c @ [(ur_addr r, b)] \<and> wr = res"
  using assms by (auto simp: Read_conn_def Write_conn_def follow_src_def split: option.splits if_splits)

theorem symmetric_media_follows_source_witness:
  "uc_sent (fst (Write_conn (Ok 1) ''y'' (fst (Read_conn 6 False (demo_read 4002) (newUDPConn True))))) = [(demo_addr 4002, ''y'')]"
proof -
  obtain c1 n err where r: "Read_conn 6 False (demo_read 4002) (newUDPConn True) = (c1, n, err)" by (rule prod_cases3)
  obtain c2 wr where w: "Write_conn (Ok 1) ''y'' c1 = (c2, wr)" by fastforce
  have "uc_sent c2 = [(demo_addr 4002, ''y'')]"
    using symmetric_media_follows_source [OF _ _ _ _ r w] by (simp add: newUDPConn_def demo_read_def demo_addr_def IsValid_def IsUnspecified_def)
  then show ?thesis using r w by simp
qed

section \<open>The media timeout\<close>

text \<open>The port's state that the timeout loop reads, the state of its timer and of the channel that
  wakes it, and the clock. The loop runs until the port is closed or the timeout has been triggered;
  \<open>mt_timer\<close> is when its timer fires next.\<close>

record media_timeout =
  mt_clock :: int
  mt_optInitial :: int
  mt_optGeneral :: int
  mt_start :: "int option"
  mt_initial :: int
  mt_general :: int
  mt_packetCount :: "64 word"
  mt_lastPacket :: int
  mt_timer :: int
  mt_kick :: bool
  mt_closed :: bool
  mt_fired :: bool

definition defaultMediaTimeout :: int where "defaultMediaTimeout = 15 * 1000000000"
definition defaultMediaTimeoutInitial :: int where "defaultMediaTimeoutInitial = 30 * 1000000000"
definition disabledPark :: int where "disabledPark = 3600 * 1000000000"

definition ApplyDefaults :: "int \<times> int \<Rightarrow> int \<times> int" where
  "ApplyDefaults o' = (case o' of (initial, general) \<Rightarrow>
     (if initial \<le> 0 then defaultMediaTimeoutInitial else initial, if general \<le> 0 then defaultMediaTimeout else general))"

definition new_timeout :: "int \<Rightarrow> int \<times> int \<Rightarrow> media_timeout" where
  "new_timeout now opts = (case ApplyDefaults opts of (initial, general) \<Rightarrow>
     \<lparr>mt_clock = now, mt_optInitial = initial, mt_optGeneral = general, mt_start = None, mt_initial = initial, mt_general = general,
      mt_packetCount = 0, mt_lastPacket = 0, mt_timer = now + disabledPark, mt_kick = False, mt_closed = False, mt_fired = False\<rparr>)"

definition SetTimeout :: "int \<Rightarrow> int \<Rightarrow> media_timeout \<Rightarrow> media_timeout" where
  "SetTimeout initial general p = p\<lparr>mt_initial := if initial \<le> 0 then mt_optInitial p else initial,
     mt_general := if general \<le> 0 then mt_optGeneral p else general, mt_start := Some (mt_clock p), mt_kick := True\<rparr>"

definition onNewMediaPacket :: "media_timeout \<Rightarrow> media_timeout" where
  "onNewMediaPacket p = p\<lparr>mt_packetCount := mt_packetCount p + 1, mt_lastPacket := mt_clock p\<rparr>"

text \<open>One round of \<open>mediaTimeoutLoop\<close>, after its select.\<close>

definition mediaTimeoutLoop_round :: "media_timeout \<Rightarrow> media_timeout" where
  "mediaTimeoutLoop_round p = (case mt_start p of
     None \<Rightarrow> p\<lparr>mt_timer := mt_clock p + disabledPark\<rparr>
   | Some startTime \<Rightarrow> (let
       deadline = (if mt_lastPacket p > 0 then mt_lastPacket p + mt_general p else startTime + mt_initial p);
       remaining = deadline - mt_clock p
     in if remaining \<le> 0 then p\<lparr>mt_fired := True\<rparr>
        else p\<lparr>mt_timer := mt_clock p + min remaining (mt_general p)\<rparr>))"

definition loop_running :: "media_timeout \<Rightarrow> bool" where
  "loop_running p \<longleftrightarrow> \<not> mt_closed p \<and> \<not> mt_fired p"

text \<open>Timed steps: packets and re-arming at any moment, the passing of time, and rounds of the loop. A
  prompt loop handles a kick or a timer that is due before time passes.\<close>

datatype mt_op = MtPacket | MtSetTimeout int int | MtRound | MtDelay int | MtClose

fun mt_step :: "mt_op \<Rightarrow> media_timeout \<Rightarrow> media_timeout option" where
  "mt_step MtPacket p = Some (onNewMediaPacket p)"
| "mt_step (MtSetTimeout i g) p = Some (SetTimeout i g p)"
| "mt_step MtRound p = (if loop_running p \<and> (mt_kick p \<or> mt_timer p \<le> mt_clock p)
     then Some (mediaTimeoutLoop_round (p\<lparr>mt_kick := False\<rparr>)) else None)"
| "mt_step (MtDelay d) p = (if 0 < d \<and> (loop_running p \<longrightarrow> \<not> mt_kick p \<and> mt_clock p + d \<le> mt_timer p)
     then Some (p\<lparr>mt_clock := mt_clock p + d\<rparr>) else None)"
| "mt_step MtClose p = Some (p\<lparr>mt_closed := True\<rparr>)"

text \<open>When the media of an armed port are overdue.\<close>

definition overdue_at :: "media_timeout \<Rightarrow> int \<Rightarrow> int" where
  "overdue_at p startTime = (if mt_lastPacket p > 0 then mt_lastPacket p + mt_general p else startTime + mt_initial p)"

definition mt_inv :: "media_timeout \<Rightarrow> bool" where
  "mt_inv p \<longleftrightarrow> 0 < mt_optInitial p \<and> 0 < mt_optGeneral p \<and> 0 < mt_initial p \<and> 0 < mt_general p \<and> 0 < mt_clock p \<and>
     (loop_running p \<longrightarrow> mt_clock p \<le> mt_timer p \<and>
        (\<forall>st. mt_start p = Some st \<longrightarrow> \<not> mt_kick p \<longrightarrow> mt_timer p \<le> mt_clock p + mt_general p \<and> mt_timer p \<le> overdue_at p st))"

lemma new_timeout_inv: "0 < now \<Longrightarrow> mt_inv (new_timeout now opts)"
  by (auto simp: new_timeout_def ApplyDefaults_def mt_inv_def defaultMediaTimeout_def defaultMediaTimeoutInitial_def disabledPark_def
      split: prod.split)

lemma mt_step_inv:
  assumes "mt_inv p" "mt_step x p = Some p'"
  shows "mt_inv p'"
proof (cases x)
  case MtRound
  then have p': "p' = mediaTimeoutLoop_round (p\<lparr>mt_kick := False\<rparr>)" using assms(2) by (simp split: if_splits)
  show ?thesis
  proof (cases "mt_start p")
    case None
    then show ?thesis using assms(1) p' by (auto simp: mt_inv_def mediaTimeoutLoop_round_def loop_running_def disabledPark_def)
  next
    case (Some st)
    then show ?thesis using assms(1) p'
      by (auto simp: mt_inv_def mediaTimeoutLoop_round_def loop_running_def overdue_at_def Let_def)
  qed
next
  case MtPacket
  then show ?thesis using assms by (auto simp: mt_inv_def onNewMediaPacket_def loop_running_def overdue_at_def)
next
  case (MtSetTimeout i g)
  then show ?thesis using assms by (auto simp: mt_inv_def SetTimeout_def loop_running_def)
next
  case (MtDelay d)
  then show ?thesis using assms by (auto simp: mt_inv_def loop_running_def overdue_at_def split: if_splits)
next
  case MtClose
  then show ?thesis using assms by (auto simp: mt_inv_def loop_running_def)
qed

interpretation media_timer: keeps_inv mt_step mt_inv
  by unfold_locales (rule mt_step_inv)

text \<open>C10: silence is noticed exactly when it has lasted as long as configured: in every timed run, the
  media of an armed port with no pending re-arming are never overdue, that is, the clock has not
  passed the last packet plus the general timeout (or, before the first packet, the arming plus the
  initial timeout); at that moment the loop is due and triggers the timeout; and it never triggers
  it earlier, so packets that keep arriving within the timeout keep the call up.\<close>

theorem media_timeout_exact:
  assumes "run mt_step ops (new_timeout now opts) = Some p" "0 < now" "loop_running p" "mt_start p = Some st"
  shows "(\<not> mt_kick p \<longrightarrow> mt_clock p \<le> overdue_at p st) \<and>
    (\<not> mt_kick p \<longrightarrow> mt_clock p = overdue_at p st \<longrightarrow> (\<exists>p'. mt_step MtRound p = Some p' \<and> mt_fired p')) \<and>
    (\<forall>p'. mt_step MtRound p = Some p' \<longrightarrow> mt_fired p' \<longrightarrow> overdue_at p st \<le> mt_clock p)"
proof -
  have inv: "mt_inv p" by (rule media_timer.run_keeps [OF new_timeout_inv [OF assms(2)] assms(1)])
  have "mt_clock p \<le> mt_timer p" "\<not> mt_kick p \<longrightarrow> mt_timer p \<le> overdue_at p st" using inv assms(3,4) by (auto simp: mt_inv_def)
  then show ?thesis using assms(3,4)
    by (auto simp: mediaTimeoutLoop_round_def overdue_at_def loop_running_def Let_def split: if_splits)
qed

definition demo_timeout_ops :: "mt_op list" where
  "demo_timeout_ops = [MtSetTimeout 300 100, MtRound, MtDelay 60, MtPacket, MtDelay 40, MtRound, MtDelay 60]"

theorem media_timeout_exact_witness:
  "\<exists>p. run mt_step demo_timeout_ops (new_timeout 1 (300, 100)) = Some p \<and> mt_clock p = 161 \<and>
     (\<exists>p'. mt_step MtRound p = Some p' \<and> mt_fired p')"
proof -
  have r: "\<exists>p. run mt_step demo_timeout_ops (new_timeout 1 (300, 100)) = Some p \<and> mt_clock p = 161 \<and> loop_running p \<and> \<not> mt_kick p \<and>
      mt_start p = Some 1 \<and> overdue_at p 1 = 161"
    by (simp add: demo_timeout_ops_def new_timeout_def ApplyDefaults_def SetTimeout_def mediaTimeoutLoop_round_def onNewMediaPacket_def
        loop_running_def overdue_at_def Let_def)
  then obtain p where p: "run mt_step demo_timeout_ops (new_timeout 1 (300, 100)) = Some p" "mt_clock p = 161" "loop_running p" "\<not> mt_kick p"
      "mt_start p = Some 1" "overdue_at p 1 = 161" by blast
  from media_timeout_exact [OF p(1) _ p(3,5)] p show ?thesis by auto
qed

section \<open>Changes of the media\<close>

record crypto_config =
  cc_Profile :: string
  cc_LocalMasterKey :: string
  cc_LocalMasterSalt :: string
  cc_RemoteMasterKey :: string
  cc_RemoteMasterSalt :: string

datatype direction = DirSendRecv | DirSendOnly | DirRecvOnly | DirInactive

text \<open>\<open>sdp.MediaConfig\<close>; \<open>'c\<close> is the SDP package's codec information, compared with its \<open>Equals\<close>.\<close>

record 'c MediaConfig =
  mg_Local :: AddrPort
  mg_Remote :: AddrPort
  mg_Codec :: "'c option"
  mg_DTMF :: "'c option"
  mg_Crypto :: "crypto_config option"
  mg_PeerDirection :: direction

definition changeSetNew :: "64 word" where "changeSetNew = 1"
definition changeSetAudioCodec :: "64 word" where "changeSetAudioCodec = push_bit 1 1"
definition changeSetDTMF :: "64 word" where "changeSetDTMF = push_bit 2 1"
definition changeSetCrypto :: "64 word" where "changeSetCrypto = push_bit 3 1"
definition changeSetLocalAddr :: "64 word" where "changeSetLocalAddr = push_bit 4 1"
definition changeSetRemoteAddr :: "64 word" where "changeSetRemoteAddr = push_bit 5 1"
definition changeSetPeerDirection :: "64 word" where "changeSetPeerDirection = push_bit 6 1"

lemmas change_set_defs = changeSetNew_def changeSetAudioCodec_def changeSetDTMF_def changeSetCrypto_def changeSetLocalAddr_def
  changeSetRemoteAddr_def changeSetPeerDirection_def

definition flag :: "bool \<Rightarrow> 64 word \<Rightarrow> 64 word" where
  "flag b f = (if b then f else 0)"

definition crypto_differs :: "crypto_config option \<Rightarrow> crypto_config option \<Rightarrow> bool" where
  "crypto_differs a b = (case (a, b) of
     (Some x, Some y) \<Rightarrow> cc_Profile x \<noteq> cc_Profile y \<or> cc_LocalMasterKey x \<noteq> cc_LocalMasterKey y \<or>
       cc_LocalMasterSalt x \<noteq> cc_LocalMasterSalt y \<or> cc_RemoteMasterKey x \<noteq> cc_RemoteMasterKey y \<or>
       cc_RemoteMasterSalt x \<noteq> cc_RemoteMasterSalt y
   | (None, None) \<Rightarrow> False
   | _ \<Rightarrow> True)"

definition NewChangeSetSummary ::
  "('c option \<Rightarrow> 'c option \<Rightarrow> bool) \<Rightarrow> 'c MediaConfig option \<Rightarrow> 'c MediaConfig \<Rightarrow> 64 word" where
  "NewChangeSetSummary eq current new = (case current of
     None \<Rightarrow> changeSetNew
   | Some cur \<Rightarrow>
       or (flag (\<not> eq (mg_Codec cur) (mg_Codec new)) changeSetAudioCodec)
      (or (flag (\<not> eq (mg_DTMF cur) (mg_DTMF new)) changeSetDTMF)
      (or (flag (crypto_differs (mg_Crypto cur) (mg_Crypto new)) changeSetCrypto)
      (or (flag (mg_Local cur \<noteq> mg_Local new) changeSetLocalAddr)
      (or (flag (mg_Remote cur \<noteq> mg_Remote new) changeSetRemoteAddr)
          (flag (mg_PeerDirection cur \<noteq> mg_PeerDirection new) changeSetPeerDirection))))))"

definition shouldReconfigure :: "64 word \<Rightarrow> bool" where
  "shouldReconfigure c \<longleftrightarrow> and c (or changeSetNew (or changeSetAudioCodec (or changeSetDTMF changeSetCrypto))) \<noteq> 0"

definition includes_feature :: "64 word \<Rightarrow> 64 word \<Rightarrow> bool" where
  "includes_feature c feature \<longleftrightarrow> and c feature \<noteq> 0"

lemma flag_bit: "bit (flag b (push_bit k 1)) n \<longleftrightarrow> b \<and> n = k \<and> k < 64"
  by (auto simp: flag_def bit_exp_iff)

lemma crypto_differs_iff [simp]: "crypto_differs a b = (a \<noteq> b)"
  by (cases a; cases b) (auto simp: crypto_differs_def intro: crypto_config.equality)

lemma summary_bits:
  "bit (NewChangeSetSummary eq (Some cur) new) n =
     (n = 1 \<and> \<not> eq (mg_Codec cur) (mg_Codec new) \<or> n = 2 \<and> \<not> eq (mg_DTMF cur) (mg_DTMF new) \<or>
      n = 3 \<and> mg_Crypto cur \<noteq> mg_Crypto new \<or> n = 4 \<and> mg_Local cur \<noteq> mg_Local new \<or> n = 5 \<and> mg_Remote cur \<noteq> mg_Remote new \<or>
      n = 6 \<and> mg_PeerDirection cur \<noteq> mg_PeerDirection new)"
  unfolding NewChangeSetSummary_def option.case change_set_defs crypto_differs_iff bit_or_iff flag_bit by auto

lemma includes_bit: "includes_feature w (push_bit k 1) = bit w k"
  by (simp add: includes_feature_def and_exp_eq_0_iff_not_bit)

lemma includes_or: "includes_feature w (or a b) \<longleftrightarrow> includes_feature w a \<or> includes_feature w b"
  by (auto simp: includes_feature_def bit_eq_iff bit_and_iff bit_or_iff)

lemma includes_features:
  "includes_feature w changeSetNew = bit w 0" "includes_feature w changeSetAudioCodec = bit w 1"
  "includes_feature w changeSetDTMF = bit w 2" "includes_feature w changeSetCrypto = bit w 3"
  "includes_feature w changeSetLocalAddr = bit w 4" "includes_feature w changeSetRemoteAddr = bit w 5"
  "includes_feature w changeSetPeerDirection = bit w 6"
  using includes_bit [of w 0] unfolding change_set_defs by (simp_all only: includes_bit push_bit_0_id id_apply)

lemma shouldReconfigure_bits: "shouldReconfigure w \<longleftrightarrow> bit w 0 \<or> bit w 1 \<or> bit w 2 \<or> bit w 3"
  unfolding shouldReconfigure_def by (fold includes_feature_def) (simp only: includes_or includes_features)

lemma bit_changeSetNew [simp]: "bit changeSetNew n \<longleftrightarrow> n = 0"
  by (simp add: changeSetNew_def bit_1_iff)

lemma summary_new [simp]:
  "NewChangeSetSummary eq None new = changeSetNew" "shouldReconfigure changeSetNew"
  by (simp_all add: NewChangeSetSummary_def shouldReconfigure_bits changeSetNew_def)

lemma summary_not_new: "NewChangeSetSummary eq (Some cur) new \<noteq> changeSetNew"
  using summary_bits [of eq cur new 0] by (auto simp: changeSetNew_def)

text \<open>The summary of a renegotiation says exactly what changed: every flag is set if and only if
  its part of the media differs, and a pipeline has to be rebuilt if and only if there was none, or
  the codec, the telephone events or the encryption changed.\<close>

theorem change_set_exact:
  "(case current of None \<Rightarrow> NewChangeSetSummary eq current new = changeSetNew \<and> shouldReconfigure (NewChangeSetSummary eq current new)
    | Some cur \<Rightarrow>
       \<not> includes_feature (NewChangeSetSummary eq current new) changeSetNew \<and>
       includes_feature (NewChangeSetSummary eq current new) changeSetAudioCodec = (\<not> eq (mg_Codec cur) (mg_Codec new)) \<and>
       includes_feature (NewChangeSetSummary eq current new) changeSetDTMF = (\<not> eq (mg_DTMF cur) (mg_DTMF new)) \<and>
       includes_feature (NewChangeSetSummary eq current new) changeSetCrypto = (mg_Crypto cur \<noteq> mg_Crypto new) \<and>
       includes_feature (NewChangeSetSummary eq current new) changeSetLocalAddr = (mg_Local cur \<noteq> mg_Local new) \<and>
       includes_feature (NewChangeSetSummary eq current new) changeSetRemoteAddr = (mg_Remote cur \<noteq> mg_Remote new) \<and>
       includes_feature (NewChangeSetSummary eq current new) changeSetPeerDirection = (mg_PeerDirection cur \<noteq> mg_PeerDirection new) \<and>
       shouldReconfigure (NewChangeSetSummary eq current new) =
         (\<not> (eq (mg_Codec cur) (mg_Codec new) \<and> eq (mg_DTMF cur) (mg_DTMF new) \<and> mg_Crypto cur = mg_Crypto new)))"
  by (cases current) (simp_all add: includes_features shouldReconfigure_bits summary_bits)

end
