(* ===== verification/MediaPipeline.thy ===== *)
theory MediaPipeline
  imports MediaPort MediaStats "HOL-Library.Sublist"
begin

text \<open>
  The media pipeline of a call (media\_pipeline.go): the loop that reads a stream's packets and hands them
  to the chain of handlers, the loop that accepts streams, the construction of the chains towards the
  room and towards the port, their release, and the writer of outgoing DTMF digits.

  A chain of handlers is the list of its stages, first stage first. The constructors of the media library
  (sessions, codecs, mixers) are represented by the error they return, if any; closing a session closes
  the UDP connection it was made on. What the pipeline has opened and not yet released is kept in a
  field of its own, the open resources.
\<close>

section \<open>Reading packets\<close>

record port_counts =
  pc_Streams :: "64 word"
  pc_Packets :: "64 word"
  pc_IgnoredPackets :: "64 word"
  pc_InputPackets :: "64 word"
  pc_FailedPackets :: "64 word"

definition no_counts :: port_counts where
  "no_counts = \<lparr>pc_Streams = 0, pc_Packets = 0, pc_IgnoredPackets = 0, pc_InputPackets = 0, pc_FailedPackets = 0\<rparr>"

text \<open>A round of the read loop: what \<open>ReadRTP\<close> returns, and whether the pipeline still had its handler
  when the packet was to be handed on.\<close>

datatype rtp_read = RdEOF | RdError go_error | RdPacket rtp_header string bool

datatype loop_end = LoopEOF | LoopReadError go_error | LoopKilled go_error

type_synonym 'h rtp_handler = "rtp_header \<Rightarrow> string \<Rightarrow> 'h \<Rightarrow> 'h \<times> go_error option"

record 'h read_loop =
  rl_counts :: port_counts
  rl_errorCnt :: nat
  rl_overflow :: bool
  rl_onPacket :: nat
  rl_handler :: 'h

definition maxErrors :: nat where "maxErrors = 50"

definition ignore_packet :: "'h read_loop \<Rightarrow> 'h read_loop" where
  "ignore_packet s = s\<lparr>rl_counts := (rl_counts s)\<lparr>pc_IgnoredPackets := pc_IgnoredPackets (rl_counts s) + 1\<rparr>\<rparr>"

definition handle_packet :: "'h rtp_handler \<Rightarrow> rtp_header \<Rightarrow> string \<Rightarrow> 'h read_loop \<Rightarrow> 'h read_loop \<times> loop_end option" where
  "handle_packet handle h payload s = (case handle h payload (rl_handler s) of
     (hs, Some err) \<Rightarrow> (let s1 = s\<lparr>rl_handler := hs, rl_errorCnt := rl_errorCnt s + 1,
         rl_counts := (rl_counts s)\<lparr>pc_FailedPackets := pc_FailedPackets (rl_counts s) + 1\<rparr>\<rparr> in
       if rl_errorCnt s1 \<ge> maxErrors then (s1, Some (LoopKilled err)) else (s1, None))
   | (hs, None) \<Rightarrow> (s\<lparr>rl_handler := hs, rl_errorCnt := 0,
         rl_counts := (rl_counts s)\<lparr>pc_InputPackets := pc_InputPackets (rl_counts s) + 1\<rparr>\<rparr>, None))"

fun rtpRead_round :: "nat \<Rightarrow> 'h rtp_handler \<Rightarrow> rtp_read \<Rightarrow> 'h read_loop \<Rightarrow> 'h read_loop \<times> loop_end option" where
  "rtpRead_round mtu handle RdEOF s = (s, Some LoopEOF)"
| "rtpRead_round mtu handle (RdError err) s = (s, Some (LoopReadError err))"
| "rtpRead_round mtu handle (RdPacket h buf hasMux) s = (let
     s1 = s\<lparr>rl_onPacket := rl_onPacket s + 1, rl_counts := (rl_counts s)\<lparr>pc_Packets := pc_Packets (rl_counts s) + 1\<rparr>\<rparr>
   in if length buf > mtu then (ignore_packet (s1\<lparr>rl_overflow := True\<rparr>), None)
      else if \<not> hasMux then (ignore_packet s1, None)
      else handle_packet handle h buf s1)"

fun rtpReadLoop :: "nat \<Rightarrow> 'h rtp_handler \<Rightarrow> rtp_read list \<Rightarrow> 'h read_loop \<Rightarrow> 'h read_loop \<times> loop_end option" where
  "rtpReadLoop mtu handle [] s = (s, None)"
| "rtpReadLoop mtu handle (r # rs) s = (case rtpRead_round mtu handle r s of
     (s1, Some e) \<Rightarrow> (s1, Some e)
   | (s1, None) \<Rightarrow> rtpReadLoop mtu handle rs s1)"

definition new_read_loop :: "port_counts \<Rightarrow> 'h \<Rightarrow> 'h read_loop" where
  "new_read_loop counts hs = \<lparr>rl_counts = counts, rl_errorCnt = 0, rl_overflow = False, rl_onPacket = 0, rl_handler = hs\<rparr>"

text \<open>The accept loop: every accepted stream is counted and gets a read loop; the first one reports that
  media was received.\<close>

fun rtpLoop :: "(go_error, 32 word) result list \<Rightarrow> port_counts \<times> bool \<times> 32 word list \<Rightarrow> port_counts \<times> bool \<times> 32 word list" where
  "rtpLoop [] s = s"
| "rtpLoop (Err err # rs) s = s"
| "rtpLoop (Ok ssrc # rs) (c, received, streams) = rtpLoop rs (c\<lparr>pc_Streams := pc_Streams c + 1\<rparr>, True, streams @ [ssrc])"

section \<open>Every packet is accounted for\<close>

definition accounted :: "port_counts \<Rightarrow> bool" where
  "accounted c \<longleftrightarrow> pc_Packets c = pc_InputPackets c + pc_FailedPackets c + pc_IgnoredPackets c"

lemma round_accounted:
  "accounted (rl_counts s) \<Longrightarrow> rtpRead_round mtu handle r s = (s', e) \<Longrightarrow> accounted (rl_counts s')"
  by (cases r) (auto simp: accounted_def handle_packet_def ignore_packet_def Let_def algebra_simps split: prod.splits option.splits if_splits)

lemma round_reported:
  "pc_Packets (rl_counts s) = w + of_nat (rl_onPacket s) \<Longrightarrow> rtpRead_round mtu handle r s = (s', e) \<Longrightarrow>
   pc_Packets (rl_counts s') = w + of_nat (rl_onPacket s')"
  by (cases r) (auto simp: handle_packet_def ignore_packet_def Let_def algebra_simps split: prod.splits option.splits if_splits)

lemma loop_accounted:
  "accounted (rl_counts s) \<Longrightarrow> pc_Packets (rl_counts s) = w + of_nat (rl_onPacket s) \<Longrightarrow> rtpReadLoop mtu handle rs s = (s', e) \<Longrightarrow>
   accounted (rl_counts s') \<and> pc_Packets (rl_counts s') = w + of_nat (rl_onPacket s')"
proof (induction rs arbitrary: s)
  case (Cons r rs)
  obtain s1 e1 where r: "rtpRead_round mtu handle r s = (s1, e1)" by fastforce
  note k = round_accounted [OF Cons.prems(1) r] round_reported [OF Cons.prems(2) r]
  show ?case
  proof (cases e1)
    case None
    then show ?thesis using Cons.IH [OF k] Cons.prems(3) r by simp
  next
    case (Some x)
    then show ?thesis using k Cons.prems(3) r by simp
  qed
qed simp

section \<open>The loop ends on persistent failure only\<close>

text \<open>The outcomes the handler gives for the packets that reach it.\<close>

fun outcomes :: "nat \<Rightarrow> 'h rtp_handler \<Rightarrow> rtp_read list \<Rightarrow> 'h \<Rightarrow> bool list" where
  "outcomes mtu handle [] hs = []"
| "outcomes mtu handle (RdPacket h buf hasMux # rs) hs = (if length buf > mtu \<or> \<not> hasMux then outcomes mtu handle rs hs
     else (case handle h buf hs of (hs', err) \<Rightarrow> (err = None) # outcomes mtu handle rs hs'))"
| "outcomes mtu handle (_ # rs) hs = []"

lemma failure_run_split:
  "c < n \<Longrightarrow> sublist (replicate n False) (replicate c False @ True # os) \<longleftrightarrow> sublist (replicate n False) os"
proof (induction c)
  case 0
  then show ?case by (cases n) (auto simp: sublist_Cons_right)
next
  case (Suc c)
  have "\<not> prefix (replicate n False) (replicate (Suc c) False @ True # os)"
  proof
    assume "prefix (replicate n False) (replicate (Suc c) False @ True # os)"
    then have "(replicate (Suc c) False @ True # os) ! Suc c = replicate n False ! Suc c"
      using Suc.prems by (metis length_replicate nth_append prefix_def)
    then show False using Suc.prems by (simp add: nth_append)
  qed
  then show ?case using Suc by (simp add: sublist_Cons_right)
qed

lemma killed_iff:
  assumes "rl_errorCnt s < maxErrors"
  shows "(\<exists>err. snd (rtpReadLoop mtu handle rs s) = Some (LoopKilled err)) \<longleftrightarrow>
    sublist (replicate maxErrors False) (replicate (rl_errorCnt s) False @ outcomes mtu handle rs (rl_handler s))"
  using assms
proof (induction rs arbitrary: s)
  case Nil
  then show ?case by (auto dest!: sublist_length_le)
next
  case (Cons r rs)
  have short: "\<not> sublist (replicate maxErrors False) (replicate (rl_errorCnt s) False)"
    using Cons.prems by (auto dest!: sublist_length_le)
  show ?case
  proof (cases r)
    case (RdPacket h buf hasMux)
    show ?thesis
    proof (cases "length buf > mtu \<or> \<not> hasMux")
      case True
      then show ?thesis using Cons RdPacket by (auto simp: ignore_packet_def Let_def)
    next
      case False
      obtain hs err where h: "handle h buf (rl_handler s) = (hs, err)" by fastforce
      show ?thesis
      proof (cases err)
        case None
        then show ?thesis using Cons.prems False RdPacket h Cons.IH
          by (simp add: handle_packet_def failure_run_split maxErrors_def)
      next
        case (Some x)
        have app: "replicate n False @ False # os = replicate (Suc n) False @ os" for n os
          by (simp add: replicate_app_Cons_same)
        have "sublist (replicate maxErrors False) (replicate maxErrors False @ os)" for os
          by (simp add: sublist_append_rightI)
        then show ?thesis using Cons.prems False RdPacket h Some Cons.IH
          by (cases "Suc (rl_errorCnt s) = maxErrors") (simp_all add: handle_packet_def app Let_def del: replicate_Suc)
      qed
    qed
  qed (use short in simp_all)
qed

text \<open>C29: a stream's packets are all accounted for, and its loop gives up only on persistent failure:
  whatever is read and however the handlers behave, the packets counted are those handed on plus
  those that failed plus those ignored, each of them restarts the media timeout, and the loop is
  killed if and only if fifty packets in a row failed to be handled.\<close>

theorem media_packets_accounted:
  assumes "accounted c" "rtpReadLoop mtu handle rs (new_read_loop c hs) = (s, e)"
  shows "accounted (rl_counts s) \<and> pc_Packets (rl_counts s) = pc_Packets c + of_nat (rl_onPacket s) \<and>
    ((\<exists>err. e = Some (LoopKilled err)) \<longleftrightarrow> sublist (replicate 50 False) (outcomes mtu handle rs hs))"
proof (intro conjI)
  note l = loop_accounted [of "new_read_loop c hs" "pc_Packets c" mtu handle rs s e]
  show "accounted (rl_counts s)" "pc_Packets (rl_counts s) = pc_Packets c + of_nat (rl_onPacket s)"
    using l assms by (simp_all add: new_read_loop_def)
  show "(\<exists>err. e = Some (LoopKilled err)) \<longleftrightarrow> sublist (replicate 50 False) (outcomes mtu handle rs hs)"
    using killed_iff [of "new_read_loop c hs" mtu handle rs] assms(2) by (simp add: new_read_loop_def maxErrors_def)
qed

definition demo_handler :: "nat rtp_handler" where
  "demo_handler h payload n = (Suc n, if payload = '''' then Some (ENew ''empty'') else None)"

definition demo_packet :: "string \<Rightarrow> rtp_read" where
  "demo_packet p = RdPacket \<lparr>SequenceNumber = 1, Timestamp = 160\<rparr> p True"

theorem media_packets_accounted_witness:
  "accounted no_counts \<and>
   (case rtpReadLoop 3 demo_handler [demo_packet ''ab'', demo_packet ''abcd'', demo_packet '''', RdEOF] (new_read_loop no_counts 0) of
     (s, e) \<Rightarrow> accounted (rl_counts s) \<and> pc_Packets (rl_counts s) = 3 \<and> pc_IgnoredPackets (rl_counts s) = 1 \<and> e = Some LoopEOF) \<and>
   \<not> sublist (replicate 50 False) (outcomes 3 demo_handler [demo_packet ''ab'', demo_packet ''abcd'', demo_packet '''', RdEOF] 0)"
proof -
  define rs where "rs = [demo_packet ''ab'', demo_packet ''abcd'', demo_packet '''', RdEOF]"
  have a: "accounted no_counts" by (simp add: accounted_def no_counts_def)
  obtain s e where r: "rtpReadLoop 3 demo_handler rs (new_read_loop no_counts 0) = (s, e)" by fastforce
  have e: "e = Some LoopEOF" "rl_onPacket s = 3" "pc_IgnoredPackets (rl_counts s) = 1"
    using r by (auto simp: rs_def demo_packet_def demo_handler_def new_read_loop_def no_counts_def handle_packet_def ignore_packet_def
      maxErrors_def)
  show ?thesis using media_packets_accounted [OF a r] e r a by (simp add: rs_def no_counts_def)
qed

section \<open>Outgoing digits\<close>

text \<open>\<open>dtmfOutWriter\<close>. A sample is the list of its runes; the stream of telephone events is the list of what
  was sent on it, each with whether room audio was connected at the time. \<^term>\<open>tones\<close> says for a byte
  whether the DTMF library has tones for it, and \<^term>\<open>write\<close> what its \<open>Write\<close> returns. The content that
  is found in the switch when it is put back is an argument: the code panics unless it is empty.\<close>

record 'w dtmf_out =
  dw_dtmfAudio :: bool
  dw_audioSwitch :: "'w option option"
  dw_sent :: "(nat list \<times> bool) list"

definition rune_len :: "nat \<Rightarrow> nat" where
  "rune_len r = (if r < 0x80 then 1 else if r < 0x800 then 2 else if r < 0x10000 then 3 else 4)"

definition pause_rune :: nat where "pause_rune = of_char (CHR ''w'')"

fun invalid_digits :: "(8 word \<Rightarrow> bool) \<Rightarrow> nat \<Rightarrow> nat list \<Rightarrow> string list" where
  "invalid_digits tones i [] = []"
| "invalid_digits tones i (digit # ds) =
     (if digit \<noteq> pause_rune \<and> \<not> tones (of_nat digit)
      then [''invalid DTMF sample '' @ Itoa (int digit) @ '' at position '' @ Itoa (int i)] else []) @
     invalid_digits tones (i + rune_len digit) ds"

fun join_msgs :: "string list \<Rightarrow> string" where
  "join_msgs [] = ''''"
| "join_msgs [m] = m"
| "join_msgs (m # ms) = m @ [CHR 0x0A] @ join_msgs ms"

definition audio_connected :: "'w dtmf_out \<Rightarrow> bool" where
  "audio_connected w \<longleftrightarrow> (case dw_audioSwitch w of None \<Rightarrow> True | Some sw \<Rightarrow> sw \<noteq> None)"

definition WriteSample_dtmf ::
  "(8 word \<Rightarrow> bool) \<Rightarrow> (nat list \<Rightarrow> go_error option) \<Rightarrow> 'w option \<Rightarrow> nat list \<Rightarrow> 'w dtmf_out \<Rightarrow> ('w dtmf_out \<times> go_error option) option" where
  "WriteSample_dtmf tones write found sample w = (if sample = [] then Some (w, Some (ENew ''empty DTMF sample''))
     else let errs = invalid_digits tones 0 sample in
       if errs \<noteq> [] then Some (w, Some (ENew (join_msgs errs)))
       else case dw_audioSwitch w of
           None \<Rightarrow> Some (w\<lparr>dw_sent := dw_sent w @ [(sample, True)]\<rparr>, write sample)
         | Some prevWriter \<Rightarrow> if found \<noteq> None then None
             else let w1 = w\<lparr>dw_audioSwitch := Some None\<rparr>; w2 = w1\<lparr>dw_sent := dw_sent w1 @ [(sample, audio_connected w1)]\<rparr> in
               Some (w2\<lparr>dw_audioSwitch := Some prevWriter\<rparr>, write sample))"

lemma invalid_digits_none:
  "invalid_digits tones i sample = [] \<longleftrightarrow> (\<forall>d\<in>set sample. d = pause_rune \<or> tones (of_nat d))"
  by (induction sample arbitrary: i) auto

text \<open>Digits are sent whole or not at all, and room audio comes back: a non-empty sample of pauses and
  digits the library knows is sent once, with the room's audio disconnected while it is sent if the
  writer has a switch, and with the switch holding what it held before once the write has returned,
  failed or not; any other sample is refused with an error and nothing is sent.\<close>

theorem dtmf_sent_whole_audio_back:
  "\<exists>w' err. WriteSample_dtmf tones write None sample w = Some (w', err) \<and> dw_audioSwitch w' = dw_audioSwitch w \<and>
     (if sample \<noteq> [] \<and> (\<forall>d\<in>set sample. d = pause_rune \<or> tones (of_nat d))
      then dw_sent w' = dw_sent w @ [(sample, dw_audioSwitch w = None)] \<and> err = write sample
      else dw_sent w' = dw_sent w \<and> err \<noteq> None)"
  by (cases "dw_audioSwitch w") (auto simp: WriteSample_dtmf_def invalid_digits_none audio_connected_def Let_def)

definition demo_dtmf_out :: "nat dtmf_out" where
  "demo_dtmf_out = \<lparr>dw_dtmfAudio = False, dw_audioSwitch = Some (Some 7), dw_sent = []\<rparr>"

theorem dtmf_sent_whole_audio_back_witness:
  "(\<forall>d\<in>set [49, pause_rune, 50]. d = pause_rune \<or> (\<lambda>b. 48 \<le> b \<and> b \<le> (57 :: 8 word)) (of_nat d)) \<and>
   (\<exists>w' err. WriteSample_dtmf (\<lambda>b. 48 \<le> b \<and> b \<le> 57) (\<lambda>_. Some EOF) None [49, pause_rune, 50] demo_dtmf_out = Some (w', err) \<and>
     dw_audioSwitch w' = Some (Some 7) \<and> dw_sent w' = [([49, pause_rune, 50], False)] \<and> err = Some EOF)"
proof -
  have v: "\<forall>d\<in>set [49, pause_rune, 50]. d = pause_rune \<or> (\<lambda>b. 48 \<le> b \<and> b \<le> (57 :: 8 word)) (of_nat d)" by simp
  show ?thesis
    using dtmf_sent_whole_audio_back [of "\<lambda>b. 48 \<le> b \<and> b \<le> 57" "\<lambda>_. Some EOF" "[49, pause_rune, 50]" demo_dtmf_out] v
    by (auto simp: demo_dtmf_out_def)
qed

section \<open>Construction of the pipeline\<close>

record codec_info =
  ci_Type :: "8 word"
  ci_RTPClockRate :: int
  ci_SampleRate :: int
  ci_SDPFullName :: string

record pipeline_opts =
  po_IgnoreLocalAddrInSDP :: bool
  po_LogSignalChanges :: bool
  po_EnableJitterBuffer :: bool
  po_DropAudioDuringDTMF :: bool
  po_DTMFAudio :: bool

datatype stage =
    StLatencyRTPEntry | StStreamStats | StJitter | StMux "(8 word \<times> stage list) list" "stage list"
  | StHandlerCount | StStatsHandler string | StSerialized | StSilenceFiller int int | StDecode "8 word" | StEvents
  | StSignalLogger string | StWriterCount | StResample int | StLatencyPCMExit | StRoom
  | StLatencyPCMEntry | StEncode | StSeqStream "8 word" | StStatsWriter "8 word" "8 word" | StLatencyRTPExit | StWriteStream
  | StSwitch | StMixerInput

datatype resource = ResSession | ResLoops | ResInput | ResOutput | ResMixer | ResDtmfOut

record pipeline =
  pl_cancelled :: bool
  pl_sess :: bool
  pl_muxToRoom :: "stage list option"
  pl_audioToRoom :: "stage list option"
  pl_dtmfToRoom :: "stage list option"
  pl_dtmfMixer :: bool
  pl_audioToPort :: "stage list option"
  pl_mixerToPort :: "stage list option"
  pl_dtmfToPort :: "stage list dtmf_out option"
  pl_lastDTMFEvent :: "64 word"
  pl_open :: "resource list"

text \<open>The errors of the library's constructors, if any.\<close>

record build_env =
  be_session :: "go_error option"
  be_inputLogger :: "go_error option"
  be_decode :: "go_error option"
  be_writeStream :: "go_error option"
  be_encode :: "go_error option"
  be_outputLogger :: "go_error option"
  be_mixer :: "go_error option"

definition zero_codec :: codec_info where
  "zero_codec = \<lparr>ci_Type = 0, ci_RTPClockRate = 0, ci_SampleRate = 0, ci_SDPFullName = ''''\<rparr>"

definition audio_info :: "codec_info MediaConfig \<Rightarrow> codec_info" where
  "audio_info mc = (case mg_Codec mc of Some a \<Rightarrow> a | None \<Rightarrow> zero_codec)"

definition dtmf_info :: "codec_info MediaConfig \<Rightarrow> codec_info" where
  "dtmf_info mc = (case mg_DTMF mc of Some d \<Rightarrow> d | None \<Rightarrow> zero_codec)"

definition opens :: "resource \<Rightarrow> pipeline \<Rightarrow> pipeline" where
  "opens r p = p\<lparr>pl_open := r # pl_open p\<rparr>"

definition releases :: "resource \<Rightarrow> pipeline \<Rightarrow> pipeline" where
  "releases r p = p\<lparr>pl_open := removeAll r (pl_open p)\<rparr>"

definition releases_if :: "bool \<Rightarrow> resource \<Rightarrow> pipeline \<Rightarrow> pipeline" where
  "releases_if b r p = (if b then releases r p else p)"

text \<open>\<open>setupInput\<close>, first the sink towards the room with its optional signal logger, then the decoder on top
  of it; both failures close the sink made so far.\<close>

definition input_sink :: "pipeline_opts \<Rightarrow> codec_info MediaConfig \<Rightarrow> stage list" where
  "input_sink po mc = (if po_LogSignalChanges po then [StSignalLogger ''input''] else []) @
     [StWriterCount, StResample (ci_SampleRate (audio_info mc)), StLatencyPCMExit, StRoom]"

definition audio_chain :: "pipeline_opts \<Rightarrow> codec_info MediaConfig \<Rightarrow> stage list" where
  "audio_chain po mc = (let info = audio_info mc;
     audioHandler = [StSerialized, StSilenceFiller (ci_RTPClockRate info) (ci_SampleRate info), StDecode (ci_Type info)] @ input_sink po mc
   in [StHandlerCount, StStatsHandler (ci_SDPFullName info)] @ audioHandler)"

definition events_chain :: "codec_info MediaConfig \<Rightarrow> stage list option" where
  "events_chain mc = (if mg_DTMF mc \<noteq> None \<and> ci_Type (dtmf_info mc) \<noteq> 0
     then Some [StHandlerCount, StStatsHandler (ci_SDPFullName (dtmf_info mc)), StEvents] else None)"

definition mux_chain :: "pipeline_opts \<Rightarrow> codec_info MediaConfig \<Rightarrow> stage list" where
  "mux_chain po mc = (let
     events = (case events_chain mc of None \<Rightarrow> [] | Some d \<Rightarrow> [(ci_Type (dtmf_info mc), d)]);
     mux = StMux ((ci_Type (audio_info mc), audio_chain po mc) # events) [StStatsHandler '''']
   in [StLatencyRTPEntry, StStreamStats] @ (if po_EnableJitterBuffer po then [StJitter] else []) @ [mux])"

definition setupInput :: "build_env \<Rightarrow> pipeline_opts \<Rightarrow> codec_info MediaConfig \<Rightarrow> pipeline \<Rightarrow> pipeline \<times> go_error option" where
  "setupInput be po mc p = (let p1 = opens ResInput p in
     case (if po_LogSignalChanges po then be_inputLogger be else None) of
        Some err \<Rightarrow> (releases ResInput p1, Some err)
      | None \<Rightarrow> (case be_decode be of
            Some err \<Rightarrow> (releases ResInput p1, Some err)
          | None \<Rightarrow> (p1\<lparr>pl_audioToRoom := Some (audio_chain po mc), pl_dtmfToRoom := events_chain mc,
              pl_muxToRoom := Some (mux_chain po mc)\<rparr>, None)))"

definition drops_audio :: "pipeline_opts \<Rightarrow> codec_info MediaConfig \<Rightarrow> bool" where
  "drops_audio po mc \<longleftrightarrow> po_DropAudioDuringDTMF po \<or> ci_RTPClockRate (dtmf_info mc) \<noteq> ci_RTPClockRate (audio_info mc)"

text \<open>\<open>setupOutput\<close>: the accept loop is started first; the telephone-event writer comes last, with a switch in
  front of the audio when audio is dropped during digits and a mixer when digits are also audible.\<close>

definition output_dtmf :: "build_env \<Rightarrow> pipeline_opts \<Rightarrow> codec_info MediaConfig \<Rightarrow> pipeline \<Rightarrow> pipeline \<times> go_error option" where
  "output_dtmf be po mc p = (let
     drop = drops_audio po mc;
     sw = (if drop then Some (pl_mixerToPort p) else None);
     p1 = (if drop then p\<lparr>pl_mixerToPort := Some [StSwitch]\<rparr> else p);
     audible = (po_DTMFAudio po \<and> \<not> drop)
   in if audible \<and> be_mixer be \<noteq> None then (p1, be_mixer be)
      else let p2 = (if audible then opens ResMixer (p1\<lparr>pl_mixerToPort := Some [StMixerInput], pl_dtmfMixer := True\<rparr>) else p1)
        in (opens ResDtmfOut (p2\<lparr>pl_dtmfToPort := Some \<lparr>dw_dtmfAudio = audible, dw_audioSwitch = sw, dw_sent = []\<rparr>\<rparr>), None))"

definition output_chain :: "pipeline_opts \<Rightarrow> int \<Rightarrow> codec_info MediaConfig \<Rightarrow> stage list" where
  "output_chain po incomingSampleRate mc = [StLatencyPCMEntry, StResample incomingSampleRate] @
     (if po_LogSignalChanges po then [StSignalLogger ''mixed''] else []) @
     [StWriterCount, StEncode, StSeqStream (ci_Type (audio_info mc)), StStatsWriter (ci_Type (audio_info mc)) (ci_Type (dtmf_info mc)),
      StLatencyRTPExit, StWriteStream]"

definition setupOutput :: "build_env \<Rightarrow> pipeline_opts \<Rightarrow> int \<Rightarrow> codec_info MediaConfig \<Rightarrow> pipeline \<Rightarrow> pipeline \<times> go_error option" where
  "setupOutput be po incomingSampleRate mc p = (let p1 = opens ResLoops p in
     case be_writeStream be of
       Some err \<Rightarrow> (p1, Some (EWrap ''failed to open write stream'' err))
     | None \<Rightarrow> (case be_encode be of
         Some err \<Rightarrow> (p1, Some err)
       | None \<Rightarrow> (let p2 = opens ResOutput p1 in
           case (if po_LogSignalChanges po then be_outputLogger be else None) of
             Some err \<Rightarrow> (releases ResOutput p2, Some err)
           | None \<Rightarrow> (let chain = output_chain po incomingSampleRate mc;
               p3 = p2\<lparr>pl_audioToPort := Some chain, pl_mixerToPort := Some chain\<rparr>
             in if ci_Type (dtmf_info mc) \<noteq> 0 then output_dtmf be po mc p3 else (p3, None)))))"

text \<open>\<open>Close\<close>: the DTMF writer's context is cancelled, the session and its loops end, and then every chain that
  was made is closed.\<close>

definition pl_Close :: "int \<Rightarrow> pipeline \<times> udpConn \<Rightarrow> pipeline \<times> udpConn" where
  "pl_Close now pc = (case pc of (p, c) \<Rightarrow> (let
     p1 = p\<lparr>pl_cancelled := True\<rparr>;
     p2 = releases_if (pl_sess p1) ResLoops (releases_if (pl_sess p1) ResSession p1);
     c2 = (if pl_sess p1 then Close_conn now c else c);
     p3 = p2\<lparr>pl_muxToRoom := None\<rparr>;
     p4 = releases_if (pl_audioToRoom p3 \<noteq> None) ResInput p3;
     p5 = releases_if (pl_dtmfMixer p4) ResMixer p4;
     p6 = releases_if (pl_audioToPort p5 \<noteq> None) ResOutput p5;
     p7 = releases_if (pl_dtmfToPort p6 \<noteq> None) ResDtmfOut p6
   in (p7, c2)))"

definition empty_pipeline :: pipeline where
  "empty_pipeline = \<lparr>pl_cancelled = False, pl_sess = False, pl_muxToRoom = None, pl_audioToRoom = None, pl_dtmfToRoom = None,
     pl_dtmfMixer = False, pl_audioToPort = None, pl_mixerToPort = None, pl_dtmfToPort = None, pl_lastDTMFEvent = - 1, pl_open = []\<rparr>"

definition pl_init ::
  "build_env \<Rightarrow> pipeline_opts \<Rightarrow> int \<Rightarrow> int \<Rightarrow> codec_info MediaConfig \<Rightarrow> pipeline \<times> udpConn \<Rightarrow> (pipeline \<times> udpConn) \<times> go_error option" where
  "pl_init be po now incomingSampleRate mc pc = (case pc of (p, c) \<Rightarrow> (let
     c1 = SetDst now (mg_Remote mc) c;
     c2 = (if po_IgnoreLocalAddrInSDP po \<and> IsPrivate (ap_Addr (mg_Remote mc)) then SetSymmetric True c1 else c1);
     p1 = p\<lparr>pl_lastDTMFEvent := - 1\<rparr>
   in if mg_Crypto mc \<noteq> None \<and> be_session be \<noteq> None
      then ((p1, c2), map_option (EWrap ''failed to setup pipeline session'') (be_session be))
      else let p2 = opens ResSession (p1\<lparr>pl_sess := True\<rparr>) in
        case setupInput be po mc p2 of
          (p3, Some err) \<Rightarrow> ((p3, c2), Some (EWrap ''failed to setup pipeline input'' err))
        | (p3, None) \<Rightarrow> (case setupOutput be po incomingSampleRate mc p3 of
            (p4, Some err) \<Rightarrow> ((p4, c2), Some (EWrap ''failed to setup pipeline output'' err))
          | (p4, None) \<Rightarrow> ((p4, c2), None))))"

definition NewMediaPortPipeline ::
  "build_env \<Rightarrow> pipeline_opts \<Rightarrow> int \<Rightarrow> int \<Rightarrow> codec_info MediaConfig \<Rightarrow> udpConn \<Rightarrow> (pipeline \<times> udpConn) \<times> go_error option" where
  "NewMediaPortPipeline be po now incomingSampleRate mc c =
     (case pl_init be po now incomingSampleRate mc (empty_pipeline, c) of
        (pc, Some err) \<Rightarrow> (pl_Close now pc, Some err)
      | (pc, None) \<Rightarrow> (pc, None))"

definition GetConnectors :: "pipeline \<Rightarrow> stage list option \<times> stage list dtmf_out option" where
  "GetConnectors p = (if pl_audioToPort p = None then (None, None)
     else if pl_dtmfToPort p = None then (pl_mixerToPort p, None)
     else (pl_mixerToPort p, pl_dtmfToPort p))"

section \<open>A pipeline is released whole\<close>

text \<open>Whatever is open is reachable from a field that \<open>Close\<close> looks at.\<close>

definition owned :: "pipeline \<Rightarrow> bool" where
  "owned p \<longleftrightarrow> (ResSession \<in> set (pl_open p) \<longrightarrow> pl_sess p) \<and> (ResLoops \<in> set (pl_open p) \<longrightarrow> pl_sess p) \<and>
     (ResInput \<in> set (pl_open p) \<longrightarrow> pl_audioToRoom p \<noteq> None) \<and> (ResOutput \<in> set (pl_open p) \<longrightarrow> pl_audioToPort p \<noteq> None) \<and>
     (ResMixer \<in> set (pl_open p) \<longrightarrow> pl_dtmfMixer p) \<and> (ResDtmfOut \<in> set (pl_open p) \<longrightarrow> pl_dtmfToPort p \<noteq> None)"

lemmas resource_defs = opens_def releases_def

lemma releases_if_fields [simp]:
  "pl_sess (releases_if b r p) = pl_sess p" "pl_audioToRoom (releases_if b r p) = pl_audioToRoom p"
  "pl_dtmfMixer (releases_if b r p) = pl_dtmfMixer p" "pl_audioToPort (releases_if b r p) = pl_audioToPort p"
  "pl_dtmfToPort (releases_if b r p) = pl_dtmfToPort p"
  "set (pl_open (releases_if b r p)) = set (pl_open p) - (if b then {r} else {})"
  by (simp_all add: releases_if_def releases_def)

lemma Close_releases: "owned p \<Longrightarrow> pl_open (fst (pl_Close now (p, c))) = []"
proof -
  assume o: "owned p"
  have "r \<notin> set (pl_open (fst (pl_Close now (p, c))))" for r
    using o by (cases r) (simp_all add: pl_Close_def Let_def owned_def)
  then show ?thesis by (metis ex_in_conv set_empty)
qed

lemma setupInput_owned:
  assumes s: "setupInput be po mc p = (p', e)" and "owned p" "pl_sess p" "ResInput \<notin> set (pl_open p)"
  shows "owned p'" "pl_sess p'" "ResOutput \<in> set (pl_open p') \<longleftrightarrow> ResOutput \<in> set (pl_open p)"
    "e = None \<Longrightarrow> pl_muxToRoom p' \<noteq> None"
    "pl_dtmfToPort p' = pl_dtmfToPort p" "pl_audioToPort p' = pl_audioToPort p"
proof -
  have c: "pl_sess p' = pl_sess p \<and> pl_dtmfMixer p' = pl_dtmfMixer p \<and> pl_dtmfToPort p' = pl_dtmfToPort p \<and> pl_audioToPort p' = pl_audioToPort p \<and>
      (e \<noteq> None \<and> pl_open p' = removeAll ResInput (pl_open p) \<or>
       e = None \<and> pl_open p' = ResInput # pl_open p \<and> pl_audioToRoom p' \<noteq> None \<and> pl_muxToRoom p' \<noteq> None)"
    using s by (cases "po_LogSignalChanges po"; cases "be_inputLogger be"; cases "be_decode be") (auto simp: setupInput_def Let_def resource_defs)
  then show "pl_sess p'" "ResOutput \<in> set (pl_open p') \<longleftrightarrow> ResOutput \<in> set (pl_open p)"
    "e = None \<Longrightarrow> pl_muxToRoom p' \<noteq> None"
    "pl_dtmfToPort p' = pl_dtmfToPort p" "pl_audioToPort p' = pl_audioToPort p"
    using assms(3) by auto
  show "owned p'" using c assms(2-4) unfolding owned_def by (elim conjE disjE) auto
qed

lemma output_dtmf_owned:
  assumes s: "output_dtmf be po mc p = (p', e)" and "owned p"
  shows "owned p'" "e = None \<Longrightarrow> pl_dtmfToPort p' \<noteq> None" "pl_audioToPort p' = pl_audioToPort p"
    "pl_mixerToPort p \<noteq> None \<Longrightarrow> pl_mixerToPort p' \<noteq> None" "pl_muxToRoom p' = pl_muxToRoom p"
    "e = None \<Longrightarrow> map_option dw_audioSwitch (pl_dtmfToPort p') = Some (if drops_audio po mc then Some (pl_mixerToPort p) else None)"
proof -
  define au where "au = (po_DTMFAudio po \<and> \<not> drops_audio po mc)"
  have c: "pl_sess p' = pl_sess p \<and> pl_audioToRoom p' = pl_audioToRoom p \<and> pl_audioToPort p' = pl_audioToPort p \<and> pl_muxToRoom p' = pl_muxToRoom p \<and>
      (pl_mixerToPort p \<noteq> None \<longrightarrow> pl_mixerToPort p' \<noteq> None) \<and>
      (e \<noteq> None \<and> pl_open p' = pl_open p \<and> pl_dtmfMixer p' = pl_dtmfMixer p \<and> pl_dtmfToPort p' = pl_dtmfToPort p \<or>
       e = None \<and> map_option dw_audioSwitch (pl_dtmfToPort p') = Some (if drops_audio po mc then Some (pl_mixerToPort p) else None) \<and>
        (pl_dtmfMixer p \<longrightarrow> pl_dtmfMixer p') \<and>
        (pl_open p' = ResDtmfOut # pl_open p \<or> pl_open p' = ResDtmfOut # ResMixer # pl_open p \<and> pl_dtmfMixer p'))"
  proof (cases "au \<and> be_mixer be \<noteq> None")
    case True
    then show ?thesis using s by (auto simp: output_dtmf_def Let_def au_def)
  next
    case False
    then show ?thesis using s by (cases "drops_audio po mc"; cases "po_DTMFAudio po") (auto simp: output_dtmf_def Let_def opens_def au_def)
  qed
  then show "e = None \<Longrightarrow> pl_dtmfToPort p' \<noteq> None" "pl_audioToPort p' = pl_audioToPort p"
    "pl_mixerToPort p \<noteq> None \<Longrightarrow> pl_mixerToPort p' \<noteq> None" "pl_muxToRoom p' = pl_muxToRoom p"
    "e = None \<Longrightarrow> map_option dw_audioSwitch (pl_dtmfToPort p') = Some (if drops_audio po mc then Some (pl_mixerToPort p) else None)"
    by auto
  show "owned p'" using c assms(2) unfolding owned_def by (elim conjE disjE) auto
qed

lemma setupOutput_owned:
  assumes "setupOutput be po srate mc p = (p', e)" "owned p" "pl_sess p" "ResOutput \<notin> set (pl_open p)" "pl_dtmfToPort p = None"
  shows "owned p'"
    "e = None \<Longrightarrow> pl_audioToPort p' = Some (output_chain po srate mc) \<and> pl_mixerToPort p' \<noteq> None \<and> pl_muxToRoom p' = pl_muxToRoom p \<and>
       map_option dw_audioSwitch (pl_dtmfToPort p') = (if ci_Type (dtmf_info mc) = 0 then None
         else Some (if drops_audio po mc then Some (Some (output_chain po srate mc)) else None))"
proof -
  define p3 where "p3 = (opens ResOutput (opens ResLoops p))\<lparr>pl_audioToPort := Some (output_chain po srate mc),
    pl_mixerToPort := Some (output_chain po srate mc)\<rparr>"
  have o3: "owned p3" using assms by (auto simp: p3_def resource_defs owned_def)
  have keep: "owned (opens ResLoops p)" "owned (releases ResOutput (opens ResOutput (opens ResLoops p)))"
    using assms by (auto simp: resource_defs owned_def)
  have flds: "pl_dtmfToPort p3 = None" "pl_mixerToPort p3 = Some (output_chain po srate mc)" "pl_muxToRoom p3 = pl_muxToRoom p"
    "pl_audioToPort p3 = Some (output_chain po srate mc)"
    using assms by (simp_all add: p3_def resource_defs)
  show "owned p'" using assms(1) keep o3 output_dtmf_owned(1) [of be po mc p3 p' e]
    by (auto simp: setupOutput_def Let_def p3_def split: option.splits if_splits)
  show "pl_audioToPort p' = Some (output_chain po srate mc) \<and> pl_mixerToPort p' \<noteq> None \<and> pl_muxToRoom p' = pl_muxToRoom p \<and>
       map_option dw_audioSwitch (pl_dtmfToPort p') = (if ci_Type (dtmf_info mc) = 0 then None
         else Some (if drops_audio po mc then Some (Some (output_chain po srate mc)) else None))" if "e = None"
  proof -
    have "(if ci_Type (dtmf_info mc) \<noteq> 0 then output_dtmf be po mc p3 else (p3, None)) = (p', None)"
      using assms(1) that by (auto simp: setupOutput_def Let_def p3_def split: option.splits if_splits)
    then show ?thesis using output_dtmf_owned [of be po mc p3 p' None] o3 flds by (auto split: if_splits)
  qed
qed

lemma init_owned:
  assumes "pl_init be po now srate mc (empty_pipeline, c) = ((p, c'), e)"
  shows "owned p" "uc_dst c' = (if IsValid (mg_Remote mc) then Some (mg_Remote mc) else uc_dst c)"
    "e = None \<Longrightarrow> pl_muxToRoom p \<noteq> None \<and> pl_audioToPort p = Some (output_chain po srate mc) \<and> pl_mixerToPort p \<noteq> None \<and>
       map_option dw_audioSwitch (pl_dtmfToPort p) = (if ci_Type (dtmf_info mc) = 0 then None
         else Some (if drops_audio po mc then Some (Some (output_chain po srate mc)) else None))"
proof -
  define p2 where "p2 = opens ResSession (empty_pipeline\<lparr>pl_lastDTMFEvent := - 1, pl_sess := True\<rparr>)"
  have o2: "owned p2" "pl_sess p2" "ResInput \<notin> set (pl_open p2)" "ResOutput \<notin> set (pl_open p2)" "pl_dtmfToPort p2 = None"
    by (simp_all add: p2_def resource_defs owned_def empty_pipeline_def)
  obtain p3 e3 where s3: "setupInput be po mc p2 = (p3, e3)" by fastforce
  note i = setupInput_owned [OF s3 o2(1-3)]
  obtain p4 e4 where s4: "setupOutput be po srate mc p3 = (p4, e4)" by fastforce
  have "ResOutput \<notin> set (pl_open p3)" "pl_dtmfToPort p3 = None" using i o2 by auto
  note out = setupOutput_owned [OF s4 i(1,2) this]
  have o0: "owned (empty_pipeline\<lparr>pl_lastDTMFEvent := - 1\<rparr>)" by (simp add: owned_def empty_pipeline_def)
  have cases: "e \<noteq> None \<and> p = empty_pipeline\<lparr>pl_lastDTMFEvent := - 1\<rparr> \<or> e \<noteq> None \<and> p = p3 \<or> e3 = None \<and> p = p4 \<and> (e = None \<longleftrightarrow> e4 = None)"
    using assms s3 s4 unfolding pl_init_def Let_def prod.case p2_def
    by (auto split: option.splits if_splits prod.splits)
  then show "owned p" using o0 i(1) out(1) by auto
  show "pl_muxToRoom p \<noteq> None \<and> pl_audioToPort p = Some (output_chain po srate mc) \<and> pl_mixerToPort p \<noteq> None \<and>
       map_option dw_audioSwitch (pl_dtmfToPort p) = (if ci_Type (dtmf_info mc) = 0 then None
         else Some (if drops_audio po mc then Some (Some (output_chain po srate mc)) else None))" if "e = None"
    using cases that out(2) i(4) by auto
  have "c' = (if po_IgnoreLocalAddrInSDP po \<and> IsPrivate (ap_Addr (mg_Remote mc)) then SetSymmetric True (SetDst now (mg_Remote mc) c)
      else SetDst now (mg_Remote mc) c)"
    using assms unfolding pl_init_def Let_def prod.case by (auto split: option.splits if_splits prod.splits)
  then show "uc_dst c' = (if IsValid (mg_Remote mc) then Some (mg_Remote mc) else uc_dst c)"
    by (auto simp: SetSymmetric_def SetDst_def Let_def split: option.splits)
qed

lemma Close_conn_fields [simp]: "uc_closed (Close_conn now c)" "uc_dst (Close_conn now c) = uc_dst c"
  by (simp_all add: Close_conn_def stopDiscarding_def)

lemma new_pipeline_owned:
  assumes "NewMediaPortPipeline be po now srate mc c = ((p, c'), None)"
  shows "owned p" "fst (GetConnectors p) \<noteq> None" "uc_dst c' = (if IsValid (mg_Remote mc) then Some (mg_Remote mc) else uc_dst c)"
proof -
  have "pl_init be po now srate mc (empty_pipeline, c) = ((p, c'), None)"
    using assms by (auto simp: NewMediaPortPipeline_def split: option.splits prod.splits)
  note i = init_owned [OF this]
  show "owned p" "uc_dst c' = (if IsValid (mg_Remote mc) then Some (mg_Remote mc) else uc_dst c)" using i by simp_all
  show "fst (GetConnectors p) \<noteq> None" using i(3) by (auto simp: GetConnectors_def)
qed


definition demo_codec :: "8 word \<Rightarrow> int \<Rightarrow> codec_info" where
  "demo_codec t r = \<lparr>ci_Type = t, ci_RTPClockRate = r, ci_SampleRate = r, ci_SDPFullName = ''PCMU/8000''\<rparr>"

definition demo_media :: "codec_info MediaConfig" where
  "demo_media = \<lparr>mg_Local = demo_addr 4000, mg_Remote = demo_addr 5000, mg_Codec = Some (demo_codec 0 8000),
     mg_DTMF = Some (demo_codec 101 8000), mg_Crypto = None, mg_PeerDirection = DirSendRecv\<rparr>"

definition demo_opts :: pipeline_opts where
  "demo_opts = \<lparr>po_IgnoreLocalAddrInSDP = False, po_LogSignalChanges = False, po_EnableJitterBuffer = True,
     po_DropAudioDuringDTMF = True, po_DTMFAudio = True\<rparr>"

definition no_failures :: build_env where
  "no_failures = \<lparr>be_session = None, be_inputLogger = None, be_decode = None, be_writeStream = None, be_encode = None,
     be_outputLogger = None, be_mixer = None\<rparr>"


end
