(* ===== verification/MediaNegotiation.thy ===== *)
theory MediaNegotiation
  imports MediaPipeline
begin

text \<open>
  The offer/answer side of the media port (media\_port.go): generating an offer, answering one, processing
  an answer, configuring the pipeline from a negotiated media description, and closing the port.

  The SDP package is an argument of the operations, a record of functions: making and marshalling an
  offer, parsing (which may panic), answering a parsed offer and applying a parsed answer. Random session
  identifiers are arguments. The equality of codecs is the package's as well.
\<close>

section \<open>The port\<close>

datatype 'a parsed = Parsed 'a | ParseFail go_error | ParsePanic string

record ('o, 'r, 'w) sdp_lib =
  sl_NewOffer :: "int \<Rightarrow> (go_error, 'o) result"
  sl_MarshalOffer :: "'o \<Rightarrow> (go_error, string) result"
  sl_ParseOffer :: "string \<Rightarrow> 'r parsed"
  sl_PeerCodecs :: "'r \<Rightarrow> (string \<times> string) list"
  sl_Answer :: "int \<Rightarrow> 'r \<Rightarrow> (go_error, (go_error, string) result \<times> codec_info MediaConfig) result"
  sl_ParseAnswer :: "string \<Rightarrow> 'w parsed"
  sl_ApplyWithLocal :: "'w \<Rightarrow> 'o \<Rightarrow> (go_error, codec_info MediaConfig \<times> (go_error, string) result) result"
  sl_Equals :: "codec_info option \<Rightarrow> codec_info option \<Rightarrow> bool"

text \<open>The configuration a pipeline was built from is kept beside it.\<close>

record 'o media_port =
  mp_opts :: pipeline_opts
  mp_mon :: bool
  mp_sampleRate :: int
  mp_conn :: udpConn
  mp_timer :: media_timeout
  mp_closed :: bool
  mp_pipeline :: "pipeline option"
  mp_built :: "codec_info MediaConfig option"
  mp_localSDP :: string
  mp_offer :: "'o option"
  mp_negotiated :: "codec_info MediaConfig option"
  mp_audioOut :: "stage list option"
  mp_dtmfOut :: "stage list dtmf_out option"
  mp_parseErrors :: nat
  mp_parsePanics :: nat
  mp_peerSDP :: "(string list \<times> bool) list"

definition NewMediaPortWith :: "pipeline_opts \<Rightarrow> bool \<Rightarrow> int \<Rightarrow> bool \<Rightarrow> int \<Rightarrow> int \<times> int \<Rightarrow> 'o media_port" where
  "NewMediaPortWith opts mon srate symmetric now timeouts = \<lparr>mp_opts = opts, mp_mon = mon, mp_sampleRate = srate,
     mp_conn = newUDPConn symmetric, mp_timer = new_timeout now timeouts, mp_closed = False, mp_pipeline = None, mp_built = None,
     mp_localSDP = '''', mp_offer = None, mp_negotiated = None, mp_audioOut = None, mp_dtmfOut = None,
     mp_parseErrors = 0, mp_parsePanics = 0, mp_peerSDP = []\<rparr>"

definition clock_of :: "'o media_port \<Rightarrow> int" where
  "clock_of p = mt_clock (mp_timer p)"

section \<open>Parsing\<close>

definition parseSDPWithRecovery :: "'a parsed \<Rightarrow> 'o media_port \<Rightarrow> 'o media_port \<times> (go_error, 'a) result" where
  "parseSDPWithRecovery r p = (case r of
     Parsed x \<Rightarrow> (p, Ok x)
   | ParseFail err \<Rightarrow> ((if mp_mon p then p\<lparr>mp_parseErrors := Suc (mp_parseErrors p)\<rparr> else p), Err err)
   | ParsePanic m \<Rightarrow> ((if mp_mon p then p\<lparr>mp_parsePanics := Suc (mp_parsePanics p)\<rparr> else p), Err (ENew ''invalid SDP'')))"

text \<open>\<open>peerCodecNames\<close>: the codec's name and its full name in the description; unnamed codecs are one entry.\<close>

fun peerCodecNames :: "(string \<times> string) list \<Rightarrow> string list \<Rightarrow> string list" where
  "peerCodecNames [] names = names"
| "peerCodecNames ((nm, full) # cs) names = (let name = (if nm = '''' then ''other'' else full) in
     peerCodecNames cs (if name \<in> set names then names else names @ [name]))"

definition reportPeerCodecs :: "(string \<times> string) list \<Rightarrow> bool \<Rightarrow> 'o media_port \<Rightarrow> 'o media_port" where
  "reportPeerCodecs cs reinvite p = (if \<not> mp_mon p then p else p\<lparr>mp_peerSDP := mp_peerSDP p @ [(peerCodecNames cs [], reinvite)]\<rparr>)"

section \<open>Configuration\<close>

definition holdEnabled :: bool where "holdEnabled = False"

definition closePipelineLocked :: "'o media_port \<Rightarrow> 'o media_port" where
  "closePipelineLocked p = (let p1 = p\<lparr>mp_audioOut := None, mp_dtmfOut := None\<rparr> in
     case mp_pipeline p1 of
       None \<Rightarrow> p1
     | Some pl \<Rightarrow> p1\<lparr>mp_conn := snd (pl_Close (clock_of p1) (pl, mp_conn p1)), mp_pipeline := None\<rparr>)"

text \<open>The change of the remote address: the destination follows unless the peer's address is unspecified.\<close>

definition apply_remote :: "64 word \<Rightarrow> codec_info MediaConfig \<Rightarrow> 'o media_port \<Rightarrow> 'o media_port" where
  "apply_remote cs c p = (if includes_feature cs changeSetRemoteAddr \<and> \<not> IsUnspecified (ap_Addr (mg_Remote c))
     then p\<lparr>mp_conn := SetDst (clock_of p) (mg_Remote c) (mp_conn p),
            mp_negotiated := map_option (\<lambda>n. n\<lparr>mg_Remote := mg_Remote c\<rparr>) (mp_negotiated p)\<rparr>
     else p)"

definition asks_hold :: "64 word \<Rightarrow> codec_info MediaConfig \<Rightarrow> bool" where
  "asks_hold cs c = (if includes_feature cs changeSetPeerDirection then mg_PeerDirection c = DirSendOnly
     else includes_feature cs changeSetRemoteAddr \<and> IsUnspecified (ap_Addr (mg_Remote c)))"

definition apply_hold :: "64 word \<Rightarrow> codec_info MediaConfig \<Rightarrow> 'o media_port \<Rightarrow> 'o media_port" where
  "apply_hold cs c p = (if holdEnabled \<and> asks_hold cs c
     then (let zero = (case ap_Addr (mg_Remote c) of IPv4 w \<Rightarrow> IPv4 0 | _ \<Rightarrow> IPv6 0) in
       p\<lparr>mp_audioOut := None, mp_dtmfOut := None,
         mp_conn := SetDst (clock_of p) \<lparr>ap_Addr = zero, ap_Port = ap_Port (mg_Remote c)\<rparr> (mp_conn p)\<rparr>)
     else p)"

definition build_pipeline :: "build_env \<Rightarrow> codec_info MediaConfig \<Rightarrow> string \<Rightarrow> 'o media_port \<Rightarrow> 'o media_port \<times> go_error option" where
  "build_pipeline be c localSDP p = (let
     p1 = closePipelineLocked p;
     p2 = p1\<lparr>mp_conn := Reopen (stopDiscarding (mp_conn p1))\<rparr>
   in case NewMediaPortPipeline be (mp_opts p2) (clock_of p2) (mp_sampleRate p2) c (mp_conn p2) of
        ((pl, cn), Some err) \<Rightarrow> (p2\<lparr>mp_conn := cn\<rparr>, Some err)
      | ((pl, cn), None) \<Rightarrow> (p2\<lparr>mp_conn := cn, mp_pipeline := Some pl, mp_built := Some c, mp_localSDP := localSDP,
          mp_audioOut := fst (GetConnectors pl), mp_dtmfOut := snd (GetConnectors pl), mp_negotiated := Some c\<rparr>, None))"

definition configure ::
  "('o, 'r, 'w) sdp_lib \<Rightarrow> build_env \<Rightarrow> codec_info MediaConfig \<Rightarrow> string \<Rightarrow> 'o media_port \<Rightarrow> 'o media_port \<times> go_error option" where
  "configure lib be c localSDP p = (if mg_Codec c = None then (p, Some (ESDP (ENew ''no audio codec selected'')))
     else let p1 = p\<lparr>mp_offer := None\<rparr> in
       if mp_closed p1 then (p1, Some (ENew ''media is already closed''))
       else let cs = NewChangeSetSummary (sl_Equals lib) (mp_negotiated p1) c in
         if includes_feature cs changeSetLocalAddr then (p1, Some (ENew ''unexpected local address change''))
         else let p2 = apply_hold cs c (apply_remote cs c p1) in
           if shouldReconfigure cs then (if cs \<noteq> changeSetNew then (p2, None) else build_pipeline be c localSDP p2)
           else (p2\<lparr>mp_negotiated := Some c\<rparr>, None))"

section \<open>Offers and answers\<close>

definition GenerateOffer :: "('o, 'r, 'w) sdp_lib \<Rightarrow> int \<Rightarrow> 'o media_port \<Rightarrow> 'o media_port \<times> (go_error, string) result" where
  "GenerateOffer lib sid p = (case mp_offer p of
     Some off \<Rightarrow> (p, sl_MarshalOffer lib off)
   | None \<Rightarrow> (case sl_NewOffer lib sid of
       Err err \<Rightarrow> (p, Err err)
     | Ok off \<Rightarrow> (p\<lparr>mp_offer := Some off\<rparr>, sl_MarshalOffer lib off)))"

definition GetLocalSDP :: "'o media_port \<Rightarrow> (go_error, string) result" where
  "GetLocalSDP p = (if mp_pipeline p = None \<or> mp_localSDP p = '''' then Err (ENew ''no SDP provided, no local SDP available'')
     else Ok (mp_localSDP p))"

definition NegotiatedAudio :: "'o media_port \<Rightarrow> codec_info option" where
  "NegotiatedAudio p = Option.bind (mp_negotiated p) mg_Codec"

definition GenerateAnswer ::
  "('o, 'r, 'w) sdp_lib \<Rightarrow> build_env \<Rightarrow> int \<Rightarrow> string \<Rightarrow> 'o media_port \<Rightarrow> 'o media_port \<times> (go_error, string) result" where
  "GenerateAnswer lib be sid offerData p = (if offerData = '''' then (p, GetLocalSDP p)
     else case parseSDPWithRecovery (sl_ParseOffer lib offerData) p of
       (p1, Err err) \<Rightarrow> (p1, Err (ESDP err))
     | (p1, Ok off) \<Rightarrow> (let p2 = reportPeerCodecs (sl_PeerCodecs lib off) (mp_negotiated p1 \<noteq> None) p1 in
         case sl_Answer lib sid off of
           Err err \<Rightarrow> (p2, Err (ESDP err))
         | Ok (marshalled, mc) \<Rightarrow> (case marshalled of
             Err err \<Rightarrow> (p2, Err err)
           | Ok answerData \<Rightarrow> (case configure lib be mc answerData p2 of
               (p3, Some err) \<Rightarrow> (p3, Err err)
             | (p3, None) \<Rightarrow> (p3, Ok answerData)))))"

definition ProcessAnswer ::
  "('o, 'r, 'w) sdp_lib \<Rightarrow> build_env \<Rightarrow> string \<Rightarrow> 'o media_port \<Rightarrow> 'o media_port \<times> go_error option" where
  "ProcessAnswer lib be answerData p = (if answerData = '''' then (p, Some (ENew ''no answer provided''))
     else case mp_offer p of
       None \<Rightarrow> (p, Some (ENew ''no offer generated''))
     | Some off \<Rightarrow> (case parseSDPWithRecovery (sl_ParseAnswer lib answerData) p of
         (p1, Err err) \<Rightarrow> (p1, Some (ESDP err))
       | (p1, Ok ans) \<Rightarrow> (case sl_ApplyWithLocal lib ans off of
           Err err \<Rightarrow> (p1, Some (ESDP err))
         | Ok (mc, marshalled) \<Rightarrow> (case marshalled of
             Err err \<Rightarrow> (p1, Some err)
           | Ok localSDP \<Rightarrow> (case configure lib be mc localSDP p1 of
               (p2, Some err) \<Rightarrow> (p2, Some err)
             | (p2, None) \<Rightarrow> (p2\<lparr>mp_timer := SetTimeout (mt_optInitial (mp_timer p2)) (mt_optGeneral (mp_timer p2)) (mp_timer p2)\<rparr>, None))))))"

definition mp_Close :: "'o media_port \<Rightarrow> 'o media_port" where
  "mp_Close p = (if mp_closed p then p
     else let p1 = closePipelineLocked (p\<lparr>mp_closed := True, mp_timer := (mp_timer p)\<lparr>mt_closed := True\<rparr>\<rparr>) in
       p1\<lparr>mp_conn := Close_conn (clock_of p1) (Close_conn (clock_of p1) (mp_conn p1)), mp_audioOut := None, mp_dtmfOut := None\<rparr>)"

definition RemoteAddr :: "'o media_port \<Rightarrow> AddrPort" where
  "RemoteAddr p = (case uc_dst (mp_conn p) of None \<Rightarrow> \<lparr>ap_Addr = NoAddr, ap_Port = 0\<rparr> | Some d \<Rightarrow> d)"

text \<open>The operations in sequence, with the packets of the socket and the timer in between.\<close>

datatype mp_op = MpOffer int | MpAnswer build_env int string | MpProcess build_env string | MpClose | MpRead bool udp_read
  | MpWrite string "(go_error, nat) result" | MpTimer mt_op

fun mp_step :: "('o, 'r, 'w) sdp_lib \<Rightarrow> mp_op \<Rightarrow> 'o media_port \<Rightarrow> 'o media_port option" where
  "mp_step lib (MpOffer sid) p = Some (fst (GenerateOffer lib sid p))"
| "mp_step lib (MpAnswer be sid off) p = Some (fst (GenerateAnswer lib be sid off p))"
| "mp_step lib (MpProcess be ans) p = Some (fst (ProcessAnswer lib be ans p))"
| "mp_step lib MpClose p = Some (mp_Close p)"
| "mp_step lib (MpRead closedNow r) p = Some (p\<lparr>mp_conn := fst (Read_conn (clock_of p) closedNow r (mp_conn p))\<rparr>)"
| "mp_step lib (MpWrite b res) p = Some (p\<lparr>mp_conn := fst (Write_conn res b (mp_conn p))\<rparr>)"
| "mp_step lib (MpTimer op) p = (if op = MtClose then None
     else map_option (\<lambda>t. p\<lparr>mp_timer := t\<rparr>) (mt_step op (mp_timer p)))"

section \<open>The media of a call is negotiated once\<close>

text \<open>Two configurations describe the same media for the pipeline.\<close>

definition same_media :: "('o, 'r, 'w) sdp_lib \<Rightarrow> codec_info MediaConfig \<Rightarrow> codec_info MediaConfig \<Rightarrow> bool" where
  "same_media lib b n \<longleftrightarrow> sl_Equals lib (mg_Codec b) (mg_Codec n) \<and> sl_Equals lib (mg_DTMF b) (mg_DTMF n) \<and>
     mg_Crypto b = mg_Crypto n \<and> mg_Local b = mg_Local n"

definition mp_inv :: "('o, 'r, 'w) sdp_lib \<Rightarrow> 'o media_port \<Rightarrow> bool" where
  "mp_inv lib p \<longleftrightarrow> equivp (sl_Equals lib) \<and>
     (mp_closed p \<longrightarrow> mp_pipeline p = None \<and> uc_closed (mp_conn p)) \<and>
     (\<not> mp_closed p \<longrightarrow> (mp_pipeline p = None \<longleftrightarrow> mp_negotiated p = None)) \<and>
     (case mp_pipeline p of
        None \<Rightarrow> mp_audioOut p = None \<and> mp_dtmfOut p = None
      | Some pl \<Rightarrow> owned pl \<and> mp_audioOut p \<noteq> None \<and> mp_audioOut p = fst (GetConnectors pl) \<and> mp_dtmfOut p = snd (GetConnectors pl)) \<and>
     (case mp_negotiated p of
        None \<Rightarrow> mp_built p = None
      | Some n \<Rightarrow> (case mp_built p of None \<Rightarrow> False | Some b \<Rightarrow> same_media lib b n))"

text \<open>What an operation keeps once media has been negotiated.\<close>

definition media_kept :: "'o media_port \<Rightarrow> 'o media_port \<Rightarrow> bool" where
  "media_kept p p' \<longleftrightarrow> mp_opts p' = mp_opts p \<and> (mp_built p \<noteq> None \<longrightarrow> mp_built p' = mp_built p \<and> mp_localSDP p' = mp_localSDP p \<and>
     (mp_closed p' \<or> mp_pipeline p' = mp_pipeline p \<and> mp_audioOut p' = mp_audioOut p \<and> mp_dtmfOut p' = mp_dtmfOut p)) \<and>
     (mp_closed p \<longrightarrow> mp_closed p' \<and> mp_built p' = mp_built p)"

lemma media_kept_refl [simp]: "media_kept p p"
  by (simp add: media_kept_def)

lemma media_kept_trans: "media_kept p q \<Longrightarrow> media_kept q r \<Longrightarrow> media_kept p r"
  unfolding media_kept_def by (metis (no_types, lifting))

lemma apply_hold_off [simp]: "apply_hold cs c p = p"
  by (simp add: apply_hold_def holdEnabled_def)

lemma includes_new [simp]: "\<not> includes_feature changeSetNew changeSetLocalAddr" "\<not> includes_feature changeSetNew changeSetRemoteAddr"
  by (simp_all add: includes_features)

lemma apply_remote_fields [simp]:
  "mp_closed (apply_remote cs c p) = mp_closed p" "mp_pipeline (apply_remote cs c p) = mp_pipeline p" "mp_opts (apply_remote cs c p) = mp_opts p"
  "mp_built (apply_remote cs c p) = mp_built p" "mp_localSDP (apply_remote cs c p) = mp_localSDP p" "mp_timer (apply_remote cs c p) = mp_timer p"
  "mp_audioOut (apply_remote cs c p) = mp_audioOut p" "mp_dtmfOut (apply_remote cs c p) = mp_dtmfOut p"
  by (simp_all add: apply_remote_def)

lemma closePipeline_fields [simp]:
  "mp_pipeline (closePipelineLocked p) = None" "mp_audioOut (closePipelineLocked p) = None" "mp_dtmfOut (closePipelineLocked p) = None"
  "mp_closed (closePipelineLocked p) = mp_closed p" "mp_built (closePipelineLocked p) = mp_built p" "mp_opts (closePipelineLocked p) = mp_opts p"
  "mp_negotiated (closePipelineLocked p) = mp_negotiated p" "mp_localSDP (closePipelineLocked p) = mp_localSDP p"
  "mp_timer (closePipelineLocked p) = mp_timer p"
  by (auto simp: closePipelineLocked_def Let_def split: option.splits)

text \<open>The first negotiation.\<close>

lemma build_first:
  assumes "mp_inv lib p" "\<not> mp_closed p" "mp_negotiated p = None" "build_pipeline be c sdp p = (p', e)"
  shows "mp_inv lib p'" "media_kept p p'" "e = None \<Longrightarrow> mp_built p' = Some c \<and> mp_negotiated p' = Some c \<and> mp_localSDP p' = sdp"
    "e \<noteq> None \<Longrightarrow> mp_built p' = None \<and> mp_negotiated p' = None"
    "e = None \<Longrightarrow> IsValid (mg_Remote c) \<Longrightarrow> uc_dst (mp_conn p') = Some (mg_Remote c)"
proof -
  have b0: "mp_built p = None" and eq: "equivp (sl_Equals lib)" using assms(1,3) by (auto simp: mp_inv_def)
  define p2 where "p2 = (closePipelineLocked p)\<lparr>mp_conn := Reopen (stopDiscarding (mp_conn (closePipelineLocked p)))\<rparr>"
  have f2: "mp_pipeline p2 = None" "mp_audioOut p2 = None" "mp_dtmfOut p2 = None" "\<not> mp_closed p2" "mp_built p2 = None"
    "mp_negotiated p2 = None" "mp_opts p2 = mp_opts p"
    using assms(2,3) b0 by (simp_all add: p2_def)
  obtain pl cn e0 where n: "NewMediaPortPipeline be (mp_opts p2) (clock_of p2) (mp_sampleRate p2) c (mp_conn p2) = ((pl, cn), e0)"
    by (metis prod.exhaust)
  have r: "e = e0" "p' = (if e0 = None then p2\<lparr>mp_conn := cn, mp_pipeline := Some pl, mp_built := Some c, mp_localSDP := sdp,
          mp_audioOut := fst (GetConnectors pl), mp_dtmfOut := snd (GetConnectors pl), mp_negotiated := Some c\<rparr> else p2\<lparr>mp_conn := cn\<rparr>)"
    using assms(4) n by (auto simp: build_pipeline_def p2_def Let_def split: option.splits)
  have refl: "same_media lib c c" using eq by (simp add: same_media_def equivp_reflp)
  show "mp_inv lib p'"
  proof (cases e0)
    case None
    then show ?thesis using new_pipeline_owned [of be _ _ _ c _ pl cn] n r f2 eq refl by (auto simp: mp_inv_def)
  next
    case (Some x)
    then show ?thesis using r f2 eq by (simp add: mp_inv_def)
  qed
  show "media_kept p p'" using r f2 b0 assms(2) by (auto simp: media_kept_def)
  show "mp_built p' = Some c \<and> mp_negotiated p' = Some c \<and> mp_localSDP p' = sdp" if "e = None" using r that by simp
  show "mp_built p' = None \<and> mp_negotiated p' = None" if "e \<noteq> None" using r that f2 by simp
  show "uc_dst (mp_conn p') = Some (mg_Remote c)" if "e = None" "IsValid (mg_Remote c)"
    using r that new_pipeline_owned(3) [of be _ _ _ c _ pl cn] n by auto
qed

text \<open>A later one.\<close>

lemma same_media_trans:
  assumes "equivp (sl_Equals lib)" "same_media lib a b" "same_media lib b c"
  shows "same_media lib a c"
proof -
  note t = equivp_transp [OF assms(1)]
  show ?thesis using assms(2,3) t [of "mg_Codec a" "mg_Codec b" "mg_Codec c"] t [of "mg_DTMF a" "mg_DTMF b" "mg_DTMF c"]
    by (simp add: same_media_def)
qed

lemma reconfigure_kept:
  fixes lib :: "('o, 'r, 'w) sdp_lib" and p :: "'o media_port"
  assumes "\<not> mp_closed p" "mp_negotiated p = Some n" "mg_Codec c \<noteq> None"
  defines "cs \<equiv> NewChangeSetSummary (sl_Equals lib) (Some n) c"
  shows "configure lib be c sdp p =
      (if mg_Local n \<noteq> mg_Local c then (p\<lparr>mp_offer := None\<rparr>, Some (ENew ''unexpected local address change''))
       else if same_media lib n c then ((apply_remote cs c (p\<lparr>mp_offer := None\<rparr>))\<lparr>mp_negotiated := Some c\<rparr>, None)
       else (apply_remote cs c (p\<lparr>mp_offer := None\<rparr>), None))"
proof -
  have "includes_feature cs changeSetLocalAddr \<longleftrightarrow> mg_Local n \<noteq> mg_Local c"
    "shouldReconfigure cs \<longleftrightarrow> \<not> (sl_Equals lib (mg_Codec n) (mg_Codec c) \<and> sl_Equals lib (mg_DTMF n) (mg_DTMF c) \<and> mg_Crypto n = mg_Crypto c)"
    "cs \<noteq> changeSetNew"
    using summary_not_new [of "sl_Equals lib" n c] by (auto simp: cs_def includes_features shouldReconfigure_bits summary_bits)
  then show ?thesis using assms(1-3) by (cases "mg_Codec c") (simp_all add: configure_def cs_def [symmetric] Let_def same_media_def)
qed

lemma configure_first:
  assumes "\<not> mp_closed p" "mp_negotiated p = None" "mg_Codec c \<noteq> None"
  shows "configure lib be c sdp p = build_pipeline be c sdp (p\<lparr>mp_offer := None\<rparr>)"
  using assms by (auto simp: configure_def Let_def apply_remote_def)

lemma mp_inv_irrelevant [simp]:
  "mp_inv lib (p\<lparr>mp_offer := x1\<rparr>) = mp_inv lib p" "mp_inv lib (p\<lparr>mp_parseErrors := x2\<rparr>) = mp_inv lib p"
  "mp_inv lib (p\<lparr>mp_parsePanics := x2\<rparr>) = mp_inv lib p" "mp_inv lib (p\<lparr>mp_peerSDP := x3\<rparr>) = mp_inv lib p"
  "mp_inv lib (p\<lparr>mp_timer := x4\<rparr>) = mp_inv lib p"
  by (simp_all add: mp_inv_def cong: option.case_cong)

lemma media_kept_irrelevant [simp]:
  "media_kept p (q\<lparr>mp_offer := x1\<rparr>) = media_kept p q" "media_kept p (q\<lparr>mp_parseErrors := x2\<rparr>) = media_kept p q"
  "media_kept p (q\<lparr>mp_parsePanics := x2\<rparr>) = media_kept p q" "media_kept p (q\<lparr>mp_peerSDP := x3\<rparr>) = media_kept p q"
  "media_kept p (q\<lparr>mp_timer := x4\<rparr>) = media_kept p q" "media_kept p (q\<lparr>mp_conn := x5\<rparr>) = media_kept p q"
  by (simp_all add: media_kept_def)

lemma apply_remote_negotiated:
  assumes "mp_negotiated p = Some n"
  obtains r where "mp_negotiated (apply_remote cs c p) = Some (n\<lparr>mg_Remote := r\<rparr>)"
proof (cases "includes_feature cs changeSetRemoteAddr \<and> \<not> IsUnspecified (ap_Addr (mg_Remote c))")
  case True
  then show ?thesis using assms that [of "mg_Remote c"] by (simp add: apply_remote_def)
next
  case False
  then show ?thesis using assms that [of "mg_Remote n"] by (auto simp: apply_remote_def)
qed

lemma configure_kept:
  assumes inv: "mp_inv lib p" and conf: "configure lib be c sdp p = (p', e)"
  shows "mp_inv lib p' \<and> media_kept p p'"
proof (cases "mg_Codec c = None \<or> mp_closed p")
  case True
  then have "p' = p \<or> p' = p\<lparr>mp_offer := None\<rparr>" using conf by (auto simp: configure_def Let_def split: if_splits)
  then show ?thesis using inv by auto
next
  case False
  show ?thesis
  proof (cases "mp_negotiated p")
    case None
    then have "build_pipeline be c sdp (p\<lparr>mp_offer := None\<rparr>) = (p', e)" using False conf by (simp add: configure_first)
    with build_first(1,2) [of lib "p\<lparr>mp_offer := None\<rparr>" be c sdp p' e] show ?thesis using inv False None by (simp add: media_kept_def)
  next
    case (Some n)
    define q where "q = apply_remote (NewChangeSetSummary (sl_Equals lib) (Some n) c) c (p\<lparr>mp_offer := None\<rparr>)"
    obtain r where n': "mp_negotiated q = Some (n\<lparr>mg_Remote := r\<rparr>)"
      using apply_remote_negotiated [of "p\<lparr>mp_offer := None\<rparr>" n] Some unfolding q_def by auto
    have p': "p' = p\<lparr>mp_offer := None\<rparr> \<or> p' = q \<or> p' = q\<lparr>mp_negotiated := Some c\<rparr> \<and> same_media lib n c"
      using conf False Some reconfigure_kept [of p n c lib be sdp] by (auto simp: q_def split: if_splits)
    obtain b where b: "mp_built p = Some b" "same_media lib b n" "equivp (sl_Equals lib)"
      using inv Some by (auto simp: mp_inv_def split: option.splits)
    have q: "mp_closed q = mp_closed p" "mp_pipeline q = mp_pipeline p" "mp_built q = mp_built p" "mp_localSDP q = mp_localSDP p"
      "mp_audioOut q = mp_audioOut p" "mp_dtmfOut q = mp_dtmfOut p" "mp_opts q = mp_opts p"
      by (simp_all add: q_def)
    have sm: "same_media lib b (n\<lparr>mg_Remote := r\<rparr>)" "same_media lib n c \<Longrightarrow> same_media lib b c"
      using b same_media_trans [of lib b n c] by (simp_all add: same_media_def)
    have "mp_inv lib q" using inv q n' b False Some sm by (auto simp: mp_inv_def)
    moreover have "mp_inv lib (q\<lparr>mp_negotiated := Some c\<rparr>)" if "same_media lib n c"
      using inv q n' b False Some sm(2) [OF that] by (auto simp: mp_inv_def)
    moreover have "media_kept p q" "media_kept p (q\<lparr>mp_negotiated := Some c\<rparr>)" using q by (simp_all add: media_kept_def)
    ultimately show ?thesis using p' inv by auto
  qed
qed

lemma parse_kept:
  "parseSDPWithRecovery r p = (p', x) \<Longrightarrow> mp_inv lib p' = mp_inv lib p \<and> media_kept p p' \<and> mp_offer p' = mp_offer p \<and>
     mp_negotiated p' = mp_negotiated p \<and> mp_closed p' = mp_closed p \<and> mp_conn p' = mp_conn p \<and> mp_built p' = mp_built p \<and>
     mp_timer p' = mp_timer p \<and> mp_localSDP p' = mp_localSDP p \<and> mp_pipeline p' = mp_pipeline p"
  by (auto simp: parseSDPWithRecovery_def split: parsed.splits if_splits)

lemma report_kept [simp]:
  "mp_inv lib (reportPeerCodecs cs b p) = mp_inv lib p" "media_kept q (reportPeerCodecs cs b p) = media_kept q p"
  "mp_negotiated (reportPeerCodecs cs b p) = mp_negotiated p" "mp_closed (reportPeerCodecs cs b p) = mp_closed p"
  "mp_built (reportPeerCodecs cs b p) = mp_built p" "mp_conn (reportPeerCodecs cs b p) = mp_conn p"
  "mp_timer (reportPeerCodecs cs b p) = mp_timer p" "mp_localSDP (reportPeerCodecs cs b p) = mp_localSDP p"
  "mp_pipeline (reportPeerCodecs cs b p) = mp_pipeline p"
  by (auto simp: reportPeerCodecs_def)

text \<open>An answer or the processing of one comes down to at most one configuration.\<close>

lemma GenerateAnswer_cases:
  assumes "GenerateAnswer lib be sid off p = (p', res)"
  obtains (early) q where "p' = q" "mp_inv lib q = mp_inv lib p" "media_kept p q" "\<not> (off \<noteq> '''' \<and> (\<exists>a. res = Ok a))"
      "mp_negotiated q = mp_negotiated p" "mp_conn q = mp_conn p" "mp_built q = mp_built p" "mp_timer q = mp_timer p"
      "mp_localSDP q = mp_localSDP p" "mp_pipeline q = mp_pipeline p"
  | (conf) q mc ans e where "mp_inv lib q = mp_inv lib p" "media_kept p q" "configure lib be mc ans q = (p', e)"
      "res = (case e of None \<Rightarrow> Ok ans | Some err \<Rightarrow> Err err)" "off \<noteq> ''''"
      "mp_negotiated q = mp_negotiated p" "mp_closed q = mp_closed p" "mp_conn q = mp_conn p" "mp_built q = mp_built p" "mp_timer q = mp_timer p"
      "\<exists>ro. sl_ParseOffer lib off = Parsed ro \<and> sl_Answer lib sid ro = Ok (Ok ans, mc)" "mp_localSDP q = mp_localSDP p" "mp_pipeline q = mp_pipeline p"
proof (cases "off = ''''")
  case True
  then show ?thesis using early [of p] assms by (simp add: GenerateAnswer_def)
next
  case False
  obtain p1 x where p1: "parseSDPWithRecovery (sl_ParseOffer lib off) p = (p1, x)" by fastforce
  note k = parse_kept [OF p1, of lib]
  show ?thesis
  proof (cases x)
    case (Inl err)
    then show ?thesis using early [of p1] k assms p1 False by (auto simp: GenerateAnswer_def)
  next
    case (Inr ro)
    then have po: "sl_ParseOffer lib off = Parsed ro" using p1 by (auto simp: parseSDPWithRecovery_def split: parsed.splits if_splits)
    define p2 where "p2 = reportPeerCodecs (sl_PeerCodecs lib ro) (mp_negotiated p1 \<noteq> None) p1"
    show ?thesis
    proof (cases "\<exists>ans mc. sl_Answer lib sid ro = Ok (Ok ans, mc)")
      case True
      then obtain ans mc where a: "sl_Answer lib sid ro = Ok (Ok ans, mc)" by auto
      obtain p3 e where c: "configure lib be mc ans p2 = (p3, e)" by fastforce
      have "p' = p3 \<and> res = (case e of None \<Rightarrow> Ok ans | Some err \<Rightarrow> Err err)"
        using assms False p1 Inr a c by (auto simp: GenerateAnswer_def p2_def split: option.splits)
      then show ?thesis using conf [of p2 mc ans e] k c False a po by (simp add: p2_def)
    next
      case no: False
      then have "p' = p2 \<and> (\<exists>err. res = Err err)"
        using assms False p1 Inr by (auto simp: GenerateAnswer_def p2_def Let_def split: sum.splits)
      then show ?thesis using early [of p2] k by (auto simp: p2_def)
    qed
  qed
qed

lemma ProcessAnswer_cases:
  assumes "ProcessAnswer lib be ans p = (p', e)"
  obtains (early) q where "p' = q" "mp_inv lib q = mp_inv lib p" "media_kept p q" "e \<noteq> None"
      "mp_negotiated q = mp_negotiated p" "mp_conn q = mp_conn p" "mp_built q = mp_built p" "mp_timer q = mp_timer p"
      "mp_localSDP q = mp_localSDP p" "mp_pipeline q = mp_pipeline p"
  | (conf) q mc sdp p2 where "mp_inv lib q = mp_inv lib p" "media_kept p q" "configure lib be mc sdp q = (p2, e)"
      "p' = (if e = None then p2\<lparr>mp_timer := SetTimeout (mt_optInitial (mp_timer p2)) (mt_optGeneral (mp_timer p2)) (mp_timer p2)\<rparr> else p2)"
      "mp_negotiated q = mp_negotiated p" "mp_closed q = mp_closed p" "mp_conn q = mp_conn p" "mp_built q = mp_built p" "mp_timer q = mp_timer p"
      "mp_offer p \<noteq> None" "mp_localSDP q = mp_localSDP p" "mp_pipeline q = mp_pipeline p"
proof (cases "ans = '''' \<or> mp_offer p = None")
  case True
  then show ?thesis using early [of p] assms by (auto simp: ProcessAnswer_def split: if_splits)
next
  case False
  then obtain off where off: "mp_offer p = Some off" by auto
  obtain p1 x where p1: "parseSDPWithRecovery (sl_ParseAnswer lib ans) p = (p1, x)" by fastforce
  note k = parse_kept [OF p1, of lib]
  show ?thesis
  proof (cases "\<exists>a mc sdp. x = Ok a \<and> sl_ApplyWithLocal lib a off = Ok (mc, Ok sdp)")
    case True
    then obtain a mc sdp where a: "x = Ok a" "sl_ApplyWithLocal lib a off = Ok (mc, Ok sdp)" by auto
    obtain p2 e2 where c: "configure lib be mc sdp p1 = (p2, e2)" by fastforce
    have "e = e2 \<and> p' = (if e = None then p2\<lparr>mp_timer := SetTimeout (mt_optInitial (mp_timer p2)) (mt_optGeneral (mp_timer p2)) (mp_timer p2)\<rparr> else p2)"
      using assms False p1 a off c by (auto simp: ProcessAnswer_def split: option.splits)
    then show ?thesis using conf [of p1 mc sdp p2] k c off by simp
  next
    case no: False
    then have "p' = p1 \<and> e \<noteq> None"
      using assms False p1 off by (auto simp: ProcessAnswer_def split: sum.splits)
    then show ?thesis using early [of p1] k by simp
  qed
qed

lemma conn_closed_kept [simp]:
  "uc_closed (SetDst n a x) = uc_closed x" "uc_closed (note_src n a x) = uc_closed x" "uc_closed (follow_src n a x) = uc_closed x"
proof -
  show d: "uc_closed (SetDst n a x) = uc_closed x" for x by (cases "uc_dst x") (simp_all add: SetDst_def Let_def)
  show "uc_closed (note_src n a x) = uc_closed x" by (cases "uc_src x") (simp_all add: note_src_def Let_def)
  show "uc_closed (follow_src n a x) = uc_closed x" by (cases "uc_dst x") (simp_all add: follow_src_def d)
qed

lemma mp_inv_conn: "uc_closed x = uc_closed (mp_conn p) \<Longrightarrow> mp_inv lib (p\<lparr>mp_conn := x\<rparr>) = mp_inv lib p"
  by (simp add: mp_inv_def cong: option.case_cong)

lemma mp_Close_kept: "mp_inv lib p \<Longrightarrow> mp_inv lib (mp_Close p) \<and> media_kept p (mp_Close p)"
  by (auto simp: mp_Close_def Let_def mp_inv_def media_kept_def cong: option.case_cong)

lemma mp_step_kept:
  assumes "mp_inv lib p" "mp_step lib op p = Some p'"
  shows "mp_inv lib p' \<and> media_kept p p'"
proof (cases op)
  case (MpOffer sid)
  then show ?thesis using assms by (auto simp: GenerateOffer_def split: option.splits sum.splits)
next
  case (MpAnswer be sid off)
  then obtain res where g: "GenerateAnswer lib be sid off p = (p', res)" using assms(2) by (cases "GenerateAnswer lib be sid off p") auto
  show ?thesis
  proof (rule GenerateAnswer_cases [OF g])
    show ?thesis if "p' = q" "mp_inv lib q = mp_inv lib p" "media_kept p q" for q using that assms(1) by simp
    show ?thesis if "mp_inv lib q = mp_inv lib p" "media_kept p q" "configure lib be mc a q = (p', e)" for q mc a e
      using configure_kept [OF _ that(3)] that assms(1) media_kept_trans by blast
  qed
next
  case (MpProcess be ans)
  then obtain e where g: "ProcessAnswer lib be ans p = (p', e)" using assms(2) by (cases "ProcessAnswer lib be ans p") auto
  show ?thesis
  proof (rule ProcessAnswer_cases [OF g])
    show ?thesis if "p' = q" "mp_inv lib q = mp_inv lib p" "media_kept p q" for q using that assms(1) by simp
    show ?thesis if "mp_inv lib q = mp_inv lib p" "media_kept p q" "configure lib be mc s q = (p2, e)"
      "p' = (if e = None then p2\<lparr>mp_timer := SetTimeout (mt_optInitial (mp_timer p2)) (mt_optGeneral (mp_timer p2)) (mp_timer p2)\<rparr> else p2)" for q mc s p2
      using configure_kept [OF _ that(3)] that assms(1) media_kept_trans [of p q p2] by (cases "e = None") simp_all
  qed
next
  case MpClose
  then show ?thesis using assms mp_Close_kept by auto
next
  case (MpRead c r)
  have "uc_closed (fst (Read_conn n c r x)) = uc_closed x" for n x
    by (simp add: Read_conn_def)
  then show ?thesis using assms MpRead by (auto simp: mp_inv_conn)
next
  case (MpWrite b res)
  have "uc_closed (fst (Write_conn res b x)) = uc_closed x" for x by (simp add: Write_conn_def split: option.splits)
  then show ?thesis using assms MpWrite by (auto simp: mp_inv_conn)
next
  case (MpTimer t)
  then show ?thesis using assms by (auto split: if_splits)
qed

interpretation media_port: keeps_inv "mp_step lib" "mp_inv lib" for lib :: "('o, 'r, 'w) sdp_lib"
  by unfold_locales (use mp_step_kept in blast)

lemma NewMediaPort_inv: "equivp (sl_Equals lib) \<Longrightarrow> mp_inv lib (NewMediaPortWith opts mon srate symm now to)"
  by (simp add: mp_inv_def NewMediaPortWith_def)


lemma configure_error:
  assumes "mp_inv lib p" "configure lib be c sdp p = (p', Some err)"
  shows "mp_negotiated p' = mp_negotiated p" "mp_built p' = mp_built p" "mp_timer p' = mp_timer p" "mp_localSDP p' = mp_localSDP p"
    "mp_negotiated p \<noteq> None \<Longrightarrow> mp_conn p' = mp_conn p \<and> mp_pipeline p' = mp_pipeline p"
proof -
  have *: "p' = p \<or> p' = p\<lparr>mp_offer := None\<rparr> \<or> mp_negotiated p = None \<and> build_pipeline be c sdp (p\<lparr>mp_offer := None\<rparr>) = (p', Some err) \<and> \<not> mp_closed p"
  proof (cases "mg_Codec c = None \<or> mp_closed p")
    case True
    then show ?thesis using assms(2) by (auto simp: configure_def Let_def split: if_splits)
  next
    case False
    then show ?thesis using assms(2) configure_first [of p c lib be sdp] reconfigure_kept [of p _ c lib be sdp]
      by (cases "mp_negotiated p") (auto split: if_splits)
  qed
  have b: "mp_timer p' = mp_timer p \<and> mp_localSDP p' = mp_localSDP p" if "build_pipeline be c sdp (p\<lparr>mp_offer := None\<rparr>) = (p', Some err)"
    using that by (auto simp: build_pipeline_def Let_def split: prod.splits option.splits)
  have "mp_built p = None" if "mp_negotiated p = None" using assms(1) that by (simp add: mp_inv_def)
  then show "mp_negotiated p' = mp_negotiated p" "mp_built p' = mp_built p" "mp_timer p' = mp_timer p" "mp_localSDP p' = mp_localSDP p"
    "mp_negotiated p \<noteq> None \<Longrightarrow> mp_conn p' = mp_conn p \<and> mp_pipeline p' = mp_pipeline p"
    using * b build_first(4) [of lib "p\<lparr>mp_offer := None\<rparr>" be c sdp p' "Some err"] assms(1) by auto
qed

text \<open>C31: a renegotiation moves the media to the peer's new address and nothing else: when an open port that
  has negotiated media answers another offer, it answers with the description the SDP library made, the
  local address is unchanged, media goes to the newly announced address if that differs from the one
  negotiated before and is a valid, specified one (an unspecified address, the old form of hold, leaves
  the destination alone), and the pipeline and the media timeout are untouched.\<close>

theorem renegotiation_follows_address:
  assumes "\<not> mp_closed p" "mp_negotiated p = Some n" "off \<noteq> ''''" "sl_ParseOffer lib off = Parsed ro"
    and "sl_Answer lib sid ro = Ok (Ok ans, mc)" "GenerateAnswer lib be sid off p = (p', Ok a)"
  shows "a = ans \<and> mg_Local mc = mg_Local n \<and> mp_pipeline p' = mp_pipeline p \<and> mp_timer p' = mp_timer p \<and>
    uc_dst (mp_conn p') = (if mg_Remote mc \<noteq> mg_Remote n \<and> \<not> IsUnspecified (ap_Addr (mg_Remote mc)) \<and> IsValid (mg_Remote mc)
      then Some (mg_Remote mc) else uc_dst (mp_conn p)) \<and>
    mp_negotiated p' = Some (if same_media lib n mc then mc
      else if IsUnspecified (ap_Addr (mg_Remote mc)) then n else n\<lparr>mg_Remote := mg_Remote mc\<rparr>)"
proof (intro conjI)
  obtain q where q: "configure lib be mc ans q = (p', None)" "a = ans" "mp_negotiated q = mp_negotiated p" "mp_closed q = mp_closed p"
    "mp_conn q = mp_conn p" "mp_timer q = mp_timer p" "mp_pipeline q = mp_pipeline p"
    by (rule GenerateAnswer_cases [OF assms(6)]) (use assms(3-5) in \<open>auto split: option.splits\<close>)
  define cs where "cs = NewChangeSetSummary (sl_Equals lib) (Some n) mc"
  have c: "mg_Codec mc \<noteq> None" using q(1) by (auto simp: configure_def split: if_splits)
  note conf = reconfigure_kept [of q n mc lib be ans, folded cs_def]
  have r: "mg_Local n = mg_Local mc" "p' = (if same_media lib n mc then (apply_remote cs mc (q\<lparr>mp_offer := None\<rparr>))\<lparr>mp_negotiated := Some mc\<rparr>
      else apply_remote cs mc (q\<lparr>mp_offer := None\<rparr>))"
    using conf q assms(1,2) c by (auto split: if_splits)
  have inc: "includes_feature cs changeSetRemoteAddr \<longleftrightarrow> mg_Remote n \<noteq> mg_Remote mc"
    by (simp add: cs_def includes_features summary_bits)
  have dst: "uc_dst (SetDst t x cn) = (if IsValid x then Some x else uc_dst cn)" for t x cn
    by (cases "uc_dst cn") (simp_all add: SetDst_def Let_def)
  show "a = ans" "mg_Local mc = mg_Local n" using q r by simp_all
  show "mp_pipeline p' = mp_pipeline p" "mp_timer p' = mp_timer p" using r(2) q by simp_all
  show "uc_dst (mp_conn p') = (if mg_Remote mc \<noteq> mg_Remote n \<and> \<not> IsUnspecified (ap_Addr (mg_Remote mc)) \<and> IsValid (mg_Remote mc)
      then Some (mg_Remote mc) else uc_dst (mp_conn p))"
    using r(2) q inc by (auto simp: apply_remote_def dst)
  have "n\<lparr>mg_Remote := mg_Remote mc\<rparr> = n" if "mg_Remote n = mg_Remote mc" using that by simp
  then show "mp_negotiated p' = Some (if same_media lib n mc then mc
      else if IsUnspecified (ap_Addr (mg_Remote mc)) then n else n\<lparr>mg_Remote := mg_Remote mc\<rparr>)"
    using r(2) q inc assms(2) by (auto simp: apply_remote_def)
qed

text \<open>C32: a failed negotiation does no harm: when an answer cannot be generated or processed, for whatever
  reason, what has been negotiated, the local description and the media timeout stay as they were, and
  so do the pipeline and the connection once media has been negotiated.\<close>

theorem failed_negotiation_harmless:
  assumes "equivp (sl_Equals lib)" "run (mp_step lib) xs (NewMediaPortWith opts mon srate symm now to) = Some p"
    and "(\<exists>be sid off err. GenerateAnswer lib be sid off p = (p', Err err)) \<or> (\<exists>be ans err. ProcessAnswer lib be ans p = (p', Some err))"
  shows "mp_negotiated p' = mp_negotiated p \<and> mp_built p' = mp_built p \<and> mp_localSDP p' = mp_localSDP p \<and> mp_timer p' = mp_timer p \<and>
    (mp_negotiated p \<noteq> None \<longrightarrow> mp_pipeline p' = mp_pipeline p \<and> mp_conn p' = mp_conn p)"
proof -
  have i: "mp_inv lib p" by (rule media_port.run_keeps [OF NewMediaPort_inv [OF assms(1)] assms(2)])
  show ?thesis using assms(3)
  proof (elim disjE exE)
    fix be sid off err
    assume g: "GenerateAnswer lib be sid off p = (p', Err err)"
    show ?thesis by (rule GenerateAnswer_cases [OF g]) (use i in \<open>auto dest: configure_error split: option.splits\<close>)
  next
    fix be ans err
    assume g: "ProcessAnswer lib be ans p = (p', Some err)"
    show ?thesis by (rule ProcessAnswer_cases [OF g]) (use i in \<open>auto dest: configure_error\<close>)
  qed
qed

text \<open>A closed port never negotiates again.\<close>

lemma closed_never_negotiates:
  assumes "mp_closed p" "GenerateAnswer lib be sid off p = (p', Ok a)"
  shows "off = ''''"
proof (rule GenerateAnswer_cases [OF assms(2)])
  show ?thesis if "\<not> (off \<noteq> '''' \<and> (\<exists>x. (Ok a :: (go_error, string) result) = Ok x))" using that by simp
  show ?thesis if "configure lib be mc ans q = (p', e)" "mp_closed q = mp_closed p"
    "(Ok a :: (go_error, string) result) = (case e of None \<Rightarrow> Ok ans | Some err \<Rightarrow> Err err)" for q mc ans e
    using that assms(1) by (auto simp: configure_def Let_def split: if_splits option.splits)
qed

section \<open>A session\<close>

text \<open>A concrete SDP library: an offer is its text, its first byte chooses the port of the peer's address, and
  an empty line makes the parser panic.\<close>

definition demo_lib :: "(nat, string, string) sdp_lib" where
  "demo_lib = \<lparr>sl_NewOffer = (\<lambda>sid. Ok (nat sid)), sl_MarshalOffer = (\<lambda>o'. Ok ''offer''),
     sl_ParseOffer = (\<lambda>s. if s = [CHR 0x0A] then ParsePanic ''index out of range'' else Parsed s),
     sl_PeerCodecs = (\<lambda>r. [(''PCMU'', ''PCMU/8000'')]),
     sl_Answer = (\<lambda>sid r. Ok (Ok ''answer'', demo_media\<lparr>mg_Remote := demo_addr (of_nat (of_char (hd r)))\<rparr>)),
     sl_ParseAnswer = (\<lambda>s. Parsed s), sl_ApplyWithLocal = (\<lambda>a o'. Ok (demo_media, Ok ''local'')), sl_Equals = (=)\<rparr>"

definition demo_port :: "nat media_port" where
  "demo_port = NewMediaPortWith demo_opts True 48000 False 1 (0, 0)"

definition demo_session :: "mp_op list" where
  "demo_session = [MpAnswer no_failures 7 ''A'']"

lemma demo_equiv: "equivp (sl_Equals demo_lib)"
  by (simp add: demo_lib_def identity_equivp)

lemma build_succeeds: "snd (NewMediaPortPipeline no_failures po t r mc cn) = None"
  by (simp add: NewMediaPortPipeline_def pl_init_def setupInput_def setupOutput_def output_dtmf_def no_failures_def Let_def split: prod.split)

lemma demo_first:
  obtains p where "run (mp_step demo_lib) demo_session demo_port = Some p" "mp_built p = Some (demo_media\<lparr>mg_Remote := demo_addr 65\<rparr>)"
     "mp_negotiated p = Some (demo_media\<lparr>mg_Remote := demo_addr 65\<rparr>)" "\<not> mp_closed p"
proof -
  define mc where "mc = demo_media\<lparr>mg_Remote := demo_addr 65\<rparr>"
  define q where "q = demo_port\<lparr>mp_peerSDP := [([''PCMU/8000''], False)]\<rparr>"
  have conf: "configure demo_lib no_failures mc ''answer'' q = build_pipeline no_failures mc ''answer'' (q\<lparr>mp_offer := None\<rparr>)"
    by (rule configure_first) (simp_all add: q_def demo_port_def NewMediaPortWith_def mc_def demo_media_def)
  obtain p e where b: "build_pipeline no_failures mc ''answer'' (q\<lparr>mp_offer := None\<rparr>) = (p, e)" by fastforce
  have e: "e = None" using b build_succeeds unfolding build_pipeline_def Let_def
    by (auto split: prod.splits option.splits) (metis option.distinct(1) snd_conv)
  have i: "mp_inv demo_lib (q\<lparr>mp_offer := None\<rparr>)" "\<not> mp_closed (q\<lparr>mp_offer := None\<rparr>)" "mp_negotiated (q\<lparr>mp_offer := None\<rparr>) = None"
  proof -
    show "mp_inv demo_lib (q\<lparr>mp_offer := None\<rparr>)" unfolding q_def demo_port_def by (simp only: mp_inv_irrelevant NewMediaPort_inv [OF demo_equiv])
  qed (simp_all add: q_def demo_port_def NewMediaPortWith_def)
  note k = build_first [OF i b]
  have "GenerateAnswer demo_lib no_failures 7 ''A'' demo_port = (p, Ok ''answer'')"
    using conf b e by (simp add: GenerateAnswer_def parseSDPWithRecovery_def demo_lib_def reportPeerCodecs_def q_def mc_def demo_port_def
      NewMediaPortWith_def)
  then have "run (mp_step demo_lib) demo_session demo_port = Some p" by (simp add: demo_session_def)
  moreover have "\<not> mp_closed p" using k(1) b e unfolding build_pipeline_def Let_def q_def demo_port_def NewMediaPortWith_def
    by (auto split: prod.splits option.splits)
  ultimately show thesis using that k(3) e by (simp add: mc_def)
qed


theorem renegotiation_follows_address_witness:
  "\<exists>p p'. run (mp_step demo_lib) demo_session demo_port = Some p \<and> \<not> mp_closed p \<and>
     GenerateAnswer demo_lib no_failures 8 ''B'' p = (p', Ok ''answer'') \<and> uc_dst (mp_conn p') = Some (demo_addr 66) \<and>
     mp_pipeline p' = mp_pipeline p"
proof -
  obtain p where p: "run (mp_step demo_lib) demo_session demo_port = Some p"
     "mp_negotiated p = Some (demo_media\<lparr>mg_Remote := demo_addr 65\<rparr>)" "\<not> mp_closed p"
    by (rule demo_first)
  define mc where "mc = demo_media\<lparr>mg_Remote := demo_addr 66\<rparr>"
  have l: "sl_ParseOffer demo_lib ''B'' = Parsed ''B''" "sl_Answer demo_lib 8 ''B'' = Ok (Ok ''answer'', mc)"
    by (simp_all add: demo_lib_def mc_def)
  obtain p' where g: "GenerateAnswer demo_lib no_failures 8 ''B'' p = (p', Ok ''answer'')"
  proof -
    have mc: "mg_Codec mc \<noteq> None" "mg_Local mc = mg_Local (demo_media\<lparr>mg_Remote := demo_addr 65\<rparr>)" by (simp_all add: mc_def demo_media_def)
    obtain p' e where c: "configure demo_lib no_failures mc ''answer'' (reportPeerCodecs (sl_PeerCodecs demo_lib ''B'') True p) = (p', e)"
      by fastforce
    then have "e = None" using reconfigure_kept [of "reportPeerCodecs (sl_PeerCodecs demo_lib ''B'') True p" _ mc demo_lib no_failures] p(2,3) mc
      by (auto split: if_splits)
    then have "GenerateAnswer demo_lib no_failures 8 ''B'' p = (p', Ok ''answer'')"
      using c l p(2) by (simp add: GenerateAnswer_def parseSDPWithRecovery_def)
    then show thesis by (rule that)
  qed
  have "uc_dst (mp_conn p') = Some (demo_addr 66)"
    using renegotiation_follows_address [OF p(3,2) _ l g] by (simp add: mc_def demo_addr_def IsUnspecified_def IsValid_def)
  then show ?thesis using renegotiation_follows_address [OF p(3,2) _ l g] p g by auto
qed

theorem failed_negotiation_harmless_witness:
  "equivp (sl_Equals demo_lib) \<and>
   (\<exists>p p' err. run (mp_step demo_lib) demo_session demo_port = Some p \<and>
     GenerateAnswer demo_lib no_failures 8 [CHR 0x0A] p = (p', Err err) \<and> mp_pipeline p' = mp_pipeline p \<and> mp_negotiated p' = mp_negotiated p)"
proof -
  obtain p where p: "run (mp_step demo_lib) demo_session demo_port = Some p"
     "mp_negotiated p = Some (demo_media\<lparr>mg_Remote := demo_addr 65\<rparr>)"
    by (rule demo_first)
  obtain p' err where g: "GenerateAnswer demo_lib no_failures 8 [CHR 0x0A] p = (p', Err err)"
    by (simp add: GenerateAnswer_def parseSDPWithRecovery_def demo_lib_def)
  note f = failed_negotiation_harmless [OF demo_equiv p(1) [unfolded demo_port_def], of p']
  show ?thesis using f g p demo_equiv by (metis option.distinct(1))
qed

end
