(* ===== verification/Room.thy ===== *)
theory Room
  imports MediaPipeline
begin

text \<open>
  The LiveKit room of a call (room.go): joining, subscribing to the audio tracks of the other
  participants, recovery of the signal connection (resume or full reconnect) with the workers that
  subscribe again after a reconnect, closing, and DTMF in both directions.

  The LiveKit SDK is the environment: its room is a record of the local participant's identifiers and of the
  remote participants with their published tracks; what it does on its own (participants and tracks
  appearing, the connection dropping, resuming or being rebuilt) are steps of the environment that end in
  the callback the code registers. A resume keeps the session identifier and the subscriptions, a full
  reconnect replaces both. Recovery workers run concurrently with everything else, one request at a time;
  closing returns only once they have ended.
\<close>

section \<open>State\<close>

record remote_track =
  rt_ID :: nat
  rt_Audio :: bool
  rt_Subscribed :: bool

record remote_participant =
  rp_Identity :: string
  rp_SIP :: bool
  rp_Tracks :: "remote_track list"

record ParticipantInfo =
  pi_ID :: string
  pi_RoomName :: string
  pi_Identity :: string
  pi_Name :: string

record sdk_room =
  sr_SID :: string
  sr_Identity :: string
  sr_Participants :: "remote_participant list"
  sr_Disconnect :: "string option"

text \<open>A recovery worker that has not started yet, or the tracks and the participants it still has to go through.\<close>

datatype worker = WNew | WRun "remote_track list" "remote_participant list"

record Room =
  rm_room :: bool
  rm_sdk :: sdk_room
  rm_p :: "ParticipantInfo option"
  rm_reconnect :: "(int \<times> string) option"
  rm_recoveryClosed :: bool
  rm_recoveryWG :: "worker list"
  rm_ready :: bool
  rm_subscribe :: bool
  rm_subscribed :: bool
  rm_stopped :: bool
  rm_closed :: bool
  rm_closeReturned :: bool
  rm_mix :: bool
  rm_outboundDTMF :: bool
  rm_TrackSubscribes :: "64 word"
  rm_Resumes :: "64 word"
  rm_Reconnects :: "64 word"
  rm_Recovering :: bool
  rm_statsClosed :: bool
  rm_dataPackets :: "64 word"
  rm_forwarded :: "string list"
  rm_published :: "(8 word \<times> string) list"

definition empty_sdk :: sdk_room where
  "empty_sdk = \<lparr>sr_SID = '''', sr_Identity = '''', sr_Participants = [], sr_Disconnect = None\<rparr>"

definition NewRoom :: Room where
  "NewRoom = \<lparr>rm_room = False, rm_sdk = empty_sdk, rm_p = None, rm_reconnect = None, rm_recoveryClosed = False, rm_recoveryWG = [],
     rm_ready = False, rm_subscribe = False, rm_subscribed = False, rm_stopped = False, rm_closed = False, rm_closeReturned = False,
     rm_mix = True, rm_outboundDTMF = False, rm_TrackSubscribes = 0, rm_Resumes = 0, rm_Reconnects = 0, rm_Recovering = False,
     rm_statsClosed = False, rm_dataPackets = 0, rm_forwarded = [], rm_published = []\<rparr>"

section \<open>Joining\<close>

text \<open>Only these attributes go into a token that is signed here.\<close>

definition token_keys :: "string list" where
  "token_keys = [''sip.callID'', ''sip.trunkID'', ''sip.ruleID'', ''sip.trunkPhoneNumber'', ''sip.phoneNumber'']"

definition tokenAttrs :: "(string \<rightharpoonup> string) \<Rightarrow> string \<rightharpoonup> string" where
  "tokenAttrs attrs k = (if k \<in> set token_keys then attrs k else None)"

definition setParticipantFromRoom :: "Room \<Rightarrow> Room" where
  "setParticipantFromRoom r = (if \<not> rm_room r then r
     else let cur = (case rm_p r of Some p \<Rightarrow> p | None \<Rightarrow> \<lparr>pi_ID = '''', pi_RoomName = '''', pi_Identity = '''', pi_Name = ''''\<rparr>)
       in r\<lparr>rm_p := Some (cur\<lparr>pi_ID := sr_SID (rm_sdk r), pi_Identity := sr_Identity (rm_sdk r)\<rparr>)\<rparr>)"

definition Participant :: "Room \<Rightarrow> ParticipantInfo" where
  "Participant r = (case rm_p r of Some p \<Rightarrow> p | None \<Rightarrow> \<lparr>pi_ID = '''', pi_RoomName = '''', pi_Identity = '''', pi_Name = ''''\<rparr>)"

text \<open>\<open>Connect\<close>: \<^term>\<open>tok\<close> is the given token or the result of signing one with the filtered attributes,
  \<^term>\<open>join\<close> what joining with a token returns.\<close>

definition Connect ::
  "(string \<Rightarrow> string \<Rightarrow> (string \<rightharpoonup> string) \<Rightarrow> (go_error, string) result) \<Rightarrow> (string \<Rightarrow> (go_error, sdk_room) result) \<Rightarrow>
   string \<Rightarrow> string \<Rightarrow> string \<Rightarrow> string \<Rightarrow> (string \<rightharpoonup> string) \<Rightarrow> Room \<Rightarrow> Room \<times> go_error option" where
  "Connect sign join token roomName identity name attrs r = (let
     r1 = r\<lparr>rm_p := Some \<lparr>pi_ID = '''', pi_RoomName = roomName, pi_Identity = identity, pi_Name = name\<rparr>\<rparr>
   in case (if token = '''' then sign roomName identity (tokenAttrs attrs) else Ok token) of
        Err err \<Rightarrow> (r1, Some err)
      | Ok tok \<Rightarrow> (case join tok of
          Err err \<Rightarrow> (r1, Some err)
        | Ok sdk \<Rightarrow> ((setParticipantFromRoom (r1\<lparr>rm_room := True, rm_sdk := sdk\<rparr>))\<lparr>rm_ready := True, rm_subscribe := False\<rparr>, None)))"

section \<open>Subscriptions\<close>

definition participantJoin :: "remote_participant \<Rightarrow> Room \<Rightarrow> Room" where
  "participantJoin rp r = (if rp_SIP rp then r\<lparr>rm_subscribed := True\<rparr> else r)"

definition set_track :: "nat \<Rightarrow> sdk_room \<Rightarrow> sdk_room" where
  "set_track i s = s\<lparr>sr_Participants := map (\<lambda>rp. rp\<lparr>rp_Tracks := map (\<lambda>t. if rt_ID t = i then t\<lparr>rt_Subscribed := True\<rparr> else t)
     (rp_Tracks rp)\<rparr>) (sr_Participants s)\<rparr>"

text \<open>\<open>subscribeTo\<close>: \<^term>\<open>fails\<close> says for which tracks the request returns an error.\<close>

definition subscribeTo :: "(nat \<Rightarrow> bool) \<Rightarrow> remote_track \<Rightarrow> Room \<Rightarrow> Room" where
  "subscribeTo fails t r = (if \<not> rt_Audio t then r
     else let r1 = r\<lparr>rm_TrackSubscribes := rm_TrackSubscribes r + 1\<rparr> in
       if fails (rt_ID t) then r1
       else r1\<lparr>rm_sdk := set_track (rt_ID t) (rm_sdk r1), rm_subscribed := True\<rparr>)"

definition subscribeAll :: "(nat \<Rightarrow> bool) \<Rightarrow> Room \<Rightarrow> Room" where
  "subscribeAll fails r = fold (\<lambda>rp r. fold (subscribeTo fails) (rp_Tracks rp) (participantJoin rp r)) (sr_Participants (rm_sdk r)) r"

definition Subscribe :: "(nat \<Rightarrow> bool) \<Rightarrow> Room \<Rightarrow> Room" where
  "Subscribe fails r = (if \<not> rm_room r then r else subscribeAll fails (r\<lparr>rm_subscribe := True\<rparr>))"

text \<open>The callbacks for a participant and for a track.\<close>

definition OnParticipantConnected :: "remote_participant \<Rightarrow> Room \<Rightarrow> Room" where
  "OnParticipantConnected rp r = (if \<not> rm_subscribe r then r else participantJoin rp r)"

definition OnTrackPublished :: "(nat \<Rightarrow> bool) \<Rightarrow> remote_track \<Rightarrow> Room \<Rightarrow> Room" where
  "OnTrackPublished fails t r = (if \<not> rm_subscribe r then r else subscribeTo fails t r)"

section \<open>Recovery\<close>

definition onReconnecting :: "int \<Rightarrow> Room \<Rightarrow> Room" where
  "onReconnecting now r = (let sid = (if rm_room r then sr_SID (rm_sdk r) else ''''); r1 = r\<lparr>rm_Recovering := True\<rparr> in
     case rm_reconnect r1 of None \<Rightarrow> r1\<lparr>rm_reconnect := Some (now, sid)\<rparr> | Some st \<Rightarrow> r1)"

definition onReconnected :: "Room \<Rightarrow> Room" where
  "onReconnected r = (let
     prev = rm_reconnect r;
     r1 = r\<lparr>rm_reconnect := None, rm_Recovering := False\<rparr>
   in if \<not> rm_room r1 then r1
      else let
        sid = sr_SID (rm_sdk r1);
        resumed = (case prev of None \<Rightarrow> False | Some (startedAt, psid) \<Rightarrow> psid = sid);
        r2 = (if resumed then r1\<lparr>rm_Resumes := rm_Resumes r1 + 1\<rparr> else r1\<lparr>rm_Reconnects := rm_Reconnects r1 + 1\<rparr>);
        r3 = setParticipantFromRoom r2
      in if resumed then r3
         else if \<not> rm_subscribe r3 then r3
         else if rm_recoveryClosed r3 then r3
         else r3\<lparr>rm_recoveryWG := WNew # rm_recoveryWG r3\<rparr>)"

text \<open>One step of a worker, \<open>resubscribeAfterReconnect\<close>: it starts by looking whether the room is closed, then goes
  through the participants it finds, reading the tracks of each when it comes to it and asking for them one
  at a time. \<^const>\<open>None\<close> is the end of the worker.\<close>

definition tracks_of :: "remote_participant \<Rightarrow> sdk_room \<Rightarrow> remote_track list" where
  "tracks_of rp s = concat (map rp_Tracks (filter (\<lambda>x. rp_Identity x = rp_Identity rp) (sr_Participants s)))"

fun worker_step :: "(nat \<Rightarrow> bool) \<Rightarrow> worker \<Rightarrow> Room \<Rightarrow> Room \<times> worker option" where
  "worker_step fails WNew r = (if rm_closed r \<or> rm_stopped r then (r, None) else (r, Some (WRun [] (sr_Participants (rm_sdk r)))))"
| "worker_step fails (WRun [] []) r = (r, None)"
| "worker_step fails (WRun [] (rp # rps)) r = (participantJoin rp r, Some (WRun (tracks_of rp (rm_sdk r)) rps))"
| "worker_step fails (WRun (t # ts) rps) r = (subscribeTo fails t r, Some (WRun ts rps))"

section \<open>Closing\<close>

definition CloseWithReason :: "string \<Rightarrow> Room \<Rightarrow> Room" where
  "CloseWithReason reason r = (let
     r1 = (if rm_closed r then r
       else let r0 = r\<lparr>rm_closed := True, rm_subscribe := False, rm_outboundDTMF := False\<rparr> in
         (if rm_room r0 then r0\<lparr>rm_room := False, rm_sdk := (rm_sdk r0)\<lparr>sr_Disconnect := Some reason\<rparr>\<rparr> else r0)
           \<lparr>rm_mix := False, rm_statsClosed := True\<rparr>)
   in r1\<lparr>rm_recoveryClosed := True\<rparr>)"

text \<open>\<open>ClosedReason\<close> and the guards of the data channel.\<close>

definition ClosedReason :: "Room \<Rightarrow> string" where
  "ClosedReason r = (if \<not> rm_room r then ''UNKNOWN_REASON'' else case sr_Disconnect (rm_sdk r) of None \<Rightarrow> ''UNKNOWN_REASON'' | Some x \<Rightarrow> x)"

definition SendData :: "8 word \<times> string \<Rightarrow> Room \<Rightarrow> Room" where
  "SendData d r = (if \<not> rm_ready r \<or> rm_closed r then r
     else if \<not> rm_room r then r
     else r\<lparr>rm_published := rm_published r @ [d]\<rparr>)"

definition WriteSample_room :: "(8 word \<Rightarrow> 8 word option) \<Rightarrow> string \<Rightarrow> Room \<Rightarrow> Room \<times> go_error option" where
  "WriteSample_room tone sample r = (if length sample \<noteq> 1 then (r, Some (ENew (''invalid DTMF sample length '' @ Itoa (int (length sample)) @ '': '' @ sample)))
     else case tone (of_nat (of_char (hd sample))) of
       None \<Rightarrow> (r, Some (ENew (''invalid DTMF sample '' @ sample)))
     | Some code \<Rightarrow> (SendData (code, sample) r, None))"

definition OnDataPacket :: "string \<Rightarrow> Room \<Rightarrow> Room" where
  "OnDataPacket digit r = (let r1 = r\<lparr>rm_dataPackets := rm_dataPackets r + 1\<rparr> in
     if rm_outboundDTMF r1 then r1\<lparr>rm_forwarded := rm_forwarded r1 @ [digit]\<rparr> else r1)"

text \<open>The handler of a subscribed track: the decoder is chosen by the codec's MIME type; the packets go through the
  statistics and the jitter buffer to an input of the room's mixer.\<close>

datatype room_codec = CodecOpus | CodecPCMU | CodecPCMA

definition track_codec :: "string \<Rightarrow> room_codec option" where
  "track_codec mime = (let name = ToLower (TrimPrefix mime ''audio/'') in
     if name = ''opus'' then Some CodecOpus else if name = ''pcmu'' then Some CodecPCMU else if name = ''pcma'' then Some CodecPCMA else None)"

definition OnTrackSubscribed :: "bool \<Rightarrow> bool \<Rightarrow> go_error option \<Rightarrow> go_error option \<Rightarrow> string \<Rightarrow> string \<Rightarrow> Room \<Rightarrow> stage list option" where
  "OnTrackSubscribed jitterBuf logSignals logErr opusErr trackID mime r = (if \<not> rm_ready r then None
     else if \<not> rm_mix r then None
     else if logSignals \<and> logErr \<noteq> None then None
     else case track_codec mime of
         None \<Rightarrow> None
       | Some c \<Rightarrow> if c = CodecOpus \<and> opusErr \<noteq> None then None
           else Some ([StLatencyRTPEntry, StStreamStats] @ (if jitterBuf then [StJitter] else []) @ [StDecode 0] @
             (if logSignals then [StSignalLogger trackID] else []) @ [StLatencyPCMExit, StMixerInput]))"

section \<open>Steps\<close>

text \<open>What the call, the SDK and the workers do, in any order. A full reconnect comes with a new session identifier and
  without subscriptions; closing returns when no worker is left.\<close>

datatype room_op = RmParticipant remote_participant | RmLeft string | RmTrack "nat \<Rightarrow> bool" string remote_track | RmLost int | RmResumed
  | RmReconnected string | RmWorker "nat \<Rightarrow> bool" nat | RmSubscribe "nat \<Rightarrow> bool" | RmClose string | RmCloseReturned | RmDisconnected
  | RmData string | RmDTMF "8 word \<Rightarrow> 8 word option" string

definition unsubscribe_all :: "sdk_room \<Rightarrow> sdk_room" where
  "unsubscribe_all s = s\<lparr>sr_Participants := map (\<lambda>rp. rp\<lparr>rp_Tracks := map (\<lambda>t. t\<lparr>rt_Subscribed := False\<rparr>) (rp_Tracks rp)\<rparr>) (sr_Participants s)\<rparr>"

definition add_track :: "string \<Rightarrow> remote_track \<Rightarrow> sdk_room \<Rightarrow> sdk_room" where
  "add_track ident t s = s\<lparr>sr_Participants := map (\<lambda>rp. if rp_Identity rp = ident then rp\<lparr>rp_Tracks := t # rp_Tracks rp\<rparr> else rp) (sr_Participants s)\<rparr>"

definition new_session :: "string \<Rightarrow> Room \<Rightarrow> bool" where
  "new_session sid r \<longleftrightarrow> sid \<noteq> sr_SID (rm_sdk r) \<and> (case rm_reconnect r of None \<Rightarrow> True | Some (t, old) \<Rightarrow> sid \<noteq> old)"

fun room_step :: "room_op \<Rightarrow> Room \<Rightarrow> Room option" where
  "room_step (RmParticipant rp) r = (if rp_Tracks rp \<noteq> [] then None
     else Some (OnParticipantConnected rp (r\<lparr>rm_sdk := (rm_sdk r)\<lparr>sr_Participants := rp # sr_Participants (rm_sdk r)\<rparr>\<rparr>)))"
| "room_step (RmLeft ident) r = Some (r\<lparr>rm_sdk := (rm_sdk r)\<lparr>sr_Participants := filter (\<lambda>rp. rp_Identity rp \<noteq> ident) (sr_Participants (rm_sdk r))\<rparr>\<rparr>)"
| "room_step (RmTrack fails ident t) r = Some (OnTrackPublished fails t (r\<lparr>rm_sdk := add_track ident t (rm_sdk r)\<rparr>))"
| "room_step (RmLost now) r = Some (onReconnecting now r)"
| "room_step RmResumed r = Some (onReconnected r)"
| "room_step (RmReconnected sid) r = (if \<not> new_session sid r then None
     else Some (onReconnected (r\<lparr>rm_sdk := (unsubscribe_all (rm_sdk r))\<lparr>sr_SID := sid\<rparr>\<rparr>)))"
| "room_step (RmWorker fails i) r = (if i \<ge> length (rm_recoveryWG r) then None
     else (case worker_step fails (rm_recoveryWG r ! i) r of
         (r1, Some w) \<Rightarrow> Some (r1\<lparr>rm_recoveryWG := (rm_recoveryWG r)[i := w]\<rparr>)
       | (r1, None) \<Rightarrow> Some (r1\<lparr>rm_recoveryWG := take i (rm_recoveryWG r) @ drop (Suc i) (rm_recoveryWG r)\<rparr>)))"
| "room_step (RmSubscribe fails) r = Some (Subscribe fails r)"
| "room_step (RmClose reason) r = Some (CloseWithReason reason r)"
| "room_step RmCloseReturned r = (if \<not> rm_recoveryClosed r \<or> rm_recoveryWG r \<noteq> [] then None else Some (r\<lparr>rm_closeReturned := True\<rparr>))"
| "room_step RmDisconnected r = Some (r\<lparr>rm_stopped := True\<rparr>)"
| "room_step (RmData digit) r = Some (OnDataPacket digit r)"
| "room_step (RmDTMF tone sample) r = Some (fst (WriteSample_room tone sample r))"

section \<open>Subscribing\<close>

definition no_failure :: "nat \<Rightarrow> bool" where "no_failure i \<longleftrightarrow> False"

text \<open>The audio tracks of the room that are not subscribed to.\<close>

definition missing :: "Room \<Rightarrow> (remote_participant \<times> remote_track) set" where
  "missing r = {(rp, t). rp \<in> set (sr_Participants (rm_sdk r)) \<and> t \<in> set (rp_Tracks rp) \<and> rt_Audio t \<and> \<not> rt_Subscribed t}"

lemma missing_sdk: "rm_sdk r = rm_sdk r' \<Longrightarrow> missing r = missing r'"
  by (simp add: missing_def)

lemma set_track_missing:
  "(rp, t) \<in> missing (r\<lparr>rm_sdk := set_track i (rm_sdk r)\<rparr>) \<Longrightarrow>
   \<exists>rp'. (rp', t) \<in> missing r \<and> rp_Identity rp' = rp_Identity rp \<and> rt_ID t \<noteq> i"
  by (auto simp: missing_def set_track_def split: if_splits)

lemma subscribeTo_missing:
  assumes "(rp, t) \<in> missing (subscribeTo no_failure x r)"
  shows "\<exists>rp'. (rp', t) \<in> missing r \<and> rp_Identity rp' = rp_Identity rp \<and> (rt_Audio x \<longrightarrow> rt_ID t \<noteq> rt_ID x)"
proof (cases "rt_Audio x")
  case True
  have m: "missing (subscribeTo no_failure x r) = missing (r\<lparr>rm_sdk := set_track (rt_ID x) (rm_sdk r)\<rparr>)"
    by (rule missing_sdk) (simp add: subscribeTo_def True no_failure_def Let_def)
  show ?thesis using set_track_missing [OF assms [unfolded m]] by auto
next
  case False
  then show ?thesis using assms by (auto simp: subscribeTo_def)
qed

lemma participantJoin_sdk [simp]: "rm_sdk (participantJoin rp r) = rm_sdk r" "missing (participantJoin rp r) = missing r"
  by (auto simp: participantJoin_def missing_def)

lemma fold_subscribeTo_missing:
  "(rp, t) \<in> missing (fold (subscribeTo no_failure) ts r) \<Longrightarrow>
   \<exists>rp'. (rp', t) \<in> missing r \<and> rp_Identity rp' = rp_Identity rp \<and> (\<forall>x\<in>set ts. rt_Audio x \<longrightarrow> rt_ID t \<noteq> rt_ID x)"
proof (induction ts arbitrary: r)
  case (Cons x ts)
  from Cons.IH [of "subscribeTo no_failure x r"] Cons.prems obtain rp1 where
    a: "(rp1, t) \<in> missing (subscribeTo no_failure x r)" "rp_Identity rp1 = rp_Identity rp" "\<forall>x\<in>set ts. rt_Audio x \<longrightarrow> rt_ID t \<noteq> rt_ID x"
    by auto
  then show ?case using subscribeTo_missing [OF a(1)] by auto
qed auto

lemma fold_participants_missing:
  "(rp, t) \<in> missing (fold (\<lambda>rp r. fold (subscribeTo no_failure) (rp_Tracks rp) (participantJoin rp r)) rps r) \<Longrightarrow>
   \<exists>rp'. (rp', t) \<in> missing r \<and> (\<forall>p\<in>set rps. \<forall>x\<in>set (rp_Tracks p). rt_Audio x \<longrightarrow> rt_ID t \<noteq> rt_ID x)"
proof (induction rps arbitrary: r)
  case (Cons p rps)
  from Cons.IH [OF Cons.prems [simplified]] obtain rp1 where
    a: "(rp1, t) \<in> missing (fold (subscribeTo no_failure) (rp_Tracks p) (participantJoin p r))"
      "\<forall>p\<in>set rps. \<forall>x\<in>set (rp_Tracks p). rt_Audio x \<longrightarrow> rt_ID t \<noteq> rt_ID x" by auto
  then show ?case using fold_subscribeTo_missing [OF a(1)] by auto
qed auto

lemma subscribeAll_missing: "missing (subscribeAll no_failure r) = {}"
proof -
  have "False" if "(rp, t) \<in> missing (subscribeAll no_failure r)" for rp t
    using fold_participants_missing [OF that [unfolded subscribeAll_def]] by (auto simp: missing_def)
  then show ?thesis by auto
qed

section \<open>Recovery restores the audio\<close>

text \<open>A worker still has to come to a track.\<close>

fun pending :: "worker \<Rightarrow> remote_participant \<Rightarrow> remote_track \<Rightarrow> bool" where
  "pending WNew rp t = True"
| "pending (WRun ts rps) rp t = ((\<exists>x\<in>set ts. rt_Audio x \<and> rt_ID x = rt_ID t) \<or> (\<exists>p\<in>set rps. rp_Identity p = rp_Identity rp))"

lemma pending_identity: "rp_Identity rp = rp_Identity rp' \<Longrightarrow> pending w rp t = pending w rp' t"
  by (cases w) auto

definition covered :: "Room \<Rightarrow> bool" where
  "covered r \<longleftrightarrow> (rm_room r \<and> rm_subscribe r \<and> \<not> rm_stopped r \<longrightarrow> (\<forall>(rp, t)\<in>missing r. \<exists>w\<in>set (rm_recoveryWG r). pending w rp t))"

definition room_inv :: "Room \<Rightarrow> bool" where
  "room_inv r \<longleftrightarrow> rm_recoveryClosed r = rm_closed r \<and> (rm_closed r \<longleftrightarrow> \<not> rm_room r) \<and> (rm_closed r \<longrightarrow> \<not> rm_subscribe r) \<and>
     (rm_Recovering r \<longleftrightarrow> rm_reconnect r \<noteq> None) \<and> (rm_closeReturned r \<longrightarrow> rm_closed r \<and> rm_recoveryWG r = []) \<and>
     (\<not> rm_closed r \<and> \<not> rm_subscribe r \<longrightarrow> rm_recoveryWG r = [])"

text \<open>The fields that subscribing leaves alone.\<close>

definition control :: "Room \<Rightarrow> _" where
  "control r = (rm_room r, rm_recoveryClosed r, rm_closed r, rm_stopped r, rm_subscribe r, rm_Recovering r, rm_reconnect r, rm_closeReturned r,
     rm_recoveryWG r)"

lemma subscribe_control [simp]: "control (subscribeTo f t r) = control r" "control (participantJoin rp r) = control r"
  by (simp_all add: control_def subscribeTo_def participantJoin_def Let_def)

lemma fold_control [simp]: "control (fold (subscribeTo f) ts r) = control r"
  by (induction ts arbitrary: r) simp_all

lemma subscribeAll_control [simp]: "control (subscribeAll f r) = control r"
proof -
  have "control (fold (\<lambda>rp r. fold (subscribeTo f) (rp_Tracks rp) (participantJoin rp r)) rps r) = control r" for rps
    by (induction rps arbitrary: r) simp_all
  then show ?thesis by (simp add: subscribeAll_def)
qed

lemma worker_control: "worker_step f w r = (r', w') \<Longrightarrow> control r' = control r"
  by (cases "(f, w, r)" rule: worker_step.cases) (auto split: if_splits)

lemma control_fields:
  "control r' = control r \<Longrightarrow> rm_room r' = rm_room r \<and> rm_recoveryClosed r' = rm_recoveryClosed r \<and> rm_closed r' = rm_closed r \<and>
     rm_stopped r' = rm_stopped r \<and> rm_subscribe r' = rm_subscribe r \<and> rm_Recovering r' = rm_Recovering r \<and> rm_reconnect r' = rm_reconnect r \<and>
     rm_closeReturned r' = rm_closeReturned r \<and> rm_recoveryWG r' = rm_recoveryWG r"
  by (simp add: control_def)

lemma room_inv_control: "control r' = control r \<Longrightarrow> room_inv r' = room_inv r"
  by (simp add: room_inv_def control_def)

lemma setParticipant_control [simp]: "control (setParticipantFromRoom r) = control r" "rm_sdk (setParticipantFromRoom r) = rm_sdk r"
  "rm_TrackSubscribes (setParticipantFromRoom r) = rm_TrackSubscribes r"
  by (simp_all add: control_def setParticipantFromRoom_def Let_def)

definition is_resume :: "Room \<Rightarrow> bool" where
  "is_resume r \<longleftrightarrow> (case rm_reconnect r of None \<Rightarrow> False | Some (t, psid) \<Rightarrow> psid = sr_SID (rm_sdk r))"

definition spawns :: "Room \<Rightarrow> bool" where
  "spawns r \<longleftrightarrow> rm_room r \<and> \<not> is_resume r \<and> rm_subscribe r \<and> \<not> rm_recoveryClosed r"

lemma onReconnected_effect:
  "control (onReconnected r) = (rm_room r, rm_recoveryClosed r, rm_closed r, rm_stopped r, rm_subscribe r, False, None, rm_closeReturned r,
     if spawns r then WNew # rm_recoveryWG r else rm_recoveryWG r)"
  "rm_sdk (onReconnected r) = rm_sdk r" "rm_TrackSubscribes (onReconnected r) = rm_TrackSubscribes r"
  "rm_Resumes (onReconnected r) = rm_Resumes r + (if rm_room r \<and> is_resume r then 1 else 0)"
  "rm_Reconnects (onReconnected r) = rm_Reconnects r + (if rm_room r \<and> \<not> is_resume r then 1 else 0)"
proof -
  define r3 where "r3 = setParticipantFromRoom (if is_resume r then r\<lparr>rm_reconnect := None, rm_Recovering := False, rm_Resumes := rm_Resumes r + 1\<rparr>
     else r\<lparr>rm_reconnect := None, rm_Recovering := False, rm_Reconnects := rm_Reconnects r + 1\<rparr>)"
  have e: "onReconnected r = (if \<not> rm_room r then r\<lparr>rm_reconnect := None, rm_Recovering := False\<rparr>
     else if is_resume r \<or> \<not> rm_subscribe r3 \<or> rm_recoveryClosed r3 then r3 else r3\<lparr>rm_recoveryWG := WNew # rm_recoveryWG r3\<rparr>)"
    by (simp add: onReconnected_def is_resume_def r3_def Let_def)
  have f: "rm_room r3 = rm_room r" "rm_recoveryClosed r3 = rm_recoveryClosed r" "rm_closed r3 = rm_closed r" "rm_stopped r3 = rm_stopped r"
    "rm_subscribe r3 = rm_subscribe r" "\<not> rm_Recovering r3" "rm_reconnect r3 = None" "rm_closeReturned r3 = rm_closeReturned r"
    "rm_recoveryWG r3 = rm_recoveryWG r" "rm_sdk r3 = rm_sdk r" "rm_TrackSubscribes r3 = rm_TrackSubscribes r"
    "rm_Resumes r3 = rm_Resumes r + (if is_resume r then 1 else 0)" "rm_Reconnects r3 = rm_Reconnects r + (if is_resume r then 0 else 1)"
    by (simp_all add: r3_def setParticipantFromRoom_def Let_def)
  show "control (onReconnected r) = (rm_room r, rm_recoveryClosed r, rm_closed r, rm_stopped r, rm_subscribe r, False, None, rm_closeReturned r,
     if spawns r then WNew # rm_recoveryWG r else rm_recoveryWG r)"
    "rm_sdk (onReconnected r) = rm_sdk r" "rm_TrackSubscribes (onReconnected r) = rm_TrackSubscribes r"
    "rm_Resumes (onReconnected r) = rm_Resumes r + (if rm_room r \<and> is_resume r then 1 else 0)"
    "rm_Reconnects (onReconnected r) = rm_Reconnects r + (if rm_room r \<and> \<not> is_resume r then 1 else 0)"
    using f by (auto simp: e control_def spawns_def)
qed

lemma CloseWithReason_control:
  "control (CloseWithReason reason r) = (rm_room r \<and> rm_closed r, True, True, rm_stopped r, rm_subscribe r \<and> rm_closed r, rm_Recovering r,
     rm_reconnect r, rm_closeReturned r, rm_recoveryWG r)"
  "rm_TrackSubscribes (CloseWithReason reason r) = rm_TrackSubscribes r"
  by (cases "rm_closed r"; cases "rm_room r"; simp add: CloseWithReason_def control_def Let_def)+

lemma onReconnecting_control:
  "control (onReconnecting now r) = (rm_room r, rm_recoveryClosed r, rm_closed r, rm_stopped r, rm_subscribe r, True,
     (case rm_reconnect r of None \<Rightarrow> Some (now, if rm_room r then sr_SID (rm_sdk r) else '''') | Some x \<Rightarrow> Some x), rm_closeReturned r, rm_recoveryWG r)"
  "rm_sdk (onReconnecting now r) = rm_sdk r" "rm_TrackSubscribes (onReconnecting now r) = rm_TrackSubscribes r"
  by (cases "rm_reconnect r"; simp add: onReconnecting_def control_def Let_def)+

text \<open>The data channel changes none of it.\<close>

lemma data_control [simp]: "control (OnDataPacket d r) = control r" "control (fst (WriteSample_room tone sample r)) = control r"
  "rm_sdk (OnDataPacket d r) = rm_sdk r" "rm_sdk (fst (WriteSample_room tone sample r)) = rm_sdk r"
  "rm_TrackSubscribes (OnDataPacket d r) = rm_TrackSubscribes r" "rm_TrackSubscribes (fst (WriteSample_room tone sample r)) = rm_TrackSubscribes r"
  by (simp_all add: control_def OnDataPacket_def WriteSample_room_def SendData_def Let_def split: option.splits)

lemma room_inv_of_control:
  "control r = (room, rc, cl, st, sb, rec, rcn, ret, wg) \<Longrightarrow> room_inv r \<longleftrightarrow> rc = cl \<and> (cl \<longleftrightarrow> \<not> room) \<and> (cl \<longrightarrow> \<not> sb) \<and> (rec \<longleftrightarrow> rcn \<noteq> None) \<and>
     (ret \<longrightarrow> cl \<and> wg = []) \<and> (\<not> cl \<and> \<not> sb \<longrightarrow> wg = [])"
  by (auto simp: control_def room_inv_def)

lemma room_inv_step:
  assumes "room_inv r" "room_step op r = Some r'"
  shows "room_inv r'"
proof (cases op)
  case (RmWorker f i)
  obtain r1 w' where w: "worker_step f (rm_recoveryWG r ! i) r = (r1, w')" by fastforce
  have ne: "rm_recoveryWG r \<noteq> []" using assms(2) RmWorker by (auto split: if_splits)
  note c = control_fields [OF worker_control [OF w]]
  show ?thesis
  proof (cases w')
    case None
    then have "r' = r1\<lparr>rm_recoveryWG := take i (rm_recoveryWG r) @ drop (Suc i) (rm_recoveryWG r)\<rparr>" using assms(2) RmWorker w by (auto split: if_splits)
    then show ?thesis using assms(1) c ne by (auto simp: room_inv_def)
  next
    case (Some x)
    then have "r' = r1\<lparr>rm_recoveryWG := (rm_recoveryWG r)[i := x]\<rparr>" using assms(2) RmWorker w by (auto split: if_splits)
    then show ?thesis using assms(1) c ne by (auto simp: room_inv_def)
  qed
next
  case (RmSubscribe f)
  have "room_inv (r\<lparr>rm_subscribe := True\<rparr>)" if "rm_room r" using assms(1) that by (auto simp: room_inv_def)
  then have "room_inv (Subscribe f r)" using assms(1) by (simp add: Subscribe_def room_inv_control [OF subscribeAll_control])
  then show ?thesis using assms(2) RmSubscribe by simp
next
  case (RmTrack f ident t)
  have "room_inv (r\<lparr>rm_sdk := x\<rparr>)" for x using assms(1) room_inv_control [of "r\<lparr>rm_sdk := x\<rparr>" r] by (simp add: control_def)
  then have "room_inv (OnTrackPublished f t (r\<lparr>rm_sdk := x\<rparr>))" for x by (simp add: OnTrackPublished_def room_inv_control [OF subscribe_control(1)])
  then show ?thesis using assms(2) RmTrack by auto
next
  case (RmParticipant rp)
  have "room_inv (r\<lparr>rm_sdk := x\<rparr>)" for x using assms(1) room_inv_control [of "r\<lparr>rm_sdk := x\<rparr>" r] by (simp add: control_def)
  then have "room_inv (OnParticipantConnected rp (r\<lparr>rm_sdk := x\<rparr>))" for x
    by (simp add: OnParticipantConnected_def room_inv_control [OF subscribe_control(2)])
  then show ?thesis using assms(2) RmParticipant by (auto split: if_splits)
next
  case (RmClose reason)
  have r': "r' = CloseWithReason reason r" using assms(2) RmClose by simp
  show ?thesis using assms(1) unfolding r' room_inv_of_control [OF CloseWithReason_control(1)] by (auto simp: room_inv_def)
next
  case (RmLost now)
  have r': "r' = onReconnecting now r" using assms(2) RmLost by simp
  show ?thesis using assms(1) unfolding r' room_inv_of_control [OF onReconnecting_control(1)] by (auto simp: room_inv_def split: option.splits)
next
  case RmResumed
  have r': "r' = onReconnected r" using assms(2) RmResumed by simp
  show ?thesis using assms(1) unfolding r' room_inv_of_control [OF onReconnected_effect(1)] by (auto simp: room_inv_def spawns_def)
next
  case (RmReconnected sid)
  then obtain x where r': "r' = onReconnected (r\<lparr>rm_sdk := x\<rparr>)" using assms(2) by (auto split: if_splits)
  show ?thesis using assms(1) unfolding r' room_inv_of_control [OF onReconnected_effect(1)] by (auto simp: room_inv_def spawns_def)
next
  case (RmDTMF tone sample)
  then show ?thesis using assms by (auto simp: room_inv_control [OF data_control(2)])
next
  case (RmData d)
  then show ?thesis using assms by (auto simp: room_inv_control [OF data_control(1)])
next
  case (RmLeft ident)
  then show ?thesis using assms by (auto simp: room_inv_def)
next
  case RmCloseReturned
  then have "r' = r\<lparr>rm_closeReturned := True\<rparr>" "rm_recoveryClosed r" "rm_recoveryWG r = []" using assms(2) by (auto split: if_splits)
  then show ?thesis using assms(1) by (auto simp: room_inv_def)
next
  case RmDisconnected
  then have "r' = r\<lparr>rm_stopped := True\<rparr>" using assms(2) by simp
  then show ?thesis using assms(1) by (auto simp: room_inv_def)
qed

interpretation room_life: keeps_inv room_step room_inv
  by unfold_locales (rule room_inv_step)

lemma worker_pending:
  assumes w: "worker_step no_failure w r = (r', w')" and open': "\<not> rm_closed r" "\<not> rm_stopped r"
    and m: "(rp, t) \<in> missing r'" and p: "\<And>rp'. (rp', t) \<in> missing r \<Longrightarrow> rp_Identity rp' = rp_Identity rp \<Longrightarrow> pending w rp' t"
  shows "\<exists>x. w' = Some x \<and> pending x rp t"
proof (cases w)
  case WNew
  then show ?thesis using w open' m by (auto simp: missing_def)
next
  case (WRun ts rps)
  show ?thesis
  proof (cases ts)
    case Nil
    show ?thesis
    proof (cases rps)
      case Nil
      then show ?thesis using w m p [of rp] WRun \<open>ts = []\<close> by auto
    next
      case (Cons q qs)
      then have e: "r' = participantJoin q r" "w' = Some (WRun (tracks_of q (rm_sdk r)) qs)" using w WRun \<open>ts = []\<close> by auto
      then have m0: "(rp, t) \<in> missing r" using m by simp
      then have "rp_Identity q = rp_Identity rp \<or> (\<exists>p\<in>set qs. rp_Identity p = rp_Identity rp)" using p [of rp] WRun \<open>ts = []\<close> Cons by auto
      then show ?thesis using e m0 by (auto simp: tracks_of_def missing_def)
    qed
  next
    case (Cons x xs)
    then have e: "r' = subscribeTo no_failure x r" "w' = Some (WRun xs rps)" using w WRun by auto
    from subscribeTo_missing [OF m [unfolded e(1)]] obtain rp' where
      r: "(rp', t) \<in> missing r" "rp_Identity rp' = rp_Identity rp" "rt_Audio x \<longrightarrow> rt_ID t \<noteq> rt_ID x" by auto
    then show ?thesis using p [OF r(1,2)] e WRun Cons by auto
  qed
qed

text \<open>Requests that do not fail.\<close>

fun op_ok :: "room_op \<Rightarrow> bool" where
  "op_ok (RmTrack f ident t) = (f = no_failure)"
| "op_ok (RmWorker f i) = (f = no_failure)"
| "op_ok (RmSubscribe f) = (f = no_failure)"
| "op_ok _ = True"

lemma set_drop_nth: "x \<in> set xs \<Longrightarrow> i < length xs \<Longrightarrow> x \<noteq> xs ! i \<Longrightarrow> x \<in> set (take i xs @ drop (Suc i) xs)"
  by (metis Un_iff id_take_nth_drop list.set_intros set_ConsD set_append)

lemma worker_covered:
  assumes inv: "room_inv r" and cov: "covered r" and s: "room_step (RmWorker no_failure i) r = Some r'"
  shows "covered r'"
  unfolding covered_def
proof (intro impI ballI, clarify)
  fix rp t
  assume act: "rm_room r'" "rm_subscribe r'" "\<not> rm_stopped r'" and m: "(rp, t) \<in> missing r'"
  have i: "i < length (rm_recoveryWG r)" using s by (auto split: if_splits)
  define ws where "ws = rm_recoveryWG r"
  obtain r1 w' where w: "worker_step no_failure (ws ! i) r = (r1, w')" by fastforce
  note c = control_fields [OF worker_control [OF w]]
  have r': "r' = r1\<lparr>rm_recoveryWG := (case w' of None \<Rightarrow> take i ws @ drop (Suc i) ws | Some x \<Rightarrow> ws[i := x])\<rparr>"
    using s w i by (auto simp: ws_def split: option.splits)
  have m1: "(rp, t) \<in> missing r1" using m r' by (simp add: missing_def)
  have a: "rm_room r" "rm_subscribe r" "\<not> rm_stopped r" "\<not> rm_closed r" using act r' c inv by (auto simp: room_inv_def)
  show "\<exists>w\<in>set (rm_recoveryWG r'). pending w rp t"
  proof (cases "\<exists>rp' w0. (rp', t) \<in> missing r \<and> rp_Identity rp' = rp_Identity rp \<and> w0 \<in> set ws \<and> pending w0 rp' t \<and> w0 \<noteq> ws ! i")
    case True
    then obtain rp' w0 where w0: "rp_Identity rp' = rp_Identity rp" "w0 \<in> set ws" "pending w0 rp' t" "w0 \<noteq> ws ! i" by auto
    obtain j where j: "j < length ws" "ws ! j = w0" using w0(2) by (auto simp: in_set_conv_nth)
    then have "w0 \<in> set (ws[i := x])" for x using w0(4) by (metis length_list_update nth_list_update_neq nth_mem)
    then have "w0 \<in> set (rm_recoveryWG r')" using r' set_drop_nth [OF w0(2) _ w0(4)] i by (auto simp: ws_def split: option.split)
    then show ?thesis using w0 pending_identity by blast
  next
    case False
    have p: "pending (ws ! i) rp' t" if "(rp', t) \<in> missing r" "rp_Identity rp' = rp_Identity rp" for rp'
      using cov a False that unfolding covered_def ws_def by blast
    from worker_pending [OF w a(4,3) m1 p] obtain x where "w' = Some x" "pending x rp t" by auto
    then show ?thesis using r' i by (auto simp: ws_def set_update_memI)
  qed
qed

lemma covered_step:
  assumes inv: "room_inv r" and cov: "covered r" and ok: "op_ok op" and s: "room_step op r = Some r'"
  shows "covered r'"
proof (cases op)
  case (RmWorker f i)
  then show ?thesis using worker_covered [OF inv cov] ok s by auto
next
  case (RmSubscribe f)
  then have r': "r' = (if rm_room r then subscribeAll no_failure (r\<lparr>rm_subscribe := True\<rparr>) else r)" using s ok by (auto simp: Subscribe_def)
  show ?thesis
  proof (cases "rm_room r")
    case True
    then have "missing r' = {}" using subscribeAll_missing r' by simp
    then show ?thesis by (simp add: covered_def)
  next
    case False
    then show ?thesis using r' cov by simp
  qed
next
  case (RmTrack f ident t)
  define r0 where "r0 = r\<lparr>rm_sdk := add_track ident t (rm_sdk r)\<rparr>"
  have r': "r' = (if rm_subscribe r then subscribeTo no_failure t r0 else r0)" using s ok RmTrack by (auto simp: OnTrackPublished_def r0_def)
  have old: "\<exists>rp'. (rp', x) \<in> missing r \<and> rp_Identity rp' = rp_Identity rp" if "(rp, x) \<in> missing r0" "rt_Audio t \<longrightarrow> rt_ID x \<noteq> rt_ID t" for rp x
    using that by (auto simp: missing_def r0_def add_track_def split: if_splits)
  show ?thesis unfolding covered_def
  proof (intro impI ballI, clarify)
    fix rp x
    assume act: "rm_room r'" "rm_subscribe r'" "\<not> rm_stopped r'" and m: "(rp, x) \<in> missing r'"
    have sub: "rm_subscribe r" using act r' by (auto simp: r0_def split: if_splits)
    note c = control_fields [OF subscribe_control(1) [of no_failure t r0]]
    from subscribeTo_missing [of rp x t r0] m r' sub obtain rp1 where
      m0: "(rp1, x) \<in> missing r0" "rp_Identity rp1 = rp_Identity rp" "rt_Audio t \<longrightarrow> rt_ID x \<noteq> rt_ID t" by auto
    from old [OF m0(1,3)] obtain rp2 where m2: "(rp2, x) \<in> missing r" "rp_Identity rp2 = rp_Identity rp" using m0(2) by auto
    have "rm_room r" "\<not> rm_stopped r" "rm_recoveryWG r' = rm_recoveryWG r" using act r' sub c by (auto simp: r0_def)
    moreover from this have "\<exists>w\<in>set (rm_recoveryWG r). pending w rp2 x" using cov sub m2(1) unfolding covered_def by blast
    ultimately show "\<exists>w\<in>set (rm_recoveryWG r'). pending w rp x" by (simp add: pending_identity [OF m2(2)])
  qed
next
  case RmResumed
  have r': "r' = onReconnected r" using s RmResumed by simp
  have "missing r' = missing r" by (rule missing_sdk) (simp add: r' onReconnected_effect)
  then show ?thesis using cov onReconnected_effect(1) [of r] by (auto simp: covered_def r' control_def)
next
  case (RmReconnected sid)
  define r0 where "r0 = r\<lparr>rm_sdk := (unsubscribe_all (rm_sdk r))\<lparr>sr_SID := sid\<rparr>\<rparr>"
  have r': "r' = onReconnected r0" and new: "new_session sid r" using s RmReconnected by (auto simp: r0_def split: if_splits)
  have "\<not> is_resume r0" using new by (auto simp: is_resume_def r0_def new_session_def split: option.splits)
  then have "WNew \<in> set (rm_recoveryWG r')" if "rm_room r'" "rm_subscribe r'"
    using onReconnected_effect(1) [of r0] that inv unfolding r' by (auto simp: control_def spawns_def room_inv_def r0_def)
  then show ?thesis by (force simp: covered_def)
next
  case (RmParticipant rp)
  then have rp: "rp_Tracks rp = []" using s by (auto split: if_splits)
  define r0 where "r0 = r\<lparr>rm_sdk := (rm_sdk r)\<lparr>sr_Participants := rp # sr_Participants (rm_sdk r)\<rparr>\<rparr>"
  have r': "r' = (if rm_subscribe r then participantJoin rp r0 else r0)" using s RmParticipant rp by (auto simp: OnParticipantConnected_def r0_def)
  have "missing r' = missing r" using rp by (auto simp: r' missing_def r0_def)
  moreover have "control r' = control r" by (simp add: r' r0_def control_def participantJoin_def)
  ultimately show ?thesis using cov by (simp add: covered_def control_def)
next
  case (RmLeft ident)
  then have "missing r' \<subseteq> missing r" "control r' = control r" using s by (auto simp: missing_def control_def)
  then show ?thesis using cov by (fastforce simp: covered_def control_def)
next
  case (RmClose reason)
  then have "\<not> (rm_room r' \<and> rm_subscribe r')" using s CloseWithReason_control(1) [of reason r] inv by (auto simp: control_def room_inv_def)
  then show ?thesis by (auto simp: covered_def)
next
  case (RmLost now)
  have r': "r' = onReconnecting now r" using s RmLost by simp
  have "missing r' = missing r" by (rule missing_sdk) (simp add: r' onReconnecting_control)
  then show ?thesis using cov onReconnecting_control(1) [of now r] by (simp add: covered_def r' control_def)
next
  case (RmData d)
  have r': "r' = OnDataPacket d r" using s RmData by simp
  have "missing r' = missing r" by (rule missing_sdk) (simp add: r')
  then show ?thesis using cov data_control(1) [of d r] by (simp add: covered_def r' control_def)
next
  case (RmDTMF tone sample)
  have r': "r' = fst (WriteSample_room tone sample r)" using s RmDTMF by simp
  have "missing r' = missing r" by (rule missing_sdk) (simp add: r')
  then show ?thesis using cov data_control(2) [of tone sample r] by (simp add: covered_def r' control_def)
qed (use s cov in \<open>auto simp: covered_def missing_def split: if_splits\<close>)

section \<open>From the join to the close\<close>

lemma Connect_joined:
  assumes "Connect sign join token rn ident nm attrs NewRoom = (r, None)"
  shows "room_inv r" "\<not> rm_subscribe r" "rm_room r" "rm_TrackSubscribes r = 0" "rm_recoveryWG r = []" "\<not> rm_closed r" "\<not> rm_stopped r"
    "rm_Resumes r = 0" "rm_Reconnects r = 0"
proof -
  obtain tok sdk where j: "join tok = Ok sdk" and r: "r = (setParticipantFromRoom (NewRoom\<lparr>rm_p := Some \<lparr>pi_ID = '''', pi_RoomName = rn, pi_Identity = ident, pi_Name = nm\<rparr>,
      rm_room := True, rm_sdk := sdk\<rparr>))\<lparr>rm_ready := True, rm_subscribe := False\<rparr>"
    using assms unfolding Connect_def Let_def by (auto split: sum.splits if_splits)
  show "room_inv r" "\<not> rm_subscribe r" "rm_room r" "rm_TrackSubscribes r = 0" "rm_recoveryWG r = []" "\<not> rm_closed r" "\<not> rm_stopped r"
    "rm_Resumes r = 0" "rm_Reconnects r = 0"
    by (simp_all add: r setParticipantFromRoom_def NewRoom_def room_inv_def Let_def)
qed

lemma run_covered:
  "room_inv r \<Longrightarrow> covered r \<Longrightarrow> \<forall>op\<in>set xs. op_ok op \<Longrightarrow> run room_step xs r = Some r' \<Longrightarrow> covered r'"
proof (induction xs arbitrary: r)
  case (Cons op xs)
  then obtain t where t: "room_step op r = Some t" "run room_step xs t = Some r'" by (auto split: option.splits)
  show ?case by (rule Cons.IH [OF room_inv_step [OF Cons.prems(1) t(1)] covered_step [OF Cons.prems(1,2) _ t(1)] _ t(2)]) (use Cons.prems in auto)
qed simp

text \<open>C9: a reconnect restores the caller's audio: from the join on, through any sequence of participants and tracks
  coming and going, of connections lost, resumed and rebuilt, and of worker steps in any interleaving, if
  no request fails, then in an answered call that is neither closed nor stopped and has no recovery worker
  left to run, every audio track in the room is subscribed to.\<close>

theorem reconnect_restores_audio:
  assumes "Connect sign join token rn ident nm attrs NewRoom = (r0, None)" "run room_step xs r0 = Some r" "\<forall>op\<in>set xs. op_ok op"
    and "rm_subscribe r" "\<not> rm_stopped r" "rm_recoveryWG r = []"
  shows "missing r = {}"
proof -
  note j = Connect_joined [OF assms(1)]
  have inv: "room_inv r" by (rule room_life.run_keeps [OF j(1) assms(2)])
  have "covered r0" using j(2) by (simp add: covered_def)
  from run_covered [OF j(1) this assms(3,2)] have "covered r" .
  then show ?thesis using assms(4-6) inv by (auto simp: covered_def room_inv_def)
qed

lemma requests_step:
  assumes "room_inv r" "room_step op r = Some r'" "\<not> rm_subscribe r" "rm_recoveryWG r = []" "\<And>f. op = RmSubscribe f \<Longrightarrow> rm_closed r"
  shows "rm_TrackSubscribes r' = rm_TrackSubscribes r \<and> \<not> rm_subscribe r' \<and> rm_recoveryWG r' = [] \<and> (rm_closed r \<longrightarrow> rm_closed r')"
proof -
  have k: "control r' = control r \<Longrightarrow> rm_TrackSubscribes r' = rm_TrackSubscribes r \<Longrightarrow> ?thesis" using assms(3,4) by (simp add: control_def)
  show ?thesis
  proof (cases op)
    case (RmClose reason)
    then show ?thesis using assms CloseWithReason_control [of reason r] by (auto simp: control_def)
  next
    case (RmLost now)
    then show ?thesis using assms onReconnecting_control [of now r] by (auto simp: control_def)
  next
    case RmResumed
    then show ?thesis using assms onReconnected_effect [of r] by (auto simp: control_def spawns_def)
  next
    case (RmReconnected sid)
    then obtain x where r': "r' = onReconnected (r\<lparr>rm_sdk := x\<rparr>)" using assms(2) by (auto split: if_splits)
    then show ?thesis using assms onReconnected_effect [of "r\<lparr>rm_sdk := x\<rparr>"] by (auto simp: control_def spawns_def)
  next
    case (RmSubscribe f)
    then have "\<not> rm_room r" using assms(1,5) by (auto simp: room_inv_def)
    then show ?thesis using assms RmSubscribe by (simp add: Subscribe_def)
  next
    case (RmDTMF tone sample)
    show ?thesis by (rule k) (use assms(2) RmDTMF in auto)
  next
    case (RmData d)
    show ?thesis by (rule k) (use assms(2) RmData in auto)
  qed (use assms in \<open>auto simp: OnTrackPublished_def OnParticipantConnected_def split: if_splits\<close>)
qed

lemma requests_run:
  "room_inv r \<Longrightarrow> run room_step xs r = Some r' \<Longrightarrow> \<not> rm_subscribe r \<Longrightarrow> rm_recoveryWG r = [] \<Longrightarrow>
   rm_closed r \<or> (\<forall>f. RmSubscribe f \<notin> set xs) \<Longrightarrow>
   rm_TrackSubscribes r' = rm_TrackSubscribes r \<and> rm_recoveryWG r' = []"
proof (induction xs arbitrary: r)
  case (Cons op xs)
  then obtain t where t: "room_step op r = Some t" "run room_step xs t = Some r'" by (auto split: option.splits)
  have k: "rm_TrackSubscribes t = rm_TrackSubscribes r \<and> \<not> rm_subscribe t \<and> rm_recoveryWG t = [] \<and> (rm_closed r \<longrightarrow> rm_closed t)"
    by (rule requests_step [OF Cons.prems(1) t(1)]) (use Cons.prems in auto)
  show ?case using Cons.IH [OF room_inv_step [OF Cons.prems(1) t(1)] t(2)] k Cons.prems(5) by auto
qed simp


text \<open>The two ways of recovery are told apart by the session identifier, and exactly one of them is counted.\<close>

lemma recovery_counted:
  assumes "room_inv r" "rm_room r"
  shows "rm_Resumes (onReconnected r) + rm_Reconnects (onReconnected r) = rm_Resumes r + rm_Reconnects r + 1"
    "\<not> rm_Recovering (onReconnected r)" "rm_Resumes (onReconnected r) = rm_Resumes r + (if is_resume r then 1 else 0)"
  using assms onReconnected_effect [of r] by (auto simp: control_def)

definition demo_join :: "string \<Rightarrow> (go_error, sdk_room) result" where
  "demo_join tok = Ok \<lparr>sr_SID = ''PA_1'', sr_Identity = ''sip_1'', sr_Participants = [\<lparr>rp_Identity = ''bob'', rp_SIP = False,
     rp_Tracks = [\<lparr>rt_ID = 1, rt_Audio = True, rt_Subscribed = False\<rparr>]\<rparr>], sr_Disconnect = None\<rparr>"

definition demo_room :: Room where
  "demo_room = fst (Connect (\<lambda>_ _ _. Ok ''tok'') demo_join '''' ''room'' ''sip_1'' ''caller'' Map.empty NewRoom)"

lemma demo_room_joined: "Connect (\<lambda>_ _ _. Ok ''tok'') demo_join '''' ''room'' ''sip_1'' ''caller'' Map.empty NewRoom = (demo_room, None)"
  by (simp add: demo_room_def Connect_def demo_join_def)

definition demo_recovery :: "room_op list" where
  "demo_recovery = [RmSubscribe no_failure, RmLost 5, RmLost 6, RmReconnected ''PA_2'', RmWorker no_failure 0, RmWorker no_failure 0,
     RmWorker no_failure 0, RmWorker no_failure 0]"

lemmas room_step_defs = Subscribe_def subscribeAll_def participantJoin_def subscribeTo_def set_track_def no_failure_def onReconnecting_def onReconnected_def
  setParticipantFromRoom_def unsubscribe_all_def new_session_def tracks_of_def NewRoom_def empty_sdk_def Connect_def demo_join_def demo_room_def

theorem reconnect_restores_audio_witness:
  "list_all op_ok demo_recovery \<and> (\<exists>r. run room_step demo_recovery demo_room = Some r \<and> rm_subscribe r \<and> \<not> rm_stopped r \<and>
     rm_recoveryWG r = [] \<and> rm_Reconnects r = 1 \<and> missing r = {})"
proof -
  have ok: "\<forall>op\<in>set demo_recovery. op_ok op" by (simp add: demo_recovery_def)
  have "\<exists>r. run room_step demo_recovery demo_room = Some r \<and> rm_subscribe r \<and> \<not> rm_stopped r \<and> rm_recoveryWG r = [] \<and> rm_Reconnects r = 1"
    by (simp add: demo_recovery_def room_step_defs)
  then obtain r where r: "run room_step demo_recovery demo_room = Some r" "rm_subscribe r" "\<not> rm_stopped r" "rm_recoveryWG r = []" "rm_Reconnects r = 1"
    by blast
  show ?thesis using reconnect_restores_audio [OF demo_room_joined r(1) ok r(2-4)] ok r by (auto simp: list_all_iff)
qed


end
