(* ===== verification/Configuration.thy ===== *)
theory Configuration
  imports MediaPort
begin

text \<open>
  The configuration of the service (config/config.go, config/tls.go, sip/config.go, sip/tls.go) and what it controls
  directly: loading and normalising the settings, the choice of the announced addresses, the TLS policy and the verification
  of peers, the creation and the start of the service (service.go), and the draining of the ports of closed calls (draining\_port.go).

  Durations are integers in nanoseconds. The parsers of documents, addresses and certificates, the lookup of the public address, the
  cipher suites of the TLS library and the parts the service starts are arguments; so are the network interfaces of the host.
\<close>

section \<open>Settings\<close>

record TLSCert =
  ct_CertFile :: string
  ct_KeyFile :: string

record TLSConfig =
  tc_Port :: int
  tc_ListenPort :: int
  tc_Certs :: "TLSCert list"
  tc_KeyLog :: string
  tc_MinVersion :: string
  tc_MaxVersion :: string
  tc_CipherSuites :: "string list"
  tc_WarnOnly :: bool
  tc_ALPNProtocols :: "string list option"

text \<open>The settings this theory uses; the others are read by the components they configure.\<close>

record Config =
  cf_Redis :: "string option"
  cf_ApiKey :: string
  cf_ApiSecret :: string
  cf_WsUrl :: string
  cf_ServiceName :: string
  cf_NodeID :: string
  cf_SIPPort :: int
  cf_SIPPortListen :: int
  cf_TLS :: "TLSConfig option"
  cf_RTPStart :: int
  cf_RTPEnd :: int
  cf_MaxCpuUtilization :: rat
  cf_RTPDrainingIdleTimeout :: int
  cf_RTPDrainingDuration :: int
  cf_UseExternalIP :: bool
  cf_LocalNet :: string
  cf_NAT1To1IP :: string
  cf_MediaUseExternalIP :: bool
  cf_MediaNAT1To1IP :: string
  cf_UDPMaxPayload :: int
  cf_MediaTimeout :: int
  cf_MediaTimeoutInitial :: int
  cf_SIPHostname :: string
  cf_SIPRingingInterval :: int

definition DefaultSIPPort :: int where "DefaultSIPPort = 5060"
definition DefaultSIPPortTLS :: int where "DefaultSIPPortTLS = 5061"
definition DefaultRTPPortRange :: "int \<times> int" where "DefaultRTPPortRange = (10000, 20000)"
definition DefaultRTPDrainingIdleTimeout :: int where "DefaultRTPDrainingIdleTimeout = 30 * 1000000000"
definition DefaultRTPDrainingDuration :: int where "DefaultRTPDrainingDuration = 10 * 60 * 1000000000"

text \<open>\<open>NewConfig\<close>: the defaults come from the environment of the process; the parser of YAML documents overwrites them.\<close>

definition ErrCouldNotParseConfig :: "go_error \<Rightarrow> go_error" where
  "ErrCouldNotParseConfig err = EPsrpc InvalidArgument (ENew ''could not parse config'')"

definition NewConfig ::
  "(string \<Rightarrow> string) \<Rightarrow> (string \<Rightarrow> Config \<Rightarrow> (go_error, Config) result) \<Rightarrow> Config \<Rightarrow> string \<Rightarrow> (go_error, Config) result" where
  "NewConfig getenv unmarshal zero confString = (let
     conf = zero\<lparr>cf_ApiKey := getenv ''LIVEKIT_API_KEY'', cf_ApiSecret := getenv ''LIVEKIT_API_SECRET'',
       cf_WsUrl := getenv ''LIVEKIT_WS_URL'', cf_ServiceName := ''sip''\<rparr>
   in case (if confString = '''' then Ok conf else unmarshal confString conf) of
        Err err \<Rightarrow> Err (ErrCouldNotParseConfig err)
      | Ok conf' \<Rightarrow> if cf_Redis conf' = None then Err (EPsrpc InvalidArgument (ENew ''redis configuration is required'')) else Ok conf')"

definition or_default :: "int \<Rightarrow> int \<Rightarrow> int" where
  "or_default d x = (if x = 0 then d else x)"

definition init_tls :: "TLSConfig \<Rightarrow> TLSConfig" where
  "init_tls tc = (let p = or_default DefaultSIPPortTLS (tc_Port tc) in tc\<lparr>tc_Port := p, tc_ListenPort := or_default p (tc_ListenPort tc)\<rparr>)"

definition init_draining :: "int \<Rightarrow> int \<Rightarrow> int" where
  "init_draining d x = (if x = 0 then d else if x < 0 then 0 else x)"

definition normalise :: "string \<Rightarrow> Config \<Rightarrow> Config" where
  "normalise guid c = c\<lparr>cf_NodeID := guid, cf_SIPPort := or_default DefaultSIPPort (cf_SIPPort c),
     cf_SIPPortListen := or_default (or_default DefaultSIPPort (cf_SIPPort c)) (cf_SIPPortListen c),
     cf_TLS := map_option init_tls (cf_TLS c),
     cf_RTPStart := or_default (fst DefaultRTPPortRange) (cf_RTPStart c), cf_RTPEnd := or_default (snd DefaultRTPPortRange) (cf_RTPEnd c),
     cf_RTPDrainingIdleTimeout := init_draining DefaultRTPDrainingIdleTimeout (cf_RTPDrainingIdleTimeout c),
     cf_RTPDrainingDuration := init_draining DefaultRTPDrainingDuration (cf_RTPDrainingDuration c),
     cf_MaxCpuUtilization := (if cf_MaxCpuUtilization c \<le> 0 \<or> cf_MaxCpuUtilization c > 1 then 9 / 10 else cf_MaxCpuUtilization c)\<rparr>"

definition Init :: "string \<Rightarrow> go_error option \<Rightarrow> Config \<Rightarrow> Config \<times> go_error option" where
  "Init guid logErr c = (let c1 = normalise guid c in
     case logErr of
       Some err \<Rightarrow> (c1, Some err)
     | None \<Rightarrow> if cf_UseExternalIP c1 \<and> cf_NAT1To1IP c1 \<noteq> '''' then (c1, Some (ENew ''use_external_ip and nat_1_to_1_ip can not both be set''))
         else if cf_MediaUseExternalIP c1 \<and> cf_MediaNAT1To1IP c1 \<noteq> ''''
           then (c1, Some (ENew ''media_use_external_ip and media_nat_1_to_1_ip can not both be set''))
         else (c1, None))"

text \<open>What the rest of the service relies on.\<close>

definition config_wf :: "Config \<Rightarrow> bool" where
  "config_wf c \<longleftrightarrow> cf_SIPPort c \<noteq> 0 \<and> cf_SIPPortListen c \<noteq> 0 \<and> cf_RTPStart c \<noteq> 0 \<and> cf_RTPEnd c \<noteq> 0 \<and>
     (case cf_TLS c of None \<Rightarrow> True | Some tc \<Rightarrow> tc_Port tc \<noteq> 0 \<and> tc_ListenPort tc \<noteq> 0) \<and>
     0 \<le> cf_RTPDrainingIdleTimeout c \<and> 0 \<le> cf_RTPDrainingDuration c \<and>
     0 < cf_MaxCpuUtilization c \<and> cf_MaxCpuUtilization c \<le> 1 \<and>
     \<not> (cf_UseExternalIP c \<and> cf_NAT1To1IP c \<noteq> '''') \<and> \<not> (cf_MediaUseExternalIP c \<and> cf_MediaNAT1To1IP c \<noteq> '''')"

section \<open>Addresses\<close>

record ServiceConfig =
  sc_SignalingIP :: Addr
  sc_SignalingIPLocal :: Addr
  sc_MediaIP :: Addr

text \<open>\<open>getPublicIP\<close>: three lookups, then an error.\<close>

fun public_attempts :: "(nat \<Rightarrow> (go_error, string) result) \<Rightarrow> (string \<Rightarrow> (go_error, Addr) result) \<Rightarrow> nat \<Rightarrow> nat \<Rightarrow> (go_error, Addr) result" where
  "public_attempts lookup parse i 0 = Err (ENew ''could not resolve external IP'')"
| "public_attempts lookup parse i (Suc n) = (case lookup i of Ok ip \<Rightarrow> parse ip | Err err \<Rightarrow> public_attempts lookup parse (Suc i) n)"

definition getPublicIP :: "(nat \<Rightarrow> (go_error, string) result) \<Rightarrow> (string \<Rightarrow> (go_error, Addr) result) \<Rightarrow> (go_error, Addr) result" where
  "getPublicIP lookup parse = public_attempts lookup parse 0 3"

definition is_loopback :: "Addr \<Rightarrow> bool" where
  "is_loopback a = (case a of IPv4 w \<Rightarrow> drop_bit 24 w = 127 | _ \<Rightarrow> False)"

fun is_v4 :: "Addr \<Rightarrow> bool" where
  "is_v4 (IPv4 w) = True" | "is_v4 _ = False"

text \<open>\<open>getLocalIP\<close>: an interface is the list of its addresses, or an error; an address that is neither kind of IP address
  is \<^const>\<open>NoAddr\<close>.\<close>

definition local_candidate :: "(Addr \<Rightarrow> bool) option \<Rightarrow> Addr \<Rightarrow> bool" where
  "local_candidate netw a \<longleftrightarrow> is_v4 a \<and> \<not> is_loopback a \<and> (case netw of None \<Rightarrow> True | Some contains \<Rightarrow> contains a)"

fun scan_addrs :: "(Addr \<Rightarrow> bool) option \<Rightarrow> Addr list \<Rightarrow> Addr option" where
  "scan_addrs netw [] = None"
| "scan_addrs netw (a # as) = (if \<not> is_v4 a then scan_addrs netw as
     else if is_loopback a then scan_addrs netw as
     else if (case netw of None \<Rightarrow> False | Some contains \<Rightarrow> \<not> contains a) then scan_addrs netw as
     else Some a)"

fun scan_ifaces :: "(Addr \<Rightarrow> bool) option \<Rightarrow> (go_error, Addr list) result list \<Rightarrow> Addr option" where
  "scan_ifaces netw [] = None"
| "scan_ifaces netw (Err err # is) = scan_ifaces netw is"
| "scan_ifaces netw (Ok as # is) = (case scan_addrs netw as of Some a \<Rightarrow> Some a | None \<Rightarrow> scan_ifaces netw is)"

definition getLocalIP ::
  "(go_error, (go_error, Addr list) result list) result \<Rightarrow> (string \<Rightarrow> (go_error, Addr \<Rightarrow> bool) result) \<Rightarrow> string \<Rightarrow> (go_error, Addr) result" where
  "getLocalIP ifaces parsePrefix localNet = (case ifaces of
     Err err \<Rightarrow> Err err
   | Ok is \<Rightarrow> (case (if localNet = '''' then Ok None else map_sum id Some (parsePrefix localNet)) of
       Err err \<Rightarrow> Err err
     | Ok netw \<Rightarrow> (case scan_ifaces netw is of
         None \<Rightarrow> Err (ENew ''no local interface found'')
       | Some a \<Rightarrow> Ok a)))"

text \<open>\<open>GetLocalIP\<close> of the configuration package: interfaces by their flags; an address that is not a network address is \<open>None\<close>.
  An error of the listing is not passed on.\<close>

record iface_info =
  if_Up :: bool
  if_Running :: bool
  if_PointToPoint :: bool
  if_Loopback :: bool
  if_Addrs :: "(go_error, Addr option list) result"

definition iface_candidates :: "iface_info \<Rightarrow> Addr list" where
  "iface_candidates i = (if \<not> if_Up i \<or> \<not> if_Running i then [] else if if_PointToPoint i \<or> if_Loopback i then []
     else case if_Addrs i of Err err \<Rightarrow> [] | Ok as \<Rightarrow> [a. Some a \<leftarrow> as, is_v4 a])"

definition GetLocalIP :: "(go_error, iface_info list) result \<Rightarrow> Addr \<times> go_error option" where
  "GetLocalIP ifaces = (case ifaces of
     Err err \<Rightarrow> (NoAddr, None)
   | Ok is \<Rightarrow> (case concat (map iface_candidates is) of
       [] \<Rightarrow> (NoAddr, Some (ENew ''no local IP found''))
     | a # as \<Rightarrow> (a, None)))"

text \<open>\<open>GetServiceConfig\<close> on the results of the lookups.\<close>

definition GetServiceConfig ::
  "(go_error, Addr) result \<Rightarrow> (string \<Rightarrow> (go_error, Addr) result) \<Rightarrow> (string \<Rightarrow> (go_error, Addr) result) \<Rightarrow> Config \<Rightarrow> (go_error, ServiceConfig) result" where
  "GetServiceConfig public localIP parse conf = (case
     (if cf_UseExternalIP conf then (case public of
         Err err \<Rightarrow> Err err
       | Ok p \<Rightarrow> (case localIP (cf_LocalNet conf) of Err err \<Rightarrow> Err err | Ok l \<Rightarrow> Ok (p, l)))
      else if cf_NAT1To1IP conf \<noteq> '''' then (case parse (cf_NAT1To1IP conf) of Err err \<Rightarrow> Err err | Ok ip \<Rightarrow> Ok (ip, ip))
      else (case localIP (cf_LocalNet conf) of Err err \<Rightarrow> Err err | Ok l \<Rightarrow> Ok (l, l))) of
       Err err \<Rightarrow> Err err
     | Ok (sig, loc) \<Rightarrow> (case
         (if cf_MediaUseExternalIP conf \<and> \<not> cf_UseExternalIP conf then public
          else if cf_MediaNAT1To1IP conf \<noteq> '''' \<and> cf_MediaNAT1To1IP conf \<noteq> cf_NAT1To1IP conf then parse (cf_MediaNAT1To1IP conf)
          else Ok sig) of
           Err err \<Rightarrow> Err err
         | Ok m \<Rightarrow> Ok \<lparr>sc_SignalingIP = sig, sc_SignalingIPLocal = loc, sc_MediaIP = m\<rparr>))"

section \<open>TLS\<close>

record tls_conf =
  tl_NextProtos :: "string list"
  tl_Certificates :: "string list"
  tl_KeyLogWriter :: "string option"
  tl_InsecureSkipVerify :: bool
  tl_VerifyPeerCertificate :: bool
  tl_CipherSuites :: "16 word list"
  tl_MinVersion :: "16 word"
  tl_MaxVersion :: "16 word"
  tl_VerifyConnection :: "(16 word list \<times> 16 word \<times> 16 word) option"

definition VersionTLS13 :: "16 word" where "VersionTLS13 = 0x0304"

definition parseTLSVersion :: "string \<Rightarrow> (go_error, 16 word) result" where
  "parseTLSVersion version = (if version = '''' then Ok 0
     else if version = ''tls1.0'' \<or> version = ''TLS1.0'' then Ok 0x0301
     else if version = ''tls1.1'' \<or> version = ''TLS1.1'' then Ok 0x0302
     else if version = ''tls1.2'' \<or> version = ''TLS1.2'' then Ok 0x0303
     else if version = ''tls1.3'' \<or> version = ''TLS1.3'' then Ok VersionTLS13
     else Err (ENew (''unknown TLS version: '' @ version)))"

fun parseCipherSuites :: "(string \<rightharpoonup> 16 word) \<Rightarrow> (string \<rightharpoonup> 16 word) \<Rightarrow> string list \<Rightarrow> (go_error, 16 word list) result" where
  "parseCipherSuites secure insecure [] = Ok []"
| "parseCipherSuites secure insecure (s # ss) = (case (case secure s of Some i \<Rightarrow> Some i | None \<Rightarrow> insecure s) of
     None \<Rightarrow> Err (ENew (''unknown cipher suite: '' @ s))
   | Some i \<Rightarrow> (case parseCipherSuites secure insecure ss of Err err \<Rightarrow> Err err | Ok is \<Rightarrow> Ok (i # is)))"

definition tlsPolicyAllows :: "16 word \<times> 16 word \<Rightarrow> 16 word list \<Rightarrow> 16 word \<Rightarrow> 16 word \<Rightarrow> bool" where
  "tlsPolicyAllows cs suites minVer maxVer = (case cs of (version, cipher) \<Rightarrow>
     if minVer \<noteq> 0 \<and> version < minVer then False
     else if maxVer \<noteq> 0 \<and> version > maxVer then False
     else if version \<ge> VersionTLS13 \<or> suites = [] then True
     else cipher \<in> set suites)"

definition ApplyPolicy :: "(string \<rightharpoonup> 16 word) \<Rightarrow> (string \<rightharpoonup> 16 word) \<Rightarrow> TLSConfig \<Rightarrow> tls_conf \<Rightarrow> (go_error, tls_conf) result" where
  "ApplyPolicy secure insecure conf c = (case parseCipherSuites secure insecure (tc_CipherSuites conf) of
     Err err \<Rightarrow> Err err
   | Ok suites \<Rightarrow> (case parseTLSVersion (tc_MinVersion conf) of
       Err err \<Rightarrow> Err err
     | Ok minVer \<Rightarrow> (case parseTLSVersion (tc_MaxVersion conf) of
         Err err \<Rightarrow> Err err
       | Ok maxVer \<Rightarrow> if \<not> tc_WarnOnly conf then Ok (c\<lparr>tl_CipherSuites := suites, tl_MinVersion := minVer, tl_MaxVersion := maxVer\<rparr>)
           else if suites = [] \<and> minVer = 0 \<and> maxVer = 0 then Ok c
           else Ok (c\<lparr>tl_VerifyConnection := Some (suites, minVer, maxVer)\<rparr>))))"

text \<open>Whether the configuration warns of a connection.\<close>

definition warns :: "tls_conf \<Rightarrow> 16 word \<times> 16 word \<Rightarrow> bool" where
  "warns c cs = (case tl_VerifyConnection c of None \<Rightarrow> False | Some (suites, minVer, maxVer) \<Rightarrow> \<not> tlsPolicyAllows cs suites minVer maxVer)"

definition tlsALPNProtocols :: "string list option \<Rightarrow> string list" where
  "tlsALPNProtocols alpn = (case alpn of None \<Rightarrow> [''sip''] | Some a \<Rightarrow> a)"

text \<open>\<open>ConfigureTLS\<close> replaces the verification of the library; \<open>verifyPeer\<close> is the function it installs.\<close>

definition ConfigureTLS :: "tls_conf \<Rightarrow> tls_conf" where
  "ConfigureTLS c = c\<lparr>tl_InsecureSkipVerify := True, tl_VerifyPeerCertificate := True\<rparr>"

fun parse_certs :: "('raw \<Rightarrow> (go_error, 'cert) result) \<Rightarrow> 'raw list \<Rightarrow> (go_error, 'cert list) result" where
  "parse_certs parse [] = Ok []"
| "parse_certs parse (a # as) = (case parse a of
     Err err \<Rightarrow> Err (ENew ''failed to parse certificate from server'')
   | Ok c \<Rightarrow> (case parse_certs parse as of Err err \<Rightarrow> Err err | Ok cs \<Rightarrow> Ok (c # cs)))"

text \<open>The TLS library hands over at least one certificate; without one the code would panic, which is \<open>None\<close>.\<close>

definition verifyPeer ::
  "('raw \<Rightarrow> (go_error, 'cert) result) \<Rightarrow> ('cert list \<Rightarrow> 'cert \<Rightarrow> go_error option) \<Rightarrow> 'raw list \<Rightarrow> go_error option option" where
  "verifyPeer parse verify certificates = (case parse_certs parse certificates of
     Err err \<Rightarrow> Some (Some err)
   | Ok [] \<Rightarrow> None
   | Ok (c # intermediates) \<Rightarrow> Some (verify intermediates c))"

section \<open>The service\<close>

fun replace_all :: "string \<Rightarrow> string \<Rightarrow> string \<Rightarrow> string" where
  "replace_all old new [] = []"
| "replace_all old new (x # xs) = (if old \<noteq> [] \<and> HasPrefix (x # xs) old then new @ replace_all old new (drop (length old) (x # xs))
     else x # replace_all old new xs)"

definition placeholder :: string where "placeholder = ''${IP}''"

definition host_label :: "string \<Rightarrow> string" where
  "host_label s = concat (map (\<lambda>ch. if ch \<in> set ''.:'' then ''-'' else if ch \<in> set ''[]'' then '''' else [ch]) s)"

definition forbidden :: "char \<Rightarrow> bool" where
  "forbidden ch \<longleftrightarrow> ch \<in> set ''$%{}[]:/| ''"

definition one_second :: int where "one_second = 1000000000"

text \<open>\<open>NewService\<close>: the size limit of the UDP transport, the configuration with its defaults, and the outcome.\<close>

definition media_defaults :: "Config \<Rightarrow> Config" where
  "media_defaults conf = conf\<lparr>cf_MediaTimeout := (if cf_MediaTimeout conf \<le> 0 then defaultMediaTimeout else cf_MediaTimeout conf),
     cf_MediaTimeoutInitial := (if cf_MediaTimeoutInitial conf \<le> 0 then defaultMediaTimeoutInitial else cf_MediaTimeoutInitial conf)\<rparr>"

definition fill_hostname :: "string \<Rightarrow> Config \<Rightarrow> Config" where
  "fill_hostname ip conf = conf\<lparr>cf_SIPHostname := (if Contains (cf_SIPHostname conf) placeholder
     then replace_all placeholder (host_label ip) (cf_SIPHostname conf) else cf_SIPHostname conf)\<rparr>"

definition ringing_default :: "Config \<Rightarrow> Config" where
  "ringing_default conf = conf\<lparr>cf_SIPRingingInterval := (if cf_SIPRingingInterval conf < 1 * one_second \<or> cf_SIPRingingInterval conf > 60 * one_second
     then 1 * one_second else cf_SIPRingingInterval conf)\<rparr>"

definition NewService ::
  "(Config \<Rightarrow> (go_error, ServiceConfig) result) \<Rightarrow> (Addr \<Rightarrow> string) \<Rightarrow> int \<Rightarrow> Config \<Rightarrow> int \<times> Config \<times> (go_error, ServiceConfig) result" where
  "NewService addresses addrString mtu conf = (let
     mtu' = (if cf_UDPMaxPayload conf > 0 then cf_UDPMaxPayload conf else mtu);
     conf1 = media_defaults conf
   in case addresses conf1 of
        Err err \<Rightarrow> (mtu', conf1, Err err)
      | Ok sconf \<Rightarrow> let conf2 = fill_hostname (addrString (sc_SignalingIP sconf)) conf1
        in if list_ex forbidden (cf_SIPHostname conf2) then (mtu', conf2, Err (ENew ''invalid hostname''))
           else (mtu', ringing_default conf2, Ok sconf))"

text \<open>\<open>Start\<close>: the steps that succeeded, in order, and the error that ended it.\<close>

datatype start_effect = StMonitor | StKeyLog string | StUA "tls_conf option" | StManager | StClient | StServer "tls_conf option"

record start_env =
  se_mon :: "go_error option"
  se_loadCert :: "TLSCert \<Rightarrow> (go_error, string) result"
  se_openLog :: "string \<Rightarrow> go_error option"
  se_secure :: "string \<rightharpoonup> 16 word"
  se_insecure :: "string \<rightharpoonup> 16 word"
  se_ua :: "go_error option"
  se_cli :: "go_error option"
  se_srv :: "go_error option"

fun load_certs :: "(TLSCert \<Rightarrow> (go_error, string) result) \<Rightarrow> TLSCert list \<Rightarrow> (go_error, string list) result" where
  "load_certs load [] = Ok []"
| "load_certs load (c # cs) = (case load c of
     Err err \<Rightarrow> Err err
   | Ok cert \<Rightarrow> (case load_certs load cs of Err err \<Rightarrow> Err err | Ok certs \<Rightarrow> Ok (cert # certs)))"

definition start_tls :: "start_env \<Rightarrow> TLSConfig \<Rightarrow> start_effect list \<times> (go_error, tls_conf) result" where
  "start_tls env tconf = (if tc_Certs tconf = [] then ([], Err (ENew ''TLS certificate required''))
     else case load_certs (se_loadCert env) (tc_Certs tconf) of
       Err err \<Rightarrow> ([], Err err)
     | Ok certs \<Rightarrow> (case (if tc_KeyLog tconf = '''' then None else se_openLog env (tc_KeyLog tconf)) of
         Some err \<Rightarrow> ([], Err err)
       | None \<Rightarrow> (let keyLog = (if tc_KeyLog tconf = '''' then None else Some (tc_KeyLog tconf));
             effs = (if tc_KeyLog tconf = '''' then [] else [StKeyLog (tc_KeyLog tconf)]);
             tlsConf = \<lparr>tl_NextProtos = tlsALPNProtocols (tc_ALPNProtocols tconf), tl_Certificates = certs, tl_KeyLogWriter = keyLog,
               tl_InsecureSkipVerify = False, tl_VerifyPeerCertificate = False,
               tl_CipherSuites = [], tl_MinVersion = 0, tl_MaxVersion = 0, tl_VerifyConnection = None\<rparr>
           in (effs, map_sum id ConfigureTLS (ApplyPolicy (se_secure env) (se_insecure env) tconf tlsConf)))))"

definition service_start :: "start_env \<Rightarrow> Config \<Rightarrow> start_effect list \<times> go_error option" where
  "service_start env conf = (case se_mon env of
     Some err \<Rightarrow> ([], Some err)
   | None \<Rightarrow> (case (case cf_TLS conf of None \<Rightarrow> ([], Ok None) | Some tconf \<Rightarrow> map_prod id (map_sum id Some) (start_tls env tconf)) of
       (effs, Err err) \<Rightarrow> (StMonitor # effs, Some err)
     | (effs, Ok tlsConf) \<Rightarrow> (case se_ua env of
         Some err \<Rightarrow> (StMonitor # effs, Some err)
       | None \<Rightarrow> (case se_cli env of
           Some err \<Rightarrow> (StMonitor # effs @ [StUA tlsConf, StManager], Some err)
         | None \<Rightarrow> (case se_srv env of
             Some err \<Rightarrow> (StMonitor # effs @ [StUA tlsConf, StManager, StClient], Some err)
           | None \<Rightarrow> (StMonitor # effs @ [StUA tlsConf, StManager, StClient, StServer tlsConf], None))))))"

section \<open>Draining\<close>

text \<open>\<open>DrainPort\<close>: a round is the time a read returns and what it returns.\<close>

datatype drain_event = DrPacket | DrDeadlineExceeded | DrError

datatype drain_reason = DrainMaxDuration | DrainIdleTimeout | DrainError | DrainDisabled

definition current_deadline :: "int \<Rightarrow> int option \<Rightarrow> int \<Rightarrow> int" where
  "current_deadline idleTimeout maxDeadline now = (case maxDeadline of
     Some m \<Rightarrow> if m < now + idleTimeout then m else now + idleTimeout
   | None \<Rightarrow> now + idleTimeout)"

fun drain_loop :: "int \<Rightarrow> int option \<Rightarrow> int \<Rightarrow> nat \<Rightarrow> (int \<times> drain_event) list \<Rightarrow> (drain_reason \<times> int \<times> nat) option" where
  "drain_loop idleTimeout maxDeadline now packets [] = None"
| "drain_loop idleTimeout maxDeadline now packets ((t, DrPacket) # rs) = drain_loop idleTimeout maxDeadline t (Suc packets) rs"
| "drain_loop idleTimeout maxDeadline now packets ((t, DrError) # rs) = Some (DrainError, t, packets)"
| "drain_loop idleTimeout maxDeadline now packets ((t, DrDeadlineExceeded) # rs) =
     (if (case maxDeadline of Some m \<Rightarrow> t > m | None \<Rightarrow> False) then Some (DrainMaxDuration, t, packets)
      else if t > current_deadline idleTimeout maxDeadline now then Some (DrainIdleTimeout, t, packets)
      else drain_loop idleTimeout maxDeadline t packets rs)"

definition DrainPort :: "int \<Rightarrow> int \<Rightarrow> int \<Rightarrow> (int \<times> drain_event) list \<Rightarrow> (drain_reason \<times> int \<times> nat) option" where
  "DrainPort idleTimeout maxDuration now rounds = (if idleTimeout \<le> 0 \<and> maxDuration \<le> 0 then Some (DrainDisabled, now, 0)
     else let idle = (if idleTimeout \<le> 0 then maxDuration + 1000000000 else idleTimeout);
       maxDeadline = (if maxDuration > 0 then Some (now + maxDuration) else None)
     in drain_loop idle maxDeadline now 0 rounds)"

section \<open>Initialised configurations\<close>

lemmas default_defs = or_default_def DefaultSIPPort_def DefaultSIPPortTLS_def DefaultRTPPortRange_def DefaultRTPDrainingIdleTimeout_def
  DefaultRTPDrainingDuration_def init_draining_def

lemma normalise_ports:
  "cf_SIPPort (normalise guid c) \<noteq> 0 \<and> cf_SIPPortListen (normalise guid c) \<noteq> 0 \<and> cf_RTPStart (normalise guid c) \<noteq> 0 \<and> cf_RTPEnd (normalise guid c) \<noteq> 0"
  by (simp add: normalise_def default_defs)

lemma normalise_times:
  "0 \<le> cf_RTPDrainingIdleTimeout (normalise guid c) \<and> 0 \<le> cf_RTPDrainingDuration (normalise guid c) \<and>
   0 < cf_MaxCpuUtilization (normalise guid c) \<and> cf_MaxCpuUtilization (normalise guid c) \<le> 1"
  by (simp add: normalise_def default_defs not_le)

lemma normalise_tls:
  "case cf_TLS (normalise guid c) of None \<Rightarrow> True | Some tc \<Rightarrow> tc_Port tc \<noteq> 0 \<and> tc_ListenPort tc \<noteq> 0"
  by (simp add: normalise_def init_tls_def Let_def default_defs split: option.split)

lemma Init_ok:
  assumes "Init guid logErr c = (c', None)"
  shows "c' = normalise guid c" "\<not> (cf_UseExternalIP c' \<and> cf_NAT1To1IP c' \<noteq> '''')" "\<not> (cf_MediaUseExternalIP c' \<and> cf_MediaNAT1To1IP c' \<noteq> '''')"
  using assms unfolding Init_def Let_def by (simp_all split: option.splits if_splits)

lemma Init_wf: "Init guid logErr c = (c', None) \<Longrightarrow> config_wf c'"
  using Init_ok [of guid logErr c c'] normalise_ports [of guid c] normalise_times [of guid c] normalise_tls [of guid c]
  by (simp add: config_wf_def)

text \<open>The placeholder of a hostname does not survive, and neither does a character a hostname cannot have.\<close>

definition service_wf :: "Config \<Rightarrow> bool" where
  "service_wf c \<longleftrightarrow> 0 < cf_MediaTimeout c \<and> 0 < cf_MediaTimeoutInitial c \<and> one_second \<le> cf_SIPRingingInterval c \<and> cf_SIPRingingInterval c \<le> 60 * one_second \<and>
     \<not> list_ex forbidden (cf_SIPHostname c) \<and> \<not> Contains (cf_SIPHostname c) placeholder"

lemma Contains_chars: "Contains s (x # p) \<Longrightarrow> x \<in> set s"
  by (induction s) (auto simp: HasPrefix_def split: if_splits)

lemma no_placeholder: "\<not> list_ex forbidden s \<Longrightarrow> \<not> Contains s placeholder"
  using Contains_chars [of s "CHR ''$''" "''{IP}''"] by (auto simp: placeholder_def list_ex_iff forbidden_def)

lemma NewService_ok:
  assumes "NewService addresses addrString mtu c = (mtu', c', Ok s)"
  shows "c' = ringing_default (fill_hostname (addrString (sc_SignalingIP s)) (media_defaults c))"
    "\<not> list_ex forbidden (cf_SIPHostname (fill_hostname (addrString (sc_SignalingIP s)) (media_defaults c)))"
  using assms by (simp_all add: NewService_def Let_def split: sum.splits if_splits)

lemma config_wf_stages [simp]:
  "config_wf (media_defaults c) = config_wf c" "config_wf (fill_hostname ip c) = config_wf c" "config_wf (ringing_default c) = config_wf c"
  by (simp_all add: config_wf_def media_defaults_def fill_hostname_def ringing_default_def)

lemma service_wf_stages:
  "0 < cf_MediaTimeout (media_defaults c)" "0 < cf_MediaTimeoutInitial (media_defaults c)"
  "one_second \<le> cf_SIPRingingInterval (ringing_default c)" "cf_SIPRingingInterval (ringing_default c) \<le> 60 * one_second"
  by (simp_all add: media_defaults_def ringing_default_def defaultMediaTimeout_def defaultMediaTimeoutInitial_def one_second_def not_le)

lemma NewService_wf:
  assumes "NewService addresses addrString mtu c = (mtu', c', Ok s)"
  shows "service_wf c'"
proof -
  define d where "d = fill_hostname (addrString (sc_SignalingIP s)) (media_defaults c)"
  have c': "c' = ringing_default d" "\<not> list_ex forbidden (cf_SIPHostname d)" using NewService_ok [OF assms] by (simp_all add: d_def)
  have "cf_MediaTimeout d = cf_MediaTimeout (media_defaults c)" "cf_MediaTimeoutInitial d = cf_MediaTimeoutInitial (media_defaults c)"
    by (simp_all add: d_def fill_hostname_def)
  moreover have "cf_MediaTimeout c' = cf_MediaTimeout d" "cf_MediaTimeoutInitial c' = cf_MediaTimeoutInitial d" "cf_SIPHostname c' = cf_SIPHostname d"
    by (simp_all add: c'(1) ringing_default_def)
  ultimately show ?thesis using c' service_wf_stages [of c] service_wf_stages [of d] no_placeholder by (simp add: service_wf_def)
qed


definition demo_config :: Config where
  "demo_config = \<lparr>cf_Redis = Some ''localhost'', cf_ApiKey = '''', cf_ApiSecret = '''', cf_WsUrl = '''', cf_ServiceName = ''sip'', cf_NodeID = '''', cf_SIPPort = 0, cf_SIPPortListen = 0, cf_TLS = None, cf_RTPStart = 0, cf_RTPEnd = 30000,
     cf_MaxCpuUtilization = 2, cf_RTPDrainingIdleTimeout = -1, cf_RTPDrainingDuration = 0, cf_UseExternalIP = False, cf_LocalNet = '''',
     cf_NAT1To1IP = ''1.2.3.4'', cf_MediaUseExternalIP = True, cf_MediaNAT1To1IP = '''', cf_UDPMaxPayload = 0,
     cf_MediaTimeout = 0, cf_MediaTimeoutInitial = -5, cf_SIPHostname = ''sip-${IP}.example'', cf_SIPRingingInterval = 0\<rparr>"

definition demo_addrs :: ServiceConfig where
  "demo_addrs = \<lparr>sc_SignalingIP = IPv4 0x01020304, sc_SignalingIPLocal = IPv4 0x01020304, sc_MediaIP = IPv4 0x01020304\<rparr>"


text \<open>The local address is the first acceptable one of the interfaces that can be read.\<close>

lemma scan_addrs_find: "scan_addrs netw as = find (local_candidate netw) as"
  by (induction as) (auto simp: local_candidate_def split: option.splits)

lemma scan_ifaces_find: "scan_ifaces netw is = find (local_candidate netw) (concat (map (\<lambda>i. case i of Err e \<Rightarrow> [] | Ok as \<Rightarrow> as) is))"
proof (induction netw "is" rule: scan_ifaces.induct)
  case (3 netw as "is")
  have "find P (xs @ ys) = (case find P xs of Some a \<Rightarrow> Some a | None \<Rightarrow> find P ys)" for P :: "Addr \<Rightarrow> bool" and xs ys
    by (induction xs) auto
  then show ?case using 3 by (simp add: scan_addrs_find split: option.split)
qed auto

lemma public_attempts_fail: "(\<forall>k<n. \<exists>e. lookup (i + k) = Err e) \<Longrightarrow> public_attempts lookup parse i n = Err (ENew ''could not resolve external IP'')"
proof (induction n arbitrary: i)
  case (Suc n)
  from Suc.prems obtain e where "lookup i = Err e" by (metis add.right_neutral zero_less_Suc)
  moreover have "\<forall>k<n. \<exists>e. lookup (Suc i + k) = Err e" using Suc.prems by (metis Suc_less_eq add_Suc_shift)
  ultimately show ?case using Suc.IH [of "Suc i"] by simp
qed simp

text \<open>The announced addresses are the configured ones: with an accepted configuration, calls are announced with the public
  address exactly when that is asked for, with the configured address when one is given, and with the first usable local
  address otherwise; media is announced with its own public or configured address when there is one, and with the
  signaling address in every other case.\<close>

theorem service_addresses_configured:
  assumes "Init guid logErr c = (c', None)" "GetServiceConfig public localIP parse c' = Ok s"
  shows "(if cf_UseExternalIP c' then public = Ok (sc_SignalingIP s) \<and> localIP (cf_LocalNet c') = Ok (sc_SignalingIPLocal s)
      else sc_SignalingIPLocal s = sc_SignalingIP s \<and>
        Ok (sc_SignalingIP s) = (if cf_NAT1To1IP c' = '''' then localIP (cf_LocalNet c') else parse (cf_NAT1To1IP c'))) \<and>
    Ok (sc_MediaIP s) = (if cf_MediaUseExternalIP c' then public
      else if cf_MediaNAT1To1IP c' = '''' then Ok (sc_SignalingIP s) else parse (cf_MediaNAT1To1IP c'))"
proof -
  have w: "\<not> (cf_UseExternalIP c' \<and> cf_NAT1To1IP c' \<noteq> '''')" "\<not> (cf_MediaUseExternalIP c' \<and> cf_MediaNAT1To1IP c' \<noteq> '''')"
    using Init_ok(2,3) [OF assms(1)] by auto
  show ?thesis
  proof (cases "cf_UseExternalIP c'")
    case True
    then show ?thesis using assms(2) w by (auto simp: GetServiceConfig_def split: sum.splits if_splits)
  next
    case False
    then show ?thesis using assms(2) w by (auto simp: GetServiceConfig_def split: sum.splits if_splits)
  qed
qed

definition demo_parse :: "string \<Rightarrow> (go_error, Addr) result" where
  "demo_parse s = (if s = ''1.2.3.4'' then Ok (IPv4 0x01020304) else Err (ENew ''unable to parse IP''))"

theorem service_addresses_configured_witness:
  "\<exists>c' s. Init ''NE_1'' None demo_config = (c', None) \<and> GetServiceConfig (Ok (IPv4 0x08080808)) (\<lambda>_. Ok (IPv4 0x0A000001)) demo_parse c' = Ok s \<and>
     sc_SignalingIP s = IPv4 0x01020304 \<and> sc_MediaIP s = IPv4 0x08080808"
proof -
  obtain c' s where i: "Init ''NE_1'' None demo_config = (c', None)"
    "GetServiceConfig (Ok (IPv4 0x08080808)) (\<lambda>_. Ok (IPv4 0x0A000001)) demo_parse c' = Ok s"
    "\<not> cf_UseExternalIP c'" "cf_NAT1To1IP c' = ''1.2.3.4''" "cf_MediaUseExternalIP c'"
    by (simp add: Init_def normalise_def demo_config_def GetServiceConfig_def demo_parse_def)
  show ?thesis using service_addresses_configured [OF i(1,2)] i by (auto simp: demo_parse_def)
qed

section \<open>The TLS policy\<close>

lemma policy_split:
  assumes "ApplyPolicy secure insecure conf c = Ok c'" "tl_VerifyConnection c = None"
  shows "\<exists>suites minVer maxVer. parseCipherSuites secure insecure (tc_CipherSuites conf) = Ok suites \<and>
    parseTLSVersion (tc_MinVersion conf) = Ok minVer \<and> parseTLSVersion (tc_MaxVersion conf) = Ok maxVer \<and>
    (if tc_WarnOnly conf
     then (tl_CipherSuites c', tl_MinVersion c', tl_MaxVersion c') = (tl_CipherSuites c, tl_MinVersion c, tl_MaxVersion c) \<and>
       (\<forall>cs. warns c' cs = (\<not> tlsPolicyAllows cs suites minVer maxVer))
     else (tl_CipherSuites c', tl_MinVersion c', tl_MaxVersion c') = (suites, minVer, maxVer) \<and> (\<forall>cs. \<not> warns c' cs))"
  using assms by (auto simp: ApplyPolicy_def warns_def tlsPolicyAllows_def split: sum.splits if_splits)

lemma load_certs_length: "load_certs load cs = Ok certs \<Longrightarrow> length certs = length cs"
  by (induction cs arbitrary: certs) (auto split: sum.splits)

lemma ApplyPolicy_keeps: "ApplyPolicy secure insecure conf c = Ok c' \<Longrightarrow> tl_Certificates c' = tl_Certificates c"
  by (auto simp: ApplyPolicy_def split: sum.splits if_splits)

lemma start_tls_ok:
  assumes "start_tls env tc = (es, Ok t)"
  shows "\<exists>c c'. ApplyPolicy (se_secure env) (se_insecure env) tc c = Ok c' \<and> t = ConfigureTLS c' \<and> tl_VerifyConnection c = None \<and>
    tl_Certificates c' \<noteq> [] \<and> length (tl_Certificates c') = length (tc_Certs tc)"
proof -
  obtain certs k where "tc_Certs tc \<noteq> []" "load_certs (se_loadCert env) (tc_Certs tc) = Ok certs"
    and m: "map_sum id ConfigureTLS (ApplyPolicy (se_secure env) (se_insecure env) tc \<lparr>tl_NextProtos = tlsALPNProtocols (tc_ALPNProtocols tc), tl_Certificates = certs,
       tl_KeyLogWriter = k, tl_InsecureSkipVerify = False, tl_VerifyPeerCertificate = False, tl_CipherSuites = [], tl_MinVersion = 0, tl_MaxVersion = 0,
       tl_VerifyConnection = None\<rparr>) = Ok t"
    using assms unfolding start_tls_def Let_def by (simp split: sum.splits option.splits if_splits; blast)
  moreover from m obtain c' where c': "ApplyPolicy (se_secure env) (se_insecure env) tc \<lparr>tl_NextProtos = tlsALPNProtocols (tc_ALPNProtocols tc),
       tl_Certificates = certs, tl_KeyLogWriter = k, tl_InsecureSkipVerify = False, tl_VerifyPeerCertificate = False, tl_CipherSuites = [],
       tl_MinVersion = 0, tl_MaxVersion = 0, tl_VerifyConnection = None\<rparr> = Ok c'" "t = ConfigureTLS c'"
    by (auto simp: map_sum_def split: sum.splits)
  ultimately have "tl_Certificates c' \<noteq> []" "length (tl_Certificates c') = length (tc_Certs tc)"
    using load_certs_length [of "se_loadCert env" "tc_Certs tc" certs] ApplyPolicy_keeps [OF c'(1)] by auto
  then show ?thesis using c' by (intro exI conjI) (rule c', simp_all)
qed

definition demo_tls :: TLSConfig where
  "demo_tls = \<lparr>tc_Port = 0, tc_ListenPort = 0, tc_Certs = [\<lparr>ct_CertFile = ''c.pem'', ct_KeyFile = ''k.pem''\<rparr>], tc_KeyLog = '''', tc_MinVersion = ''tls1.2'', tc_MaxVersion = '''', tc_CipherSuites = [''A''], tc_WarnOnly = True,
     tc_ALPNProtocols = None\<rparr>"

text \<open>A service that starts with TLS has certificates, verifies its peers and applies its policy: if the start succeeds with TLS configured, the
  server and the user agent run with the same settings, which carry one certificate for every configured pair, replace the library's
  verification of the peer, and either enforce the configured versions and suites or warn about exactly the
  connections outside of them; the server is the last part to start.\<close>

theorem service_start_tls:
  assumes "service_start env conf = (effs, None)" "cf_TLS conf = Some tc"
  shows "\<exists>t. last effs = StServer (Some t) \<and> StUA (Some t) \<in> set effs \<and> tl_Certificates t \<noteq> [] \<and>
    length (tl_Certificates t) = length (tc_Certs tc) \<and> tl_InsecureSkipVerify t \<and> tl_VerifyPeerCertificate t \<and>
    (\<exists>suites minVer maxVer. parseCipherSuites (se_secure env) (se_insecure env) (tc_CipherSuites tc) = Ok suites \<and>
      parseTLSVersion (tc_MinVersion tc) = Ok minVer \<and> parseTLSVersion (tc_MaxVersion tc) = Ok maxVer \<and>
      (if tc_WarnOnly tc then \<forall>cs. warns t cs = (\<not> tlsPolicyAllows cs suites minVer maxVer)
       else (tl_CipherSuites t, tl_MinVersion t, tl_MaxVersion t) = (suites, minVer, maxVer)))"
proof -
  obtain t es where t: "start_tls env tc = (es, Ok t)" "effs = StMonitor # es @ [StUA (Some t), StManager, StClient, StServer (Some t)]"
    using assms by (cases "start_tls env tc"; cases "snd (start_tls env tc)") (auto simp: service_start_def split: option.splits)
  from start_tls_ok [OF t(1)] obtain c c' where c: "ApplyPolicy (se_secure env) (se_insecure env) tc c = Ok c'" "t = ConfigureTLS c'"
    "tl_VerifyConnection c = None" "tl_Certificates c' \<noteq> []" "length (tl_Certificates c') = length (tc_Certs tc)" by blast
  have e: "last effs = StServer (Some t)" "StUA (Some t) \<in> set effs" using t(2) by simp_all
  have k: "tl_Certificates t = tl_Certificates c'" "tl_InsecureSkipVerify t" "tl_VerifyPeerCertificate t" "\<And>cs. warns t cs = warns c' cs"
    "tl_CipherSuites t = tl_CipherSuites c'" "tl_MinVersion t = tl_MinVersion c'" "tl_MaxVersion t = tl_MaxVersion c'"
    by (simp_all add: c(2) ConfigureTLS_def warns_def)
  from policy_split [OF c(1,3)] obtain suites minVer maxVer where
    p: "parseCipherSuites (se_secure env) (se_insecure env) (tc_CipherSuites tc) = Ok suites" "parseTLSVersion (tc_MinVersion tc) = Ok minVer"
      "parseTLSVersion (tc_MaxVersion tc) = Ok maxVer"
      "if tc_WarnOnly tc then \<forall>cs. warns c' cs = (\<not> tlsPolicyAllows cs suites minVer maxVer)
       else (tl_CipherSuites c', tl_MinVersion c', tl_MaxVersion c') = (suites, minVer, maxVer)" by (auto split: if_splits)
  then show ?thesis using e k c(4,5) by auto
qed

definition demo_start :: start_env where
  "demo_start = \<lparr>se_mon = None, se_loadCert = (\<lambda>c. Ok (ct_CertFile c)), se_openLog = (\<lambda>_. None), se_secure = [''A'' \<mapsto> 5], se_insecure = Map.empty,
     se_ua = None, se_cli = None, se_srv = None\<rparr>"

theorem service_start_tls_witness:
  "\<exists>effs t. service_start demo_start (demo_config\<lparr>cf_TLS := Some demo_tls\<rparr>) = (effs, None) \<and> last effs = StServer (Some t) \<and> warns t (0x0303, 7)"
proof -
  obtain effs where s: "service_start demo_start (demo_config\<lparr>cf_TLS := Some demo_tls\<rparr>) = (effs, None)"
    by (simp add: service_start_def demo_start_def start_tls_def demo_tls_def ApplyPolicy_def parseTLSVersion_def)
  have c: "parseCipherSuites (se_secure demo_start) (se_insecure demo_start) (tc_CipherSuites demo_tls) = Ok [5]"
    "parseTLSVersion (tc_MinVersion demo_tls) = Ok 0x0303" "parseTLSVersion (tc_MaxVersion demo_tls) = Ok 0" "tc_WarnOnly demo_tls"
    by (simp_all add: demo_start_def demo_tls_def parseTLSVersion_def)
  from service_start_tls [OF s, of demo_tls] obtain t where "last effs = StServer (Some t)" "\<forall>cs. warns t cs = (\<not> tlsPolicyAllows cs [5] 0x0303 0)"
    using c by auto
  then show ?thesis using s by (auto simp: tlsPolicyAllows_def VersionTLS13_def)
qed

section \<open>Draining ends\<close>

text \<open>The last sign of life of the port in a prefix of the rounds.\<close>

fun last_packet :: "int \<Rightarrow> (int \<times> drain_event) list \<Rightarrow> int" where
  "last_packet t0 [] = t0"
| "last_packet t0 ((t, DrPacket) # rs) = last_packet t rs"
| "last_packet t0 (r # rs) = last_packet t0 rs"

definition packet_count :: "(int \<times> drain_event) list \<Rightarrow> nat" where
  "packet_count rs = length (filter (\<lambda>r. snd r = DrPacket) rs)"

text \<open>The reads respect their deadlines: time does not go back, and a packet is returned by the deadline of its read.\<close>

fun timed :: "int \<Rightarrow> int option \<Rightarrow> int \<Rightarrow> (int \<times> drain_event) list \<Rightarrow> bool" where
  "timed idle maxD now [] = True"
| "timed idle maxD now ((t, ev) # rs) = (now \<le> t \<and> (ev = DrPacket \<longrightarrow> t \<le> current_deadline idle maxD now) \<and> timed idle maxD t rs)"

lemma drain_running:
  "drain_loop idle (Some m) now n rs = None \<Longrightarrow> timed idle (Some m) now rs \<Longrightarrow> \<forall>(t, ev)\<in>set rs. t \<le> m"
proof (induction idle "Some m" now n rs rule: drain_loop.induct)
  case (2 idle now n t rs)
  then show ?case by (auto simp: current_deadline_def split: if_splits)
qed (auto split: if_splits)

lemma last_packet_mono: "a \<le> b \<Longrightarrow> last_packet a us \<le> last_packet b us"
  by (induction a us arbitrary: b rule: last_packet.induct) auto

lemma drain_released:
  "drain_loop idle maxD now n rs = Some (reason, t, k) \<Longrightarrow> timed idle maxD now rs \<Longrightarrow> \<exists>us ev vs. rs = us @ (t, ev) # vs \<and>
     k = n + packet_count us \<and> (reason = DrainMaxDuration \<longrightarrow> (\<exists>m. maxD = Some m \<and> m < t)) \<and>
     (reason = DrainIdleTimeout \<longrightarrow> last_packet now us + idle < t) \<and> reason \<noteq> DrainDisabled \<and>
     (reason = DrainError \<longrightarrow> ev = DrError)"
proof (induction idle maxD now n rs rule: drain_loop.induct)
  case (2 idle maxD now n t' rs)
  then obtain us ev vs where "rs = us @ (t, ev) # vs" "k = Suc n + packet_count us" "reason = DrainMaxDuration \<longrightarrow> (\<exists>m. maxD = Some m \<and> m < t)"
    "reason = DrainIdleTimeout \<longrightarrow> last_packet t' us + idle < t" "reason \<noteq> DrainDisabled" "reason = DrainError \<longrightarrow> ev = DrError" by auto
  then show ?case by (intro exI [of _ "(t', DrPacket) # us"] exI [of _ ev] exI [of _ vs]) (simp add: packet_count_def)
next
  case (3 idle maxD now n t' rs)
  then show ?case by (intro exI [of _ "[]"] exI [of _ DrError] exI [of _ rs]) (simp add: packet_count_def)
next
  case (4 idle maxD now n t' rs)
  show ?case
  proof (cases "(case maxD of Some m \<Rightarrow> t' > m | None \<Rightarrow> False) \<or> t' > current_deadline idle maxD now")
    case True
    then show ?thesis using 4(2)
      by (intro exI [of _ "[]"] exI [of _ DrDeadlineExceeded] exI [of _ rs])
         (auto simp: packet_count_def current_deadline_def split: option.splits if_splits)
  next
    case False
    then obtain us ev vs where r: "rs = us @ (t, ev) # vs" "k = n + packet_count us" "reason = DrainMaxDuration \<longrightarrow> (\<exists>m. maxD = Some m \<and> m < t)"
      "reason = DrainIdleTimeout \<longrightarrow> last_packet t' us + idle < t" "reason \<noteq> DrainDisabled" "reason = DrainError \<longrightarrow> ev = DrError"
      using 4 by auto
    moreover have "last_packet now us \<le> last_packet t' us" using 4(3) by (auto intro: last_packet_mono)
    ultimately show ?thesis by (intro exI [of _ "(t', DrDeadlineExceeded) # us"] exI [of _ ev] exI [of _ vs]) (auto simp: packet_count_def)
  qed
qed simp

lemma drain_no_idle:
  "drain_loop idle (Some m) now n rs = Some (reason, t, k) \<Longrightarrow> timed idle (Some m) now rs \<Longrightarrow> m < now + idle \<Longrightarrow> reason \<noteq> DrainIdleTimeout"
proof (induction idle "Some m" now n rs rule: drain_loop.induct)
  case (4 idle now n t' rs)
  then show ?case by (auto simp: current_deadline_def split: if_splits)
qed auto

text \<open>A drained port is released in time and not too early: when draining is disabled the port is released at once; otherwise,
  if reads return by their deadlines, the port is held no longer than the configured duration (a port still
  held has seen nothing after that point), it is released for exceeding the duration only after it, and
  for being idle only when no packet has arrived for the configured time.\<close>

theorem drain_bounded:
  assumes "timed (if idle \<le> 0 then maxDur + 1000000000 else idle) (if maxDur > 0 then Some (now + maxDur) else None) now rs"
  shows "case DrainPort idle maxDur now rs of
      None \<Rightarrow> (idle > 0 \<or> maxDur > 0) \<and> (maxDur > 0 \<longrightarrow> (\<forall>(t, ev)\<in>set rs. t \<le> now + maxDur))
    | Some (reason, t, k) \<Rightarrow> if idle \<le> 0 \<and> maxDur \<le> 0 then reason = DrainDisabled \<and> t = now
        else \<exists>us ev vs. rs = us @ (t, ev) # vs \<and> k = packet_count us \<and>
          (reason = DrainMaxDuration \<longrightarrow> maxDur > 0 \<and> now + maxDur < t) \<and>
          (reason = DrainIdleTimeout \<longrightarrow> idle > 0 \<and> last_packet now us + idle < t) \<and> reason \<noteq> DrainDisabled"
proof (cases "idle \<le> 0 \<and> maxDur \<le> 0")
  case True
  then show ?thesis by (simp add: DrainPort_def)
next
  case False
  define i where "i = (if idle \<le> 0 then maxDur + 1000000000 else idle)"
  define m where "m = (if maxDur > 0 then Some (now + maxDur) else None)"
  have d: "DrainPort idle maxDur now rs = drain_loop i m now 0 rs" using False by (auto simp: DrainPort_def i_def m_def Let_def)
  have tm: "timed i m now rs" using assms by (simp add: i_def m_def)
  show ?thesis
  proof (cases "drain_loop i m now 0 rs")
    case None
    then show ?thesis using False d drain_running [of i "now + maxDur" now 0 rs] tm by (auto simp: m_def)
  next
    case (Some x)
    obtain reason t k where x: "x = (reason, t, k)" by (metis prod.exhaust)
    from drain_released [OF Some [unfolded x] tm] obtain us ev vs where
      r: "rs = us @ (t, ev) # vs" "k = packet_count us" "reason = DrainMaxDuration \<longrightarrow> (\<exists>y. m = Some y \<and> y < t)"
        "reason = DrainIdleTimeout \<longrightarrow> last_packet now us + i < t" "reason \<noteq> DrainDisabled" by auto
    have "idle > 0" if "reason = DrainIdleTimeout"
      using drain_no_idle [of i "now + maxDur" now 0 rs reason t k] Some x tm that False by (auto simp: m_def i_def split: if_splits)
    then show ?thesis using d Some x r False by (auto simp: m_def i_def split: if_splits)
  qed
qed

definition demo_rounds :: "(int \<times> drain_event) list" where
  "demo_rounds = [(5, DrPacket), (8, DrDeadlineExceeded), (12, DrPacket), (23, DrDeadlineExceeded)]"

theorem drain_bounded_witness:
  "timed 10 (Some 100) 0 demo_rounds \<and> DrainPort 10 100 0 demo_rounds = Some (DrainIdleTimeout, 23, 2) \<and>
   (\<exists>us ev vs. demo_rounds = us @ (23, ev) # vs \<and> last_packet 0 us + 10 < 23)"
proof -
  have t: "timed 10 (Some 100) 0 demo_rounds" by (simp add: demo_rounds_def current_deadline_def)
  have d: "DrainPort 10 100 0 demo_rounds = Some (DrainIdleTimeout, 23, 2)"
    by (simp add: DrainPort_def demo_rounds_def current_deadline_def)
  show ?thesis using drain_bounded [of 10 100 0 demo_rounds] t d by auto
qed

end
