(* ===== verification/ServiceProcess.thy ===== *)
theory ServiceProcess
  imports Configuration Stats
begin

text \<open>
  The process around the SIP service: the SIP server with its listeners and handlers (sip/server.go), the life of the process from the
  opening of its endpoints over the wait for the end of the calls to the stop of the SIP service (service/service.go), its health endpoint, and the loading of the
  configuration (cmd/livekit-sip/main.go).

  The network is represented by the error a listener returns. The goroutine that reacts to the signals of the operating system and the one that
  runs the service interleave: stopping breaks the fuse first and stores the kill flag afterwards, and the service may observe either state.
\<close>

section \<open>The SIP server\<close>

datatype listener = LUdp AddrPort | LTcp AddrPort | LTls AddrPort

record sip_server =
  sv_running :: bool
  sv_listeners :: "listener list"
  sv_open :: "listener list"

definition NewServer :: sip_server where
  "NewServer = \<lparr>sv_running = False, sv_listeners = [], sv_open = []\<rparr>"

definition start_listener :: "(listener \<Rightarrow> go_error option) \<Rightarrow> listener \<Rightarrow> sip_server \<Rightarrow> sip_server \<times> go_error option" where
  "start_listener listen l s = (case listen l of
     Some err \<Rightarrow> (s, Some (EWrap (case l of LUdp _ \<Rightarrow> ''cannot listen on the UDP signaling port'' | LTcp _ \<Rightarrow> ''cannot listen on the TCP signaling port''
         | LTls _ \<Rightarrow> ''cannot listen on the TLS signaling port'') err))
   | None \<Rightarrow> (s\<lparr>sv_listeners := sv_listeners s @ [l], sv_open := sv_open s @ [l]\<rparr>, None))"

fun start_listeners :: "(listener \<Rightarrow> go_error option) \<Rightarrow> listener list \<Rightarrow> sip_server \<Rightarrow> sip_server \<times> go_error option" where
  "start_listeners listen [] s = (s, None)"
| "start_listeners listen (l # ls) s = (case start_listener listen l s of
     (s1, Some err) \<Rightarrow> (s1, Some err)
   | (s1, None) \<Rightarrow> start_listeners listen ls s1)"

text \<open>\<open>Server.Start\<close> with the user agent of the service: \<open>srvErr\<close> is the error of the SIP stack, ports are truncated to 16 bits.\<close>

definition server_Start ::
  "go_error option \<Rightarrow> (string \<Rightarrow> (go_error, Addr) result) \<Rightarrow> (listener \<Rightarrow> go_error option) \<Rightarrow> string \<Rightarrow> Config \<Rightarrow> bool \<Rightarrow>
   sip_server \<Rightarrow> sip_server \<times> go_error option" where
  "server_Start srvErr parse listen listenIP conf tls s = (case srvErr of
     Some err \<Rightarrow> (s, Some err)
   | None \<Rightarrow> (let s1 = s\<lparr>sv_running := True\<rparr> in
       case parse (if listenIP = '''' then ''0.0.0.0'' else listenIP) of
         Err err \<Rightarrow> (s1, Some err)
       | Ok ip \<Rightarrow> (let addr = \<lparr>ap_Addr = ip, ap_Port = word_of_int (cf_SIPPortListen conf)\<rparr> in
           start_listeners listen ([LUdp addr, LTcp addr] @
             (case cf_TLS conf of Some tc \<Rightarrow> if tls then [LTls \<lparr>ap_Addr = ip, ap_Port = word_of_int (tc_ListenPort tc)\<rparr>] else [] | None \<Rightarrow> [])) s1)))"

definition server_Stop :: "sip_server \<Rightarrow> sip_server" where
  "server_Stop s = s\<lparr>sv_open := filter (\<lambda>l. l \<notin> set (sv_listeners s)) (sv_open s)\<rparr>"

text \<open>The interceptors are applied from the last to the first.\<close>

definition wrapHandler :: "('h \<Rightarrow> 'h) list \<Rightarrow> 'h \<Rightarrow> 'h" where
  "wrapHandler interceptors handler = fold (\<lambda>interceptor ret. interceptor ret) (rev interceptors) handler"

section \<open>The process\<close>

datatype pr_phase = Serving | Draining | Ticking | Ended

record process =
  pr_mon :: health_in
  pr_shutdown :: bool
  pr_killed :: bool
  pr_phase :: pr_phase
  pr_listeners :: "string list"
  pr_rpc :: bool
  pr_topic :: bool
  pr_sipStops :: nat
  pr_lastTotal :: "int option"

fun open_listeners :: "(string \<Rightarrow> go_error option) \<Rightarrow> string list \<Rightarrow> string list \<Rightarrow> (go_error, string list) result" where
  "open_listeners listen opened [] = Ok opened"
| "open_listeners listen opened (p # ps) = (case listen p of Some err \<Rightarrow> Err err | None \<Rightarrow> open_listeners listen (p # opened) ps)"

definition endpoint_ports :: "int \<Rightarrow> int \<Rightarrow> int \<Rightarrow> string list" where
  "endpoint_ports prometheus pprof health = (if prometheus > 0 then [''prometheus''] else []) @ (if pprof > 0 then [''pprof''] else []) @
     (if health > 0 then [''health''] else [])"

text \<open>\<open>Run\<close> up to the wait: an error closes what was opened.\<close>

definition Run_start ::
  "(string \<Rightarrow> go_error option) \<Rightarrow> go_error option \<Rightarrow> go_error option \<Rightarrow> string list \<Rightarrow> health_in \<Rightarrow> process \<times> go_error option" where
  "Run_start listen rpcErr topicErr ports mon = (let
     p = \<lparr>pr_mon = mon, pr_shutdown = False, pr_killed = False, pr_phase = Serving, pr_listeners = [], pr_rpc = False, pr_topic = False,
          pr_sipStops = 0, pr_lastTotal = None\<rparr>
   in case open_listeners listen [] ports of
        Err err \<Rightarrow> (p, Some err)
      | Ok ls \<Rightarrow> (case rpcErr of
          Some err \<Rightarrow> (p, Some err)
        | None \<Rightarrow> (case topicErr of
            Some err \<Rightarrow> (p, Some err)
          | None \<Rightarrow> (p\<lparr>pr_listeners := ls, pr_rpc := True, pr_topic := True\<rparr>, None))))"

text \<open>The end of \<open>Run\<close>: the SIP service is stopped, then the deferred calls release the rest.\<close>

definition Run_end :: "process \<Rightarrow> process" where
  "Run_end p = p\<lparr>pr_phase := Ended, pr_sipStops := Suc (pr_sipStops p), pr_rpc := False, pr_listeners := []\<rparr>"

text \<open>\<open>Stop\<close> is two steps; the wait for the fuse, each round of the wait for the calls and the tick between them are one step each.\<close>

datatype pr_op = PrBreak | PrKill bool | PrWake | PrPoll int | PrTick

definition Stop_break :: "process \<Rightarrow> process" where
  "Stop_break p = p\<lparr>pr_mon := (pr_mon p)\<lparr>shutdown_broken := True\<rparr>, pr_shutdown := True\<rparr>"

definition Stop_kill :: "bool \<Rightarrow> process \<Rightarrow> process" where
  "Stop_kill kill p = p\<lparr>pr_killed := kill\<rparr>"

definition Run_wake :: "process \<Rightarrow> process" where
  "Run_wake p = (let p1 = p\<lparr>pr_topic := False\<rparr> in if pr_killed p1 then Run_end p1 else p1\<lparr>pr_phase := Draining\<rparr>)"

definition Run_poll :: "int \<Rightarrow> process \<Rightarrow> process" where
  "Run_poll active p = (if pr_killed p then Run_end p
     else let p1 = p\<lparr>pr_lastTotal := Some active\<rparr> in if active = 0 then Run_end p1 else p1\<lparr>pr_phase := Ticking\<rparr>)"

fun pr_step :: "pr_op \<Rightarrow> process \<Rightarrow> process option" where
  "pr_step PrBreak p = Some (Stop_break p)"
| "pr_step (PrKill kill) p = (if pr_shutdown p then Some (Stop_kill kill p) else None)"
| "pr_step PrWake p = (if pr_phase p = Serving \<and> pr_shutdown p then Some (Run_wake p) else None)"
| "pr_step (PrPoll active) p = (if pr_phase p = Draining then Some (Run_poll active p) else None)"
| "pr_step PrTick p = (if pr_phase p = Ticking then Some (p\<lparr>pr_phase := Draining\<rparr>) else None)"

text \<open>The answer of the health endpoint.\<close>

definition health_code :: "HealthStatus \<Rightarrow> int" where
  "health_code st = (case st of HealthOK \<Rightarrow> 200 | HealthUnderLoad \<Rightarrow> 429 | _ \<Rightarrow> 503)"

section \<open>The configuration of the process\<close>

definition getConfig ::
  "(string \<Rightarrow> (go_error, string) result) \<Rightarrow> (string \<Rightarrow> (go_error, Config) result) \<Rightarrow> string \<Rightarrow> go_error option \<Rightarrow> string \<Rightarrow> string \<Rightarrow> bool \<Rightarrow>
   (go_error, Config) result" where
  "getConfig readFile newConfig guid logErr configFile configBody initialize = (case
     (if configBody \<noteq> '''' then Ok configBody
      else if configFile = '''' then Err (EPsrpc InvalidArgument (ENew ''missing config''))
      else readFile configFile) of
       Err err \<Rightarrow> Err err
     | Ok body \<Rightarrow> (case newConfig body of
         Err err \<Rightarrow> Err err
       | Ok conf \<Rightarrow> if initialize then (case Init guid logErr conf of (conf', Some err) \<Rightarrow> Err err | (conf', None) \<Rightarrow> Ok conf') else Ok conf))"

section \<open>What the server opens, it closes\<close>

lemma wrapHandler_outermost: "wrapHandler (i # is) h = i (wrapHandler is h)"
  by (simp add: wrapHandler_def)

lemma start_listeners_open:
  "start_listeners listen ls s = (s', err) \<Longrightarrow> sv_open s = sv_listeners s \<Longrightarrow> sv_open s' = sv_listeners s'"
  by (induction ls arbitrary: s) (auto simp: start_listener_def split: option.splits)

lemma start_listeners_all:
  "start_listeners listen ls s = (s', None) \<Longrightarrow> sv_listeners s' = sv_listeners s @ ls"
  by (induction ls arbitrary: s) (auto simp: start_listener_def split: option.splits)

text \<open>The SIP server listens on every configured transport or on none: a start that succeeds has opened UDP and TCP on the configured signaling port
  and, when TLS is configured, TLS on its own port, and nothing else; and whether the start succeeded or
  failed half-way, stopping the server closes every listener that was opened.\<close>

theorem server_listeners:
  assumes "server_Start srvErr parse listen listenIP conf tls NewServer = (s, err)"
  shows "sv_open (server_Stop s) = [] \<and>
    (err = None \<longrightarrow> (\<exists>ip. parse (if listenIP = '''' then ''0.0.0.0'' else listenIP) = Ok ip \<and>
       sv_open s = (let a = \<lparr>ap_Addr = ip, ap_Port = word_of_int (cf_SIPPortListen conf)\<rparr> in [LUdp a, LTcp a]) @
         (case cf_TLS conf of None \<Rightarrow> [] | Some tc \<Rightarrow> if tls then [LTls \<lparr>ap_Addr = ip, ap_Port = word_of_int (tc_ListenPort tc)\<rparr>] else [])))"
proof -
  have o: "sv_open s = sv_listeners s"
    using assms by (auto simp: server_Start_def NewServer_def Let_def simp del: start_listeners.simps dest: start_listeners_open split: option.splits sum.splits)
  then have "sv_open (server_Stop s) = []" by (simp add: server_Stop_def)
  moreover have "\<exists>ip. parse (if listenIP = '''' then ''0.0.0.0'' else listenIP) = Ok ip \<and>
       sv_listeners s = (let a = \<lparr>ap_Addr = ip, ap_Port = word_of_int (cf_SIPPortListen conf)\<rparr> in [LUdp a, LTcp a]) @
         (case cf_TLS conf of None \<Rightarrow> [] | Some tc \<Rightarrow> if tls then [LTls \<lparr>ap_Addr = ip, ap_Port = word_of_int (tc_ListenPort tc)\<rparr>] else [])" if "err = None"
    using assms that
    by (auto simp: server_Start_def NewServer_def Let_def simp del: start_listeners.simps dest!: start_listeners_all split: option.splits sum.splits)
  ultimately show ?thesis using o by simp
qed

definition demo_conf :: Config where
  "demo_conf = demo_config\<lparr>cf_SIPPortListen := 5060\<rparr>"

theorem server_listeners_witness:
  "\<exists>s err. server_Start None (\<lambda>_. Ok (IPv4 0)) (\<lambda>l. case l of LTcp a \<Rightarrow> Some (ENew ''in use'') | _ \<Rightarrow> None) '''' demo_conf False NewServer = (s, err) \<and>
     sv_open s = [LUdp \<lparr>ap_Addr = IPv4 0, ap_Port = 5060\<rparr>] \<and> sv_open (server_Stop s) = []"
proof -
  obtain s err where s: "server_Start None (\<lambda>_. Ok (IPv4 0)) (\<lambda>l. case l of LTcp a \<Rightarrow> Some (ENew ''in use'') | _ \<Rightarrow> None) '''' demo_conf False NewServer = (s, err)"
    "sv_open s = [LUdp \<lparr>ap_Addr = IPv4 0, ap_Port = 5060\<rparr>]"
    by (simp add: server_Start_def start_listener_def NewServer_def demo_conf_def Let_def)
  show ?thesis using server_listeners [OF s(1)] s by blast
qed

section \<open>The process ends gracefully\<close>

definition pr_inv :: "process \<Rightarrow> bool" where
  "pr_inv p \<longleftrightarrow> shutdown_broken (pr_mon p) = pr_shutdown p \<and> pr_sipStops p = (if pr_phase p = Ended then 1 else 0) \<and>
     (pr_phase p = Serving \<longleftrightarrow> pr_topic p) \<and> (\<not> pr_shutdown p \<longrightarrow> pr_phase p = Serving) \<and>
     (pr_phase p = Ended \<longrightarrow> \<not> pr_rpc p \<and> pr_listeners p = []) \<and> (pr_phase p \<noteq> Ended \<longrightarrow> pr_rpc p) \<and>
     (pr_phase p = Ticking \<longrightarrow> pr_lastTotal p \<noteq> Some 0)"

lemmas pr_defs = Stop_break_def Stop_kill_def Run_wake_def Run_poll_def Run_end_def

lemma pr_step_inv: "pr_inv p \<Longrightarrow> pr_step x p = Some p' \<Longrightarrow> pr_inv p'"
  by (cases x) (auto simp: pr_inv_def pr_defs Let_def split: if_splits)

interpretation process: keeps_inv pr_step pr_inv
  by unfold_locales (rule pr_step_inv)

lemma Run_start_inv: "Run_start listen rpcErr topicErr ports mon = (p, None) \<Longrightarrow> \<not> shutdown_broken mon \<Longrightarrow> pr_inv p"
  by (auto simp: Run_start_def Let_def pr_inv_def split: option.splits sum.splits)

text \<open>The steps that are left once no call is active.\<close>

definition finish :: "process \<Rightarrow> pr_op list" where
  "finish p = (case pr_phase p of Serving \<Rightarrow> if pr_killed p then [PrWake] else [PrWake, PrPoll 0] | Draining \<Rightarrow> [PrPoll 0]
     | Ticking \<Rightarrow> [PrTick, PrPoll 0] | Ended \<Rightarrow> [])"

text \<open>C37: a requested stop is graceful, and it ends: in every interleaving of stop requests with the service, the SIP service is stopped
  exactly once, by a step that either sees the kill flag or a count of no active calls, and only after the node took itself
  off the topic for new calls; as soon as a stop is requested the health endpoint answers 503; before one is requested
  the node keeps serving. When the calls are over, a requested stop ends within two steps, with the listeners
  and the RPC server closed.\<close>

theorem process_stops_gracefully:
  assumes "Run_start listen rpcErr topicErr ports mon = (p0, None)" "\<not> shutdown_broken mon" "run pr_step ops p0 = Some p"
  shows "pr_sipStops p = (if pr_phase p = Ended then 1 else 0) \<and>
    (pr_phase p \<noteq> Serving \<longrightarrow> \<not> pr_topic p) \<and>
    (if pr_shutdown p then health_code (Health (pr_mon p)) = 503 else pr_phase p = Serving \<and> pr_topic p) \<and>
    (pr_step x p = Some p' \<and> pr_phase p' = Ended \<and> pr_phase p \<noteq> Ended \<longrightarrow> pr_killed p \<or> x = PrPoll 0) \<and>
    (pr_shutdown p \<longrightarrow> (\<exists>q. run pr_step (finish p) p = Some q \<and> pr_phase q = Ended \<and> pr_sipStops q = 1 \<and> pr_listeners q = [] \<and> \<not> pr_rpc q))"
proof -
  have inv: "pr_inv p" by (rule process.run_keeps [OF Run_start_inv [OF assms(1,2)] assms(3)])
  have h: "pr_shutdown p \<Longrightarrow> health_code (Health (pr_mon p)) = 503" using inv by (auto simp: pr_inv_def health_code_def Health_def)
  have s: "pr_step x p = Some p' \<and> pr_phase p' = Ended \<and> pr_phase p \<noteq> Ended \<longrightarrow> pr_killed p \<or> x = PrPoll 0"
    by (cases x) (auto simp: pr_defs Let_def split: if_splits)
  have e: "\<exists>q. run pr_step (finish p) p = Some q \<and> pr_phase q = Ended" if "pr_shutdown p"
    using that by (cases "pr_phase p") (auto simp: finish_def pr_defs Let_def)
  have "\<exists>q. run pr_step (finish p) p = Some q \<and> pr_phase q = Ended \<and> pr_sipStops q = 1 \<and> pr_listeners q = [] \<and> \<not> pr_rpc q" if "pr_shutdown p"
    using e [OF that] process.run_keeps [OF inv] by (fastforce simp: pr_inv_def)
  then show ?thesis using inv h s by (auto simp: pr_inv_def)
qed

definition demo_mon :: health_in where
  "demo_mon = \<lparr>started_broken = True, shutdown_broken = False, cpu_idle = 3, num_cpu = 4, max_utilization = 9 / 10\<rparr>"

definition demo_stop :: "pr_op list" where
  "demo_stop = [PrBreak, PrWake, PrKill False, PrPoll 2, PrTick]"

theorem process_stops_gracefully_witness:
  "\<exists>p0 p q. Run_start (\<lambda>_. None) None None [''health''] demo_mon = (p0, None) \<and> run pr_step demo_stop p0 = Some p \<and> pr_phase p = Draining \<and>
     pr_listeners p = [''health''] \<and> health_code (Health (pr_mon p)) = 503 \<and> run pr_step (finish p) p = Some q \<and> pr_sipStops q = 1 \<and> pr_listeners q = []"
proof -
  obtain p0 p where r: "Run_start (\<lambda>_. None) None None [''health''] demo_mon = (p0, None)" "run pr_step demo_stop p0 = Some p" "pr_shutdown p"
    "pr_phase p = Draining" "pr_listeners p = [''health'']"
    by (simp add: Run_start_def demo_stop_def pr_defs Let_def)
  have m: "\<not> shutdown_broken demo_mon" by (simp add: demo_mon_def)
  have "health_code (Health (pr_mon p)) = 503" "\<exists>q. run pr_step (finish p) p = Some q \<and> pr_sipStops q = 1 \<and> pr_listeners q = []"
    using process_stops_gracefully [OF r(1) m r(2), of PrTick p] r(3) by auto
  then show ?thesis using r by blast
qed

text \<open>A configuration that is handed to the service went through the initialisation.\<close>

lemma getConfig_wf:
  assumes "getConfig readFile newConfig guid logErr configFile configBody True = Ok conf"
  shows "config_wf conf"
  using assms by (auto simp: getConfig_def dest: Init_wf split: sum.splits prod.splits option.splits if_splits)

end
