(* ===== verification/MediaWriters.thy ===== *)
theory MediaWriters
  imports MediaStats
begin

text \<open>
  The wrappers that are put around the handlers and writers of a media chain to observe it (media.go, media\_latency.go, signal\_logger.go), the metrics
  they move (stats/monitor.go), the rate of published audio (room.go) and the report of the signaling times
  (signaling\_timestamps.go).

  A chain is a list of stages, outermost first, in front of a sink; a stage acts before it passes a packet on and once the call returns. What
  the sink was given is kept in order, and its errors are a function of how many it was given. The clock of the host is a function of the number
  of readings. Reals stand for the floating-point levels of the signal logger.
\<close>

section \<open>Chains\<close>

fun through :: "('s \<Rightarrow> 'x \<Rightarrow> 'w \<Rightarrow> 'w) \<Rightarrow> ('s \<Rightarrow> 'x \<Rightarrow> 'w \<Rightarrow> 'w) \<Rightarrow> ('x \<Rightarrow> 'w \<Rightarrow> 'w \<times> 'e) \<Rightarrow> 's list \<Rightarrow> 'x \<Rightarrow> 'w \<Rightarrow> 'w \<times> 'e" where
  "through pre post sink [] x w = sink x w"
| "through pre post sink (s # ss) x w = (case through pre post sink ss x (pre s x w) of (w1, e) \<Rightarrow> (post s x w1, e))"

fun through_all :: "('s \<Rightarrow> 'x \<Rightarrow> 'w \<Rightarrow> 'w) \<Rightarrow> ('s \<Rightarrow> 'x \<Rightarrow> 'w \<Rightarrow> 'w) \<Rightarrow> ('x \<Rightarrow> 'w \<Rightarrow> 'w \<times> 'e) \<Rightarrow> 's list \<Rightarrow> 'x list \<Rightarrow> 'w \<Rightarrow> 'w \<times> 'e list" where
  "through_all pre post sink ss [] w = (w, [])"
| "through_all pre post sink ss (x # xs) w = (case through pre post sink ss x w of (w1, e) \<Rightarrow>
     (case through_all pre post sink ss xs w1 of (w2, es) \<Rightarrow> (w2, e # es)))"

text \<open>The contract of a stage: it touches neither what the sink was given nor the sink's answer. Then the chain is the sink, whatever
  its stages are; and a counter that each stage advances on its own advances by the sum over the stages and the packets.\<close>

locale observers =
  fixes pre post :: "'s \<Rightarrow> 'x \<Rightarrow> 'w \<Rightarrow> 'w" and sink :: "'x \<Rightarrow> 'w \<Rightarrow> 'w \<times> 'e" and given :: "'w \<Rightarrow> 'x list" and answer :: "nat \<Rightarrow> 'e"
  assumes pre_given: "given (pre s x w) = given w" and post_given: "given (post s x w) = given w"
    and sink_given: "given (fst (sink x w)) = given w @ [x]" and sink_answer: "snd (sink x w) = answer (length (given w))"
begin

lemma through_sink: "given (fst (through pre post sink ss x w)) = given w @ [x] \<and> snd (through pre post sink ss x w) = answer (length (given w))"
  by (induction ss arbitrary: w) (simp_all add: pre_given post_given sink_given sink_answer split_def)

lemma transparent:
  "through_all pre post sink ss xs w = (w', es) \<Longrightarrow>
     given w' = given w @ xs \<and> es = map answer [length (given w)..<length (given w) + length xs]"
proof (induction xs arbitrary: w es)
  case (Cons x xs)
  obtain w1 e where t: "through pre post sink ss x w = (w1, e)" by fastforce
  obtain es' where r: "through_all pre post sink ss xs w1 = (w', es')" "es = e # es'" using Cons.prems t by (auto split: prod.splits)
  have g: "given w1 = given w @ [x]" "e = answer (length (given w))" using through_sink [of ss x w] t by auto
  have i: "[length (given w)..<length (given w) + length (x # xs)] = length (given w) # [Suc (length (given w))..<Suc (length (given w)) + length xs]"
    by (simp add: upt_rec)
  show ?case using Cons.IH [OF r(1)] g r(2) i by simp
qed simp

lemma through_count:
  fixes f :: "'w \<Rightarrow> 'n::comm_monoid_add"
  assumes "\<And>s x w. f (pre s x w) = f w + d s x" "\<And>s x w. f (post s x w) = f w" "\<And>x w. f (fst (sink x w)) = f w"
  shows "f (fst (through pre post sink ss x w)) = f w + (\<Sum>s\<leftarrow>ss. d s x)"
  by (induction ss arbitrary: w) (simp_all add: assms add.assoc split_def)

lemma through_all_count:
  fixes f :: "'w \<Rightarrow> 'n::comm_monoid_add"
  assumes "\<And>s x w. f (pre s x w) = f w + d s x" "\<And>s x w. f (post s x w) = f w" "\<And>x w. f (fst (sink x w)) = f w"
  shows "through_all pre post sink ss xs w = (w', es) \<Longrightarrow> f w' = f w + (\<Sum>x\<leftarrow>xs. \<Sum>s\<leftarrow>ss. d s x)"
proof (induction xs arbitrary: w es)
  case (Cons x xs)
  obtain w1 e where t: "through pre post sink ss x w = (w1, e)" by fastforce
  obtain es' where r: "through_all pre post sink ss xs w1 = (w', es')" using Cons.prems t by (auto split: prod.splits)
  have "f w1 = f w + (\<Sum>s\<leftarrow>ss. d s x)" using through_count [of f d ss x w, OF assms] t by simp
  then show ?case using Cons.IH [OF r] by (simp add: add.assoc)
qed simp

end

section \<open>Metrics of the media\<close>

record media_metrics =
  packetsRTP :: "string \<times> string \<times> string \<times> string \<Rightarrow> int"
  sdpParsed :: "string \<times> string \<times> bool \<Rightarrow> int"
  codecOffered :: "string \<times> string \<times> string \<times> bool \<Rightarrow> int"
  sdpSize :: "string \<times> string \<Rightarrow> int list"
  sdpParseErrors :: "string \<times> string \<times> string \<Rightarrow> int"

definition RTPPacketSend :: "string \<Rightarrow> CallMonitor \<Rightarrow> media_metrics \<Rightarrow> media_metrics" where
  "RTPPacketSend payloadType c m = m\<lparr>packetsRTP := bump (packetsRTP m) (cm_dir c, cm_toHost c, ''send'', payloadType) 1\<rparr>"

definition RTPPacketRecv :: "string \<Rightarrow> CallMonitor \<Rightarrow> media_metrics \<Rightarrow> media_metrics" where
  "RTPPacketRecv payloadType c m = m\<lparr>packetsRTP := bump (packetsRTP m) (cm_dir c, cm_toHost c, ''recv'', payloadType) 1\<rparr>"

definition PeerSDP :: "string list \<Rightarrow> bool \<Rightarrow> CallMonitor \<Rightarrow> media_metrics \<Rightarrow> media_metrics" where
  "PeerSDP names reinvite c m = fold (\<lambda>name m. m\<lparr>codecOffered := bump (codecOffered m) (cm_dir c, providerLabel c, name, reinvite) 1\<rparr>) names
     (m\<lparr>sdpParsed := bump (sdpParsed m) (cm_dir c, providerLabel c, reinvite) 1\<rparr>)"

definition SDPSize :: "int \<Rightarrow> bool \<Rightarrow> bool \<Rightarrow> media_metrics \<Rightarrow> media_metrics" where
  "SDPSize sz isOffer isFromRemote m = (let k = (if isOffer then ''offer'' else ''answer'', if isFromRemote then ''remote'' else ''local'') in
     m\<lparr>sdpSize := (sdpSize m)(k := sdpSize m k @ [sz])\<rparr>)"

definition SDPParsePanic :: "CallMonitor \<Rightarrow> media_metrics \<Rightarrow> media_metrics" where
  "SDPParsePanic c m = m\<lparr>sdpParseErrors := bump (sdpParseErrors m) (cm_dir c, providerLabel c, ''panic'') 1\<rparr>"

definition SDPParseError :: "CallMonitor \<Rightarrow> media_metrics \<Rightarrow> media_metrics" where
  "SDPParseError c m = m\<lparr>sdpParseErrors := bump (sdpParseErrors m) (cm_dir c, providerLabel c, ''other'') 1\<rparr>"

lemma PeerSDP_counts:
  "codecOffered (PeerSDP names reinvite c m) (cm_dir c, providerLabel c, name, reinvite) =
     codecOffered m (cm_dir c, providerLabel c, name, reinvite) + int (count_list names name)"
proof -
  have "codecOffered (fold (\<lambda>n m. m\<lparr>codecOffered := bump (codecOffered m) (cm_dir c, providerLabel c, n, reinvite) 1\<rparr>) names m')
      (cm_dir c, providerLabel c, name, reinvite) = codecOffered m' (cm_dir c, providerLabel c, name, reinvite) + int (count_list names name)" for m' :: media_metrics
    by (induction names arbitrary: m') (auto simp: bump_def)
  then show ?thesis by (simp add: PeerSDP_def)
qed

section \<open>RTP chains\<close>

record rtp_packet = rtp_header +
  PayloadType :: "8 word"

datatype rtp_stage =
    StatsHandler string "CallMonitor option"
  | HandlerCount
  | StreamStats
  | LatencyRTPEntry
  | StatsWriter "8 word" "8 word" string string "CallMonitor option"
  | LatencyRTPExit

record media_world =
  mw_metrics :: media_metrics
  mw_packets :: "64 word"
  mw_bytes :: "64 word"
  mw_stream :: rtpStreamStats
  mw_entry :: int
  mw_latency :: LatencyStats
  mw_reads :: nat
  mw_out :: "(rtp_packet \<times> string) list"

definition read_clock :: "(nat \<Rightarrow> int) \<Rightarrow> media_world \<Rightarrow> int \<times> media_world" where
  "read_clock clock w = (clock (mw_reads w), w\<lparr>mw_reads := Suc (mw_reads w)\<rparr>)"

definition UnixMilli :: "int \<Rightarrow> int" where "UnixMilli ns = ns div 1000000"

definition stats_HandleRTP :: "string \<Rightarrow> CallMonitor option \<Rightarrow> rtp_packet \<Rightarrow> media_world \<Rightarrow> media_world" where
  "stats_HandleRTP typ mon h w = (case mon of
     None \<Rightarrow> w
   | Some c \<Rightarrow> w\<lparr>mw_metrics := RTPPacketRecv (payload_label typ (PayloadType h)) c (mw_metrics w)\<rparr>)"

definition count_HandleRTP :: "string \<Rightarrow> media_world \<Rightarrow> media_world" where
  "count_HandleRTP payload w = w\<lparr>mw_packets := mw_packets w + 1, mw_bytes := mw_bytes w + of_nat (length payload)\<rparr>"

definition streamStats_HandleRTP :: "(nat \<Rightarrow> int) \<Rightarrow> rtp_packet \<Rightarrow> string \<Rightarrow> media_world \<Rightarrow> media_world" where
  "streamStats_HandleRTP clock h payload w = (case read_clock clock w of (now, w1) \<Rightarrow>
     w1\<lparr>mw_stream := stream_HandleRTP (UnixMilli now) (rtp_header.truncate h) (length payload) (mw_stream w1)\<rparr>)"

definition latencyEntry_HandleRTP :: "(nat \<Rightarrow> int) \<Rightarrow> media_world \<Rightarrow> media_world" where
  "latencyEntry_HandleRTP clock w = (case read_clock clock w of (now, w1) \<Rightarrow> w1\<lparr>mw_entry := now\<rparr>)"

definition stats_WriteRTP :: "8 word \<Rightarrow> 8 word \<Rightarrow> string \<Rightarrow> string \<Rightarrow> CallMonitor option \<Rightarrow> rtp_packet \<Rightarrow> media_world \<Rightarrow> media_world" where
  "stats_WriteRTP audioPT dtmfPT audioType dtmfType mon h w = (case mon of
     None \<Rightarrow> w
   | Some c \<Rightarrow> w\<lparr>mw_metrics := RTPPacketSend (writer_label audioPT dtmfPT audioType dtmfType (PayloadType h)) c (mw_metrics w)\<rparr>)"

definition latencyExit_WriteRTP :: "(nat \<Rightarrow> int) \<Rightarrow> media_world \<Rightarrow> media_world" where
  "latencyExit_WriteRTP clock w = (if mw_entry w > 0 then (case read_clock clock w of (now, w1) \<Rightarrow>
     w1\<lparr>mw_latency := latency_exit (mw_entry w) now (mw_latency w1)\<rparr>) else w)"

lemmas rtp_stage_defs = stats_HandleRTP_def count_HandleRTP_def streamStats_HandleRTP_def latencyEntry_HandleRTP_def stats_WriteRTP_def
  latencyExit_WriteRTP_def read_clock_def

fun rtp_pre :: "(nat \<Rightarrow> int) \<Rightarrow> rtp_stage \<Rightarrow> rtp_packet \<times> string \<Rightarrow> media_world \<Rightarrow> media_world" where
  "rtp_pre clock (StatsHandler typ mon) (h, payload) w = stats_HandleRTP typ mon h w"
| "rtp_pre clock HandlerCount (h, payload) w = count_HandleRTP payload w"
| "rtp_pre clock StreamStats (h, payload) w = streamStats_HandleRTP clock h payload w"
| "rtp_pre clock LatencyRTPEntry (h, payload) w = latencyEntry_HandleRTP clock w"
| "rtp_pre clock (StatsWriter audioPT dtmfPT audioType dtmfType mon) (h, payload) w = stats_WriteRTP audioPT dtmfPT audioType dtmfType mon h w"
| "rtp_pre clock LatencyRTPExit (h, payload) w = w"

fun rtp_post :: "(nat \<Rightarrow> int) \<Rightarrow> rtp_stage \<Rightarrow> rtp_packet \<times> string \<Rightarrow> media_world \<Rightarrow> media_world" where
  "rtp_post clock LatencyRTPExit x w = latencyExit_WriteRTP clock w"
| "rtp_post clock _ x w = w"

text \<open>\<open>newLatencyRTPExit\<close>: without statistics the writer is not wrapped.\<close>

definition newLatencyRTPExit :: "bool \<Rightarrow> rtp_stage list \<Rightarrow> rtp_stage list" where
  "newLatencyRTPExit stats w = (if stats then LatencyRTPExit # w else w)"

definition rtp_sink :: "(nat \<Rightarrow> go_error option) \<Rightarrow> rtp_packet \<times> string \<Rightarrow> media_world \<Rightarrow> media_world \<times> go_error option" where
  "rtp_sink answer x w = (w\<lparr>mw_out := mw_out w @ [x]\<rparr>, answer (length (mw_out w)))"

definition HandleRTP_chain :: "(nat \<Rightarrow> int) \<Rightarrow> (nat \<Rightarrow> go_error option) \<Rightarrow> rtp_stage list \<Rightarrow> (rtp_packet \<times> string) list \<Rightarrow>
    media_world \<Rightarrow> media_world \<times> go_error option list" where
  "HandleRTP_chain clock answer = through_all (rtp_pre clock) (rtp_post clock) (rtp_sink answer)"

lemma rtp_pre_out [simp]: "mw_out (rtp_pre clock s x w) = mw_out w"
  by (cases s; cases x) (auto simp: rtp_stage_defs split: option.split)

lemma rtp_post_out [simp]: "mw_out (rtp_post clock s x w) = mw_out w"
  by (cases s) (auto simp: rtp_stage_defs)

interpretation rtp_chain: observers "rtp_pre clock" "rtp_post clock" "rtp_sink answer" mw_out answer for clock answer
  by unfold_locales (simp_all add: rtp_sink_def)

text \<open>The metric a stage moves for a packet.\<close>

fun stage_key :: "rtp_stage \<Rightarrow> rtp_packet \<Rightarrow> (string \<times> string \<times> string \<times> string) option" where
  "stage_key (StatsHandler typ (Some c)) h = Some (cm_dir c, cm_toHost c, ''recv'', payload_label typ (PayloadType h))"
| "stage_key (StatsWriter a d ta td (Some c)) h = Some (cm_dir c, cm_toHost c, ''send'', writer_label a d ta td (PayloadType h))"
| "stage_key _ h = None"

lemma rtp_metric_step:
  "packetsRTP (mw_metrics (rtp_pre clock s x w)) k = packetsRTP (mw_metrics w) k + (if stage_key s (fst x) = Some k then 1 else 0)"
  by (cases s; cases x) (auto simp: RTPPacketRecv_def RTPPacketSend_def bump_def rtp_stage_defs split: option.split)

lemma rtp_post_metric: "packetsRTP (mw_metrics (rtp_post clock s x w)) k = packetsRTP (mw_metrics w) k"
  by (cases s) (auto simp: rtp_stage_defs)

lemma rtp_count_step: "mw_packets (rtp_pre clock s x w) = mw_packets w + (if s = HandlerCount then 1 else 0)"
  "mw_bytes (rtp_pre clock s x w) = mw_bytes w + (if s = HandlerCount then of_nat (length (snd x)) else 0)"
  by (cases s; cases x; simp add: rtp_stage_defs split: option.split)+

lemma rtp_post_count: "mw_packets (rtp_post clock s x w) = mw_packets w" "mw_bytes (rtp_post clock s x w) = mw_bytes w"
  by (cases s; simp add: rtp_stage_defs)+

lemma sink_counts: "packetsRTP (mw_metrics (fst (rtp_sink answer x w))) k = packetsRTP (mw_metrics w) k"
  "mw_packets (fst (rtp_sink answer x w)) = mw_packets w" "mw_bytes (fst (rtp_sink answer x w)) = mw_bytes w"
  by (simp_all add: rtp_sink_def)

text \<open>Observing a media chain does not change it: whatever wrappers are put around a handler or writer, and in whatever order, every packet is
  delivered once, in order and unchanged, and the caller gets the errors of the bare handler; every metric of
  packets grows by exactly the packets that carry its label at the stages that count it, and the
  packet and byte counters by the packets and bytes that passed.\<close>

theorem media_chain_transparent:
  assumes "HandleRTP_chain clock answer ss xs w = (w', es)"
  shows "mw_out w' = mw_out w @ xs \<and> es = snd (HandleRTP_chain clock answer [] xs w) \<and>
    packetsRTP (mw_metrics w') k = packetsRTP (mw_metrics w) k + (\<Sum>x\<leftarrow>xs. \<Sum>s\<leftarrow>ss. if stage_key s (fst x) = Some k then 1 else 0) \<and>
    mw_packets w' = mw_packets w + (\<Sum>x\<leftarrow>xs. \<Sum>s\<leftarrow>ss. if s = HandlerCount then 1 else 0) \<and>
    mw_bytes w' = mw_bytes w + (\<Sum>x\<leftarrow>xs. \<Sum>s\<leftarrow>ss. if s = HandlerCount then of_nat (length (snd x)) else 0)"
proof -
  note a = assms [unfolded HandleRTP_chain_def]
  obtain u es0 where b: "through_all (rtp_pre clock) (rtp_post clock) (rtp_sink answer) [] xs w = (u, es0)" by fastforce
  have "es = es0" using rtp_chain.transparent [OF a] rtp_chain.transparent [OF b] by simp
  then have e: "es = snd (HandleRTP_chain clock answer [] xs w)" by (simp add: HandleRTP_chain_def b)
  show ?thesis
    using rtp_chain.transparent [OF a] e
      rtp_chain.through_all_count [of "\<lambda>w. packetsRTP (mw_metrics w) k", OF rtp_metric_step rtp_post_metric sink_counts(1) a]
      rtp_chain.through_all_count [of mw_packets, OF rtp_count_step(1) rtp_post_count(1) sink_counts(2) a]
      rtp_chain.through_all_count [of mw_bytes, OF rtp_count_step(2) rtp_post_count(2) sink_counts(3) a] by simp
qed

definition demo_metrics :: media_metrics where
  "demo_metrics = \<lparr>packetsRTP = (\<lambda>_. 0), sdpParsed = (\<lambda>_. 0), codecOffered = (\<lambda>_. 0), sdpSize = (\<lambda>_. []), sdpParseErrors = (\<lambda>_. 0)\<rparr>"

definition demo_world :: media_world where
  "demo_world = \<lparr>mw_metrics = demo_metrics, mw_packets = 0, mw_bytes = 0, mw_stream = new_stream, mw_entry = 0,
     mw_latency = \<lparr>la_Count = 0, la_SumNs = 0, la_MaxNs = 0\<rparr>, mw_reads = 0, mw_out = []\<rparr>"

definition demo_packets :: "(rtp_packet \<times> string) list" where
  "demo_packets = [(\<lparr>SequenceNumber = 7, Timestamp = 160, PayloadType = 101\<rparr>, ''ab''), (\<lparr>SequenceNumber = 8, Timestamp = 320, PayloadType = 101\<rparr>, ''c'')]"

definition demo_chain :: "rtp_stage list" where
  "demo_chain = [LatencyRTPEntry, StatsHandler ''dtmf'' (Some (NewCall ''inbound'' ''host'')), HandlerCount, StreamStats, LatencyRTPExit]"

theorem media_chain_transparent_witness:
  "\<exists>w es. HandleRTP_chain int (\<lambda>_. None) demo_chain demo_packets demo_world = (w, es) \<and> mw_out w = demo_packets \<and> mw_packets w = 2 \<and> mw_bytes w = 3 \<and>
     packetsRTP (mw_metrics w) (''inbound'', ''host'', ''recv'', ''dtmf'') = 2"
proof -
  obtain w es where r: "HandleRTP_chain int (\<lambda>_. None) demo_chain demo_packets demo_world = (w, es)" by fastforce
  show ?thesis using media_chain_transparent [OF r, of "(''inbound'', ''host'', ''recv'', ''dtmf'')"] r
    by (simp add: demo_chain_def demo_packets_def demo_world_def demo_metrics_def payload_label_def NewCall_def)
qed

section \<open>The signal logger\<close>

type_synonym pcm_sample = "16 word list"

record SignalLogger =
  sg_hangoverDuration :: int
  sg_noiseFloor :: real
  sg_enterVoiceOffsetDB :: real
  sg_exitVoiceOffsetDB :: real
  sg_lastSignalTime :: "int option"
  sg_lastIsSignal :: bool
  sg_framesProcessed :: "64 word"
  sg_stateChanges :: "64 word"

definition minDBFS :: real where "minDBFS = -100"

datatype SignalLoggerOption = WithNoiseFloor real | WithHangoverDuration int | WithEnterVoiceOffsetDB real | WithExitVoiceOffsetDB real

fun apply_option :: "SignalLoggerOption \<Rightarrow> SignalLogger \<Rightarrow> (go_error, SignalLogger) result" where
  "apply_option (WithNoiseFloor db) s = (if db < minDBFS then Err (ENew ''noise floor must be >= -100 dBFS'') else Ok (s\<lparr>sg_noiseFloor := db\<rparr>))"
| "apply_option (WithHangoverDuration d) s = (if d \<le> 0 then Err (ENew ''hangover duration must be positive'') else Ok (s\<lparr>sg_hangoverDuration := d\<rparr>))"
| "apply_option (WithEnterVoiceOffsetDB db) s = (if db \<le> 0 then Err (ENew ''enterVoiceOffsetDB must be positive'') else Ok (s\<lparr>sg_enterVoiceOffsetDB := db\<rparr>))"
| "apply_option (WithExitVoiceOffsetDB db) s = (if db \<le> 0 then Err (ENew ''exitVoiceOffsetDB must be positive'') else Ok (s\<lparr>sg_exitVoiceOffsetDB := db\<rparr>))"

fun apply_options :: "SignalLoggerOption list \<Rightarrow> SignalLogger \<Rightarrow> (go_error, SignalLogger) result" where
  "apply_options [] s = Ok s"
| "apply_options (op # ops) s = (case apply_option op s of Err err \<Rightarrow> Err err | Ok s' \<Rightarrow> apply_options ops s')"

definition NewSignalLogger :: "SignalLoggerOption list \<Rightarrow> (go_error, SignalLogger) result" where
  "NewSignalLogger options = apply_options options \<lparr>sg_hangoverDuration = 1000000000, sg_noiseFloor = -50, sg_enterVoiceOffsetDB = 10,
     sg_exitVoiceOffsetDB = 5, sg_lastSignalTime = None, sg_lastIsSignal = False, sg_framesProcessed = 0, sg_stateChanges = 0\<rparr>"

definition MaxInt16 :: real where "MaxInt16 = 32767"

definition rmsToDBFS :: "pcm_sample \<Rightarrow> real \<Rightarrow> real" where
  "rmsToDBFS sample lo = (if sample = [] then lo
     else let sumSq = (\<Sum>v\<leftarrow>sample. sint v * sint v); meanSq = of_int sumSq / of_nat (length sample); refSq = MaxInt16 * MaxInt16 in
       if meanSq \<le> 0 then lo
       else let db = 10 * log 10 (meanSq / refSq) in if db < lo then lo else db)"

text \<open>The time since the last signal; a time that was never set is as far away as a duration can be.\<close>

definition since_signal :: "int \<Rightarrow> int option \<Rightarrow> int" where
  "since_signal now t = (case t of None \<Rightarrow> 2 ^ 63 - 1 | Some t \<Rightarrow> now - t)"

definition aboveEnter :: "SignalLogger \<Rightarrow> pcm_sample \<Rightarrow> bool" where
  "aboveEnter s sample \<longleftrightarrow> rmsToDBFS sample minDBFS > sg_noiseFloor s + sg_enterVoiceOffsetDB s"

definition belowExit :: "SignalLogger \<Rightarrow> pcm_sample \<Rightarrow> bool" where
  "belowExit s sample \<longleftrightarrow> rmsToDBFS sample minDBFS < sg_noiseFloor s + sg_exitVoiceOffsetDB s"

text \<open>\<open>WriteSample\<close> up to the call of the next writer, which gets the sample in every case.\<close>

definition WriteSample_signal :: "int \<Rightarrow> pcm_sample \<Rightarrow> SignalLogger \<Rightarrow> SignalLogger" where
  "WriteSample_signal now sample s = (let
     s1 = (if aboveEnter s sample then s\<lparr>sg_lastSignalTime := Some now\<rparr> else s);
     s2 = s1\<lparr>sg_framesProcessed := sg_framesProcessed s1 + 1\<rparr>
   in if sg_framesProcessed s2 \<le> 10 then s2\<lparr>sg_lastIsSignal := aboveEnter s sample\<rparr>
      else if aboveEnter s sample \<and> \<not> sg_lastIsSignal s2 then s2\<lparr>sg_lastIsSignal := True, sg_stateChanges := sg_stateChanges s2 + 1\<rparr>
      else if belowExit s sample \<and> sg_lastIsSignal s2 then
        (if since_signal now (sg_lastSignalTime s2) \<ge> sg_hangoverDuration s2
         then s2\<lparr>sg_lastIsSignal := False, sg_stateChanges := sg_stateChanges s2 + 1\<rparr> else s2)
      else s2)"

definition write_frames :: "(int \<times> pcm_sample) list \<Rightarrow> SignalLogger \<Rightarrow> SignalLogger" where
  "write_frames = fold (\<lambda>(now, sample). WriteSample_signal now sample)"

section \<open>PCM chains\<close>

datatype pcm_stage = WriterCount | LatencyPCMEntry | LatencyPCMExit | Signal

record pcm_world =
  pw_frames :: "64 word"
  pw_samples :: "64 word"
  pw_entry :: int
  pw_latency :: LatencyStats
  pw_signal :: SignalLogger
  pw_reads :: nat
  pw_out :: "pcm_sample list"

definition count_WriteSample :: "pcm_sample \<Rightarrow> pcm_world \<Rightarrow> pcm_world" where
  "count_WriteSample x w = w\<lparr>pw_frames := pw_frames w + 1, pw_samples := pw_samples w + of_nat (length x)\<rparr>"

definition latencyEntry_WriteSample :: "(nat \<Rightarrow> int) \<Rightarrow> pcm_world \<Rightarrow> pcm_world" where
  "latencyEntry_WriteSample clock w = w\<lparr>pw_entry := clock (pw_reads w), pw_reads := Suc (pw_reads w)\<rparr>"

definition latencyExit_WriteSample :: "(nat \<Rightarrow> int) \<Rightarrow> pcm_world \<Rightarrow> pcm_world" where
  "latencyExit_WriteSample clock w = (if pw_entry w > 0
     then w\<lparr>pw_latency := latency_exit (pw_entry w) (clock (pw_reads w)) (pw_latency w), pw_reads := Suc (pw_reads w)\<rparr> else w)"

lemmas pcm_stage_defs = count_WriteSample_def latencyEntry_WriteSample_def latencyExit_WriteSample_def

fun pcm_pre :: "(nat \<Rightarrow> int) \<Rightarrow> pcm_stage \<Rightarrow> pcm_sample \<Rightarrow> pcm_world \<Rightarrow> pcm_world" where
  "pcm_pre clock WriterCount x w = count_WriteSample x w"
| "pcm_pre clock LatencyPCMEntry x w = latencyEntry_WriteSample clock w"
| "pcm_pre clock LatencyPCMExit x w = w"
| "pcm_pre clock Signal x w = w\<lparr>pw_signal := WriteSample_signal (clock (pw_reads w)) x (pw_signal w), pw_reads := Suc (pw_reads w)\<rparr>"

fun pcm_post :: "(nat \<Rightarrow> int) \<Rightarrow> pcm_stage \<Rightarrow> pcm_sample \<Rightarrow> pcm_world \<Rightarrow> pcm_world" where
  "pcm_post clock LatencyPCMExit x w = latencyExit_WriteSample clock w"
| "pcm_post clock _ x w = w"

definition newLatencyPCMExit :: "bool \<Rightarrow> pcm_stage list \<Rightarrow> pcm_stage list" where
  "newLatencyPCMExit stats w = (if stats then LatencyPCMExit # w else w)"

definition pcm_sink :: "(nat \<Rightarrow> go_error option) \<Rightarrow> pcm_sample \<Rightarrow> pcm_world \<Rightarrow> pcm_world \<times> go_error option" where
  "pcm_sink answer x w = (w\<lparr>pw_out := pw_out w @ [x]\<rparr>, answer (length (pw_out w)))"

definition WriteSample_chain :: "(nat \<Rightarrow> int) \<Rightarrow> (nat \<Rightarrow> go_error option) \<Rightarrow> pcm_stage list \<Rightarrow> pcm_sample list \<Rightarrow>
    pcm_world \<Rightarrow> pcm_world \<times> go_error option list" where
  "WriteSample_chain clock answer = through_all (pcm_pre clock) (pcm_post clock) (pcm_sink answer)"

lemma pcm_stage_out [simp]: "pw_out (pcm_pre clock s x w) = pw_out w" "pw_out (pcm_post clock s x w) = pw_out w"
  by (cases s; simp add: pcm_stage_defs)+

interpretation pcm_chain: observers "pcm_pre clock" "pcm_post clock" "pcm_sink answer" pw_out answer for clock answer
  by unfold_locales (simp_all add: pcm_sink_def)

lemma pcm_count_step:
  "pw_samples (pcm_pre clock s x w) = pw_samples w + (if s = WriterCount then of_nat (length x) else 0)" "pw_samples (pcm_post clock s x w) = pw_samples w"
  "pw_samples (fst (pcm_sink answer x w)) = pw_samples w"
  by (cases s; simp add: pcm_sink_def pcm_stage_defs)+

text \<open>The same for audio samples: the logger of signal changes included, a chain of writers delivers what it is given.\<close>

theorem pcm_chain_transparent:
  assumes "WriteSample_chain clock answer ss xs w = (w', es)"
  shows "pw_out w' = pw_out w @ xs \<and> es = map answer [length (pw_out w)..<length (pw_out w) + length xs] \<and>
    pw_samples w' = pw_samples w + (\<Sum>x\<leftarrow>xs. \<Sum>s\<leftarrow>ss. if s = WriterCount then of_nat (length x) else 0)"
  using pcm_chain.transparent [OF assms [unfolded WriteSample_chain_def]]
    pcm_chain.through_all_count [of pw_samples, OF pcm_count_step assms [unfolded WriteSample_chain_def]] by simp

section \<open>Changes of the signal are justified\<close>

definition sg_conf :: "SignalLogger \<Rightarrow> int \<times> real \<times> real \<times> real" where
  "sg_conf s = (sg_hangoverDuration s, sg_noiseFloor s, sg_enterVoiceOffsetDB s, sg_exitVoiceOffsetDB s)"

lemma same_conf: "sg_conf s = sg_conf s' \<Longrightarrow> aboveEnter s x = aboveEnter s' x \<and> belowExit s x = belowExit s' x"
  by (simp add: sg_conf_def aboveEnter_def belowExit_def)

lemma signal_step_fields:
  "sg_conf (WriteSample_signal now x s) = sg_conf s" "sg_framesProcessed (WriteSample_signal now x s) = sg_framesProcessed s + 1"
  "sg_lastSignalTime (WriteSample_signal now x s) = (if aboveEnter s x then Some now else sg_lastSignalTime s)"
  by (simp_all add: WriteSample_signal_def Let_def sg_conf_def)

lemma write_frames_snoc: "write_frames (us @ [(t, x)]) s = WriteSample_signal t x (write_frames us s)"
  by (simp add: write_frames_def)

lemma write_frames_inv:
  "sorted (map fst us) \<Longrightarrow> sg_conf (write_frames us s) = sg_conf s \<and> sg_framesProcessed (write_frames us s) = sg_framesProcessed s + of_nat (length us) \<and>
     (\<forall>(t, x)\<in>set us. aboveEnter s x \<longrightarrow> (\<exists>t'. sg_lastSignalTime (write_frames us s) = Some t' \<and> t \<le> t'))"
proof (induction us rule: rev_induct)
  case Nil
  then show ?case by (simp add: write_frames_def)
next
  case (snoc f us)
  obtain t x where f: "f = (t, x)" by fastforce
  have o: "sorted (map fst us)" "\<forall>(t', y)\<in>set us. t' \<le> t" using snoc.prems f by (auto simp: sorted_append)
  note i = snoc.IH [OF o(1)]
  have a: "aboveEnter (write_frames us s) x = aboveEnter s x" using same_conf i by blast
  show ?case using i o(2) unfolding f write_frames_snoc signal_step_fields a by (auto 4 4)
qed

lemma signal_to_silence:
  assumes "sg_lastIsSignal s" "\<not> sg_lastIsSignal (WriteSample_signal now x s)" "\<not> sg_framesProcessed s + 1 \<le> 10"
  shows "belowExit s x \<and> sg_hangoverDuration s \<le> since_signal now (if aboveEnter s x then Some now else sg_lastSignalTime s)"
  using assms by (auto simp: WriteSample_signal_def Let_def split: if_splits)

lemma silence_to_signal:
  assumes "\<not> sg_lastIsSignal s" "sg_lastIsSignal (WriteSample_signal now x s)"
  shows "aboveEnter s x"
  using assms by (auto simp: WriteSample_signal_def Let_def split: if_splits)

lemma signal_changes_step:
  "\<not> sg_framesProcessed s + 1 \<le> 10 \<Longrightarrow> sg_stateChanges (WriteSample_signal now x s) =
     sg_stateChanges s + (if sg_lastIsSignal (WriteSample_signal now x s) = sg_lastIsSignal s then 0 else 1)"
  by (simp add: WriteSample_signal_def Let_def)

lemma frame_number:
  assumes "10 \<le> n" "n < 2 ^ 64 - 1"
  shows "\<not> (of_nat n + 1 :: 64 word) \<le> 10"
proof -
  have "unat (of_nat (Suc n) :: 64 word) = Suc n" using assms by (simp add: unat_of_nat del: of_nat_Suc)
  moreover have "unat (10 :: 64 word) = 10" by simp
  ultimately show ?thesis using assms(1) by (simp add: word_le_nat_alt add.commute)
qed

lemma NewSignalLogger_fresh: "NewSignalLogger options = Ok s \<Longrightarrow> sg_framesProcessed s = 0"
proof -
  have "apply_options options s0 = Ok s \<Longrightarrow> sg_framesProcessed s = sg_framesProcessed s0" for s0
  proof (induction options arbitrary: s0)
    case (Cons op ops)
    then show ?case by (cases op) (fastforce split: sum.splits if_splits)+
  qed simp
  then show "NewSignalLogger options = Ok s \<Longrightarrow> sg_framesProcessed s = 0" by (auto simp: NewSignalLogger_def)
qed

text \<open>The signal logger reports changes, and only justified ones: after the first ten frames, with clock readings that do not go back, a change to
  signal is reported at a frame louder than the threshold for entering, a change to silence at a frame below the
  threshold for leaving and only when no frame at least as recent as the hang-over time was louder than the
  entering threshold; and the number of reported changes grows exactly when the state changes.\<close>

theorem signal_changes_justified:
  assumes "NewSignalLogger options = Ok s" "sorted (map fst (us @ [(now, x)]))" "10 \<le> length us" "length us < 2 ^ 64 - 1"
    and "a = write_frames us s" "b = write_frames (us @ [(now, x)]) s"
  shows "(\<not> sg_lastIsSignal a \<and> sg_lastIsSignal b \<longrightarrow> aboveEnter s x) \<and>
    (sg_lastIsSignal a \<and> \<not> sg_lastIsSignal b \<longrightarrow> belowExit s x \<and>
       (\<forall>(t, y)\<in>set us. aboveEnter s y \<longrightarrow> t \<le> now - sg_hangoverDuration s)) \<and>
    sg_stateChanges b = sg_stateChanges a + (if sg_lastIsSignal b = sg_lastIsSignal a then 0 else 1)"
proof -
  have o: "sorted (map fst us)" using assms(2) by (simp add: sorted_append)
  note i = write_frames_inv [OF o, of s, folded assms(5)]
  have n: "\<not> sg_framesProcessed a + 1 \<le> 10"
    using i frame_number [OF assms(3,4)] NewSignalLogger_fresh [OF assms(1)] by simp
  have b: "b = WriteSample_signal now x a" using assms(5,6) by (simp add: write_frames_snoc)
  have c: "aboveEnter a y = aboveEnter s y" "belowExit a y = belowExit s y" "sg_hangoverDuration a = sg_hangoverDuration s" for y
    using i same_conf [of a s y] by (auto simp: sg_conf_def)
  have q: "t \<le> now - sg_hangoverDuration s"
    if "sg_lastIsSignal a" "\<not> sg_lastIsSignal b" "(t, y) \<in> set us" "aboveEnter s y" for t y
  proof -
    from i that(3,4) obtain t' where t': "sg_lastSignalTime a = Some t'" "t \<le> t'" by fastforce
    have "t \<le> now" using assms(2) that(3) by (auto simp: sorted_append)
    then show ?thesis using signal_to_silence [OF that(1) that(2) [unfolded b] n] t' c by (auto simp: since_signal_def split: if_splits)
  qed
  show ?thesis
    using q silence_to_signal [of a now x] signal_to_silence [of a now x] signal_changes_step [OF n, of now x] n c unfolding b by auto
qed

lemma silent_level: "rmsToDBFS [0] minDBFS = minDBFS"
  by (simp add: rmsToDBFS_def)

lemma full_level: "rmsToDBFS [32767] minDBFS = 0"
  by (simp add: rmsToDBFS_def MaxInt16_def minDBFS_def)

definition demo_frames :: "(int \<times> pcm_sample) list" where
  "demo_frames = map (\<lambda>i. (int i, [32767])) [0..<10]"

definition demo_logger :: SignalLogger where
  "demo_logger = \<lparr>sg_hangoverDuration = 5, sg_noiseFloor = -50, sg_enterVoiceOffsetDB = 10, sg_exitVoiceOffsetDB = 5, sg_lastSignalTime = None,
     sg_lastIsSignal = False, sg_framesProcessed = 0, sg_stateChanges = 0\<rparr>"

lemma demo_logger_new: "NewSignalLogger [WithHangoverDuration 5] = Ok demo_logger"
  by (simp add: NewSignalLogger_def demo_logger_def)

lemma demo_frame_list: "demo_frames = [(0, [32767]), (1, [32767]), (2, [32767]), (3, [32767]), (4, [32767]), (5, [32767]), (6, [32767]), (7, [32767]),
    (8, [32767]), (9, [32767])]"
  by (simp add: demo_frames_def upt_rec)

theorem signal_changes_justified_witness:
  "sg_lastIsSignal (write_frames demo_frames demo_logger) \<and> \<not> sg_lastIsSignal (write_frames (demo_frames @ [(14, [0])]) demo_logger) \<and>
   belowExit demo_logger [0] \<and> sg_stateChanges (write_frames (demo_frames @ [(14, [0])]) demo_logger) =
     sg_stateChanges (write_frames demo_frames demo_logger) + 1"
proof -
  have l: "sg_lastIsSignal (write_frames demo_frames demo_logger)" "\<not> sg_lastIsSignal (write_frames (demo_frames @ [(14, [0])]) demo_logger)"
    by (simp_all add: demo_frame_list demo_logger_def write_frames_def WriteSample_signal_def aboveEnter_def belowExit_def full_level silent_level
        since_signal_def Let_def) (simp_all add: minDBFS_def)
  have "sorted (map fst (demo_frames @ [(14, [0])]))" "10 \<le> length demo_frames" "length demo_frames < 2 ^ 64 - 1" by (simp_all add: demo_frame_list)
  from signal_changes_justified [OF demo_logger_new this refl refl] l show ?thesis by simp
qed

text \<open>The level of a frame lies between the floor and, a hair above zero, the level of the most negative sample.\<close>

lemma square_bound: "sint (v :: 16 word) * sint v \<le> 32768 * 32768"
proof -
  have "- 32768 \<le> sint v" "sint v < 32768" using sint_greater_eq [of v] sint_lt [of v] by simp_all
  then have "\<bar>sint v\<bar> \<le> 32768" by linarith
  then have "\<bar>sint v\<bar> * \<bar>sint v\<bar> \<le> 32768 * 32768" by (intro mult_mono) auto
  then show ?thesis by simp
qed

lemma sum_squares_bound: "(\<Sum>v\<leftarrow>sample. sint v * sint (v :: 16 word)) \<le> 32768 * 32768 * int (length sample)"
proof (induction sample)
  case (Cons v sample)
  then show ?case using square_bound [of v] by (simp add: algebra_simps)
qed simp

theorem level_bounds: "minDBFS \<le> rmsToDBFS sample minDBFS \<and> rmsToDBFS sample minDBFS \<le> 10 * log 10 ((32768 / 32767)\<^sup>2)"
proof -
  have t: "- 10 \<le> log 10 ((32768 / 32767 :: real)\<^sup>2)" by (rule order_trans [of _ 0]) simp_all
  have "10 * log 10 (of_int (\<Sum>v\<leftarrow>sample. sint v * sint v) / of_nat (length sample) / (MaxInt16 * MaxInt16)) \<le> 10 * log 10 ((32768 / 32767)\<^sup>2)"
    if "sample \<noteq> []" "0 < of_int (\<Sum>v\<leftarrow>sample. sint v * sint v) / (of_nat (length sample) :: real)"
  proof -
    have "real_of_int (\<Sum>v\<leftarrow>sample. sint v * sint v) \<le> real_of_int (32768 * 32768 * int (length sample))"
      using sum_squares_bound [of sample] by (rule iffD2 [OF of_int_le_iff])
    then have "of_int (\<Sum>v\<leftarrow>sample. sint v * sint v) \<le> (32768 * 32768 * of_nat (length sample) :: real)" by simp
    then have "of_int (\<Sum>v\<leftarrow>sample. sint v * sint v) / of_nat (length sample) \<le> (32768 * 32768 :: real)"
      using that(1) by (simp add: divide_le_eq)
    then show ?thesis using that(2) by (intro mult_left_mono) (auto simp: MaxInt16_def power2_eq_square)
  qed
  then show ?thesis using t by (auto simp: rmsToDBFS_def minDBFS_def Let_def not_le not_less)
qed

text \<open>A frame of the most negative samples is louder than full scale.\<close>

lemma level_above_zero: "0 < rmsToDBFS [-32768] minDBFS"
proof -
  have l: "0 < log 10 (1073741824 / 1073676289 :: real)" by (intro zero_less_log_cancel_iff [THEN iffD2]) auto
  show ?thesis by (simp add: rmsToDBFS_def minDBFS_def Let_def MaxInt16_def) (use l in linarith)
qed

section \<open>The rate of published audio\<close>

record room_rate =
  rr_PublishedSamples :: "64 word"
  rr_PublishTX :: rat
  rr_lastTime :: "int option"
  rr_lastSamples :: "64 word"

definition room_Update :: "int \<Rightarrow> room_rate \<Rightarrow> room_rate" where
  "room_Update now s = (let dt = since_signal now (rr_lastTime s) in
     (if dt > 0 then s\<lparr>rr_PublishTX := of_nat (unat (rr_PublishedSamples s - rr_lastSamples s)) / (of_int dt / 1000000000)\<rparr> else s)
       \<lparr>rr_lastTime := Some now, rr_lastSamples := rr_PublishedSamples s\<rparr>)"

definition publish_samples :: "nat \<Rightarrow> room_rate \<Rightarrow> room_rate" where
  "publish_samples n s = s\<lparr>rr_PublishedSamples := rr_PublishedSamples s + of_nat n\<rparr>"

text \<open>Between two updates the rate is the samples published over the time passed, also when the counter wraps around.\<close>

lemma room_rate_exact:
  assumes "t1 < t2" "n < 2 ^ 64"
  shows "rr_PublishTX (room_Update t2 (publish_samples n (room_Update t1 s))) = of_nat n * 1000000000 / of_int (t2 - t1)"
proof -
  have "unat (of_nat n :: 64 word) = n" using assms(2) by (simp add: unat_of_nat)
  then have "(unsigned (of_nat n :: 64 word) :: rat) = of_nat n" by (metis of_nat_unat)
  then show ?thesis using assms(1) by (simp add: room_Update_def publish_samples_def since_signal_def Let_def)
qed

section \<open>Signaling times\<close>

record SignalingTimestamps =
  ts_InviteTime :: "int option"
  ts_TryingTime :: "int option"
  ts_RingingTime :: "int option"
  ts_AcceptTime :: "int option"
  ts_JoinRoomTime :: "int option"
  ts_APITime :: "int option"
  ts_AckTime :: "int option"

definition Milliseconds :: "int \<Rightarrow> int" where
  "Milliseconds d = sgn d * (\<bar>d\<bar> div 1000000)"

definition ms_field :: "string \<Rightarrow> int option \<Rightarrow> int option \<Rightarrow> (string \<times> int) list" where
  "ms_field name from till = (case (from, till) of (Some a, Some b) \<Rightarrow> [(name, Milliseconds (b - a))] | _ \<Rightarrow> [])"

definition Log_timestamps :: "SignalingTimestamps \<Rightarrow> (string \<times> int) list option" where
  "Log_timestamps ts = (if ts_InviteTime ts = None then None
     else Some (ms_field ''apiToInviteMs'' (ts_APITime ts) (ts_InviteTime ts) @ ms_field ''inviteToTryingMs'' (ts_InviteTime ts) (ts_TryingTime ts) @
       ms_field ''inviteToRingingMs'' (ts_InviteTime ts) (ts_RingingTime ts) @ ms_field ''inviteToJoinRoomMs'' (ts_InviteTime ts) (ts_JoinRoomTime ts) @
       ms_field ''inviteToAcceptMs'' (ts_InviteTime ts) (ts_AcceptTime ts) @ ms_field ''acceptToAckMs'' (ts_AcceptTime ts) (ts_AckTime ts) @
       ms_field ''apiToAckMs'' (ts_APITime ts) (ts_AckTime ts)))"

text \<open>Times that advance are reported as intervals that are not negative.\<close>

lemma Milliseconds_nonneg: "a \<le> b \<Longrightarrow> 0 \<le> Milliseconds (b - a)"
  by (cases "a = b") (auto simp: Milliseconds_def sgn_if pos_imp_zdiv_nonneg_iff)

section \<open>Digits of the pin\<close>

text \<open>The writer that hands the digits of the caller to the pin prompt. The tones of a character are the media library's; the channel
  holds ten events, and a digit that finds it full is dropped.\<close>

definition dtmf_capacity :: nat where "dtmf_capacity = 10"

definition WriteSample_pin :: "(char \<Rightarrow> 8 word option) \<Rightarrow> string \<Rightarrow> (8 word \<times> char) list \<Rightarrow> (8 word \<times> char) list \<times> go_error option" where
  "WriteSample_pin tone sample ch = (case sample of
     [d] \<Rightarrow> (case tone d of
         None \<Rightarrow> (ch, Some (ENew (''invalid DTMF sample '' @ sample)))
       | Some code \<Rightarrow> (if length ch < dtmf_capacity then ch @ [(code, d)] else ch, None))
   | _ \<Rightarrow> (ch, Some (ENew ''invalid DTMF sample length'')))"

definition dtmfEventFromSipDTMF :: "(8 word \<Rightarrow> char) \<Rightarrow> 32 word \<Rightarrow> string \<Rightarrow> 8 word \<times> char" where
  "dtmfEventFromSipDTMF CodeToChar code digit = (let c = (ucast code :: 8 word) in (c, case digit of [d] \<Rightarrow> d | _ \<Rightarrow> CodeToChar c))"

definition type_digits :: "(char \<Rightarrow> 8 word option) \<Rightarrow> string \<Rightarrow> (8 word \<times> char) list \<Rightarrow> (8 word \<times> char) list" where
  "type_digits tone ds ch = fold (\<lambda>d ch. fst (WriteSample_pin tone [d] ch)) ds ch"

lemma type_digits_prefix:
  "length ch \<le> dtmf_capacity \<Longrightarrow> map snd (type_digits tone ds ch) = take dtmf_capacity (map snd ch @ filter (\<lambda>d. tone d \<noteq> None) ds)"
proof (induction ds arbitrary: ch)
  case (Cons d ds)
  show ?case
  proof (cases "tone d")
    case None
    then show ?thesis using Cons by (simp add: type_digits_def WriteSample_pin_def)
  next
    case (Some code)
    show ?thesis
    proof (cases "length ch < dtmf_capacity")
      case True
      have "type_digits tone (d # ds) ch = type_digits tone ds (ch @ [(code, d)])" using Some True by (simp add: type_digits_def WriteSample_pin_def)
      then show ?thesis using Cons.IH [of "ch @ [(code, d)]"] True Some by simp
    next
      case False
      have "type_digits tone (d # ds) ch = type_digits tone ds ch" using Some False by (simp add: type_digits_def WriteSample_pin_def)
      then show ?thesis using Cons False by simp
    qed
  qed
qed (simp add: type_digits_def)

text \<open>While nobody reads, the channel holds the first ten valid digits in the order in which they were typed.\<close>

theorem pin_digits_in_order: "map snd (type_digits tone ds []) = take 10 (filter (\<lambda>d. tone d \<noteq> None) ds)"
  using type_digits_prefix [of "[]" tone ds] by (simp add: dtmf_capacity_def)

end
