(* ===== verification/RtpConn.thy ===== *)
theory RtpConn
  imports MediaPort
begin

text \<open>
  The RTP connection of the media library of the repository (media/rtpconn/conn.go): a UDP socket that sends to the address it last heard from, hands
  packets to a handler, and calls back when no packet arrives for a while.

  The reads of the socket, the parser of RTP packets and its marshaller are arguments; the clock is an integer in nanoseconds and the
  ticks of the supervising goroutine are steps at the multiples of the timeout. The socket and the handler may be replaced or removed at any time.
\<close>

record conn_state =
  co_conn :: bool
  co_open :: bool
  co_closed :: bool
  co_packetCount :: "64 word"
  co_received :: bool
  co_timeoutStart :: "int option"
  co_timeoutInitial :: int
  co_timeout :: int
  co_dest :: "AddrPort option"
  co_onRTP :: bool
  co_handled :: "string list"
  co_sent :: "(AddrPort \<times> string) list"
  co_clock :: int
  co_watching :: bool
  co_nextTick :: int
  co_lastPackets :: "64 word"
  co_callbacks :: nat

definition NewConnWith :: "int \<Rightarrow> bool \<Rightarrow> int \<Rightarrow> int \<Rightarrow> bool \<Rightarrow> conn_state" where
  "NewConnWith now conn initial general hasCallback = (let
     ti = (if initial \<le> 0 then 30 * 1000000000 else initial);
     tg = (if general \<le> 0 then 15 * 1000000000 else general)
   in \<lparr>co_conn = conn, co_open = conn, co_closed = False, co_packetCount = 0, co_received = False, co_timeoutStart = (if hasCallback then Some now else None),
      co_timeoutInitial = ti, co_timeout = tg, co_dest = None, co_onRTP = False, co_handled = [], co_sent = [], co_clock = now,
      co_watching = hasCallback, co_nextTick = now + tg, co_lastPackets = 0, co_callbacks = 0\<rparr>)"

definition SetDestAddr :: "AddrPort option \<Rightarrow> conn_state \<Rightarrow> conn_state" where
  "SetDestAddr addr c = c\<lparr>co_dest := addr\<rparr>"

definition OnRTP :: "bool \<Rightarrow> conn_state \<Rightarrow> conn_state" where
  "OnRTP h c = c\<lparr>co_onRTP := h\<rparr>"

text \<open>Closing, or sending on, a connection that never had a socket panics.\<close>

definition conn_Close :: "conn_state \<Rightarrow> conn_state option" where
  "conn_Close c = (let c1 = OnRTP False c in if co_closed c1 then Some c1
     else if \<not> co_conn c1 then None else Some (c1\<lparr>co_closed := True, co_open := False\<rparr>))"

definition Listen :: "(string \<Rightarrow> (go_error, Addr) result) \<Rightarrow> go_error option \<Rightarrow> string \<Rightarrow> conn_state \<Rightarrow> conn_state \<times> go_error option" where
  "Listen parse lisErr listenAddr c = (if co_conn c then (c, None)
     else case parse (if listenAddr = '''' then ''0.0.0.0'' else listenAddr) of
       Err err \<Rightarrow> (c, Some err)
     | Ok ip \<Rightarrow> (case lisErr of Some err \<Rightarrow> (c, Some err) | None \<Rightarrow> (c\<lparr>co_conn := True, co_open := True\<rparr>, None)))"

text \<open>One round of \<open>readLoop\<close> for a datagram; the buffer holds one byte more than a packet may have.\<close>

definition readLoop_packet :: "nat \<Rightarrow> (string \<Rightarrow> string option) \<Rightarrow> AddrPort \<Rightarrow> string \<Rightarrow> conn_state \<Rightarrow> conn_state" where
  "readLoop_packet mtu unmarshal src data c = (let c1 = c\<lparr>co_dest := Some src\<rparr>; n = min (length data) (mtu + 1) in
     if n > mtu then c1
     else case unmarshal (take n data) of
       None \<Rightarrow> c1
     | Some p \<Rightarrow> (let c2 = c1\<lparr>co_packetCount := co_packetCount c1 + 1\<rparr>;
           c3 = (if co_packetCount c2 = 1 then c2\<lparr>co_received := True\<rparr> else c2)
         in if co_onRTP c3 then c3\<lparr>co_handled := co_handled c3 @ [p]\<rparr> else c3))"

definition WriteRTP :: "(string \<Rightarrow> (go_error, string) result) \<Rightarrow> string \<Rightarrow> conn_state \<Rightarrow> (conn_state \<times> go_error option) option" where
  "WriteRTP marshal packet c = (case co_dest c of
     None \<Rightarrow> Some (c, None)
   | Some addr \<Rightarrow> (case marshal packet of
       Err err \<Rightarrow> Some (c, Some err)
     | Ok data \<Rightarrow> if \<not> co_conn c then None
         else if co_open c then Some (c\<lparr>co_sent := co_sent c @ [(addr, data)]\<rparr>, None)
         else Some (c, Some (EOpError ''write'' (ENew ''use of closed network connection'')))))"

definition EnableTimeout :: "bool \<Rightarrow> conn_state \<Rightarrow> conn_state" where
  "EnableTimeout enabled c = c\<lparr>co_timeoutStart := if enabled then Some (co_clock c) else None\<rparr>"

text \<open>A tick of \<open>onTimeout\<close>.\<close>

definition onTimeout_tick :: "conn_state \<Rightarrow> conn_state" where
  "onTimeout_tick c0 = (let c = c0\<lparr>co_nextTick := co_nextTick c0 + co_timeout c0\<rparr> in
     if co_packetCount c \<noteq> co_lastPackets c then c\<lparr>co_lastPackets := co_packetCount c\<rparr>
     else case co_timeoutStart c of
       None \<Rightarrow> c
     | Some start \<Rightarrow> if co_lastPackets c = 0 \<and> co_clock c - start < co_timeoutInitial c then c
         else c\<lparr>co_watching := False, co_callbacks := Suc (co_callbacks c)\<rparr>)"

datatype rc_op = CoPacket AddrPort string | CoWrite string | CoSetDest "AddrPort option" | CoOnRTP bool | CoEnable bool | CoClose | CoStopped | CoTick | CoDelay int

fun rc_step :: "nat \<Rightarrow> (string \<Rightarrow> string option) \<Rightarrow> (string \<Rightarrow> (go_error, string) result) \<Rightarrow> rc_op \<Rightarrow> conn_state \<Rightarrow> conn_state option" where
  "rc_step mtu um ma (CoPacket src data) c = (if co_open c then Some (readLoop_packet mtu um src data c) else None)"
| "rc_step mtu um ma (CoWrite p) c = map_option fst (WriteRTP ma p c)"
| "rc_step mtu um ma (CoSetDest a) c = Some (SetDestAddr a c)"
| "rc_step mtu um ma (CoOnRTP h) c = Some (OnRTP h c)"
| "rc_step mtu um ma (CoEnable b) c = Some (EnableTimeout b c)"
| "rc_step mtu um ma CoClose c = conn_Close c"
| "rc_step mtu um ma CoStopped c = (if co_watching c \<and> co_closed c then Some (c\<lparr>co_watching := False\<rparr>) else None)"
| "rc_step mtu um ma CoTick c = (if co_watching c \<and> co_clock c = co_nextTick c then Some (onTimeout_tick c) else None)"
| "rc_step mtu um ma (CoDelay d) c = (if 0 < d \<and> (co_watching c \<longrightarrow> co_clock c + d \<le> co_nextTick c) then Some (c\<lparr>co_clock := co_clock c + d\<rparr>) else None)"

section \<open>The callback is justified\<close>

text \<open>The packets that count as media.\<close>

fun counted :: "nat \<Rightarrow> (string \<Rightarrow> string option) \<Rightarrow> rc_op \<Rightarrow> bool" where
  "counted mtu um (CoPacket src data) = (length data \<le> mtu \<and> um data \<noteq> None)"
| "counted mtu um _ = False"

definition rc_inv :: "conn_state \<Rightarrow> bool" where
  "rc_inv c \<longleftrightarrow> co_callbacks c \<le> (if co_watching c then 0 else 1)"

lemma read_fields:
  "co_packetCount (readLoop_packet mtu um src data c) = co_packetCount c + (if counted mtu um (CoPacket src data) then 1 else 0)"
  "co_lastPackets (readLoop_packet mtu um src data c) = co_lastPackets c" "co_nextTick (readLoop_packet mtu um src data c) = co_nextTick c"
  "co_timeout (readLoop_packet mtu um src data c) = co_timeout c" "co_watching (readLoop_packet mtu um src data c) = co_watching c"
  "co_callbacks (readLoop_packet mtu um src data c) = co_callbacks c" "co_clock (readLoop_packet mtu um src data c) = co_clock c"
  by (auto simp: readLoop_packet_def Let_def min_def split: option.split)

lemma conn_other_step:
  assumes "rc_step mtu um ma x c = Some c'" "x \<noteq> CoTick"
  shows "co_packetCount c' = co_packetCount c + (if counted mtu um x then 1 else 0) \<and> co_lastPackets c' = co_lastPackets c \<and> co_nextTick c' = co_nextTick c \<and>
    co_timeout c' = co_timeout c \<and> co_callbacks c' = co_callbacks c \<and> (co_watching c' \<longrightarrow> co_watching c)"
  using assms by (cases x) (auto simp: read_fields WriteRTP_def SetDestAddr_def OnRTP_def EnableTimeout_def conn_Close_def Let_def
      split: option.splits sum.splits if_splits)

lemma rc_step_inv: "rc_inv c \<Longrightarrow> rc_step mtu um ma x c = Some c' \<Longrightarrow> rc_inv c'"
proof (cases "x = CoTick")
  case True
  then show "rc_inv c \<Longrightarrow> rc_step mtu um ma x c = Some c' \<Longrightarrow> rc_inv c'"
    by (auto simp: rc_inv_def onTimeout_tick_def Let_def split: if_splits option.splits)
qed (auto simp: rc_inv_def dest!: conn_other_step split: if_splits)

interpretation rtp_conn: keeps_inv "rc_step mtu um ma" rc_inv for mtu um ma
  by unfold_locales (rule rc_step_inv)

lemma quiet_run:
  "run (rc_step mtu um ma) vs b = Some c \<Longrightarrow> CoTick \<notin> set vs \<Longrightarrow>
     co_packetCount c = co_packetCount b + of_nat (length (filter (counted mtu um) vs)) \<and> co_lastPackets c = co_lastPackets b \<and>
     co_nextTick c = co_nextTick b \<and> co_timeout c = co_timeout b \<and> (co_watching c \<longrightarrow> co_watching b)"
proof (induction vs arbitrary: b)
  case (Cons x vs)
  then obtain d where d: "rc_step mtu um ma x b = Some d" "run (rc_step mtu um ma) vs d = Some c" by (auto split: option.splits)
  show ?case using conn_other_step [OF d(1)] Cons.IH [OF d(2)] Cons.prems(2) by (auto simp: algebra_simps)
qed simp

lemma tick_synced:
  assumes "rc_step mtu um ma CoTick c = Some b" "co_watching b"
  shows "co_lastPackets b = co_packetCount b \<and> co_nextTick b = co_clock b + co_timeout b"
  using assms by (auto simp: onTimeout_tick_def Let_def split: if_splits option.splits)

lemma after_tick_synced:
  assumes "run (rc_step mtu um ma) us (NewConnWith now conn i g True) = Some b" "us = [] \<or> last us = CoTick" "co_watching b"
  shows "co_lastPackets b = co_packetCount b \<and> co_nextTick b = co_clock b + co_timeout b"
proof (cases us rule: rev_cases)
  case Nil
  then show ?thesis using assms(1) by (auto simp: NewConnWith_def Let_def)
next
  case (snoc ws x)
  then obtain a where "rc_step mtu um ma CoTick a = Some b" using assms(1,2) by (auto simp: run_append split: option.splits)
  then show ?thesis using tick_synced assms(3) by blast
qed

text \<open>The callback of an RTP connection is called at most once, and only for a reason: when a tick calls it, a whole period of the configured timeout has passed
  since the tick before (or the creation) in which no well-formed packet arrived, the supervision was enabled, and
  if no packet ever arrived the initial timeout has passed since it was enabled.\<close>

theorem conn_timeout_justified:
  assumes "run (rc_step mtu um ma) us (NewConnWith now conn i g True) = Some b" "us = [] \<or> last us = CoTick"
    and "run (rc_step mtu um ma) vs b = Some c" "CoTick \<notin> set vs" "length vs < 2 ^ 64"
    and "rc_step mtu um ma CoTick c = Some c'" "co_callbacks c' \<noteq> co_callbacks c"
  shows "co_callbacks c' = 1 \<and> co_clock c = co_clock b + co_timeout b \<and> filter (counted mtu um) vs = [] \<and>
    (\<exists>start. co_timeoutStart c = Some start \<and> (co_packetCount c = 0 \<longrightarrow> co_timeoutInitial c \<le> co_clock c - start))"
proof -
  have i: "rc_inv (NewConnWith now conn i g True)" by (simp add: rc_inv_def NewConnWith_def Let_def)
  have c: "rc_inv c" "rc_inv c'"
    using rtp_conn.run_keeps [OF rtp_conn.run_keeps [OF i assms(1)] assms(3)] rc_step_inv assms(6) by blast+
  have w: "co_watching c" "co_clock c = co_nextTick c" "c' = onTimeout_tick c" using assms(6) by (auto split: if_splits)
  note q = quiet_run [OF assms(3,4)]
  note s = after_tick_synced [OF assms(1,2)]
  have f: "co_packetCount c = co_lastPackets c" "\<exists>start. co_timeoutStart c = Some start \<and> \<not> (co_lastPackets c = 0 \<and> co_clock c - start < co_timeoutInitial c)"
    using assms(7) by (auto simp: w(3) onTimeout_tick_def Let_def split: if_splits option.splits)
  have "of_nat (length (filter (counted mtu um) vs)) = (0 :: 64 word)" using f(1) q s w(1) by simp
  moreover have "length (filter (counted mtu um) vs) < 2 ^ 64" using assms(5) length_filter_le [of "counted mtu um" vs] by linarith
  ultimately have "length (filter (counted mtu um) vs) = 0" by (auto simp: word_of_nat_eq_0_iff dest: nat_dvd_not_less)
  moreover have "co_callbacks c' = 1" using c w(1) assms(7) by (auto simp: rc_inv_def split: if_splits)
  ultimately show ?thesis using f q s w(1,2) by auto
qed

definition demo_conn_ops :: "rc_op list" where
  "demo_conn_ops = [CoDelay 4, CoPacket \<lparr>ap_Addr = IPv4 7, ap_Port = 9\<rparr> ''x'', CoDelay 6, CoTick]"

theorem conn_timeout_justified_witness:
  "\<exists>b c c'. run (rc_step 10 Some Ok) demo_conn_ops (NewConnWith 0 True 30 10 True) = Some b \<and> run (rc_step 10 Some Ok) [CoDelay 10] b = Some c \<and>
     rc_step 10 Some Ok CoTick c = Some c' \<and> co_callbacks c' = 1 \<and> co_clock c = co_clock b + co_timeout b"
proof -
  obtain b c c' where r: "run (rc_step 10 Some Ok) demo_conn_ops (NewConnWith 0 True 30 10 True) = Some b"
    "run (rc_step 10 Some Ok) [CoDelay 10] b = Some c" "rc_step 10 Some Ok CoTick c = Some c'" "co_callbacks c' \<noteq> co_callbacks c"
    by (simp add: demo_conn_ops_def NewConnWith_def readLoop_packet_def onTimeout_tick_def Let_def)
  have l: "demo_conn_ops = [] \<or> last demo_conn_ops = CoTick" by (simp add: demo_conn_ops_def)
  show ?thesis using conn_timeout_justified [OF r(1) l r(2) _ _ r(3,4)] r by auto
qed

end
