(* ===== verification/OpusCodec.thy ===== *)
theory OpusCodec
  imports GoErrors
begin

text \<open>
  The writers around the Opus codec (media/opus/opus.go): the encoder, which collects audio samples into frames of the codec's length, and the
  decoder, which forgives a few damaged packets in a row.

  The codec is an argument: a function of how many frames it was given before and of the frame. So is the next writer, by the error it returns for its n-th packet.
  A frame counts as given to the codec whether or not the codec accepts it.
\<close>

section \<open>The encoder\<close>

record encoder =
  en_samples :: nat
  en_inbuf :: "int list"
  en_given :: "int list list"
  en_out :: "string list"
  en_successiveErrorCount :: nat
  en_closed :: nat

record opus_env =
  oe_encode :: "nat \<Rightarrow> int list \<Rightarrow> (go_error, string) result"
  oe_write :: "nat \<Rightarrow> go_error option"

text \<open>\<open>Encode\<close>: the codec is created for the sample rate of the writer; a frame is the samples of one period.\<close>

definition Encode :: "go_error option \<Rightarrow> nat \<Rightarrow> nat \<Rightarrow> (go_error, encoder) result" where
  "Encode newErr rate framesPerSec = (case newErr of
     Some err \<Rightarrow> Err err
   | None \<Rightarrow> Ok \<lparr>en_samples = rate div framesPerSec, en_inbuf = [], en_given = [], en_out = [], en_successiveErrorCount = 0, en_closed = 0\<rparr>)"

definition write_packet :: "opus_env \<Rightarrow> string \<Rightarrow> encoder \<Rightarrow> encoder \<times> go_error option" where
  "write_packet v p e = (case oe_write v (length (en_out e)) of Some err \<Rightarrow> (e, Some err) | None \<Rightarrow> (e\<lparr>en_out := en_out e @ [p]\<rparr>, None))"

text \<open>A round of the loop of \<open>WriteSample\<close>: the frame leaves the buffer before its error is looked at.\<close>

definition encode_round :: "opus_env \<Rightarrow> encoder \<Rightarrow> encoder \<times> go_error option" where
  "encode_round v e = (let
     frame = take (en_samples e) (en_inbuf e);
     r = oe_encode v (length (en_given e)) frame;
     e1 = e\<lparr>en_given := en_given e @ [frame], en_inbuf := drop (en_samples e) (en_inbuf e)\<rparr>
   in case r of
        Err err \<Rightarrow> (if en_successiveErrorCount e1 < 5 then e1\<lparr>en_successiveErrorCount := Suc (en_successiveErrorCount e1)\<rparr> else e1, Some err)
      | Ok p \<Rightarrow> write_packet v p (e1\<lparr>en_successiveErrorCount := 0\<rparr>))"

lemma encode_round_buffer: "en_inbuf (fst (encode_round v e)) = drop (en_samples e) (en_inbuf e)" "en_samples (fst (encode_round v e)) = en_samples e"
  by (auto simp: encode_round_def write_packet_def Let_def split: sum.splits option.splits)

text \<open>The loop ends because a frame is not empty; the codec does not exist for rates at which it would be.\<close>

function encode_loop :: "opus_env \<Rightarrow> encoder \<Rightarrow> (encoder \<times> go_error option) option" where
  "encode_loop v e = (if length (en_inbuf e) < en_samples e then Some (e, None)
     else if en_samples e = 0 then None
     else case encode_round v e of
       (e1, Some err) \<Rightarrow> Some (e1, Some err)
     | (e1, None) \<Rightarrow> encode_loop v e1)"
  by auto
termination
proof (relation "measure (\<lambda>(v, e). length (en_inbuf e))", goal_cases)
  case (2 v e x e1)
  then show ?case using encode_round_buffer(1) [of v e] by (cases "encode_round v e") auto
qed simp

declare encode_loop.simps [simp del]

definition WriteSample_enc :: "opus_env \<Rightarrow> int list \<Rightarrow> encoder \<Rightarrow> (encoder \<times> go_error option) option" where
  "WriteSample_enc v inp e = encode_loop v (e\<lparr>en_inbuf := en_inbuf e @ inp\<rparr>)"

definition flush_enc :: "opus_env \<Rightarrow> encoder \<Rightarrow> encoder \<times> go_error option" where
  "flush_enc v e = (if en_inbuf e = [] then (e, None)
     else let e1 = e\<lparr>en_given := en_given e @ [en_inbuf e]\<rparr> in
       case oe_encode v (length (en_given e)) (en_inbuf e) of Err err \<Rightarrow> (e1, Some err) | Ok p \<Rightarrow> write_packet v p e1)"

definition Close_enc :: "opus_env \<Rightarrow> go_error option \<Rightarrow> encoder \<Rightarrow> encoder \<times> go_error option" where
  "Close_enc v closeErr e = (case flush_enc v e of (e1, err1) \<Rightarrow>
     (e1\<lparr>en_closed := Suc (en_closed e1)\<rparr>, case err1 of Some err \<Rightarrow> Some err | None \<Rightarrow> closeErr))"

section \<open>The decoder\<close>

record decoder =
  de_out :: "int list list"
  de_successiveErrorCount :: nat

definition WriteSample_dec :: "(go_error \<Rightarrow> bool) \<Rightarrow> (go_error, int list) result \<Rightarrow> go_error option \<Rightarrow> string \<Rightarrow> decoder \<Rightarrow> decoder \<times> go_error option" where
  "WriteSample_dec isInvalidPacket r writeErr inp d = (if inp = [] then (d, None)
     else case r of
       Err err \<Rightarrow> if \<not> isInvalidPacket err \<or> de_successiveErrorCount d \<ge> 5 then (d, Some err)
         else (d\<lparr>de_successiveErrorCount := Suc (de_successiveErrorCount d)\<rparr>, None)
     | Ok pcm \<Rightarrow> (let d1 = d\<lparr>de_successiveErrorCount := 0\<rparr> in
         case writeErr of Some err \<Rightarrow> (d1, Some err) | None \<Rightarrow> (d1\<lparr>de_out := de_out d1 @ [pcm]\<rparr>, None)))"

section \<open>No sample is lost\<close>

text \<open>What an encoder has taken in: the frames it gave to the codec and what waits in its buffer.\<close>

definition taken :: "encoder \<Rightarrow> int list" where
  "taken e = concat (en_given e) @ en_inbuf e"

definition enc_inv :: "encoder \<Rightarrow> bool" where
  "enc_inv e \<longleftrightarrow> 0 < en_samples e \<and> en_closed e = 0 \<and> list_all (\<lambda>f. length f = en_samples e) (en_given e)"

lemma encode_round_taken:
  assumes "enc_inv e" "en_samples e \<le> length (en_inbuf e)"
  shows "taken (fst (encode_round v e)) = taken e \<and> enc_inv (fst (encode_round v e))"
  using assms by (auto simp: encode_round_def write_packet_def Let_def taken_def enc_inv_def split: sum.splits option.splits)

lemma encode_loop_ends:
  "enc_inv e \<Longrightarrow> \<exists>e' err. encode_loop v e = Some (e', err) \<and> taken e' = taken e \<and> enc_inv e' \<and> en_samples e' = en_samples e \<and>
     (err = None \<longrightarrow> length (en_inbuf e') < en_samples e)"
proof (induction v e rule: encode_loop.induct)
  case (1 v e)
  show ?case
  proof (cases "length (en_inbuf e) < en_samples e")
    case True
    then show ?thesis using 1(2) by (simp add: encode_loop.simps)
  next
    case False
    obtain e1 err where r: "encode_round v e = (e1, err)" by fastforce
    have t: "taken e1 = taken e" "enc_inv e1" "en_samples e1 = en_samples e" "0 < en_samples e"
      using encode_round_taken [OF 1(2), of v] False r encode_round_buffer(2) [of v e] 1(2) by (auto simp: enc_inv_def)
    show ?thesis
    proof (cases err)
      case None
      then show ?thesis using 1(1) [OF False _ r [symmetric]] t r False by (auto simp: encode_loop.simps [of v e])
    next
      case (Some x)
      then show ?thesis using t r False by (simp add: encode_loop.simps [of v e])
    qed
  qed
qed

text \<open>A sequence of writes; their errors do not stop the caller.\<close>

fun write_all :: "opus_env \<Rightarrow> int list list \<Rightarrow> encoder \<Rightarrow> (encoder \<times> go_error option list) option" where
  "write_all v [] e = Some (e, [])"
| "write_all v (x # xs) e = (case WriteSample_enc v x e of
     None \<Rightarrow> None
   | Some (e1, err) \<Rightarrow> map_option (\<lambda>(e2, errs). (e2, err # errs)) (write_all v xs e1))"

lemma write_all_taken:
  "enc_inv e \<Longrightarrow> \<exists>e' errs. write_all v xs e = Some (e', errs) \<and> taken e' = taken e @ concat xs \<and> enc_inv e' \<and> en_samples e' = en_samples e \<and>
     (xs \<noteq> [] \<and> last errs = None \<longrightarrow> length (en_inbuf e') < en_samples e)"
proof (induction xs arbitrary: e)
  case (Cons x xs)
  have "enc_inv (e\<lparr>en_inbuf := en_inbuf e @ x\<rparr>)" using Cons.prems by (simp add: enc_inv_def)
  from encode_loop_ends [OF this, of v] obtain e1 err where
    e1: "WriteSample_enc v x e = Some (e1, err)" "taken e1 = taken e @ x" "enc_inv e1" "en_samples e1 = en_samples e"
      "err = None \<longrightarrow> length (en_inbuf e1) < en_samples e" by (auto simp: WriteSample_enc_def taken_def)
  from Cons.IH [OF e1(3)] obtain e2 errs where e2: "write_all v xs e1 = Some (e2, errs)" "taken e2 = taken e1 @ concat xs" "enc_inv e2"
    "en_samples e2 = en_samples e1" "xs \<noteq> [] \<and> last errs = None \<longrightarrow> length (en_inbuf e2) < en_samples e1" by blast
  have "errs = [] \<longleftrightarrow> xs = []" using e2(1) by (cases xs) (auto split: option.splits prod.splits)
  then show ?case using e1 e2 by (cases xs) auto
qed simp

text \<open>C34: the Opus encoder loses and repeats no audio: whatever is written to it in pieces of any size, and whatever errors the codec and the next writer report, every write
  returns, and closing the encoder has given the codec exactly the samples that were written, in order, in frames of
  the codec's length; only the last one, flushed on closing, may be of another length, and it is shorter when the last write succeeded.\<close>

theorem opus_encoder_lossless:
  assumes "Encode None rate fps = Ok e" "0 < fps" "fps \<le> rate"
  shows "\<exists>e1 errs. write_all v xs e = Some (e1, errs) \<and> (let e2 = fst (Close_enc v closeErr e1) in
    concat (en_given e2) = concat xs \<and> en_closed e2 = 1 \<and>
    (\<exists>frames tail. en_given e2 = frames @ tail \<and> list_all (\<lambda>f. length f = rate div fps) frames \<and>
       (tail = [] \<or> (\<exists>l. tail = [l] \<and> l \<noteq> [] \<and> (last errs = None \<longrightarrow> length l < rate div fps)))))"
proof -
  have e: "en_samples e = rate div fps" "taken e = []" "enc_inv e" "en_closed e = 0" "en_inbuf e = []"
    using assms by (auto simp: Encode_def taken_def enc_inv_def div_greater_zero_iff)
  from write_all_taken [OF e(3), of v xs] obtain e1 errs where
    w: "write_all v xs e = Some (e1, errs)" "taken e1 = concat xs" "enc_inv e1" "en_samples e1 = rate div fps"
      "xs \<noteq> [] \<and> last errs = None \<longrightarrow> length (en_inbuf e1) < rate div fps" using e by auto
  have f: "list_all (\<lambda>f. length f = rate div fps) (en_given e1)" "en_closed e1 = 0" using w(3,4) by (auto simp: enc_inv_def)
  show ?thesis
  proof (cases "en_inbuf e1 = []")
    case True
    then have "fst (Close_enc v closeErr e1) = e1\<lparr>en_closed := 1\<rparr>" using f(2) by (simp add: Close_enc_def flush_enc_def)
    then show ?thesis using w(1,2) f True by (auto simp: taken_def)
  next
    case False
    have g: "en_given (fst (Close_enc v closeErr e1)) = en_given e1 @ [en_inbuf e1]" "en_closed (fst (Close_enc v closeErr e1)) = 1"
      using False f(2) by (auto simp: Close_enc_def flush_enc_def write_packet_def Let_def split: sum.splits option.splits)
    have "xs \<noteq> []" using w(1) False e(5) by auto
    then have "\<exists>frames tail. en_given (fst (Close_enc v closeErr e1)) = frames @ tail \<and> list_all (\<lambda>f. length f = rate div fps) frames \<and>
       (tail = [] \<or> (\<exists>l. tail = [l] \<and> l \<noteq> [] \<and> (last errs = None \<longrightarrow> length l < rate div fps)))"
      using w(5) f(1) g(1) False by (intro exI [of _ "en_given e1"] exI [of _ "[en_inbuf e1]"]) auto
    then show ?thesis using w(1,2) g by (auto simp: taken_def Let_def)
  qed
qed

definition demo_opus :: opus_env where
  "demo_opus = \<lparr>oe_encode = (\<lambda>n f. if n = 1 then Err (ENew ''bad frame'') else Ok (replicate (length f) CHR ''x'')), oe_write = (\<lambda>_. None)\<rparr>"

theorem opus_encoder_lossless_witness:
  "\<exists>e e1 errs. Encode None 100 50 = Ok e \<and> write_all demo_opus [[1], [2, 3, 4], [5]] e = Some (e1, errs) \<and>
     concat (en_given (fst (Close_enc demo_opus None e1))) = [1, 2, 3, 4, 5]"
proof -
  obtain e where e: "Encode None 100 50 = Ok e" by (simp add: Encode_def)
  show ?thesis using opus_encoder_lossless [OF e, of demo_opus "[[1], [2, 3, 4], [5]]" None] e by (auto simp: Let_def)
qed

text \<open>The decoder forgives at most five damaged packets in a row: once it has, every further one is reported until a packet is decoded.\<close>

lemma decoder_forgives_five:
  assumes "de_successiveErrorCount d \<le> 5" "WriteSample_dec inval r werr inp d = (d', err)"
  shows "de_successiveErrorCount d' \<le> 5 \<and> (inp \<noteq> [] \<and> r = Err x \<and> inval x \<and> err = None \<longrightarrow> de_successiveErrorCount d' = Suc (de_successiveErrorCount d)) \<and>
    (inp \<noteq> [] \<and> r = Ok pcm \<longrightarrow> de_successiveErrorCount d' = 0)"
  using assms by (auto simp: WriteSample_dec_def Let_def split: if_splits sum.splits option.splits)

end
