(* ===== verification/DialogRequest.thy ===== *)
theory DialogRequest
  imports Prelude
begin

text \<open>
  The headers of requests inside a dialog (protocol.go, inbound.go, outbound.go): the rewriting of an answered INVITE from which the requests of an
  outbound dialog are built, the construction of a REFER, and the turning round of a request of an inbound dialog, in which the bridge
  was the one that was called.

  A message is the list of its headers in order; addresses and parameters of headers are opaque strings. Removing a header removes the first
  one of its name, as the SIP stack does. The branch of a Via header and the additional headers of the caller are arguments.
\<close>

section \<open>Messages\<close>

datatype sip_header =
    HVia string string
  | HRoute string
  | HRecordRoute string
  | HMaxForwards int
  | HFrom string
  | HTo string
  | HCallID string
  | HCSeq "32 word" string
  | HContact string
  | HOther string string

record sip_message =
  mg_method :: string
  mg_recipient :: string
  mg_headers :: "sip_header list"
  mg_dest :: string

fun hdr_name :: "sip_header \<Rightarrow> string" where
  "hdr_name (HVia v b) = ''Via''"
| "hdr_name (HRoute a) = ''Route''"
| "hdr_name (HRecordRoute a) = ''Record-Route''"
| "hdr_name (HMaxForwards n) = ''Max-Forwards''"
| "hdr_name (HFrom a) = ''From''"
| "hdr_name (HTo a) = ''To''"
| "hdr_name (HCallID i) = ''Call-ID''"
| "hdr_name (HCSeq n m) = ''CSeq''"
| "hdr_name (HContact a) = ''Contact''"
| "hdr_name (HOther k v) = k"

definition GetHeaders :: "string \<Rightarrow> sip_header list \<Rightarrow> sip_header list" where
  "GetHeaders name hs = filter (\<lambda>h. hdr_name h = name) hs"

fun RemoveHeader :: "string \<Rightarrow> sip_header list \<Rightarrow> sip_header list" where
  "RemoveHeader name [] = []"
| "RemoveHeader name (h # hs) = (if hdr_name h = name then hs else h # RemoveHeader name hs)"

definition RemoveHeaders :: "string \<Rightarrow> sip_header list \<Rightarrow> sip_header list" where
  "RemoveHeaders name hs = filter (\<lambda>h. hdr_name h \<noteq> name) hs"

fun record_route :: "sip_header \<Rightarrow> string option" where
  "record_route (HRecordRoute a) = Some a" | "record_route _ = None"

fun route :: "sip_header \<Rightarrow> string option" where
  "route (HRoute a) = Some a" | "route _ = None"

definition record_routes :: "sip_header list \<Rightarrow> string list" where
  "record_routes hs = List.map_filter record_route hs"

definition routes :: "sip_header list \<Rightarrow> string list" where
  "routes hs = List.map_filter route hs"

text \<open>Repeated removal of a header removes all of its name.\<close>

lemma RemoveHeader_fixpoint: "GetHeaders name hs = [] \<Longrightarrow> RemoveHeader name hs = hs"
  by (induction hs) (auto simp: GetHeaders_def split: if_splits)

lemma RemoveHeaders_step: "RemoveHeaders name (RemoveHeader name hs) = RemoveHeaders name hs"
  by (induction hs) (auto simp: RemoveHeaders_def)

section \<open>Operations\<close>

definition setCSeq :: "32 word \<Rightarrow> sip_message \<Rightarrow> sip_message" where
  "setCSeq n req = req\<lparr>mg_headers := RemoveHeader ''CSeq'' (mg_headers req) @ [HCSeq n (mg_method req)]\<rparr>"

fun set_branch :: "string \<Rightarrow> sip_header list \<Rightarrow> sip_header list option" where
  "set_branch b [] = None"
| "set_branch b (HVia v old # hs) = Some (HVia v b # hs)"
| "set_branch b (h # hs) = map_option ((#) h) (set_branch b hs)"

fun bump_cseq :: "string \<Rightarrow> sip_header list \<Rightarrow> sip_header list option" where
  "bump_cseq m [] = None"
| "bump_cseq m (HCSeq n old # hs) = Some (HCSeq (n + 1) m # hs)"
| "bump_cseq m (h # hs) = map_option ((#) h) (bump_cseq m hs)"

text \<open>\<open>NewReferRequest\<close>: without a Via or a CSeq header in the INVITE the code would panic, which is \<open>None\<close>.\<close>

definition NewReferRequest ::
  "string \<Rightarrow> sip_message \<Rightarrow> sip_header list \<Rightarrow> string \<Rightarrow> string \<Rightarrow> (string \<times> string) list \<Rightarrow> sip_message option" where
  "NewReferRequest branch invite resp contact referTo headers = (let ih = mg_headers invite in
     case set_branch branch (GetHeaders ''Via'' ih) of
       None \<Rightarrow> None
     | Some via \<Rightarrow> (let
         rts = (if GetHeaders ''Route'' ih \<noteq> [] then GetHeaders ''Route'' ih else map HRecordRoute (rev (record_routes resp)));
         hs = via @ rts @ [HMaxForwards 70] @ GetHeaders ''From'' ih @ GetHeaders ''To'' resp @ GetHeaders ''Call-ID'' ih @
           GetHeaders ''CSeq'' ih @ [HContact contact]
       in case bump_cseq ''REFER'' hs of
            None \<Rightarrow> None
          | Some hs1 \<Rightarrow> Some \<lparr>mg_method = ''REFER'', mg_recipient = mg_recipient invite,
              mg_headers = hs1 @ [HOther ''Refer-To'' referTo,
                  HOther ''Allow'' ''INVITE, ACK, CANCEL, BYE, NOTIFY, REFER, MESSAGE, OPTIONS, INFO, SUBSCRIBE''] @ map (\<lambda>(k, v). HOther k v) headers,
              mg_dest = mg_dest invite\<rparr>))"

text \<open>\<open>applyInviteResponse\<close>: the contact of the answer, if any, with whether it names another host or port.\<close>

definition applyInviteResponse_msg :: "(string \<times> bool) option \<Rightarrow> sip_header list \<Rightarrow> sip_message \<Rightarrow> sip_message" where
  "applyInviteResponse_msg contact resp req = (let
     r1 = (case contact of None \<Rightarrow> req | Some (a, moved) \<Rightarrow> req\<lparr>mg_recipient := a\<rparr>);
     flush = ((case contact of None \<Rightarrow> False | Some (a, moved) \<Rightarrow> moved) \<or> GetHeaders ''Route'' (mg_headers req) \<noteq> [] \<or> record_routes resp \<noteq> []);
     hs = fold (\<lambda>a hs. HRoute a # hs) (record_routes resp) (RemoveHeaders ''Route'' (mg_headers r1))
   in r1\<lparr>mg_headers := hs, mg_dest := if flush then '''' else mg_dest r1\<rparr>)"

text \<open>\<open>swapSrcDst\<close> on the headers; the destination is chosen by the dialog.\<close>

definition swapSrcDst_msg :: "string option \<Rightarrow> string \<Rightarrow> string \<Rightarrow> sip_header \<Rightarrow> string \<Rightarrow> sip_message \<Rightarrow> sip_message" where
  "swapSrcDst_msg contact from to via dest req = (let
     h1 = RemoveHeader ''From'' (mg_headers req) @ [HFrom to];
     h2 = RemoveHeader ''To'' h1 @ [HTo from];
     h3 = via # RemoveHeaders ''Via'' h2;
     h4 = fold (\<lambda>a hs. HRoute a # hs) (record_routes h3) h3;
     h5 = RemoveHeaders ''Record-Route'' h4
   in req\<lparr>mg_recipient := (case contact of Some a \<Rightarrow> a | None \<Rightarrow> from), mg_headers := h5, mg_dest := dest\<rparr>)"

text \<open>What an answer of the bridge records of itself when it is told to.\<close>

definition addExtraHeaders :: "bool \<Rightarrow> string \<Rightarrow> sip_header list \<Rightarrow> sip_header list" where
  "addExtraHeaders addRecordRoute contact r = (if addRecordRoute then HRecordRoute (contact @ '';lr'') # r else r)"

section \<open>Route sets\<close>

lemma prepend_routes: "fold (\<lambda>a hs. HRoute a # hs) as hs = map HRoute (rev as) @ hs"
  by (induction as arbitrary: hs) auto

lemmas hdr_list_defs = routes_def record_routes_def GetHeaders_def RemoveHeaders_def

lemma route_lists [simp]:
  "routes (hs @ hs') = routes hs @ routes hs'" "record_routes (hs @ hs') = record_routes hs @ record_routes hs'"
  "routes (map HRoute as) = as" "record_routes (map HRecordRoute as) = as" "routes (map HRecordRoute as) = []" "record_routes (map HRoute as) = []"
  "routes [] = []" "record_routes [] = []"
  by (induction as) (auto simp: routes_def record_routes_def List.map_filter_def)

lemma GetHeaders_simps [simp]:
  "GetHeaders name (hs @ hs') = GetHeaders name hs @ GetHeaders name hs'" "GetHeaders name [] = []"
  "GetHeaders name (h # hs) = (if hdr_name h = name then h # GetHeaders name hs else GetHeaders name hs)"
  "GetHeaders name (map HRoute as) = (if name = ''Route'' then map HRoute as else [])"
  "GetHeaders name (map HRecordRoute as) = (if name = ''Record-Route'' then map HRecordRoute as else [])"
  by (auto simp: GetHeaders_def filter_empty_conv)

lemma GetHeaders_other: "\<forall>h\<in>set hs. hdr_name h \<noteq> name \<Longrightarrow> GetHeaders name hs = []"
  by (auto simp: GetHeaders_def filter_empty_conv)

lemma GetHeaders_RemoveHeaders [simp]: "GetHeaders name (RemoveHeaders name' hs) = (if name = name' then [] else GetHeaders name hs)"
  by (auto simp: GetHeaders_def RemoveHeaders_def filter_empty_conv intro: filter_cong)

lemma GetHeaders_RemoveHeader: "GetHeaders name (RemoveHeader name' hs) = (if name = name' then tl (GetHeaders name hs) else GetHeaders name hs)"
  by (induction hs) auto

lemma bump_cseq_skip: "\<forall>h\<in>set xs. hdr_name h \<noteq> ''CSeq'' \<Longrightarrow> bump_cseq m (xs @ HCSeq n old # ys) = Some (xs @ HCSeq (n + 1) m # ys)"
proof (induction xs)
  case (Cons h xs)
  then show ?case by (cases h) auto
qed simp

text \<open>Headers a dialog owns: nobody else may add one under such a name.\<close>

definition dialog_names :: "string list" where
  "dialog_names = [''Via'', ''Route'', ''Record-Route'', ''Max-Forwards'', ''From'', ''To'', ''Call-ID'', ''CSeq'', ''Contact'']"

fun typed :: "sip_header \<Rightarrow> bool" where
  "typed (HOther k v) = (k \<notin> set dialog_names)" | "typed _ = True"

definition extra_headers :: "string \<Rightarrow> (string \<times> string) list \<Rightarrow> sip_header list" where
  "extra_headers referTo headers = [HOther ''Refer-To'' referTo,
     HOther ''Allow'' ''INVITE, ACK, CANCEL, BYE, NOTIFY, REFER, MESSAGE, OPTIONS, INFO, SUBSCRIBE''] @ map (\<lambda>(k, v). HOther k v) headers"

lemma extra_untouched:
  assumes "list_all (\<lambda>(k, v). k \<notin> set dialog_names) headers" "name \<in> set dialog_names"
  shows "GetHeaders name (extra_headers referTo headers) = []"
  by (rule GetHeaders_other) (use assms in \<open>auto simp: extra_headers_def list_all_iff dialog_names_def\<close>)

text \<open>An INVITE and its answer as the dialogs have them.\<close>

definition invite_ok :: "string \<Rightarrow> string \<Rightarrow> string \<Rightarrow> sip_header list \<Rightarrow> sip_header list \<Rightarrow> bool" where
  "invite_ok f t i ih resp \<longleftrightarrow> list_all typed ih \<and> list_all typed resp \<and> GetHeaders ''Via'' ih \<noteq> [] \<and> (\<exists>n m. GetHeaders ''CSeq'' ih = [HCSeq n m]) \<and>
     GetHeaders ''From'' ih = [HFrom f] \<and> GetHeaders ''To'' resp = [HTo t] \<and> GetHeaders ''Call-ID'' ih = [HCallID i]"

lemma typed_via: "typed v \<Longrightarrow> hdr_name v = ''Via'' \<Longrightarrow> \<exists>hop b. v = HVia hop b"
  by (cases v) (auto simp: dialog_names_def)

lemma refer_headers:
  assumes "invite_ok f t i (mg_headers invite) resp"
  shows "\<exists>v vs n. GetHeaders ''Via'' (mg_headers invite) = v # vs \<and> NewReferRequest branch invite resp contact referTo headers = Some
    \<lparr>mg_method = ''REFER'', mg_recipient = mg_recipient invite, mg_headers =
       (HVia (case v of HVia hop b \<Rightarrow> hop | _ \<Rightarrow> '''') branch # vs) @
       (if GetHeaders ''Route'' (mg_headers invite) \<noteq> [] then GetHeaders ''Route'' (mg_headers invite) else map HRecordRoute (rev (record_routes resp))) @
       [HMaxForwards 70, HFrom f, HTo t, HCallID i, HCSeq n ''REFER'', HContact contact] @ extra_headers referTo headers,
     mg_dest = mg_dest invite\<rparr>"
proof -
  let ?inv = "mg_headers invite"
  obtain v vs where v: "GetHeaders ''Via'' ?inv = v # vs" using assms by (cases "GetHeaders ''Via'' ?inv") (auto simp: invite_ok_def)
  have m: "h \<in> set ?inv \<and> hdr_name h = name" if "h \<in> set (GetHeaders name ?inv)" for h name using that by (auto simp: GetHeaders_def)
  have "v \<in> set ?inv" "hdr_name v = ''Via''" using m [of v "''Via''"] v by auto
  moreover have "typed v" using assms calculation(1) by (auto simp: invite_ok_def list_all_iff)
  ultimately obtain hop b where hop: "v = HVia hop b" using typed_via by blast
  obtain n mm where n: "GetHeaders ''CSeq'' ?inv = [HCSeq n mm]" using assms by (auto simp: invite_ok_def)
  let ?rts = "if GetHeaders ''Route'' ?inv \<noteq> [] then GetHeaders ''Route'' ?inv else map HRecordRoute (rev (record_routes resp))"
  have "\<forall>h\<in>set vs. hdr_name h \<noteq> ''CSeq''" using m [of _ "''Via''"] v by auto
  moreover have "\<forall>h\<in>set ?rts. hdr_name h \<noteq> ''CSeq''" using m [of _ "''Route''"] by auto
  ultimately have "bump_cseq ''REFER'' (((HVia hop branch # vs) @ ?rts @ [HMaxForwards 70, HFrom f, HTo t, HCallID i]) @ HCSeq n mm # [HContact contact]) =
      Some (((HVia hop branch # vs) @ ?rts @ [HMaxForwards 70, HFrom f, HTo t, HCallID i]) @ HCSeq (n + 1) ''REFER'' # [HContact contact])"
    by (intro bump_cseq_skip) auto
  then show ?thesis using assms v n hop by (auto simp: NewReferRequest_def invite_ok_def Let_def extra_headers_def)
qed

lemma Via_list: "GetHeaders ''Via'' hs = v # vs \<Longrightarrow> name \<noteq> ''Via'' \<Longrightarrow> GetHeaders name vs = []"
proof (rule GetHeaders_other)
  assume a: "GetHeaders ''Via'' hs = v # vs" "name \<noteq> ''Via''"
  have "set vs \<subseteq> set (GetHeaders ''Via'' hs)" using a(1) by auto
  then show "\<forall>h\<in>set vs. hdr_name h \<noteq> name" using a(2) by (auto simp: GetHeaders_def)
qed

lemma record_route_name: "hdr_name h \<noteq> ''Record-Route'' \<Longrightarrow> record_route h = None"
  by (cases h) auto

lemma record_routes_named: "record_routes hs = record_routes (GetHeaders ''Record-Route'' hs)"
  by (induction hs) (auto simp: record_routes_def List.map_filter_def record_route_name)

lemma apply_answer_headers:
  assumes "list_all typed (mg_headers invite)"
  shows "GetHeaders name (mg_headers (applyInviteResponse_msg contact resp invite)) =
      (if name = ''Route'' then map HRoute (rev (record_routes resp)) else GetHeaders name (mg_headers invite))"
    "list_all typed (mg_headers (applyInviteResponse_msg contact resp invite))"
  using assms by (auto simp: applyInviteResponse_msg_def Let_def prepend_routes RemoveHeaders_def list_all_iff split: option.split prod.split)
    (auto simp: GetHeaders_def filter_empty_conv intro: filter_cong)

text \<open>A REFER of an outbound dialog follows the dialog: after the INVITE was rewritten from its answer, the REFER carries as its route set the recorded
  routes of the answer in reverse order and no recorded routes, the From and Call-ID of the INVITE, the To of the answer with its tag, one CSeq with
  the number the dialog chose, and is addressed to the contact of the answer.\<close>

theorem outbound_refer_routed:
  assumes "invite_ok f t i (mg_headers invite) resp" "list_all (\<lambda>(k, v). k \<notin> set dialog_names) headers"
  shows "\<exists>r. NewReferRequest branch (applyInviteResponse_msg (Some (target, moved)) resp invite) resp contact referTo headers = Some r \<and>
    (let req = setCSeq n r; hs = mg_headers req in
      mg_method req = ''REFER'' \<and> mg_recipient req = target \<and>
      GetHeaders ''Route'' hs = map HRoute (rev (record_routes resp)) \<and> GetHeaders ''Record-Route'' hs = [] \<and> GetHeaders ''From'' hs = [HFrom f] \<and>
      GetHeaders ''To'' hs = [HTo t] \<and> GetHeaders ''Call-ID'' hs = [HCallID i] \<and> GetHeaders ''CSeq'' hs = [HCSeq n ''REFER''])"
proof -
  let ?inv = "applyInviteResponse_msg (Some (target, moved)) resp invite"
  have ty: "list_all typed (mg_headers invite)" using assms(1) by (simp add: invite_ok_def)
  note a = apply_answer_headers [OF ty]
  have "invite_ok f t i (mg_headers ?inv) resp" using assms(1) a by (simp add: invite_ok_def)
  from refer_headers [OF this, of branch contact referTo headers] obtain v vs k where
    v: "GetHeaders ''Via'' (mg_headers ?inv) = v # vs" and r: "NewReferRequest branch ?inv resp contact referTo headers = Some
      \<lparr>mg_method = ''REFER'', mg_recipient = mg_recipient ?inv, mg_headers = (HVia (case v of HVia hop b \<Rightarrow> hop | _ \<Rightarrow> '''') branch # vs) @
        map HRoute (rev (record_routes resp)) @
        [HMaxForwards 70, HFrom f, HTo t, HCallID i, HCSeq k ''REFER'', HContact contact] @ extra_headers referTo headers, mg_dest = mg_dest ?inv\<rparr>"
    using a(1) by (auto split: if_splits)
  have e: "GetHeaders name (extra_headers referTo headers) = []" if "name \<in> set dialog_names" for name using extra_untouched assms(2) that by blast
  have "mg_recipient ?inv = target" by (simp add: applyInviteResponse_msg_def Let_def)
  then show ?thesis using r v by (simp add: setCSeq_def GetHeaders_RemoveHeader Via_list [OF v] e dialog_names_def)
qed

text \<open>C24: a REFER of an inbound dialog is turned round: with an INVITE that came without routes, the REFER of the bridge, which was called, carries
  as its route set the recorded routes of its answer in their order and no recorded routes, From and To exchanged, a single
  Via of its own, and one CSeq with the number the dialog chose; it is addressed to the contact of the caller.\<close>

theorem inbound_refer_routed:
  assumes "invite_ok f t i (mg_headers invite) resp" "GetHeaders ''Route'' (mg_headers invite) = []"
    and "list_all (\<lambda>(k, v). k \<notin> set dialog_names) headers"
  shows "\<exists>r. NewReferRequest branch invite resp contact referTo headers = Some r \<and>
    (let req = swapSrcDst_msg (Some target) from to (HVia hop own) dest (setCSeq n r); hs = mg_headers req in
      mg_recipient req = target \<and> GetHeaders ''Route'' hs = map HRoute (record_routes resp) \<and> GetHeaders ''Record-Route'' hs = [] \<and>
      GetHeaders ''From'' hs = [HFrom to] \<and> GetHeaders ''To'' hs = [HTo from] \<and> GetHeaders ''Via'' hs = [HVia hop own] \<and>
      GetHeaders ''Call-ID'' hs = [HCallID i] \<and> GetHeaders ''CSeq'' hs = [HCSeq n ''REFER''])"
proof -
  from refer_headers [OF assms(1), of branch contact referTo headers] obtain v vs k where
    v: "GetHeaders ''Via'' (mg_headers invite) = v # vs" and r: "NewReferRequest branch invite resp contact referTo headers = Some
      \<lparr>mg_method = ''REFER'', mg_recipient = mg_recipient invite, mg_headers = (HVia (case v of HVia hop b \<Rightarrow> hop | _ \<Rightarrow> '''') branch # vs) @
        map HRecordRoute (rev (record_routes resp)) @
        [HMaxForwards 70, HFrom f, HTo t, HCallID i, HCSeq k ''REFER'', HContact contact] @ extra_headers referTo headers, mg_dest = mg_dest invite\<rparr>"
    using assms(2) by auto
  have e: "GetHeaders name (extra_headers referTo headers) = []" if "name \<in> set dialog_names" for name using extra_untouched assms(3) that by blast

  show ?thesis using r v
    by (simp add: setCSeq_def swapSrcDst_msg_def Let_def GetHeaders_RemoveHeader Via_list [OF v] e dialog_names_def prepend_routes record_routes_named [of "_ # _"])
qed

definition demo_dialog_invite :: sip_message where
  "demo_dialog_invite = \<lparr>mg_method = ''INVITE'', mg_recipient = ''sip:bob'', mg_headers = [HVia ''h1'' ''b1'', HFrom ''alice;tag=1'', HTo ''bob'', HCallID ''id'',
     HCSeq 3 ''INVITE'', HMaxForwards 70], mg_dest = ''1.2.3.4''\<rparr>"

definition demo_answer :: "sip_header list" where
  "demo_answer = [HRecordRoute ''p1'', HRecordRoute ''p2'', HTo ''bob;tag=2'', HContact ''sip:bob at 5.6.7.8'']"

lemma demo_dialog_ok: "invite_ok ''alice;tag=1'' ''bob;tag=2'' ''id'' (mg_headers demo_dialog_invite) demo_answer"
  by (simp add: invite_ok_def demo_dialog_invite_def demo_answer_def)

lemma demo_routes: "record_routes demo_answer = [''p1'', ''p2'']"
  by (simp add: demo_answer_def record_routes_def List.map_filter_def)

theorem outbound_refer_routed_witness:
  "\<exists>r. NewReferRequest ''b9'' (applyInviteResponse_msg (Some (''sip:bob at 5.6.7.8'', True)) demo_answer demo_dialog_invite) demo_answer ''me'' ''sip:carol'' [(''X-A'', ''1'')] = Some r \<and>
     GetHeaders ''Route'' (mg_headers (setCSeq 4 r)) = [HRoute ''p2'', HRoute ''p1''] \<and> GetHeaders ''CSeq'' (mg_headers (setCSeq 4 r)) = [HCSeq 4 ''REFER'']"
proof -
  have x: "list_all (\<lambda>(k, v). k \<notin> set dialog_names) [(''X-A'', ''1'')]" by (simp add: dialog_names_def)
  show ?thesis using outbound_refer_routed [OF demo_dialog_ok x, of "''b9''" "''sip:bob at 5.6.7.8''" True "''me''" "''sip:carol''" 4]
    by (auto simp: demo_routes Let_def)
qed

theorem inbound_refer_routed_witness:
  "\<exists>r. NewReferRequest ''b9'' demo_dialog_invite demo_answer ''me'' ''sip:carol'' [(''X-A'', ''1'')] = Some r \<and>
     (let hs = mg_headers (swapSrcDst_msg (Some ''sip:alice'') ''alice;tag=1'' ''bob;tag=2'' (HVia ''me'' ''b9'') ''1.2.3.4'' (setCSeq 1 r)) in
        GetHeaders ''Route'' hs = [HRoute ''p1'', HRoute ''p2''] \<and> GetHeaders ''From'' hs = [HFrom ''bob;tag=2''] \<and> GetHeaders ''CSeq'' hs = [HCSeq 1 ''REFER''])"
proof -
  have x: "list_all (\<lambda>(k, v). k \<notin> set dialog_names) [(''X-A'', ''1'')]" by (simp add: dialog_names_def)
  have r: "GetHeaders ''Route'' (mg_headers demo_dialog_invite) = []" by (simp add: demo_dialog_invite_def)
  show ?thesis using inbound_refer_routed [OF demo_dialog_ok r x, of "''b9''" "''me''" "''sip:carol''" "''sip:alice''" "''alice;tag=1''" "''bob;tag=2''" "''me''" "''b9''"
      "''1.2.3.4''" 1] by (auto simp: demo_routes Let_def)
qed

end
