(* ===== verification/InboundDialog.thy ===== *)
theory InboundDialog
  imports Analytics
begin

text \<open>
  The UAS side of a call, \<open>sipInbound\<close> of src/pkg/sip/inbound.go: the INVITE
  transaction, ringing, the 200 OK with its retransmissions, ACK, BYE and
  REFER.  The SIP stack is represented by the messages handed to it
  (\<open>si_wire\<close>) and by the outcomes it reports, which are arguments.  Extra headers
  of messages are not represented.
\<close>

section \<open>State\<close>

datatype wire =
    WResp int string string
  | WCancelOk
  | WByeOk
  | WBye bool "32 word" string
  | WRefer "32 word" string
  | WAck "32 word"
  | WCancel
  | WInvite "32 word" string string "(string \<times> string) option"

text \<open>\<open>si_invite\<close>, \<open>si_inviteTx\<close> and \<open>si_inviteOk\<close> say whether the pointers of that name
  are set; \<open>si_ringer\<close> whether the ringing goroutine runs.\<close>

record sipInbound =
  si_id :: string
  si_tag :: string
  si_sipCallID :: string
  si_legTr :: Transport
  si_tr :: Transport
  si_inviteCSeq :: "32 word"
  si_invite :: bool
  si_inviteTx :: bool
  si_inviteOk :: bool
  si_nextRequestCSeq :: "32 word"
  si_referCseq :: "32 word"
  si_ringing :: bool
  si_ringer :: bool
  si_cancelled :: bool
  si_acked :: bool
  si_ack :: "string option"
  si_tryingAt :: "int option"
  si_okAt :: "int option"
  si_okSending :: bool
  si_ackReported :: bool
  si_lastSDP :: "string option"
  si_lastCallStatus :: "(int \<times> string) option"
  si_state :: "CallState option"
  si_wire :: "wire list"

text \<open>The fields of an INVITE that \<open>newInbound\<close> reads.  The outer option is the
  presence of the header, the inner one of its parameters.\<close>

record invite_msg =
  im_callID :: "string option"
  im_from :: "params option option"
  im_to :: "params option option"
  im_cseq :: "32 word option"
  im_legTr :: Transport
  im_tr :: Transport

definition tag_of :: "params option \<Rightarrow> string option" where
  "tag_of ps = (case ps of None \<Rightarrow> None
     | Some l \<Rightarrow> (case map_of l ''tag'' of Some t \<Rightarrow> if t = '''' then None else Some t | None \<Rightarrow> None))"

text \<open>\<open>cached\<close> is the lookup in the cache of provisional INVITEs, \<open>fresh\<close> a new call id.\<close>

definition newInbound ::
  "invite_msg \<Rightarrow> (string \<times> string \<Rightarrow> string option) \<Rightarrow> string \<Rightarrow> (go_error, sipInbound) result" where
  "newInbound m cached fresh = (case im_callID m of
     None \<Rightarrow> Err (ENew ''no Call-ID header in INVITE'')
   | Some sipCallID \<Rightarrow> if sipCallID = '''' then Err (ENew ''no Call-ID header in INVITE'')
     else (case im_from m of
       None \<Rightarrow> Err (ENew ''no From header in INVITE'')
     | Some fps \<Rightarrow> (case tag_of fps of
         None \<Rightarrow> Err (ENew ''no tag in From in INVITE'')
       | Some fromTag \<Rightarrow> (case im_to m of
           None \<Rightarrow> Err (ENew ''no To header in INVITE'')
         | Some tps \<Rightarrow> (let
             toTag = (case tag_of tps of
                 Some t \<Rightarrow> t
               | None \<Rightarrow> (case cached (sipCallID, fromTag) of
                   Some c \<Rightarrow> if c \<noteq> '''' then c else fresh
                 | None \<Rightarrow> fresh));
             cseq = (case im_cseq m of Some n \<Rightarrow> n | None \<Rightarrow> 0)
           in Ok \<lparr>si_id = toTag, si_tag = fromTag, si_sipCallID = sipCallID,
               si_legTr = im_legTr m, si_tr = im_tr m, si_inviteCSeq = cseq,
               si_invite = True, si_inviteTx = True, si_inviteOk = False,
               si_nextRequestCSeq = (case im_cseq m of Some n \<Rightarrow> n + 1 | None \<Rightarrow> 0),
               si_referCseq = 0, si_ringing = False, si_ringer = False, si_cancelled = False,
               si_acked = False, si_ack = None, si_tryingAt = None, si_okAt = None,
               si_okSending = False, si_ackReported = False, si_lastSDP = None,
               si_lastCallStatus = None, si_state = None, si_wire = []\<rparr>)))))"

section \<open>Operations\<close>

definition send :: "wire \<Rightarrow> sipInbound \<Rightarrow> sipInbound" where
  "send w c = c\<lparr>si_wire := si_wire c @ [w]\<rparr>"

definition emit :: "SignalingEvent \<Rightarrow> sipInbound \<Rightarrow> sipInbound" where
  "emit ev c = c\<lparr>si_state := emit_opt ev (si_state c)\<rparr>"

definition lastStatusCode :: "sipInbound \<Rightarrow> int" where
  "lastStatusCode c = (case si_lastCallStatus c of Some (code, _) \<Rightarrow> code | None \<Rightarrow> 0)"

definition setLastStatus :: "int \<Rightarrow> string \<Rightarrow> sipInbound \<Rightarrow> sipInbound" where
  "setLastStatus code reason c = (if code < 200 then c
     else (case si_lastCallStatus c of
         Some (prev, _) \<Rightarrow> if 200 \<le> prev \<and> prev < 300 then c
           else c\<lparr>si_lastCallStatus := Some (to_int32 code, reason)\<rparr>
       | None \<Rightarrow> c\<lparr>si_lastCallStatus := Some (to_int32 code, reason)\<rparr>))"

definition stopRinging :: "sipInbound \<Rightarrow> sipInbound" where
  "stopRinging c = c\<lparr>si_ringing := False, si_ringer := False\<rparr>"

definition drop_dialog :: "sipInbound \<Rightarrow> sipInbound" where
  "drop_dialog c = (stopRinging c)\<lparr>si_inviteTx := False, si_invite := False, si_inviteOk := False,
     si_nextRequestCSeq := 0\<rparr>"

definition emitRejected :: "int \<Rightarrow> string \<Rightarrow> int \<Rightarrow> sipInbound \<Rightarrow> sipInbound" where
  "emitRejected status reason now c = (if status < 300 then c
     else emit ((inviteResponseEvent EventRejected (Some now) status (si_inviteCSeq c))\<lparr>evReason := reason\<rparr>) c)"

text \<open>\<open>ok\<close> tells whether \<open>inviteTx.Respond\<close> succeeds.\<close>

definition respondWithData :: "bool \<Rightarrow> int \<Rightarrow> int \<Rightarrow> string \<Rightarrow> string \<Rightarrow> sipInbound \<Rightarrow> sipInbound \<times> bool" where
  "respondWithData ok now status reason0 body c = (if \<not> si_inviteTx c then (c, False)
     else let reason = (if reason0 = '''' then sipStatus status else reason0) in
       if \<not> ok then (c, False)
       else (emitRejected status reason now (setLastStatus status reason (send (WResp status reason body) c)), True))"

definition respond :: "bool \<Rightarrow> int \<Rightarrow> int \<Rightarrow> string \<Rightarrow> sipInbound \<Rightarrow> sipInbound \<times> bool" where
  "respond ok now status reason c = respondWithData ok now status reason '''' c"

type_synonym rejected_entry = "(string \<times> string) \<times> (int \<times> string)"

text \<open>The second component is what is added to the cache of rejected INVITEs.\<close>

definition RespondAndDrop :: "bool \<Rightarrow> int \<Rightarrow> int \<Rightarrow> string \<Rightarrow> sipInbound \<Rightarrow> sipInbound \<times> rejected_entry option" where
  "RespondAndDrop ok now status reason c = (let
     c1 = drop_dialog (fst (respond ok now status reason (stopRinging c)))
   in (c1, if status \<ge> 300 \<and> si_sipCallID c1 \<noteq> ''''
           then Some ((si_sipCallID c1, si_tag c1), (status, reason)) else None))"

definition Processing :: "bool \<Rightarrow> int \<Rightarrow> sipInbound \<Rightarrow> sipInbound \<times> bool" where
  "Processing ok now c = (if si_tryingAt c \<noteq> None then (c, False)
     else (case respond ok now 100 ''Processing'' c of (c1, sent) \<Rightarrow>
       if \<not> sent then (c1, False) else (c1\<lparr>si_tryingAt := Some now\<rparr>, True)))"

text \<open>\<open>tx.Cancels()\<close> on a nil transaction panics.\<close>

definition StartRinging :: "bool \<Rightarrow> int \<Rightarrow> sipInbound \<Rightarrow> (sipInbound \<times> bool) option" where
  "StartRinging ok now c = (case respond ok now 180 ''Ringing'' c of (c1, sent) \<Rightarrow>
     if \<not> si_inviteTx c1 then None
     else Some (c1\<lparr>si_ringing := True, si_ringer := True\<rparr>, sent))"

text \<open>The ringing goroutine: a tick repeats the 180, a CANCEL closes \<open>cancelled\<close>
  (closing it twice would panic).\<close>

definition ring_tick :: "bool \<Rightarrow> int \<Rightarrow> sipInbound \<Rightarrow> sipInbound" where
  "ring_tick ok now c = (if \<not> si_ringer c then c else fst (respond ok now 180 ''Ringing'' c))"

definition ring_cancel :: "int \<Rightarrow> sipInbound \<Rightarrow> sipInbound option" where
  "ring_cancel now c = (if \<not> si_ringer c then Some c
     else if si_cancelled c then None
     else Some (emit ((new_event EventCancelReceived (Some now))\<lparr>evSIPMethod := ''CANCEL'', evCSeq := si_inviteCSeq c\<rparr>)
       (send WCancelOk (c\<lparr>si_cancelled := True, si_ringer := False\<rparr>))))"

definition accepted :: "sipInbound \<Rightarrow> sipInbound" where
  "accepted c = c\<lparr>si_inviteOk := True, si_inviteTx := False\<rparr>"

text \<open>Intervals in milliseconds.\<close>

definition inviteOkRetryInterval :: int where "inviteOkRetryInterval = 250"
definition inviteOkRetryIntervalMax :: int where "inviteOkRetryIntervalMax = 3000"
definition inviteOKRetryAttempts :: nat where "inviteOKRetryAttempts = 5"
definition inviteOKRetryAttemptsNoACK :: nat where "inviteOKRetryAttemptsNoACK = 2"

lemmas retry_defs = inviteOkRetryInterval_def inviteOkRetryIntervalMax_def
  inviteOKRetryAttempts_def inviteOKRetryAttemptsNoACK_def

definition errNoACK :: go_error where
  "errNoACK = ESentinel (ErrSentinel ''no ACK received for 200 OK'')"

datatype acc_wait = AccAck | AccAcked | AccTimer

text \<open>One round of the loop: the error of the transmission, if any, and what ends the
  wait after it.\<close>

record acc_round =
  ar_err :: "go_error option"
  ar_wait :: acc_wait

text \<open>A transmission that succeeded; the first one marks when the call was answered.\<close>

definition accept_send :: "int \<Rightarrow> string \<Rightarrow> nat \<Rightarrow> sipInbound \<Rightarrow> sipInbound" where
  "accept_send now sdp attempt c = (let
     c1 = (if attempt = 1 then c\<lparr>si_okSending := True\<rparr> else c);
     c2 = send (WResp 200 (sipStatus 200) sdp) c1;
     c3 = (if attempt = 1 then c2\<lparr>si_okAt := Some now\<rparr> else c2)
   in setLastStatus 200 (sipStatus 200) c3)"

text \<open>The loop; \<open>rounds try\<close> is what happens in round \<open>try\<close>.  Returns the state, the
  error and the time spent on expired timers.\<close>

function accept_loop ::
  "nat \<Rightarrow> bool \<Rightarrow> bool \<Rightarrow> int \<Rightarrow> string \<Rightarrow> (nat \<Rightarrow> acc_round) \<Rightarrow> nat \<Rightarrow> int \<Rightarrow> int \<Rightarrow> sipInbound \<Rightarrow>
   sipInbound \<times> go_error option \<times> int" where
  "accept_loop maxRetries waitForAck udp now sdp rounds try retryAfter spent c =
     (case ar_err (rounds try) of
       Some e \<Rightarrow> ((if try = 1 then c\<lparr>si_okSending := False\<rparr> else c), Some e, spent)
     | None \<Rightarrow> (let c4 = accept_send now sdp try c
       in if \<not> waitForAck \<and> \<not> udp then (accepted c4, None, spent)
          else if ar_wait (rounds try) \<noteq> AccTimer then (accepted c4, None, spent)
          else if try > maxRetries then
            (accepted c4, (if waitForAck then Some errNoACK else None), spent + retryAfter)
          else accept_loop maxRetries waitForAck udp now sdp rounds (Suc try)
                 (min (retryAfter * 2) inviteOkRetryIntervalMax) (spent + retryAfter) c4))"
  by pat_completeness auto

termination
  by (relation "measure (\<lambda>(m, w, u, n, sdp, r, try, ra, sp, c). Suc m - try)") auto

declare accept_loop.simps [simp del]

definition accept_retries :: "bool \<Rightarrow> bool \<Rightarrow> nat" where
  "accept_retries waitForAck udp = (if \<not> udp then 1
     else if \<not> waitForAck then inviteOKRetryAttemptsNoACK else inviteOKRetryAttempts)"

definition accept_interval :: "bool \<Rightarrow> int" where
  "accept_interval udp = (if udp then inviteOkRetryInterval else inviteOkRetryIntervalMax)"

definition Accept ::
  "int \<Rightarrow> string \<Rightarrow> bool \<Rightarrow> (nat \<Rightarrow> acc_round) \<Rightarrow> sipInbound \<Rightarrow> sipInbound \<times> go_error option \<times> int" where
  "Accept now sdpData waitForAck rounds c = (if \<not> si_inviteTx c then (c, Some (ENew ''call already rejected''), 0)
     else let udp = (si_legTr c = TransportUDP) in
       accept_loop (accept_retries waitForAck udp) waitForAck udp now sdpData rounds 1 (accept_interval udp) 0
         (stopRinging (c\<lparr>si_lastSDP := Some sdpData\<rparr>)))"

text \<open>An ACK: its CSeq, if it has one, and its body.\<close>

definition AcceptAck :: "32 word option \<Rightarrow> string \<Rightarrow> int \<Rightarrow> sipInbound \<Rightarrow> sipInbound" where
  "AcceptAck cseq body now c = (if cseq \<noteq> Some (si_inviteCSeq c) then c
     else let
       c1 = c\<lparr>si_ack := (case si_ack c of None \<Rightarrow> Some body | Some b \<Rightarrow> Some b), si_acked := True\<rparr>
     in if si_okSending c1 \<and> \<not> si_ackReported c1 then
          emit ((new_event EventAckReceived (Some now))\<lparr>evSIPMethod := ''ACK'', evCSeq := si_inviteCSeq c\<rparr>)
            (c1\<lparr>si_ackReported := True\<rparr>)
        else c1)"

definition AcceptBye :: "sipInbound \<Rightarrow> sipInbound" where
  "AcceptBye c = drop_dialog (send WByeOk c)"

text \<open>Where an in-dialog request goes: \<open>okDest\<close> the destination of the 200 OK, \<open>contact\<close>
  the Contact of the INVITE, \<open>connOpen\<close> whether a connection to \<open>okDest\<close> is open,
  \<open>route\<close> the Record-Route of the INVITE.\<close>

record bye_env =
  be_okDest :: string
  be_contact :: "string option"
  be_connOpen :: bool
  be_route :: "string option"

definition inviteConnOpen :: "bye_env \<Rightarrow> sipInbound \<Rightarrow> bool" where
  "inviteConnOpen e c \<longleftrightarrow> si_legTr c \<noteq> TransportUDP \<and> be_connOpen e"

definition swapSrcDst :: "bye_env \<Rightarrow> sipInbound \<Rightarrow> string \<times> string" where
  "swapSrcDst e c = (case be_route e of
     Some rd \<Rightarrow> (rd, '''')
   | None \<Rightarrow> (case be_contact e of
       Some cd \<Rightarrow> if inviteConnOpen e c then (be_okDest e, cd) else (cd, '''')
     | None \<Rightarrow> (be_okDest e, '''')))"

text \<open>\<open>res1\<close> is the outcome of the BYE; \<open>res2\<close> that of the retry via Contact, \<^const>\<open>None\<close>
  when the grace period passes first.\<close>

definition sendBye_in ::
  "bye_env \<Rightarrow> (go_error, sip_response) result \<Rightarrow> (go_error, sip_response) result option \<Rightarrow> int \<Rightarrow>
   sipInbound \<Rightarrow> sipInbound" where
  "sendBye_in e res1 res2 now c = (if \<not> si_inviteOk c \<or> \<not> si_invite c then c
     else let
       cseq = si_nextRequestCSeq c;
       (dest, fallback) = swapSrcDst e c;
       c1 = send (WBye False cseq dest) (drop_dialog (c\<lparr>si_nextRequestCSeq := cseq + 1\<rparr>));
       retry = (\<not> byeSucceeded res1 \<and> fallback \<noteq> '''');
       c2 = (if retry then send (WBye True (cseq + 1) fallback) c1 else c1);
       (res, evseq) = (if retry then (case res2 of Some r \<Rightarrow> (r, cseq + 1) | None \<Rightarrow> (res1, cseq)) else (res1, cseq));
       ev = (new_event EventByeSent (Some now))\<lparr>evSIPMethod := ''BYE'', evCSeq := evseq,
              evResult := byeOutcome res,
              evStatusCode := (case res of Inr r \<Rightarrow> StatusCode r | Inl _ \<Rightarrow> 0)\<rparr>
     in emit ev c2)"

definition sendStatus :: "bool \<Rightarrow> int \<Rightarrow> ResultSt \<Rightarrow> sipInbound \<Rightarrow> sipInbound" where
  "sendStatus ok now result c = (if si_inviteOk c \<or> \<not> si_inviteTx c then c
     else (case NewResponse result of (code, reason, body) \<Rightarrow>
       drop_dialog (if ok then emitRejected code reason now (setLastStatus code reason (send (WResp code reason body) c))
                    else c)))"

record close_env =
  ce_bye :: bye_env
  ce_res1 :: "(go_error, sip_response) result"
  ce_res2 :: "(go_error, sip_response) result option"
  ce_ok :: bool
  ce_now :: int

definition CloseWithStatus :: "close_env \<Rightarrow> ResultSt \<Rightarrow> sipInbound \<Rightarrow> sipInbound" where
  "CloseWithStatus e result c = (if si_inviteOk c then sendBye_in (ce_bye e) (ce_res1 e) (ce_res2 e) (ce_now e) c
     else if si_inviteTx c then sendStatus (ce_ok e) (ce_now e) result c
     else drop_dialog c)"

definition Close_in :: "close_env \<Rightarrow> sipInbound \<Rightarrow> sipInbound" where
  "Close_in e c = CloseWithStatus e \<lparr>RCode = 486, RStatus = ''Rejected''\<rparr> c"

definition newReferReq :: "string \<Rightarrow> sipInbound \<Rightarrow> sipInbound \<times> (go_error, 32 word) result" where
  "newReferReq transferTo c = (if \<not> si_invite c \<or> \<not> si_inviteOk c
     then (c, Err (EPsrpc FailedPrecondition (ENew ''can't transfer non established call'')))
     else let cseq = si_nextRequestCSeq c in
       (c\<lparr>si_nextRequestCSeq := cseq + 1, si_referCseq := cseq\<rparr>, Ok cseq))"

text \<open>The REFER goes out once the request was built; \<open>TransferCall\<close> then waits for its
  outcome (theory Refer).\<close>

definition TransferCall_send :: "string \<Rightarrow> sipInbound \<Rightarrow> sipInbound" where
  "TransferCall_send transferTo c = (case newReferReq transferTo c of
     (c1, Inr cseq) \<Rightarrow> send (WRefer cseq transferTo) c1 | (c1, Inl _) \<Rightarrow> c1)"

text \<open>A re-INVITE whose SDP could not be applied.\<close>

fun is_sdp_error :: "go_error \<Rightarrow> bool" where
  "is_sdp_error (ESDP e) = True"
| "is_sdp_error _ = False"

definition RejectReinvite :: "bool \<Rightarrow> int \<Rightarrow> go_error \<Rightarrow> sipInbound \<Rightarrow> sipInbound" where
  "RejectReinvite ok now err c = (if \<not> list_ex is_sdp_error (chain err)
     then fst (respond ok now 500 ''Internal Server Error'' c)
     else fst (respond ok now 488
       (if errors_Is err ErrNoCommonMedia then ''No Acceptable Codec''
        else if errors_Is err ErrNoCommonCrypto then ''No Acceptable Encryption Profile''
        else ''Invalid SDP'') c))"

section \<open>A dialog under any sequence of operations\<close>

datatype idlg_op =
    DProcessing bool int | DStartRinging bool int | DTick bool int | DCancel int
  | DAccept int string bool "nat \<Rightarrow> acc_round" | DAck "32 word option" string int | DBye
  | DReject bool int int string | DClose close_env ResultSt | DDrop | DRefer string

fun idlg_step :: "idlg_op \<Rightarrow> sipInbound \<Rightarrow> sipInbound option" where
  "idlg_step (DProcessing ok now) c = Some (fst (Processing ok now c))"
| "idlg_step (DStartRinging ok now) c = map_option fst (StartRinging ok now c)"
| "idlg_step (DTick ok now) c = Some (ring_tick ok now c)"
| "idlg_step (DCancel now) c = ring_cancel now c"
| "idlg_step (DAccept now sdp w rounds) c = Some (fst (Accept now sdp w rounds c))"
| "idlg_step (DAck cseq body now) c = Some (AcceptAck cseq body now c)"
| "idlg_step DBye c = Some (AcceptBye c)"
| "idlg_step (DReject ok now status reason) c = Some (fst (RespondAndDrop ok now status reason c))"
| "idlg_step (DClose e r) c = Some (CloseWithStatus e r c)"
| "idlg_step DDrop c = Some (drop_dialog c)"
| "idlg_step (DRefer to) c = Some (TransferCall_send to c)"

text \<open>What was sent: the status codes of responses to the INVITE and the number of BYE
  requests, their retry via Contact aside.\<close>

fun resp_code :: "wire \<Rightarrow> int list" where
  "resp_code (WResp c r b) = [c]"
| "resp_code _ = []"

definition resp_codes :: "wire list \<Rightarrow> int list" where
  "resp_codes ws = concat (map resp_code ws)"

fun is_bye :: "wire \<Rightarrow> bool" where
  "is_bye (WBye retry n d) \<longleftrightarrow> \<not> retry"
| "is_bye _ \<longleftrightarrow> False"

definition bye_count :: "wire list \<Rightarrow> nat" where
  "bye_count ws = length (filter is_bye ws)"

lemma resp_codes_simps [simp]:
  "resp_codes [] = []" "resp_codes (w # ws) = resp_code w @ resp_codes ws"
  "resp_codes (xs @ ys) = resp_codes xs @ resp_codes ys"
  by (simp_all add: resp_codes_def)

lemma bye_count_simps [simp]:
  "bye_count [] = 0" "bye_count (w # ws) = (if is_bye w then 1 else 0) + bye_count ws"
  "bye_count (xs @ ys) = bye_count xs + bye_count ys"
  by (simp_all add: bye_count_def)

definition closed_in :: "sipInbound \<Rightarrow> bool" where
  "closed_in c \<longleftrightarrow> \<not> si_invite c"

definition idlg_inv :: "sipInbound \<Rightarrow> bool" where
  "idlg_inv c \<longleftrightarrow>
     (si_inviteTx c \<longrightarrow> si_invite c) \<and>
     (si_inviteOk c \<longrightarrow> si_invite c \<and> \<not> si_inviteTx c \<and> 200 \<in> set (resp_codes (si_wire c))) \<and>
     (si_ringing c \<longrightarrow> si_inviteTx c) \<and> (si_ringer c \<longrightarrow> si_ringing c) \<and>
     (closed_in c \<longrightarrow> si_nextRequestCSeq c = 0) \<and>
     bye_count (si_wire c) \<le> 1 \<and>
     (bye_count (si_wire c) = 1 \<longrightarrow> closed_in c \<and> 200 \<in> set (resp_codes (si_wire c)))"

text \<open>The part of the state that sending a response leaves alone.\<close>

definition same_dialog :: "sipInbound \<Rightarrow> sipInbound \<Rightarrow> bool" where
  "same_dialog c d \<longleftrightarrow> si_invite d = si_invite c \<and> si_inviteTx d = si_inviteTx c \<and>
     si_inviteOk d = si_inviteOk c \<and> si_nextRequestCSeq d = si_nextRequestCSeq c \<and>
     si_ringing d = si_ringing c \<and> si_ringer d = si_ringer c \<and>
     bye_count (si_wire d) = bye_count (si_wire c) \<and>
     set (resp_codes (si_wire c)) \<subseteq> set (resp_codes (si_wire d))"

lemma same_dialog_inv: "idlg_inv c \<Longrightarrow> same_dialog c d \<Longrightarrow> idlg_inv d"
  by (auto simp: idlg_inv_def same_dialog_def closed_in_def)

lemma same_dialog_refl: "same_dialog c c"
  by (simp add: same_dialog_def)

lemma same_dialog_trans: "same_dialog a b \<Longrightarrow> same_dialog b c \<Longrightarrow> same_dialog a c"
  by (auto simp: same_dialog_def)

lemma emit_fields [simp]:
  "si_invite (emit ev c) = si_invite c" "si_inviteTx (emit ev c) = si_inviteTx c"
  "si_inviteOk (emit ev c) = si_inviteOk c" "si_nextRequestCSeq (emit ev c) = si_nextRequestCSeq c"
  "si_ringing (emit ev c) = si_ringing c" "si_ringer (emit ev c) = si_ringer c"
  "si_wire (emit ev c) = si_wire c" "si_lastCallStatus (emit ev c) = si_lastCallStatus c"
  "si_legTr (emit ev c) = si_legTr c" "si_okSending (emit ev c) = si_okSending c"
  by (simp_all add: emit_def)

lemma send_fields [simp]:
  "si_invite (send w c) = si_invite c" "si_inviteTx (send w c) = si_inviteTx c"
  "si_inviteOk (send w c) = si_inviteOk c" "si_nextRequestCSeq (send w c) = si_nextRequestCSeq c"
  "si_ringing (send w c) = si_ringing c" "si_ringer (send w c) = si_ringer c"
  "si_wire (send w c) = si_wire c @ [w]" "si_lastCallStatus (send w c) = si_lastCallStatus c"
  "si_legTr (send w c) = si_legTr c" "si_okSending (send w c) = si_okSending c"
  by (simp_all add: send_def)

lemma setLastStatus_fields [simp]:
  "si_invite (setLastStatus n r c) = si_invite c" "si_inviteTx (setLastStatus n r c) = si_inviteTx c"
  "si_inviteOk (setLastStatus n r c) = si_inviteOk c"
  "si_nextRequestCSeq (setLastStatus n r c) = si_nextRequestCSeq c"
  "si_ringing (setLastStatus n r c) = si_ringing c" "si_ringer (setLastStatus n r c) = si_ringer c"
  "si_wire (setLastStatus n r c) = si_wire c" "si_legTr (setLastStatus n r c) = si_legTr c"
  "si_okSending (setLastStatus n r c) = si_okSending c"
  by (simp_all add: setLastStatus_def split: option.splits)

lemma emitRejected_fields [simp]:
  "si_invite (emitRejected n r t c) = si_invite c" "si_inviteTx (emitRejected n r t c) = si_inviteTx c"
  "si_inviteOk (emitRejected n r t c) = si_inviteOk c"
  "si_nextRequestCSeq (emitRejected n r t c) = si_nextRequestCSeq c"
  "si_ringing (emitRejected n r t c) = si_ringing c" "si_ringer (emitRejected n r t c) = si_ringer c"
  "si_wire (emitRejected n r t c) = si_wire c"
  "si_lastCallStatus (emitRejected n r t c) = si_lastCallStatus c"
  by (simp_all add: emitRejected_def)

lemma drop_fields [simp]:
  "\<not> si_invite (drop_dialog c)" "\<not> si_inviteTx (drop_dialog c)" "\<not> si_inviteOk (drop_dialog c)"
  "si_nextRequestCSeq (drop_dialog c) = 0" "\<not> si_ringing (drop_dialog c)" "\<not> si_ringer (drop_dialog c)"
  "si_wire (drop_dialog c) = si_wire c" "si_lastCallStatus (drop_dialog c) = si_lastCallStatus c"
  by (simp_all add: drop_dialog_def stopRinging_def)

lemma stopRinging_fields [simp]:
  "si_invite (stopRinging c) = si_invite c" "si_inviteTx (stopRinging c) = si_inviteTx c"
  "si_inviteOk (stopRinging c) = si_inviteOk c"
  "si_nextRequestCSeq (stopRinging c) = si_nextRequestCSeq c"
  "\<not> si_ringing (stopRinging c)" "\<not> si_ringer (stopRinging c)" "si_wire (stopRinging c) = si_wire c"
  "si_lastCallStatus (stopRinging c) = si_lastCallStatus c" "si_legTr (stopRinging c) = si_legTr c"
  by (simp_all add: stopRinging_def)

lemma respondWithData_same: "same_dialog c (fst (respondWithData ok now st r b c))"
  by (auto simp: respondWithData_def Let_def same_dialog_def)

lemma respond_same: "same_dialog c (fst (respond ok now st r c))"
  by (simp add: respond_def respondWithData_same)

lemma drop_inv:
  "idlg_inv c \<Longrightarrow> idlg_inv (drop_dialog c)"
  by (auto simp: idlg_inv_def closed_in_def)

lemma idlg_inv_bye_bound:
  "idlg_inv c \<Longrightarrow> \<not> closed_in c \<Longrightarrow> bye_count (si_wire c) = 0"
  by (auto simp: idlg_inv_def)

lemma same_dialog_upd [simp]:
  "same_dialog c (d\<lparr>si_tryingAt := x\<rparr>) = same_dialog c d"
  "same_dialog c (d\<lparr>si_ack := y, si_acked := z\<rparr>) = same_dialog c d"
  "same_dialog c (d\<lparr>si_ackReported := z\<rparr>) = same_dialog c d"
  "same_dialog c (emit ev d) = same_dialog c d"
  by (simp_all add: same_dialog_def)

lemma Processing_same: "same_dialog c (fst (Processing ok now c))"
  using respond_same [of c ok now 100 "''Processing''"]
  by (cases "respond ok now 100 ''Processing'' c") (simp add: Processing_def same_dialog_refl)

lemma StartRinging_inv:
  assumes "idlg_inv c" "StartRinging ok now c = Some (d, b)"
  shows "idlg_inv d"
proof -
  obtain c1 s where r: "respond ok now 180 ''Ringing'' c = (c1, s)" by (cases "respond ok now 180 ''Ringing'' c")
  then have d: "d = c1\<lparr>si_ringing := True, si_ringer := True\<rparr>" "si_inviteTx c1"
    using assms(2) by (auto simp: StartRinging_def split: if_splits)
  have "idlg_inv c1" using same_dialog_inv [OF assms(1) respond_same [of c ok now 180 "''Ringing''"]] r by simp
  then show ?thesis using d by (auto simp: idlg_inv_def closed_in_def)
qed

lemma RespondAndDrop_inv: "idlg_inv c \<Longrightarrow> idlg_inv (fst (RespondAndDrop ok now st r c))"
proof -
  assume "idlg_inv c"
  then have "idlg_inv (stopRinging c)" by (auto simp: idlg_inv_def closed_in_def)
  then have "idlg_inv (fst (respond ok now st r (stopRinging c)))"
    using respond_same same_dialog_inv by blast
  then show ?thesis by (simp add: RespondAndDrop_def Let_def drop_inv)
qed

lemma accept_send_fields [simp]:
  "si_invite (accept_send now sdp k c) = si_invite c" "si_inviteTx (accept_send now sdp k c) = si_inviteTx c"
  "si_inviteOk (accept_send now sdp k c) = si_inviteOk c"
  "si_nextRequestCSeq (accept_send now sdp k c) = si_nextRequestCSeq c"
  "si_ringing (accept_send now sdp k c) = si_ringing c" "si_ringer (accept_send now sdp k c) = si_ringer c"
  "si_wire (accept_send now sdp k c) = si_wire c @ [WResp 200 (sipStatus 200) sdp]"
  by (simp_all add: accept_send_def Let_def)

lemma accept_loop_again:
  assumes "ar_err (rounds k) = None" "w \<or> u" "ar_wait (rounds k) = AccTimer" "k \<le> m"
  shows "accept_loop m w u now sdp rounds k ra sp c =
    accept_loop m w u now sdp rounds (Suc k) (min (ra * 2) inviteOkRetryIntervalMax) (sp + ra) (accept_send now sdp k c)"
  using assms by (subst accept_loop.simps) auto

lemma accept_loop_stop:
  assumes "ar_err (rounds k) = None" "\<not> (w \<or> u) \<or> ar_wait (rounds k) \<noteq> AccTimer \<or> m < k"
  shows "fst (accept_loop m w u now sdp rounds k ra sp c) = accepted (accept_send now sdp k c)"
  using assms by (subst accept_loop.simps) (auto simp: Let_def)

lemma accept_loop_fail:
  assumes "ar_err (rounds k) = Some e"
  shows "accept_loop m w u now sdp rounds k ra sp c = ((if k = 1 then c\<lparr>si_okSending := False\<rparr> else c), Some e, sp)"
  using assms by (subst accept_loop.simps) auto

lemma accept_loop_pres:
  assumes "P c"
    and "\<And>c k. P c \<Longrightarrow> P (accept_send now sdp k c)"
    and "\<And>c. P c \<Longrightarrow> P (accepted c)" "\<And>c. P c \<Longrightarrow> P (c\<lparr>si_okSending := False\<rparr>)"
  shows "P (fst (accept_loop m w u now sdp rounds k ra sp c))"
  using assms(1)
proof (induction "Suc m - k" arbitrary: k ra sp c rule: less_induct)
  case less
  show ?case
  proof (cases "ar_err (rounds k) = None \<and> (w \<or> u) \<and> ar_wait (rounds k) = AccTimer \<and> k \<le> m")
    case True
    then have "k \<le> m" by blast
    then have "Suc m - Suc k < Suc m - k" by simp
    from less.hyps [OF this assms(2) [OF less.prems]] True show ?thesis by (simp add: accept_loop_again)
  next
    case False
    then show ?thesis using less.prems assms(2-4)
      by (cases "ar_err (rounds k)") (auto simp: accept_loop_stop accept_loop_fail)
  qed
qed

text \<open>The accept loop: \<open>k\<close> times a 200 is sent and nothing else; then either a
  transmission failed and the INVITE transaction is still open, or the call is
  accepted.\<close>

definition accept_effect :: "sipInbound \<Rightarrow> nat \<Rightarrow> sipInbound \<Rightarrow> bool" where
  "accept_effect c k d \<longleftrightarrow>
     (\<exists>ws. si_wire d = si_wire c @ ws \<and> resp_codes ws = replicate k 200 \<and> bye_count ws = 0) \<and>
     si_invite d = si_invite c \<and> si_ringing d = si_ringing c \<and> si_ringer d = si_ringer c \<and>
     si_nextRequestCSeq d = si_nextRequestCSeq c"

lemma accept_effect_send:
  "accept_effect (accept_send now sdp j c) k d \<Longrightarrow> accept_effect c (Suc k) d"
proof -
  assume a: "accept_effect (accept_send now sdp j c) k d"
  then obtain ws where ws: "si_wire d = si_wire c @ WResp 200 (sipStatus 200) sdp # ws"
      "resp_codes ws = replicate k 200" "bye_count ws = 0"
    by (auto simp: accept_effect_def)
  have "resp_codes (WResp 200 (sipStatus 200) sdp # ws) = replicate (Suc k) 200"
    "bye_count (WResp 200 (sipStatus 200) sdp # ws) = 0"
    using ws by (simp_all add: resp_codes_def bye_count_def)
  with a ws(1) show ?thesis unfolding accept_effect_def
    by (intro conjI exI [of _ "WResp 200 (sipStatus 200) sdp # ws"]) simp_all
qed

lemma accept_effect_refl: "accept_effect c 0 c" "accept_effect c 0 (c\<lparr>si_okSending := b\<rparr>)"
  by (auto simp: accept_effect_def)

lemma accept_effect_accepted: "accept_effect c 0 (accepted c)"
  by (auto simp: accept_effect_def accepted_def)

lemma accept_loop_effect:
  assumes "accept_loop m w u now sdp rounds k ra sp c = (d, err, t)"
  shows "\<exists>n. accept_effect c n d \<and> n \<le> Suc m - k + 1 \<and>
    ((\<exists>j\<ge>k. err = ar_err (rounds j) \<and> err \<noteq> None \<and> n = j - k) \<and> si_inviteTx d = si_inviteTx c \<and> si_inviteOk d = si_inviteOk c \<or>
     0 < n \<and> si_inviteOk d \<and> \<not> si_inviteTx d)"
  using assms
proof (induction "Suc m - k" arbitrary: k ra sp c rule: less_induct)
  case less
  let ?r = "rounds k"
  consider (fail) e where "ar_err ?r = Some e"
    | (stop) "ar_err ?r = None" "\<not> (w \<or> u) \<or> ar_wait ?r \<noteq> AccTimer \<or> m < k"
    | (again) "ar_err ?r = None" "w \<or> u" "ar_wait ?r = AccTimer" "k \<le> m"
    by (cases "ar_err ?r") (auto, metis not_le)
  then show ?case
  proof cases
    case fail
    then have "d = (if k = 1 then c\<lparr>si_okSending := False\<rparr> else c)" "err = ar_err ?r"
      using less.prems by (auto simp: accept_loop_fail)
    then show ?thesis using fail by (intro exI [of _ 0]) (auto simp: accept_effect_refl intro: exI [of _ k])
  next
    case stop
    then have "d = accepted (accept_send now sdp k c)"
      using accept_loop_stop [of rounds k w u m now sdp ra sp c] less.prems by simp
    moreover have "accept_effect c (Suc 0) (accepted (accept_send now sdp k c))"
      by (rule accept_effect_send [OF accept_effect_accepted])
    ultimately show ?thesis by (intro exI [of _ "Suc 0"]) (auto simp: accepted_def)
  next
    case again
    let ?c = "accept_send now sdp k c"
    have eq: "accept_loop m w u now sdp rounds (Suc k) (min (ra * 2) inviteOkRetryIntervalMax) (sp + ra) ?c = (d, err, t)"
      using less.prems accept_loop_again [of rounds k w u m] again by simp
    obtain n where n: "accept_effect ?c n d" "n \<le> Suc m - Suc k + 1"
      "(\<exists>j\<ge>Suc k. err = ar_err (rounds j) \<and> err \<noteq> None \<and> n = j - Suc k) \<and> si_inviteTx d = si_inviteTx ?c \<and> si_inviteOk d = si_inviteOk ?c \<or>
       0 < n \<and> si_inviteOk d \<and> \<not> si_inviteTx d"
    proof -
      have "Suc m - Suc k < Suc m - k" using again(4) by simp
      from less.hyps [OF this eq] show ?thesis using that by blast
    qed
    have "\<exists>j\<ge>k. err = ar_err (rounds j) \<and> err \<noteq> None \<and> Suc n = j - k"
      if "\<exists>j\<ge>Suc k. err = ar_err (rounds j) \<and> err \<noteq> None \<and> n = j - Suc k"
    proof -
      from that obtain j where "j \<ge> Suc k" "err = ar_err (rounds j)" "err \<noteq> None" "n = j - Suc k" by blast
      then show ?thesis by (intro exI [of _ j]) simp
    qed
    then show ?thesis using n accept_effect_send [OF n(1)] again(4) by (intro exI [of _ "Suc n"]) auto
  qed
qed

lemma Accept_inv:
  assumes "idlg_inv c"
  shows "idlg_inv (fst (Accept now sdp w rounds c))"
proof (cases "si_inviteTx c")
  case True
  define c0 where "c0 = stopRinging (c\<lparr>si_lastSDP := Some sdp\<rparr>)"
  have c0: "idlg_inv c0" "si_inviteTx c0" "\<not> si_inviteOk c0" "si_invite c0" "bye_count (si_wire c0) = 0"
    "\<not> si_ringing c0" "\<not> si_ringer c0"
    using assms True by (auto simp: c0_def idlg_inv_def closed_in_def)
  obtain d err t where eq: "accept_loop (accept_retries w (si_legTr c = TransportUDP)) w (si_legTr c = TransportUDP)
      now sdp rounds 1 (accept_interval (si_legTr c = TransportUDP)) 0 c0 = (d, err, t)"
    by (metis surj_pair)
  from accept_loop_effect [OF this] obtain n where n: "accept_effect c0 n d"
    "si_inviteTx d = si_inviteTx c0 \<and> si_inviteOk d = si_inviteOk c0 \<or> 0 < n \<and> si_inviteOk d \<and> \<not> si_inviteTx d"
    by blast
  have "fst (Accept now sdp w rounds c) = d" using True eq by (simp add: Accept_def Let_def c0_def)
  then show ?thesis using n c0 by (auto simp: idlg_inv_def closed_in_def accept_effect_def)
next
  case False
  then show ?thesis using assms by (simp add: Accept_def)
qed
lemma sendBye_in_cases:
  assumes "si_inviteOk c" "si_invite c"
  shows "\<exists>ws. si_wire (sendBye_in e r1 r2 now c) = si_wire c @ ws \<and> bye_count ws = 1 \<and> resp_codes ws = [] \<and>
    closed_in (sendBye_in e r1 r2 now c) \<and> \<not> si_inviteTx (sendBye_in e r1 r2 now c) \<and>
    \<not> si_inviteOk (sendBye_in e r1 r2 now c) \<and> \<not> si_ringing (sendBye_in e r1 r2 now c) \<and>
    \<not> si_ringer (sendBye_in e r1 r2 now c) \<and> si_nextRequestCSeq (sendBye_in e r1 r2 now c) = 0"
proof (cases "\<not> byeSucceeded r1 \<and> snd (swapSrcDst e c) \<noteq> ''''")
  case True
  then show ?thesis using assms
    by (intro exI [of _ "[WBye False (si_nextRequestCSeq c) (fst (swapSrcDst e c)),
          WBye True (si_nextRequestCSeq c + 1) (snd (swapSrcDst e c))]"])
       (simp add: sendBye_in_def Let_def closed_in_def bye_count_def resp_codes_def split_beta)
next
  case False
  then show ?thesis using assms
    by (intro exI [of _ "[WBye False (si_nextRequestCSeq c) (fst (swapSrcDst e c))]"])
       (auto simp: sendBye_in_def Let_def closed_in_def bye_count_def resp_codes_def split_beta)
qed

lemma sendBye_in_inv: "idlg_inv c \<Longrightarrow> idlg_inv (sendBye_in e r1 r2 now c)"
proof (cases "si_inviteOk c \<and> si_invite c")
  case True
  assume inv: "idlg_inv c"
  then have "bye_count (si_wire c) = 0" using True by (auto simp: idlg_inv_def closed_in_def)
  with inv True sendBye_in_cases [of c e r1 r2 now] show ?thesis
    by (auto simp: idlg_inv_def)
next
  case False
  assume "idlg_inv c"
  then show ?thesis using False by (auto simp: sendBye_in_def)
qed

lemma sendStatus_inv: "idlg_inv c \<Longrightarrow> idlg_inv (sendStatus ok now r c)"
proof -
  assume inv: "idlg_inv c"
  have "same_dialog c (emitRejected st rs now (setLastStatus st rs (send (WResp st rs b) c)))" for st rs b
    by (auto simp: same_dialog_def)
  then show ?thesis using same_dialog_inv [OF inv] inv
    by (auto simp: sendStatus_def split: prod.splits intro!: drop_inv)
qed

lemma CloseWithStatus_inv: "idlg_inv c \<Longrightarrow> idlg_inv (CloseWithStatus e r c)"
  by (simp add: CloseWithStatus_def sendBye_in_inv sendStatus_inv drop_inv)

lemma AcceptAck_same: "same_dialog c (AcceptAck cseq body now c)"
  by (simp add: AcceptAck_def Let_def same_dialog_refl)

lemma AcceptBye_inv: "idlg_inv c \<Longrightarrow> idlg_inv (AcceptBye c)"
  by (auto simp: AcceptBye_def idlg_inv_def closed_in_def)

lemma ring_cancel_inv: "idlg_inv c \<Longrightarrow> ring_cancel now c = Some d \<Longrightarrow> idlg_inv d"
  by (auto simp: ring_cancel_def idlg_inv_def closed_in_def split: if_splits)

lemma ring_tick_same: "same_dialog c (ring_tick ok now c)"
  by (simp add: ring_tick_def same_dialog_refl respond_same)

lemma TransferCall_send_eq:
  "TransferCall_send to c = (if si_invite c \<and> si_inviteOk c then
     send (WRefer (si_nextRequestCSeq c) to)
       (c\<lparr>si_nextRequestCSeq := si_nextRequestCSeq c + 1, si_referCseq := si_nextRequestCSeq c\<rparr>) else c)"
  by (simp add: TransferCall_send_def newReferReq_def Let_def)

lemma TransferCall_send_inv: "idlg_inv c \<Longrightarrow> idlg_inv (TransferCall_send to c)"
proof (cases "si_invite c \<and> si_inviteOk c")
  case True
  assume inv: "idlg_inv c"
  define d where "d = TransferCall_send to c"
  have d: "si_invite d" "si_inviteOk d" "si_inviteTx d = si_inviteTx c" "si_ringing d = si_ringing c"
    "si_ringer d = si_ringer c" "bye_count (si_wire d) = bye_count (si_wire c)"
    "resp_codes (si_wire d) = resp_codes (si_wire c)"
    using True by (simp_all add: d_def TransferCall_send_eq)
  then have "idlg_inv d" using inv True by (auto simp: idlg_inv_def closed_in_def)
  then show ?thesis by (simp only: d_def)
qed (auto simp: TransferCall_send_eq)

lemmas same_inv = same_dialog_inv [OF _ Processing_same] same_dialog_inv [OF _ ring_tick_same]
  same_dialog_inv [OF _ AcceptAck_same]

interpretation inbound_dialog: keeps_inv idlg_step idlg_inv
proof
  fix s s' x
  assume "idlg_inv s" "idlg_step x s = Some s'"
  then show "idlg_inv s'"
    by (cases x) (auto simp: same_inv Accept_inv RespondAndDrop_inv CloseWithStatus_inv drop_inv
        AcceptBye_inv TransferCall_send_inv intro: ring_cancel_inv StartRinging_inv)
qed

lemma newInbound_init:
  "newInbound m cached fresh = Ok c \<Longrightarrow> idlg_inv c \<and> si_wire c = [] \<and> si_inviteTx c \<and> si_lastCallStatus c = None"
  by (auto simp: newInbound_def idlg_inv_def closed_in_def Let_def split: option.splits if_splits)

section \<open>Properties\<close>

text \<open>C14: a BYE is sent at most once for an inbound call, and only for an answered call:
  after any sequence of operations on a dialog created from an INVITE, at most one BYE
  was sent (its retry via Contact aside), a BYE is preceded by a 200 OK, and once it
  was sent the dialog is closed.\<close>

theorem inbound_bye_once_after_ok:
  assumes "newInbound m cached fresh = Ok c" "run idlg_step ops c = Some d"
  shows "bye_count (si_wire d) \<le> 1 \<and>
    (bye_count (si_wire d) = 1 \<longrightarrow> 200 \<in> set (resp_codes (si_wire d)) \<and> closed_in d)"
  using inbound_dialog.run_keeps [OF _ assms(2)] newInbound_init [OF assms(1)]
  by (auto simp: idlg_inv_def)

definition demo_invite :: invite_msg where
  "demo_invite = \<lparr>im_callID = Some ''cid'', im_from = Some (Some [(''tag'', ''ft'')]), im_to = Some None,
     im_cseq = Some 1, im_legTr = TransportUDP, im_tr = TransportUDP\<rparr>"

definition demo_dialog :: sipInbound where
  "demo_dialog = \<lparr>si_id = ''SCL_1'', si_tag = ''ft'', si_sipCallID = ''cid'', si_legTr = TransportUDP,
     si_tr = TransportUDP, si_inviteCSeq = 1, si_invite = True, si_inviteTx = True, si_inviteOk = False,
     si_nextRequestCSeq = 2, si_referCseq = 0, si_ringing = False, si_ringer = False, si_cancelled = False,
     si_acked = False, si_ack = None, si_tryingAt = None, si_okAt = None, si_okSending = False,
     si_ackReported = False, si_lastSDP = None, si_lastCallStatus = None, si_state = None, si_wire = []\<rparr>"

lemma demo_dialog_new: "newInbound demo_invite (\<lambda>_. None) ''SCL_1'' = Ok demo_dialog"
  by (simp add: newInbound_def demo_invite_def demo_dialog_def tag_of_def)

definition demo_close :: close_env where
  "demo_close = \<lparr>ce_bye = \<lparr>be_okDest = ''1.2.3.4:5060'', be_contact = Some ''1.2.3.4:5070'', be_connOpen = False,
       be_route = None\<rparr>, ce_res1 = Err (ENew ''x''), ce_res2 = None, ce_ok = True, ce_now = 9\<rparr>"

definition demo_ack_round :: "nat \<Rightarrow> acc_round" where
  "demo_ack_round k = \<lparr>ar_err = None, ar_wait = AccAck\<rparr>"

lemma demo_accept:
  "fst (Accept 5 ''sdp'' True demo_ack_round demo_dialog) = accepted (accept_send 5 ''sdp'' 1
     (stopRinging (demo_dialog\<lparr>si_lastSDP := Some ''sdp''\<rparr>)))"
proof -
  have "si_inviteTx demo_dialog" by (simp add: demo_dialog_def)
  then show ?thesis
    by (simp add: Accept_def Let_def accept_loop_stop [of demo_ack_round "Suc 0"] demo_ack_round_def)
qed

lemma demo_run:
  "\<exists>d. run idlg_step [DAccept 5 ''sdp'' True demo_ack_round, DClose demo_close \<lparr>RCode = 486, RStatus = ''''\<rparr>] demo_dialog = Some d \<and>
     bye_count (si_wire d) = 1"
proof -
  let ?c = "fst (Accept 5 ''sdp'' True demo_ack_round demo_dialog)"
  have "si_inviteOk ?c" "si_invite ?c" "bye_count (si_wire ?c) = 0"
    unfolding demo_accept by (simp_all add: accepted_def) (simp_all add: demo_dialog_def)
  then show ?thesis
    using sendBye_in_cases [of ?c "ce_bye demo_close" "ce_res1 demo_close" "ce_res2 demo_close" "ce_now demo_close"]
    by (auto simp: CloseWithStatus_def)
qed

theorem inbound_bye_once_after_ok_witness:
  "\<exists>d. run idlg_step [DAccept 5 ''sdp'' True demo_ack_round, DClose demo_close \<lparr>RCode = 486, RStatus = ''''\<rparr>] demo_dialog = Some d \<and>
     200 \<in> set (resp_codes (si_wire d)) \<and> closed_in d"
  using demo_run inbound_bye_once_after_ok [OF demo_dialog_new] by blast

definition quiet_from :: "wire list \<Rightarrow> sipInbound \<Rightarrow> bool" where
  "quiet_from ws c \<longleftrightarrow> closed_in c \<and> (\<exists>vs. si_wire c = ws @ vs \<and> set vs \<subseteq> {WByeOk})"

lemma closed_wf: "idlg_inv c \<Longrightarrow> closed_in c \<Longrightarrow> \<not> si_inviteTx c \<and> \<not> si_inviteOk c \<and> \<not> si_ringing c \<and> \<not> si_ringer c"
  by (auto simp: idlg_inv_def closed_in_def)

lemma respond_closed [simp]: "\<not> si_inviteTx c \<Longrightarrow> respond ok now st r c = (c, False)"
  by (simp add: respond_def respondWithData_def)

lemma quiet_step:
  assumes "idlg_inv c" "quiet_from ws c" "idlg_step x c = Some d"
  shows "quiet_from ws d"
proof -
  have q: "closed_in c" "\<not> si_inviteTx c" "\<not> si_inviteOk c" "\<not> si_ringing c" "\<not> si_ringer c" "\<not> si_invite c"
    using closed_wf assms(1,2) by (auto simp: quiet_from_def closed_in_def)
  have "\<not> si_invite d \<and> (si_wire d = si_wire c \<or> si_wire d = si_wire c @ [WByeOk])"
    using assms(3) q
    by (cases x) (auto simp: Processing_def StartRinging_def ring_tick_def ring_cancel_def Accept_def AcceptAck_def
        AcceptBye_def RespondAndDrop_def CloseWithStatus_def TransferCall_send_eq Let_def split: if_splits)
  then show ?thesis using assms(2) by (auto simp: quiet_from_def closed_in_def)
qed

lemma same_dialog_byes: "same_dialog c d \<Longrightarrow> bye_count (si_wire d) = bye_count (si_wire c)"
  by (simp add: same_dialog_def)

lemma step_bye_count:
  assumes "idlg_inv c" "idlg_step x c = Some d" "\<And>e r. x \<noteq> DClose e r"
  shows "bye_count (si_wire d) = bye_count (si_wire c)"
proof (cases x)
  case (DAccept now sdp w rounds)
  then show ?thesis
  proof (cases "si_inviteTx c")
    case True
    let ?u = "si_legTr c = TransportUDP"
    obtain d' err t where eq: "accept_loop (accept_retries w ?u) w ?u now sdp rounds 1 (accept_interval ?u) 0
        (stopRinging (c\<lparr>si_lastSDP := Some sdp\<rparr>)) = (d', err, t)"
      by (metis surj_pair)
    from accept_loop_effect [OF eq] obtain n where "accept_effect (stopRinging (c\<lparr>si_lastSDP := Some sdp\<rparr>)) n d'" by blast
    then show ?thesis using DAccept assms(2) True eq by (auto simp: Accept_def Let_def accept_effect_def)
  qed (use DAccept assms(2) in \<open>auto simp: Accept_def\<close>)
next
  case (DStartRinging ok now)
  obtain c1 sent where r: "respond ok now 180 ''Ringing'' c = (c1, sent)" by fastforce
  have "bye_count (si_wire c1) = bye_count (si_wire c)"
    using same_dialog_byes [OF respond_same [of c ok now 180 "''Ringing''"]] r by simp
  moreover have "si_wire d = si_wire c1" using DStartRinging assms(2) r by (simp add: StartRinging_def split: if_splits) auto
  ultimately show ?thesis by simp
next
  case (DReject ok now st r)
  then show ?thesis using assms(2) same_dialog_byes [OF respond_same [of "stopRinging c" ok now st r]]
    by (simp add: RespondAndDrop_def Let_def) auto
next
  case (DClose e r)
  then show ?thesis using assms(3) by blast
next
  case (DCancel now)
  then show ?thesis using assms(2) by (auto simp: ring_cancel_def split: if_splits)
next
  case (DProcessing ok now)
  then show ?thesis using assms(2) same_dialog_byes [OF Processing_same] by auto
next
  case (DTick ok now)
  then show ?thesis using assms(2) same_dialog_byes [OF ring_tick_same] by auto
next
  case (DAck cseq body now)
  then show ?thesis using assms(2) same_dialog_byes [OF AcceptAck_same] by auto
qed (use assms(2) in \<open>auto simp: AcceptBye_def TransferCall_send_eq\<close>)

interpretation inbound_hangup: hangup_once idlg_step idlg_inv "\<lambda>c. bye_count (si_wire c)" si_inviteOk
proof
  fix s s' x
  assume inv: "idlg_inv s" and st: "idlg_step x s = Some s'"
  show "bye_count (si_wire s') \<noteq> bye_count (si_wire s) \<Longrightarrow>
      si_inviteOk s \<and> \<not> si_inviteOk s' \<and> bye_count (si_wire s') = Suc (bye_count (si_wire s))"
  proof -
    assume ne: "bye_count (si_wire s') \<noteq> bye_count (si_wire s)"
    then obtain e r where x: "x = DClose e r" using step_bye_count [OF inv st] by blast
    then have s': "s' = CloseWithStatus e r s" using st by simp
    have ok: "si_inviteOk s"
    proof (rule ccontr)
      assume "\<not> si_inviteOk s"
      then show False using ne s' by (auto simp: CloseWithStatus_def sendStatus_def split: prod.splits if_splits)
    qed
    then have "si_invite s" using inv by (auto simp: idlg_inv_def)
    with ok show ?thesis using s' sendBye_in_cases [of s "ce_bye e" "ce_res1 e" "ce_res2 e" "ce_now e"]
      by (auto simp: CloseWithStatus_def)
  qed
  show "0 < bye_count (si_wire s) \<Longrightarrow> \<not> si_inviteOk s \<Longrightarrow> \<not> si_inviteOk s'"
  proof -
    assume "0 < bye_count (si_wire s)"
    then have "bye_count (si_wire s) = 1" using inv by (simp add: idlg_inv_def)
    then have "quiet_from (si_wire s) s" using inv by (auto simp: idlg_inv_def quiet_from_def)
    from quiet_step [OF inv this st] have "closed_in s'" by (simp add: quiet_from_def)
    then show ?thesis using inbound_dialog.step_keeps [OF inv st] by (auto simp: idlg_inv_def closed_in_def)
  qed
qed

text \<open>A closed dialog stays silent: once the INVITE is gone (rejected, hung up or
  dropped), no sequence of operations sends another response to the INVITE, a BYE or a
  REFER, and the dialog never becomes open again.\<close>

theorem closed_inbound_dialog_silent:
  assumes "newInbound m cached fresh = Ok c" "run idlg_step ops c = Some d" "closed_in d"
    and "run idlg_step ops' d = Some d'"
  shows "closed_in d' \<and> (\<exists>vs. si_wire d' = si_wire d @ vs \<and> set vs \<subseteq> {WByeOk})"
proof -
  have inv: "idlg_inv d" using inbound_dialog.run_keeps [OF _ assms(2)] newInbound_init [OF assms(1)] by auto
  have "quiet_from (si_wire d) d" using assms(3) by (auto simp: quiet_from_def)
  from inbound_dialog.run_stable [where P = "quiet_from (si_wire d)", OF quiet_step inv this assms(4)]
  show ?thesis by (simp add: quiet_from_def)
qed

theorem closed_inbound_dialog_silent_witness:
  "\<exists>d'. run idlg_step [DBye, DProcessing True 7] (fst (RespondAndDrop True 5 404 '''' demo_dialog)) = Some d' \<and> closed_in d'"
proof -
  let ?d = "fst (RespondAndDrop True 5 404 '''' demo_dialog)"
  have "run idlg_step [DReject True 5 404 ''''] demo_dialog = Some ?d" by simp
  moreover have "closed_in ?d" by (simp add: RespondAndDrop_def Let_def closed_in_def)
  moreover obtain d' where d': "run idlg_step [DBye, DProcessing True 7] ?d = Some d'" by simp
  ultimately have "closed_in d'" using closed_inbound_dialog_silent [OF demo_dialog_new] by blast
  then show ?thesis using d' by blast
qed

lemma setLastStatus_keeps:
  "si_lastCallStatus c = Some (st, r) \<Longrightarrow> 200 \<le> st \<Longrightarrow> st < 300 \<Longrightarrow>
     si_lastCallStatus (setLastStatus n s c) = Some (st, r)"
  by (simp add: setLastStatus_def)

lemma respond_keeps:
  "si_lastCallStatus c = Some (st, r) \<Longrightarrow> 200 \<le> st \<Longrightarrow> st < 300 \<Longrightarrow>
     si_lastCallStatus (fst (respond ok now n s c)) = Some (st, r)"
  by (simp add: respond_def respondWithData_def Let_def setLastStatus_keeps)

lemma accept_loop_keeps:
  assumes "200 \<le> st" "st < 300" "si_lastCallStatus c = Some (st, r)"
  shows "si_lastCallStatus (fst (accept_loop m w u now sdp rounds k ra sp c)) = Some (st, r)"
proof (rule accept_loop_pres [where P = "\<lambda>c. si_lastCallStatus c = Some (st, r)"])
  show "si_lastCallStatus c = Some (st, r)" by fact
  show "si_lastCallStatus d = Some (st, r) \<Longrightarrow> si_lastCallStatus (accept_send now sdp j d) = Some (st, r)" for d j
    using assms(1,2) by (simp add: accept_send_def Let_def setLastStatus_keeps)
qed (simp_all add: accepted_def)

lemma step_keeps_success:
  assumes "si_lastCallStatus c = Some (st, r)" "200 \<le> st" "st < 300" "idlg_step x c = Some d"
  shows "si_lastCallStatus d = Some (st, r)"
proof (cases x)
  case (DAccept now sdp w rounds)
  have "si_lastCallStatus (stopRinging (c\<lparr>si_lastSDP := Some sdp\<rparr>)) = Some (st, r)" using assms(1) by simp
  then show ?thesis using DAccept assms accept_loop_keeps [OF assms(2,3)] by (auto simp: Accept_def Let_def)
next
  case (DClose e rs)
  have "si_lastCallStatus (sendBye_in b r1 r2 now c) = Some (st, r)" for b r1 r2 now
    using assms(1) by (simp add: sendBye_in_def Let_def split_beta)
  moreover have "si_lastCallStatus (sendStatus ok now rs c) = Some (st, r)" for ok now
    using assms(1-3) setLastStatus_keeps by (simp add: sendStatus_def split: prod.splits)
  ultimately show ?thesis using DClose assms by (auto simp: CloseWithStatus_def)
qed (use assms respond_keeps in \<open>auto simp: Processing_def StartRinging_def ring_tick_def ring_cancel_def AcceptAck_def
      AcceptBye_def RespondAndDrop_def TransferCall_send_eq Let_def split: prod.splits if_splits\<close>,
    (use assms respond_keeps in \<open>metis fst_conv stopRinging_fields(8)\<close>)+)

text \<open>The success of a call is never overwritten: once a 2xx status was recorded for
  the INVITE, every later operation leaves the recorded status as it is.\<close>

theorem inbound_success_status_kept:
  assumes "idlg_inv c" "si_lastCallStatus c = Some (st, r)" "200 \<le> st" "st < 300"
    and "run idlg_step ops c = Some d"
  shows "si_lastCallStatus d = Some (st, r)"
  by (rule inbound_dialog.run_stable [where P = "\<lambda>c. si_lastCallStatus c = Some (st, r)", OF _ assms(1,2,5)])
     (rule step_keeps_success [OF _ assms(3,4)])

theorem inbound_success_status_kept_witness:
  "\<exists>d. run idlg_step [DClose demo_close \<lparr>RCode = 503, RStatus = ''''\<rparr>]
     (demo_dialog\<lparr>si_lastCallStatus := Some (200, ''OK'')\<rparr>) = Some d \<and> si_lastCallStatus d = Some (200, ''OK'')"
proof -
  have "idlg_inv (demo_dialog\<lparr>si_lastCallStatus := Some (200, ''OK'')\<rparr>)"
    by (simp add: demo_dialog_def idlg_inv_def closed_in_def)
  then show ?thesis
    using inbound_success_status_kept [of "demo_dialog\<lparr>si_lastCallStatus := Some (200, ''OK'')\<rparr>" 200 "''OK''"
        "[DClose demo_close \<lparr>RCode = 503, RStatus = ''''\<rparr>]"] by simp
qed

lemma accept_transmissions:
  assumes "si_inviteTx c"
  shows "\<exists>n. length (resp_codes (si_wire (fst (Accept now sdp w rounds c)))) = length (resp_codes (si_wire c)) + n \<and>
    n \<le> accept_retries w (si_legTr c = TransportUDP) + 1"
proof -
  let ?u = "si_legTr c = TransportUDP"
  obtain d err t where eq: "accept_loop (accept_retries w ?u) w ?u now sdp rounds 1 (accept_interval ?u) 0
      (stopRinging (c\<lparr>si_lastSDP := Some sdp\<rparr>)) = (d, err, t)"
    by (metis surj_pair)
  from accept_loop_effect [OF eq] obtain n where n: "accept_effect (stopRinging (c\<lparr>si_lastSDP := Some sdp\<rparr>)) n d"
      "n \<le> Suc (accept_retries w ?u) - 1 + 1" by blast
  then show ?thesis using assms eq by (auto simp: Accept_def Let_def accept_effect_def)
qed

text \<open>Answering a call is bounded: \<open>Accept\<close> always returns, it transmits the 200 OK
  at most six times over UDP (three times when it does not wait for the ACK) and at
  most twice over a reliable transport, and afterwards the call is either established
  or, when a transmission failed, still unanswered with the error returned.\<close>

theorem accept_bounded:
  assumes "idlg_inv c" "si_inviteTx c"
  shows "length (resp_codes (si_wire (fst (Accept now sdp w rounds c)))) \<le> length (resp_codes (si_wire c)) +
      (if si_legTr c \<noteq> TransportUDP then 2 else if w then 6 else 3) \<and>
    (si_inviteOk (fst (Accept now sdp w rounds c)) \<and> \<not> si_inviteTx (fst (Accept now sdp w rounds c)) \<or>
     \<not> si_inviteOk (fst (Accept now sdp w rounds c)) \<and> fst (snd (Accept now sdp w rounds c)) \<noteq> None)"
proof -
  let ?u = "si_legTr c = TransportUDP"
  let ?c = "stopRinging (c\<lparr>si_lastSDP := Some sdp\<rparr>)"
  obtain d err t where eq: "accept_loop (accept_retries w ?u) w ?u now sdp rounds 1 (accept_interval ?u) 0 ?c = (d, err, t)"
    by (metis surj_pair)
  have a: "Accept now sdp w rounds c = (d, err, t)" using assms(2) eq by (simp add: Accept_def Let_def)
  have "\<not> si_inviteOk c" using assms by (auto simp: idlg_inv_def)
  then have "si_inviteOk d \<and> \<not> si_inviteTx d \<or> \<not> si_inviteOk d \<and> err \<noteq> None"
    using accept_loop_effect [OF eq] by auto
  then show ?thesis using accept_transmissions [OF assms(2), of now sdp w rounds] unfolding a
    by (auto simp: accept_retries_def retry_defs split: if_splits)
qed

lemma demo_dialog_inv: "idlg_inv demo_dialog" "si_inviteTx demo_dialog" "si_legTr demo_dialog = TransportUDP"
  "si_wire demo_dialog = []"
  by (simp_all add: demo_dialog_def idlg_inv_def closed_in_def)

theorem accept_bounded_witness:
  "length (resp_codes (si_wire (fst (Accept 1 ''s'' True (\<lambda>_. \<lparr>ar_err = None, ar_wait = AccTimer\<rparr>) demo_dialog)))) \<le> 6"
  using accept_bounded [OF demo_dialog_inv(1,2), of 1 "''s''" True "\<lambda>_. \<lparr>ar_err = None, ar_wait = AccTimer\<rparr>"]
  by (simp add: demo_dialog_inv)

text \<open>The unrolled loop when every transmission succeeds and every wait times out.\<close>

definition no_ack :: "nat \<Rightarrow> acc_round" where
  "no_ack k = \<lparr>ar_err = None, ar_wait = AccTimer\<rparr>"

lemma no_ack_again:
  "w \<or> u \<Longrightarrow> k \<le> m \<Longrightarrow> accept_loop m w u now sdp no_ack k ra sp c =
     accept_loop m w u now sdp no_ack (Suc k) (min (ra * 2) 3000) (sp + ra) (accept_send now sdp k c)"
  using accept_loop_again [of no_ack k w u m] by (simp add: no_ack_def retry_defs)

lemma no_ack_stop:
  "w \<or> u \<Longrightarrow> m < k \<Longrightarrow> snd (accept_loop m w u now sdp no_ack k ra sp c) = (if w then Some errNoACK else None, sp + ra)"
  by (subst accept_loop.simps) (auto simp: no_ack_def Let_def)

text \<open>How long a missing ACK is waited for: when no ACK ever arrives, \<open>Accept\<close> spends
  9750 ms before it fails with \<open>errNoACK\<close> over UDP; it spends 1750 ms before it
  succeeds when it is not asked to wait for the ACK (not the 750 ms of the comment in
  the code), and over a reliable transport it waits twice for three seconds, sending
  the 200 OK again in between.\<close>

theorem accept_without_ack_timing:
  assumes "si_inviteTx c"
  shows "snd (Accept now sdp w no_ack c) =
    (if si_legTr c = TransportUDP then (if w then (Some errNoACK, 9750) else (None, 1750))
     else if w then (Some errNoACK, 6000) else (None, 0))"
proof -
  consider "si_legTr c = TransportUDP" "w" | "si_legTr c = TransportUDP" "\<not> w"
    | "si_legTr c \<noteq> TransportUDP" "w" | "si_legTr c \<noteq> TransportUDP" "\<not> w" by blast
  then show ?thesis
  proof cases
    case 4
    then show ?thesis using assms
      by (simp add: Accept_def Let_def accept_loop.simps [of _ False False] no_ack_def)
  qed (use assms in \<open>simp_all add: Accept_def Let_def accept_retries_def accept_interval_def retry_defs
      no_ack_again no_ack_stop\<close>)
qed

theorem accept_without_ack_timing_witness:
  "snd (Accept 1 ''s'' False no_ack demo_dialog) = (None, 1750)"
  using accept_without_ack_timing [of demo_dialog 1 "''s''" False] by (simp add: demo_dialog_inv)

section \<open>One final response\<close>

definition finals :: "wire list \<Rightarrow> int list" where
  "finals ws = filter (\<lambda>code. 200 \<le> code) (resp_codes ws)"

lemma finals_simps [simp]: "finals [] = []" "finals (xs @ ys) = finals xs @ finals ys"
  by (simp_all add: finals_def)

text \<open>Transmissions of the 200 OK that fail, if at all, the first time.\<close>

fun clean_op :: "idlg_op \<Rightarrow> bool" where
  "clean_op (DAccept now sdp w rounds) \<longleftrightarrow> (\<forall>k>1. ar_err (rounds k) = None)"
| "clean_op _ \<longleftrightarrow> True"

definition clean_step :: "idlg_op \<Rightarrow> sipInbound \<Rightarrow> sipInbound option" where
  "clean_step x c = (if clean_op x then idlg_step x c else None)"

definition final_inv :: "sipInbound \<Rightarrow> bool" where
  "final_inv c \<longleftrightarrow> idlg_inv c \<and> (si_inviteTx c \<longrightarrow> finals (si_wire c) = []) \<and>
     ((\<exists>n. finals (si_wire c) = replicate n 200) \<or> (\<exists>code. finals (si_wire c) = [code]))"

lemma respond_finals:
  "finals (si_wire (fst (respond ok now st r c))) = finals (si_wire c) \<or>
   finals (si_wire (fst (respond ok now st r c))) = finals (si_wire c) @ [st]"
  by (auto simp: respond_def respondWithData_def Let_def finals_def)

lemma respond_provisional:
  "st < 200 \<Longrightarrow> finals (si_wire (fst (respond ok now st r c))) = finals (si_wire c)"
  by (auto simp: respond_def respondWithData_def Let_def finals_def)

lemma Accept_finals:
  assumes "si_inviteTx c" "\<not> si_inviteOk c" "\<forall>k>1. ar_err (rounds k) = None"
  shows "\<exists>n. finals (si_wire (fst (Accept now sdp w rounds c))) = finals (si_wire c) @ replicate n 200 \<and>
    (n = 0 \<or> \<not> si_inviteTx (fst (Accept now sdp w rounds c)))"
proof -
  let ?u = "si_legTr c = TransportUDP"
  obtain d err t where eq: "accept_loop (accept_retries w ?u) w ?u now sdp rounds 1 (accept_interval ?u) 0
      (stopRinging (c\<lparr>si_lastSDP := Some sdp\<rparr>)) = (d, err, t)"
    by (metis surj_pair)
  from accept_loop_effect [OF eq] obtain n where n: "accept_effect (stopRinging (c\<lparr>si_lastSDP := Some sdp\<rparr>)) n d"
      "(\<exists>j\<ge>1. err = ar_err (rounds j) \<and> err \<noteq> None \<and> n = j - 1) \<or> \<not> si_inviteTx d" by blast
  have "n = 0 \<or> \<not> si_inviteTx d" using n(2) assms(3) by (metis diff_self_eq_0 le_neq_implies_less)
  moreover have "fst (Accept now sdp w rounds c) = d" using assms(1) eq by (simp add: Accept_def Let_def)
  moreover have "finals (si_wire d) = finals (si_wire c) @ replicate n 200"
    using n(1) by (auto simp: accept_effect_def finals_def)
  ultimately show ?thesis by blast
qed

lemma final_inv_tx:
  assumes "final_inv c" "idlg_inv d" "si_inviteTx c"
    and "\<not> si_inviteTx d" "finals (si_wire d) = finals (si_wire c) \<or> (\<exists>st. finals (si_wire d) = finals (si_wire c) @ [st])"
  shows "final_inv d"
  using assms by (auto simp: final_inv_def)

lemma final_inv_same:
  assumes "final_inv c" "idlg_inv d" "si_inviteTx d \<longrightarrow> si_inviteTx c" "finals (si_wire d) = finals (si_wire c)"
  shows "final_inv d"
  using assms by (auto simp: final_inv_def)

lemma RespondAndDrop_final:
  assumes f: "final_inv c"
  shows "final_inv (fst (RespondAndDrop ok now st r c))"
proof -
  let ?d = "fst (RespondAndDrop ok now st r c)"
  have inv: "idlg_inv ?d" using f by (simp add: final_inv_def RespondAndDrop_inv)
  have tx: "\<not> si_inviteTx ?d" by (simp add: RespondAndDrop_def Let_def)
  have w: "si_wire ?d = si_wire (fst (respond ok now st r (stopRinging c)))" by (simp add: RespondAndDrop_def Let_def)
  have wc: "finals (si_wire (stopRinging c)) = finals (si_wire c)" by simp
  show ?thesis
  proof (cases "si_inviteTx c")
    case True
    have "finals (si_wire ?d) = finals (si_wire c) \<or> (\<exists>st. finals (si_wire ?d) = finals (si_wire c) @ [st])"
      using respond_finals [of ok now st r "stopRinging c"] unfolding w wc by blast
    then show ?thesis by (rule final_inv_tx [OF f inv True tx])
  next
    case False
    then have "finals (si_wire ?d) = finals (si_wire c)" unfolding w by simp
    then show ?thesis using tx by (intro final_inv_same [OF f inv]) auto
  qed
qed

lemma CloseWithStatus_final: "final_inv c \<Longrightarrow> final_inv (CloseWithStatus e r c)"
proof -
  assume f: "final_inv c"
  have inv: "idlg_inv (CloseWithStatus e r c)" using f by (simp add: final_inv_def CloseWithStatus_inv)
  consider (bye) "si_inviteOk c" | (status) "\<not> si_inviteOk c" "si_inviteTx c" | (none) "\<not> si_inviteOk c" "\<not> si_inviteTx c"
    by blast
  then show ?thesis
  proof cases
    case bye
    then have "si_invite c" "\<not> si_inviteTx c" using f by (auto simp: final_inv_def idlg_inv_def)
    then show ?thesis using bye sendBye_in_cases [of c "ce_bye e" "ce_res1 e" "ce_res2 e" "ce_now e"] f inv
      by (intro final_inv_same [OF f inv]) (auto simp: CloseWithStatus_def finals_def)
  next
    case status
    then show ?thesis
      by (intro final_inv_tx [OF f inv]) (auto simp: CloseWithStatus_def sendStatus_def finals_def split: prod.splits)
  next
    case none
    then show ?thesis by (intro final_inv_same [OF f inv]) (simp_all add: CloseWithStatus_def)
  qed
qed

lemma Accept_final:
  assumes "final_inv c" "\<forall>k>1. ar_err (rounds k) = None"
  shows "final_inv (fst (Accept now sdp w rounds c))"
proof (cases "si_inviteTx c")
  case True
  have "\<not> si_inviteOk c" "finals (si_wire c) = []" using assms(1) True by (auto simp: final_inv_def idlg_inv_def)
  then show ?thesis using Accept_finals [OF True _ assms(2), of now sdp w] assms(1)
    by (auto simp: final_inv_def Accept_inv)
next
  case False
  then show ?thesis using assms(1) by (simp add: Accept_def)
qed

text \<open>Operations that send no final response.\<close>

definition no_final :: "sipInbound \<Rightarrow> sipInbound \<Rightarrow> bool" where
  "no_final c d \<longleftrightarrow> (si_inviteTx d \<longrightarrow> si_inviteTx c) \<and> finals (si_wire d) = finals (si_wire c)"

lemma respond_no_final: "st < 200 \<Longrightarrow> no_final c (fst (respond ok now st r c))"
  using respond_same [of c ok now st r] by (simp add: no_final_def same_dialog_def respond_provisional)

lemma Processing_no_final: "no_final c (fst (Processing ok now c))"
  using respond_no_final [of 100 c ok now "''Processing''"]
  by (cases "respond ok now 100 ''Processing'' c") (simp add: Processing_def no_final_def)

lemma StartRinging_no_final: "StartRinging ok now c = Some (d, b) \<Longrightarrow> no_final c d"
  using respond_no_final [of 180 c ok now "''Ringing''"]
  by (cases "respond ok now 180 ''Ringing'' c") (auto simp: StartRinging_def no_final_def split: if_splits)

lemma ring_tick_no_final: "no_final c (ring_tick ok now c)"
  using respond_no_final [of 180 c ok now "''Ringing''"] by (simp add: ring_tick_def no_final_def)

lemma ring_cancel_no_final: "ring_cancel now c = Some d \<Longrightarrow> no_final c d"
  by (auto simp: ring_cancel_def no_final_def finals_def split: if_splits)

lemma quiet_no_final:
  "no_final c (AcceptAck cseq body now c)" "no_final c (AcceptBye c)" "no_final c (drop_dialog c)"
  "no_final c (TransferCall_send to c)"
  by (simp_all add: no_final_def finals_def AcceptAck_def AcceptBye_def TransferCall_send_eq Let_def)

lemma no_final_step:
  assumes "idlg_step x c = Some d"
  shows "no_final c d \<or> (\<exists>now sdp w rounds. x = DAccept now sdp w rounds) \<or>
    (\<exists>ok now st r. x = DReject ok now st r) \<or> (\<exists>e r. x = DClose e r)"
  using assms by (cases x) (auto simp: Processing_no_final StartRinging_no_final ring_tick_no_final
      ring_cancel_no_final quiet_no_final)

lemma clean_step_final:
  assumes "final_inv c" "clean_op x" "idlg_step x c = Some d"
  shows "final_inv d"
proof -
  have inv: "idlg_inv d" using assms(1,3) inbound_dialog.step_keeps by (auto simp: final_inv_def)
  from no_final_step [OF assms(3)] consider "no_final c d" | now sdp w rounds where "x = DAccept now sdp w rounds"
    | ok now st r where "x = DReject ok now st r" | e r where "x = DClose e r" by blast
  then show ?thesis
  proof cases
    case 1
    then show ?thesis by (intro final_inv_same [OF assms(1) inv]) (auto simp: no_final_def)
  next
    case (2 now sdp w rounds)
    then show ?thesis using assms Accept_final by auto
  next
    case (3 ok now st r)
    then show ?thesis using assms RespondAndDrop_final by auto
  next
    case (4 e r)
    then show ?thesis using assms CloseWithStatus_final by auto
  qed
qed

interpretation one_final: keeps_inv clean_step final_inv
  by unfold_locales (auto simp: clean_step_def clean_step_final split: if_splits)



text \<open>A failed retransmission breaks that rule: when the first 200 OK was sent and its
  retransmission fails, \<open>Accept\<close> returns the error without marking the call as
  accepted, and closing the call then sends the caller an error response after the 200
  OK instead of a BYE.\<close>

theorem accept_retransmission_failure_rejects_answered_call:
  assumes "si_inviteTx c" "\<not> si_inviteOk c" "si_wire c = []" "si_legTr c = TransportUDP"
    and "rounds = (\<lambda>k. if k = 1 then \<lparr>ar_err = None, ar_wait = AccTimer\<rparr> else \<lparr>ar_err = Some e, ar_wait = AccTimer\<rparr>)"
    and "ce_ok env" "RCode r = 500"
  shows "resp_codes (si_wire (CloseWithStatus env r (fst (Accept now sdp w rounds c)))) = [200, 500] \<and>
    bye_count (si_wire (CloseWithStatus env r (fst (Accept now sdp w rounds c)))) = 0"
proof -
  let ?c = "stopRinging (c\<lparr>si_lastSDP := Some sdp\<rparr>)"
  have "fst (Accept now sdp w rounds c) = accept_send now sdp 1 ?c"
    using assms(1,4,5)
    by (simp add: Accept_def Let_def accept_retries_def retry_defs accept_loop_again accept_loop_fail)
  then show ?thesis using assms
    by (simp add: CloseWithStatus_def sendStatus_def NewResponse_def newResponse_def)
qed

theorem accept_retransmission_failure_rejects_answered_call_witness:
  "resp_codes (si_wire (CloseWithStatus demo_close \<lparr>RCode = 500, RStatus = ''''\<rparr> (fst (Accept 1 ''s'' True
     (\<lambda>k. if k = 1 then \<lparr>ar_err = None, ar_wait = AccTimer\<rparr> else \<lparr>ar_err = Some (ENew ''x''), ar_wait = AccTimer\<rparr>)
     demo_dialog)))) = [200, 500]"
  using accept_retransmission_failure_rejects_answered_call [OF demo_dialog_inv(2) _ demo_dialog_inv(4,3) refl,
      of demo_close "\<lparr>RCode = 500, RStatus = ''''\<rparr>" 1 "''s''" True "ENew ''x''"]
  by (simp add: demo_dialog_def demo_close_def)

end
