(* ===== verification/OutboundDialog.thy ===== *)
theory OutboundDialog
  imports InboundDialog InviteErrors
begin

text \<open>
  The UAC side of a call, \<open>sipOutbound\<close> of src/pkg/sip/outbound.go: the INVITE
  with its authentication loop, ACK, BYE, CANCEL and REFER, and the watch over
  a cancelled INVITE.  As on the UAS side the SIP stack is represented by the
  messages handed to it and by the outcomes it reports.
\<close>

section \<open>Routing\<close>

text \<open>\<open>applyInviteResponse\<close>: the recipient, the route set (first hop first) and whether the
  cached destination is flushed.\<close>

record route_state =
  rs_recipient :: sip_uri
  rs_routes :: "string list"
  rs_dest :: string

definition port_or_default :: "sip_uri \<Rightarrow> sip_uri" where
  "port_or_default u = (if Port u = 0 then u\<lparr>Port := 5060\<rparr> else u)"

definition applyInviteResponse :: "sip_uri option \<Rightarrow> string list \<Rightarrow> route_state \<Rightarrow> route_state" where
  "applyInviteResponse contact recordRoutes r = (let
     (r1, flush1) = (case contact of
         None \<Rightarrow> (r, False)
       | Some u \<Rightarrow> (let n = port_or_default u; old = port_or_default (rs_recipient r) in
           (r\<lparr>rs_recipient := n\<rparr>, \<not> EqualFold (Host old) (Host n) \<or> Port old \<noteq> Port n)));
     flush2 = (flush1 \<or> rs_routes r1 \<noteq> [] \<or> recordRoutes \<noteq> []);
     r2 = r1\<lparr>rs_routes := rev recordRoutes\<rparr>
   in if flush2 then r2\<lparr>rs_dest := ''''\<rparr> else r2)"

text \<open>\<open>resolve\<close> is \<open>ResolveAddrPreferSRV\<close>, \<^const>\<open>None\<close> its error.\<close>

definition uriTransport :: "params option \<Rightarrow> string \<Rightarrow> string" where
  "uriTransport ps scheme = (case (case ps of Some l \<Rightarrow> map_of l ''transport'' | None \<Rightarrow> None) of
     Some v \<Rightarrow> if v \<noteq> '''' then ToLower v else if EqualFold scheme ''sips'' then ''tls'' else ''udp''
   | None \<Rightarrow> if EqualFold scheme ''sips'' then ''tls'' else ''udp'')"

definition resolveDest :: "bool \<Rightarrow> string list \<Rightarrow> string list \<Rightarrow> string option \<Rightarrow> string" where
  "resolveDest preferSRV routeHeaders headerNames resolved =
     (if \<not> preferSRV then ''''
      else if routeHeaders \<noteq> [] then ''''
      else if list_ex (\<lambda>k. EqualFold k ''Route'') headerNames then ''''
      else (case resolved of Some a \<Rightarrow> a | None \<Rightarrow> ''''))"

section \<open>State\<close>

record sipOutbound =
  so_id :: string
  so_callID :: string
  so_tag :: string
  so_invite :: bool
  so_inviteOk :: bool
  so_inviteCSeq :: "32 word"
  so_nextCSeq :: "32 word"
  so_referCseq :: "32 word"
  so_latestInviteCSeq :: "32 word"
  so_provisional :: "int list"
  so_finalStatus :: int
  so_uri :: sip_uri
  so_routeHeaders :: "string list"
  so_preferSRV :: bool
  so_route :: "route_state option"
  so_state :: "CallState option"
  so_wire :: "wire list"

text \<open>\<open>hash\<close> is \<open>guid.HashedID\<close>; \<open>so_route\<close> is where requests built from \<open>invite\<close>
  go.\<close>

definition newOutbound :: "(string \<Rightarrow> string) \<Rightarrow> string \<Rightarrow> sip_uri \<Rightarrow> CallState option \<Rightarrow> sipOutbound" where
  "newOutbound hash cid uri st = \<lparr>so_id = cid, so_callID = hash cid, so_tag = '''', so_invite = False, so_inviteOk = False,
     so_inviteCSeq = 0, so_nextCSeq = 1, so_referCseq = 0, so_latestInviteCSeq = 0,
     so_provisional = [], so_finalStatus = 0, so_uri = uri, so_routeHeaders = [], so_preferSRV = False, so_route = None,
     so_state = st, so_wire = []\<rparr>"

definition osend :: "wire \<Rightarrow> sipOutbound \<Rightarrow> sipOutbound" where
  "osend w c = c\<lparr>so_wire := so_wire c @ [w]\<rparr>"

definition emitEvent :: "SignalingEvent \<Rightarrow> sipOutbound \<Rightarrow> sipOutbound" where
  "emitEvent ev c = c\<lparr>so_state := emit_opt ev (so_state c)\<rparr>"

definition RecordInvite :: "32 word \<Rightarrow> sipOutbound \<Rightarrow> sipOutbound" where
  "RecordInvite cseq c = (if cseq > so_latestInviteCSeq c then c\<lparr>so_latestInviteCSeq := cseq\<rparr> else c)"

text \<open>\<open>setCSeq\<close>: the number used, and the state with the next one.\<close>

definition setCSeq_out :: "sipOutbound \<Rightarrow> 32 word \<times> sipOutbound" where
  "setCSeq_out c = (so_nextCSeq c, c\<lparr>so_nextCSeq := so_nextCSeq c + 1\<rparr>)"

section \<open>INVITE\<close>

text \<open>One attempt: the error of starting the transaction or what \<open>sipResponse\<close> observes on
  it, and the To, Contact and Record-Route headers of the response.  \<open>ie_headers\<close> are the
  headers of the call sorted by name, \<open>ie_resolved\<close> the result of
  \<open>ResolveAddrPreferSRV\<close>, \<open>ie_challenge\<close> the error of \<open>digest.ParseChallenge\<close> and
  \<open>ie_digest\<close> the credentials \<open>digest.Digest\<close> computes.\<close>

record attempt =
  at_startErr :: "go_error option"
  at_events :: "tx_event list"
  at_to :: "params option"
  at_contact :: "sip_uri option"
  at_recordRoutes :: "string list"

record invite_env =
  ie_user :: string
  ie_pass :: string
  ie_headers :: "(string \<times> string) list"
  ie_resolved :: "string option"
  ie_sdp :: string
  ie_now :: int
  ie_attempt :: "nat \<Rightarrow> attempt"
  ie_challenge :: "string \<Rightarrow> go_error option"
  ie_digest :: "string \<Rightarrow> (go_error, string) result"

text \<open>\<open>onResponse\<close>: the first response with each 1xx code is reported.\<close>

definition on_response :: "int \<Rightarrow> 32 word \<Rightarrow> int \<Rightarrow> sipOutbound \<Rightarrow> sipOutbound" where
  "on_response now cseq code c = (if code < 200 \<and> code \<notin> set (so_provisional c) then
     emitEvent ((new_event EventProvisionalReceived (Some now))
       \<lparr>evSIPMethod := ''INVITE'', evStatusCode := code, evCSeq := cseq\<rparr>)
       (c\<lparr>so_provisional := code # so_provisional c\<rparr>)
     else c)"

definition invite_event :: "SignalingEventType \<Rightarrow> int \<Rightarrow> int \<Rightarrow> 32 word \<Rightarrow> SignalingEvent" where
  "invite_event typ now code cseq =
     (new_event typ (Some now))\<lparr>evSIPMethod := ''INVITE'', evStatusCode := code, evCSeq := cseq\<rparr>"

text \<open>\<^const>\<open>None\<close>: the transaction is still waiting.  The CSeq of the request comes with
  the result.\<close>

definition attemptInvite ::
  "attempt \<Rightarrow> int \<Rightarrow> string \<Rightarrow> string \<Rightarrow> (string \<times> string) option \<Rightarrow> sipOutbound \<Rightarrow>
   (sipOutbound \<times> 32 word \<times> (go_error, sip_response) result) option" where
  "attemptInvite a now dest sdp auth c0 = (case setCSeq_out c0 of (cseq, c1) \<Rightarrow>
     (case at_startErr a of
        Some e \<Rightarrow> Some (c1, cseq, Err e)
      | None \<Rightarrow> (let
          c2 = emitEvent ((new_event EventInviteSent (Some now))\<lparr>evSIPMethod := ''INVITE'', evCSeq := cseq\<rparr>)
                 (osend (WInvite cseq dest sdp auth) c1)
        in case sipResponse (at_events a) of
             None \<Rightarrow> None
           | Some r \<Rightarrow> (let
               c3 = fold (on_response now cseq) (tx_seen r) c2;
               c4 = (if tx_sentCancel r then osend WCancel c3 else c3);
               c5 = (if tx_cancelled r \<noteq> '''' then
                   emitEvent ((new_event EventCancelSent (Some now))
                     \<lparr>evSIPMethod := ''CANCEL'', evCSeq := cseq, evReason := tx_cancelled r\<rparr>) c4 else c4)
             in Some (c5, cseq, tx_res r)))))"

definition invite_failed_codes :: "int list" where
  "invite_failed_codes = [400, 404, 480, 488, 486]"

text \<open>The error for a final response that is neither 200 nor a challenge.\<close>

definition invite_status_error :: "sip_response \<Rightarrow> go_error" where
  "invite_status_error resp = (let st = sipStatusFromResponse resp in
     case carrierBlockFromResponse resp st of
       Some b \<Rightarrow> EWrap ''INVITE blocked by carrier'' b
     | None \<Rightarrow> EWrap (if StatusCode resp \<in> set invite_failed_codes then ''INVITE failed''
         else ''unexpected status from INVITE response'') (ESIPStatus (fst st) (snd st)))"

text \<open>The credentials for the next attempt, as the name and value of a header.\<close>

definition answer_challenge :: "invite_env \<Rightarrow> nat \<Rightarrow> sip_response \<Rightarrow> (go_error, string \<times> string) result" where
  "answer_challenge e k resp = (let
     (hname, rname) = (if StatusCode resp = 401 then (''WWW-Authenticate'', ''Authorization'')
                       else (''Proxy-Authenticate'', ''Proxy-Authorization''))
   in if ie_user e = '''' \<or> ie_pass e = '''' then Err (authError ErrAuthMissingCreds (Some resp))
      else (case RespHeader resp hname of
          None \<Rightarrow> Err (authError ErrAuthNoHeader (Some resp))
        | Some ch \<Rightarrow> (case ie_challenge e ch of
            Some _ \<Rightarrow> Err (EPsrpc Internal (ENew (''invalid challenge '' @ ch)))
          | None \<Rightarrow> if at_to (ie_attempt e k) = None then Err (EPsrpc Internal (ENew ''no 'To' header on Response''))
              else (case ie_digest e ch of Inl err \<Rightarrow> Err err | Inr cred \<Rightarrow> Ok (rname, cred)))))"

text \<open>The deferred report of a failed INVITE: \<open>resp\<close> is the last final response.\<close>

definition invite_failed :: "int \<Rightarrow> 32 word \<Rightarrow> sip_response option \<Rightarrow> sipOutbound \<Rightarrow> sipOutbound" where
  "invite_failed now cseq resp c = (case resp of
     None \<Rightarrow> c
   | Some r \<Rightarrow> if StatusCode r = 200 then c
       else let c1 = c\<lparr>so_finalStatus := StatusCode r\<rparr> in
         if StatusCode r < 300 then c1
         else emitEvent ((invite_event EventFailed now (StatusCode r) cseq)\<lparr>evReason := messageCause (RespHeader r ''Reason'')\<rparr>) c1)"

text \<open>After the 200 OK.\<close>

definition invite_route :: "invite_env \<Rightarrow> string \<Rightarrow> sipOutbound \<Rightarrow> route_state" where
  "invite_route e dest c = \<lparr>rs_recipient = so_uri c,
     rs_routes = rev (so_routeHeaders c) @ map snd (filter (\<lambda>h. EqualFold (fst h) ''Route'') (ie_headers e)),
     rs_dest = dest\<rparr>"

definition invite_answered ::
  "invite_env \<Rightarrow> string \<Rightarrow> attempt \<Rightarrow> 32 word \<Rightarrow> sip_response \<Rightarrow> sipOutbound \<Rightarrow> sipOutbound \<times> (go_error, string) result" where
  "invite_answered e dest a cseq resp c0 = (let
     r = invite_route e dest c0;
     c = c0\<lparr>so_invite := True, so_inviteOk := True, so_inviteCSeq := cseq, so_route := Some r\<rparr>
   in case at_to a of
        None \<Rightarrow> (c, Err (EPsrpc Internal (ENew ''no To header in INVITE response'')))
      | Some ps \<Rightarrow> (case getTagFrom ps of (tag, ok) \<Rightarrow>
          if \<not> ok then (c\<lparr>so_tag := tag\<rparr>, Err (EPsrpc Internal (ENew ''no tag in To header in INVITE response'')))
          else (c\<lparr>so_tag := tag, so_route := Some (applyInviteResponse (at_contact a) (at_recordRoutes a) r)\<rparr>,
            Ok (RespBody resp))))"

function invite_loop ::
  "invite_env \<Rightarrow> string \<Rightarrow> nat \<Rightarrow> (string \<times> string) option \<Rightarrow> 32 word \<Rightarrow> sip_response option \<Rightarrow> sipOutbound \<Rightarrow>
   (sipOutbound \<times> (go_error, string) result) option" where
  "invite_loop e dest k auth cseq0 resp0 c =
     (if k \<ge> 5 then Some (invite_failed (ie_now e) cseq0 resp0 c, Err (authError ErrAuthMaxRetry resp0))
      else (case attemptInvite (ie_attempt e k) (ie_now e) dest (ie_sdp e) auth c of
          None \<Rightarrow> None
        | Some (c1, cseq, Inl err) \<Rightarrow> Some (c1, Err err)
        | Some (c1, cseq, Inr resp) \<Rightarrow>
            if StatusCode resp = 200 then
              Some (invite_answered e dest (ie_attempt e k) cseq resp
                (emitEvent (invite_event EventAnsweredReceived (ie_now e) 200 cseq) (c1\<lparr>so_finalStatus := 200\<rparr>)))
            else if StatusCode resp = 401 \<or> StatusCode resp = 407 then
              (let c2 = emitEvent (invite_event EventAuthChallenged (ie_now e) (StatusCode resp) cseq) c1 in
               case answer_challenge e k resp of
                 Inl err \<Rightarrow> Some (invite_failed (ie_now e) cseq (Some resp) c2, Err err)
               | Inr cred \<Rightarrow> invite_loop e dest (Suc k) (if snd cred \<noteq> '''' then Some cred else None) cseq (Some resp) c2)
            else Some (invite_failed (ie_now e) cseq (Some resp) c1, Err (invite_status_error resp))))"
  by pat_completeness auto

termination by (relation "measure (\<lambda>(e, d, k, a, n, r, c). 5 - k)") auto

declare invite_loop.simps [simp del]

definition Invite :: "invite_env \<Rightarrow> sipOutbound \<Rightarrow> (sipOutbound \<times> (go_error, string) result) option" where
  "Invite e c = invite_loop e (resolveDest (so_preferSRV c) (so_routeHeaders c) (map fst (ie_headers e)) (ie_resolved e))
     0 None 0 None c"

section \<open>In-dialog requests\<close>

definition odrop :: "sipOutbound \<Rightarrow> sipOutbound" where
  "odrop c = c\<lparr>so_invite := False, so_inviteOk := False, so_nextCSeq := 0\<rparr>"

definition AcceptBye_out :: "sipOutbound \<Rightarrow> sipOutbound" where
  "AcceptBye_out c = odrop (osend WByeOk c)"

definition AckInviteOK :: "go_error option \<Rightarrow> int \<Rightarrow> sipOutbound \<Rightarrow> sipOutbound \<times> go_error option" where
  "AckInviteOK err now c = (if \<not> so_invite c \<or> \<not> so_inviteOk c
     then (c, Some (EPsrpc Canceled (ENew ''call already closed'')))
     else (case err of
         Some e \<Rightarrow> (c, Some e)
       | None \<Rightarrow> (emitEvent ((new_event EventAckSent (Some now))\<lparr>evSIPMethod := ''ACK'', evCSeq := so_inviteCSeq c\<rparr>)
           (osend (WAck (so_inviteCSeq c)) c), None)))"

text \<open>\<open>closing\<close>: the service is shutting down.  \<open>stackCSeq\<close> is the CSeq the SIP stack puts
  into a BYE built from the INVITE.\<close>

record obye_env =
  ob_closing :: bool
  ob_stackCSeq :: "32 word"
  ob_dest :: string
  ob_res :: "(go_error, sip_response) result"
  ob_now :: int

definition sendBye_out :: "obye_env \<Rightarrow> sipOutbound \<Rightarrow> sipOutbound" where
  "sendBye_out e c = (if \<not> so_invite c \<or> \<not> so_inviteOk c then c
     else if ob_closing e then
       emitEvent ((new_event EventByeSent (Some (ob_now e)))\<lparr>evSIPMethod := ''BYE'', evCSeq := ob_stackCSeq e\<rparr>)
         (osend (WBye False (ob_stackCSeq e) (ob_dest e)) c)
     else (case setCSeq_out c of (cseq, c1) \<Rightarrow>
       emitEvent ((new_event EventByeSent (Some (ob_now e)))\<lparr>evSIPMethod := ''BYE'', evCSeq := cseq,
           evResult := byeOutcome (ob_res e),
           evStatusCode := (case ob_res e of Inr r \<Rightarrow> StatusCode r | Inl _ \<Rightarrow> 0)\<rparr>)
         (osend (WBye False cseq (ob_dest e)) (odrop c1))))"

definition sendCancel :: "sipOutbound \<Rightarrow> sipOutbound" where
  "sendCancel c = (if \<not> so_invite c then c else odrop (osend WCancel c))"

definition Close_out :: "obye_env \<Rightarrow> sipOutbound \<Rightarrow> sipOutbound" where
  "Close_out e c = (if so_inviteOk c then sendBye_out e c
     else if so_invite c then sendCancel c
     else odrop c)"

definition transferCall_out :: "bool \<Rightarrow> string \<Rightarrow> sipOutbound \<Rightarrow> sipOutbound \<times> (go_error, 32 word) result" where
  "transferCall_out closing transferTo c =
     (if \<not> so_invite c \<or> \<not> so_inviteOk c then
        (c, Err (EPsrpc FailedPrecondition (ENew ''can't transfer non established call'')))
      else if closing then (c, Err (EPsrpc FailedPrecondition (ENew ''can't transfer hung up call'')))
      else (case setCSeq_out c of (cseq, c1) \<Rightarrow>
        (osend (WRefer cseq transferTo) (c1\<lparr>so_referCseq := cseq\<rparr>), Ok cseq)))"

text \<open>\<open>watchCancelledInvite\<close>: what is observed on the cancelled transaction; the requests
  that are sent and the status reported as a late answer.  \<open>cseq\<close> is the CSeq of the
  INVITE, \<open>bseq\<close> the one the stack puts into the BYE and \<open>dest\<close> where the stack sends it.
  \<^const>\<open>None\<close>: still watching.\<close>

datatype watch_event = WaResponse "sip_response option" | WaDone | WaTimer

fun watchCancelledInvite ::
  "32 word \<Rightarrow> 32 word \<Rightarrow> string \<Rightarrow> watch_event list \<Rightarrow> (wire list \<times> int option) option" where
  "watchCancelledInvite cseq bseq dest [] = None"
| "watchCancelledInvite cseq bseq dest (WaResponse None # es) = Some ([], None)"
| "watchCancelledInvite cseq bseq dest (WaResponse (Some res) # es) =
     (if StatusCode res div 100 = 1 then watchCancelledInvite cseq bseq dest es
      else if StatusCode res div 100 = 2 then Some ([WAck cseq, WBye False bseq dest], Some (StatusCode res))
      else Some ([], None))"
| "watchCancelledInvite cseq bseq dest (WaDone # es) = Some ([], None)"
| "watchCancelledInvite cseq bseq dest (WaTimer # es) = Some ([], None)"


section \<open>Operations on the dialog after the INVITE\<close>

text \<open>What the rest of the program does with the dialog: ACK, hang up, accept a BYE, forget
  it, transfer, record a re-INVITE.  \<open>closing\<close> is the state of the shutdown fuse.\<close>

datatype odlg_op = OAck "go_error option" int | OClose obye_env | OBye | ODrop | ORefer string | ORecord "32 word"

fun odlg_step :: "bool \<Rightarrow> odlg_op \<Rightarrow> sipOutbound \<Rightarrow> sipOutbound option" where
  "odlg_step closing (OAck err now) c = Some (fst (AckInviteOK err now c))"
| "odlg_step closing (OClose e) c = Some (Close_out (e\<lparr>ob_closing := closing\<rparr>) c)"
| "odlg_step closing OBye c = Some (AcceptBye_out c)"
| "odlg_step closing ODrop c = Some (odrop c)"
| "odlg_step closing (ORefer to) c = Some (fst (transferCall_out closing to c))"
| "odlg_step closing (ORecord cseq) c = Some (RecordInvite cseq c)"

text \<open>The INVITEs sent.\<close>

fun invite_sent :: "wire \<Rightarrow> (32 word \<times> string \<times> string \<times> (string \<times> string) option) list" where
  "invite_sent (WInvite n dest sdp auth) = [(n, dest, sdp, auth)]"
| "invite_sent _ = []"

definition invites :: "sipOutbound \<Rightarrow> (32 word \<times> string \<times> string \<times> (string \<times> string) option) list" where
  "invites c = concat (map invite_sent (so_wire c))"

text \<open>The dialog is established by a 200 OK only, and both of its pointers are set or
  neither is.\<close>

definition odlg_inv :: "sipOutbound \<Rightarrow> bool" where
  "odlg_inv c \<longleftrightarrow> so_invite c = so_inviteOk c \<and> (so_inviteOk c \<longrightarrow> so_finalStatus c = 200)"

lemma osend_simps [simp]:
  "so_wire (osend w c) = so_wire c @ [w]" "so_invite (osend w c) = so_invite c" "so_inviteOk (osend w c) = so_inviteOk c"
  "so_finalStatus (osend w c) = so_finalStatus c" "so_nextCSeq (osend w c) = so_nextCSeq c" "so_uri (osend w c) = so_uri c"
  "so_inviteCSeq (osend w c) = so_inviteCSeq c" "so_referCseq (osend w c) = so_referCseq c"
  by (simp_all add: osend_def)

lemma emitEvent_simps [simp]:
  "so_wire (emitEvent ev c) = so_wire c" "so_invite (emitEvent ev c) = so_invite c" "so_inviteOk (emitEvent ev c) = so_inviteOk c"
  "so_finalStatus (emitEvent ev c) = so_finalStatus c" "so_nextCSeq (emitEvent ev c) = so_nextCSeq c"
  "so_uri (emitEvent ev c) = so_uri c" "so_inviteCSeq (emitEvent ev c) = so_inviteCSeq c" "so_referCseq (emitEvent ev c) = so_referCseq c"
  by (simp_all add: emitEvent_def)

lemma odrop_simps [simp]:
  "so_wire (odrop c) = so_wire c" "\<not> so_invite (odrop c)" "\<not> so_inviteOk (odrop c)" "so_finalStatus (odrop c) = so_finalStatus c"
  by (simp_all add: odrop_def)

lemmas odlg_defs = AckInviteOK_def Close_out_def sendBye_out_def sendCancel_def AcceptBye_out_def transferCall_out_def
  RecordInvite_def setCSeq_out_def

lemma odlg_step_inv: "odlg_inv c \<Longrightarrow> odlg_step closing x c = Some d \<Longrightarrow> odlg_inv d"
  by (cases x) (auto simp: odlg_defs odlg_inv_def split: option.splits if_splits)

interpretation outbound_dialog: keeps_inv "odlg_step closing" odlg_inv for closing
  by unfold_locales (rule odlg_step_inv)

lemma odlg_step_final: "odlg_step closing x c = Some d \<Longrightarrow> so_finalStatus d = so_finalStatus c"
  by (cases x) (auto simp: odlg_defs split: option.splits if_splits)

text \<open>While the service is not shutting down the dialog honours the hang-up contract.\<close>

interpretation outbound_hangup: hangup_once "odlg_step False" odlg_inv "\<lambda>c. bye_count (so_wire c)" so_inviteOk
proof
  fix s s' x
  assume inv: "odlg_inv s" and st: "odlg_step False x s = Some s'"
  show "bye_count (so_wire s') \<noteq> bye_count (so_wire s) \<Longrightarrow>
      so_inviteOk s \<and> \<not> so_inviteOk s' \<and> bye_count (so_wire s') = Suc (bye_count (so_wire s))"
    using inv st by (cases x) (auto simp: odlg_defs odlg_inv_def split: option.splits if_splits)
  show "\<not> so_inviteOk s \<Longrightarrow> \<not> so_inviteOk s'"
    using st by (cases x) (auto simp: odlg_defs split: option.splits if_splits)
qed


section \<open>The INVITE loop\<close>

lemma on_response_keeps:
  "so_wire (on_response now cseq code c) = so_wire c \<and> so_invite (on_response now cseq code c) = so_invite c \<and>
   so_inviteOk (on_response now cseq code c) = so_inviteOk c \<and> so_finalStatus (on_response now cseq code c) = so_finalStatus c \<and>
   so_nextCSeq (on_response now cseq code c) = so_nextCSeq c"
  by (simp add: on_response_def)

lemma fold_on_response [simp]:
  "so_wire (fold (on_response now cseq) codes c) = so_wire c" "so_invite (fold (on_response now cseq) codes c) = so_invite c"
  "so_inviteOk (fold (on_response now cseq) codes c) = so_inviteOk c"
  "so_finalStatus (fold (on_response now cseq) codes c) = so_finalStatus c"
  "so_nextCSeq (fold (on_response now cseq) codes c) = so_nextCSeq c"
  by (induction codes arbitrary: c) (simp_all add: on_response_keeps)

text \<open>What one attempt leaves behind: it uses one CSeq and sends at most one INVITE.\<close>

definition attempt_effect ::
  "string \<Rightarrow> string \<Rightarrow> (string \<times> string) option \<Rightarrow> sipOutbound \<Rightarrow> sipOutbound \<Rightarrow> bool \<Rightarrow> bool" where
  "attempt_effect dest sdp auth c d sent \<longleftrightarrow> so_nextCSeq d = so_nextCSeq c + 1 \<and> so_invite d = so_invite c \<and>
     so_inviteOk d = so_inviteOk c \<and> so_finalStatus d = so_finalStatus c \<and> bye_count (so_wire d) = bye_count (so_wire c) \<and>
     invites d = invites c @ (if sent then [(so_nextCSeq c, dest, sdp, auth)] else [])"

lemma attemptInvite_effect:
  assumes "attemptInvite a now dest sdp auth c = Some (d, cseq, r)"
  shows "cseq = so_nextCSeq c \<and> (\<exists>sent. attempt_effect dest sdp auth c d sent \<and> (sent \<or> (\<exists>err. r = Err err)))"
proof (cases "at_startErr a")
  case (Some e)
  then have "cseq = so_nextCSeq c" "attempt_effect dest sdp auth c d False" "r = Err e"
    using assms by (auto simp: attemptInvite_def setCSeq_out_def attempt_effect_def invites_def)
  then show ?thesis by blast
next
  case None
  then have "cseq = so_nextCSeq c" "attempt_effect dest sdp auth c d True"
    using assms by (auto simp: attemptInvite_def setCSeq_out_def attempt_effect_def invites_def Let_def
        split: option.splits if_split_asm)
  then show ?thesis by blast
qed

lemma invite_failed_keeps [simp]:
  "so_wire (invite_failed now cseq resp c) = so_wire c" "so_invite (invite_failed now cseq resp c) = so_invite c"
  "so_inviteOk (invite_failed now cseq resp c) = so_inviteOk c"
  by (auto simp: invite_failed_def Let_def split: option.splits)

lemma invite_failed_final:
  "so_finalStatus c \<noteq> 200 \<Longrightarrow> so_finalStatus (invite_failed now cseq resp c) \<noteq> 200"
  by (auto simp: invite_failed_def Let_def split: option.splits)

lemma invite_answered_effect:
  assumes "invite_answered e dest a cseq resp c = (d, r)"
  shows "so_wire d = so_wire c \<and> so_invite d \<and> so_inviteOk d \<and> so_finalStatus d = so_finalStatus c"
  using assms by (auto simp: invite_answered_def Let_def split: option.splits prod.splits if_splits)

text \<open>The effect of the loop: \<open>n\<close> INVITEs, numbered without gaps, and a dialog exactly when
  the last of them was answered with 200.\<close>

definition loop_effect ::
  "string \<Rightarrow> string \<Rightarrow> (string \<times> string) option \<Rightarrow> sipOutbound \<Rightarrow> sipOutbound \<Rightarrow> nat \<Rightarrow> bool" where
  "loop_effect dest sdp auth c d n \<longleftrightarrow> (\<exists>vs. invites d = invites c @ vs \<and> length vs \<le> n \<and>
     map fst vs = map (\<lambda>i. so_nextCSeq c + of_nat i) [0..<length vs] \<and>
     (\<forall>v\<in>set vs. fst (snd v) = dest \<and> fst (snd (snd v)) = sdp) \<and>
     (vs \<noteq> [] \<longrightarrow> snd (snd (snd (hd vs))) = auth)) \<and>
   bye_count (so_wire d) = bye_count (so_wire c)"

lemma loop_effect_0: "so_wire d = so_wire c \<Longrightarrow> loop_effect dest sdp auth c d n"
  by (simp add: loop_effect_def invites_def)

lemma loop_effect_1:
  assumes "attempt_effect dest sdp auth c c1 sent" "so_wire d = so_wire c1"
  shows "loop_effect dest sdp auth c d (Suc n)"
  using assms by (auto simp: loop_effect_def attempt_effect_def invites_def)

lemma loop_effect_Suc:
  assumes a: "attempt_effect dest sdp auth c c1 True" and w: "so_wire c2 = so_wire c1" "so_nextCSeq c2 = so_nextCSeq c1"
    and l: "loop_effect dest sdp auth' c2 d n"
  shows "loop_effect dest sdp auth c d (Suc n)"
proof -
  from l obtain vs where vs: "invites d = invites c2 @ vs" "length vs \<le> n"
    "map fst vs = map (\<lambda>i. so_nextCSeq c2 + of_nat i) [0..<length vs]"
    "\<forall>v\<in>set vs. fst (snd v) = dest \<and> fst (snd (snd v)) = sdp" "bye_count (so_wire d) = bye_count (so_wire c2)"
    by (auto simp: loop_effect_def)
  let ?v = "(so_nextCSeq c, dest, sdp, auth)"
  have "map fst (?v # vs) = map (\<lambda>i. so_nextCSeq c + of_nat i) [0..<length (?v # vs)]"
    using a w vs(3) by (simp add: attempt_effect_def upt_rec [of 0] map_Suc_upt [symmetric] del: upt_Suc)
  moreover have "invites d = invites c @ (?v # vs)" using a w vs(1) by (simp add: attempt_effect_def invites_def)
  ultimately show ?thesis using vs a w unfolding loop_effect_def
    by (intro conjI exI [of _ "?v # vs"]) (auto simp: attempt_effect_def)
qed


definition not_yet :: "sipOutbound \<Rightarrow> bool" where
  "not_yet c \<longleftrightarrow> \<not> so_invite c \<and> \<not> so_inviteOk c \<and> so_finalStatus c \<noteq> 200"

definition invite_outcome :: "sipOutbound \<Rightarrow> (go_error, string) result \<Rightarrow> bool" where
  "invite_outcome d r \<longleftrightarrow> so_invite d = so_inviteOk d \<and> (so_inviteOk d \<longleftrightarrow> so_finalStatus d = 200) \<and>
     ((\<exists>b. r = Ok b) \<longrightarrow> so_inviteOk d)"

lemma not_yet_failed: "not_yet c \<Longrightarrow> invite_outcome (invite_failed now cseq resp c) (Err err)"
  by (simp add: not_yet_def invite_outcome_def invite_failed_final)

text \<open>The four ways the loop goes on after an attempt.\<close>

lemma invite_loop_cases:
  assumes "invite_loop e dest k auth cseq0 resp0 c = Some (d, r)"
  obtains (max) "5 \<le> k" "d = invite_failed (ie_now e) cseq0 resp0 c" "r = Err (authError ErrAuthMaxRetry resp0)"
  | (tx) err cseq where "k < 5" "attemptInvite (ie_attempt e k) (ie_now e) dest (ie_sdp e) auth c = Some (d, cseq, Err err)"
      "r = Err err"
  | (ok) c1 cseq resp where "k < 5"
      "attemptInvite (ie_attempt e k) (ie_now e) dest (ie_sdp e) auth c = Some (c1, cseq, Ok resp)" "StatusCode resp = 200"
      "invite_answered e dest (ie_attempt e k) cseq resp
        (emitEvent (invite_event EventAnsweredReceived (ie_now e) 200 cseq) (c1\<lparr>so_finalStatus := 200\<rparr>)) = (d, r)"
  | (failed) c1 cseq resp err c2 where "k < 5"
      "attemptInvite (ie_attempt e k) (ie_now e) dest (ie_sdp e) auth c = Some (c1, cseq, Ok resp)" "StatusCode resp \<noteq> 200"
      "d = invite_failed (ie_now e) cseq (Some resp) c2" "r = Err err" "c2 = c1 \<or> (\<exists>ev. c2 = emitEvent ev c1)"
  | (again) c1 cseq resp cred ev auth' where "k < 5"
      "attemptInvite (ie_attempt e k) (ie_now e) dest (ie_sdp e) auth c = Some (c1, cseq, Ok resp)"
      "StatusCode resp = 401 \<or> StatusCode resp = 407" "answer_challenge e k resp = Ok cred"
      "invite_loop e dest (Suc k) auth' cseq (Some resp) (emitEvent ev c1) = Some (d, r)"
proof (cases "5 \<le> k")
  case True
  then show thesis using assms by (intro max) (simp_all add: invite_loop.simps [of e dest k])
next
  case False
  then obtain c1 cseq x where at: "attemptInvite (ie_attempt e k) (ie_now e) dest (ie_sdp e) auth c = Some (c1, cseq, x)"
    using assms by (auto simp: invite_loop.simps [of e dest k] split: option.splits)
  show thesis
  proof (cases x)
    case (Inl err)
    then show thesis using False at assms by (intro tx [of cseq err]) (auto simp: invite_loop.simps [of e dest k])
  next
    case (Inr resp)
    note eq = assms [unfolded invite_loop.simps [of e dest k] at Inr]
    consider "StatusCode resp = 200" | "StatusCode resp \<noteq> 200" "StatusCode resp \<noteq> 401" "StatusCode resp \<noteq> 407"
      | "StatusCode resp = 401 \<or> StatusCode resp = 407" by blast
    then show thesis
    proof cases
      case 1
      then show thesis using False at eq Inr by (intro ok [of c1 cseq resp]) simp_all
    next
      case 2
      then show thesis using False at eq Inr by (intro failed [of c1 cseq resp c1]) auto
    next
      case 3
      then have n: "StatusCode resp \<noteq> 200" by auto
      show thesis
      proof (cases "answer_challenge e k resp")
        case (Inl err)
        then show thesis using False at eq \<open>x = Inr resp\<close> 3 n
          by (intro failed [of c1 cseq resp "emitEvent (invite_event EventAuthChallenged (ie_now e) (StatusCode resp) cseq) c1"])
             (auto simp: Let_def)
      next
        case (Inr cred)
        then show thesis using False at eq \<open>x = Inr resp\<close> 3 n
          by (intro again [of c1 cseq resp cred]) (auto simp: Let_def)
      qed
    qed
  qed
qed


lemma invite_loop_effect:
  assumes "invite_loop e dest k auth cseq0 resp0 c = Some (d, r)" "not_yet c"
  shows "loop_effect dest (ie_sdp e) auth c d (5 - k) \<and> invite_outcome d r"
  using assms
proof (induction "5 - k" arbitrary: k auth cseq0 resp0 c)
  case 0
  then have "5 \<le> k" by simp
  with 0(2) show ?case by (cases rule: invite_loop_cases) (auto intro: loop_effect_0 not_yet_failed [OF 0(3)])
next
  case (Suc n)
  then have s: "5 - k = Suc n" by simp
  note keep = attempt_effect_def not_yet_def
  from Suc.prems(1) show ?case
  proof (cases rule: invite_loop_cases)
    case max
    then show ?thesis using s by simp
  next
    case (tx err cseq)
    then show ?thesis using attemptInvite_effect [OF tx(2)] Suc.prems(2) s loop_effect_1 [of _ _ _ c d _ d]
      by (auto simp: keep invite_outcome_def)
  next
    case (ok c1 cseq resp)
    from attemptInvite_effect [OF ok(2)] have "attempt_effect dest (ie_sdp e) auth c c1 True" by auto
    then show ?thesis using invite_answered_effect [OF ok(4)] s loop_effect_1 [of _ _ _ c c1 True d]
      by (simp add: invite_outcome_def)
  next
    case (failed c1 cseq resp err c2)
    from attemptInvite_effect [OF failed(2)] have eff: "attempt_effect dest (ie_sdp e) auth c c1 True" by auto
    then have "not_yet c2" "so_wire c2 = so_wire c1" using Suc.prems(2) failed(6) by (auto simp: keep)
    then show ?thesis using s failed(4,5) loop_effect_1 [OF eff, of d] not_yet_failed by simp
  next
    case (again c1 cseq resp cred ev auth')
    from attemptInvite_effect [OF again(2)] have eff: "attempt_effect dest (ie_sdp e) auth c c1 True" by auto
    then have "not_yet (emitEvent ev c1)" using Suc.prems(2) by (auto simp: keep)
    moreover have "n = 5 - Suc k" using s by simp
    ultimately have "loop_effect dest (ie_sdp e) auth' (emitEvent ev c1) d n" "invite_outcome d r"
      using Suc.hyps(1) [of "Suc k"] again(5) by auto
    then show ?thesis using loop_effect_Suc [OF eff _ _ \<open>loop_effect dest (ie_sdp e) auth' (emitEvent ev c1) d n\<close>] s
      by simp
  qed
qed

text \<open>C16: one outbound INVITE sends at most five INVITE requests; they are numbered 1, 2, ...
  without gaps, all carry the same offer to the same destination, and the first carries
  no credentials.\<close>

theorem outbound_invite_requests:
  assumes "Invite e ((newOutbound hash cid uri st)\<lparr>so_routeHeaders := rhs, so_preferSRV := srv\<rparr>) = Some (d, r)"
  shows "length (invites d) \<le> 5 \<and> map fst (invites d) = map (\<lambda>i. of_nat (Suc i)) [0..<length (invites d)] \<and>
    (\<forall>v\<in>set (invites d). fst (snd v) = resolveDest srv rhs (map fst (ie_headers e)) (ie_resolved e) \<and>
       fst (snd (snd v)) = ie_sdp e) \<and>
    (invites d \<noteq> [] \<longrightarrow> snd (snd (snd (hd (invites d)))) = None)"
proof -
  have "not_yet ((newOutbound hash cid uri st)\<lparr>so_routeHeaders := rhs, so_preferSRV := srv\<rparr>)"
    by (simp add: newOutbound_def not_yet_def)
  from invite_loop_effect [OF assms [unfolded Invite_def] this] show ?thesis
    by (auto simp: loop_effect_def newOutbound_def invites_def)
qed

text \<open>A transaction answered at once, and two environments: a challenge that is never
  satisfied, and a challenge followed by the 200.\<close>

definition demo_resp :: "int \<Rightarrow> sip_response" where
  "demo_resp code = \<lparr>StatusCode = code, RespReason = '''', RespHeader = (\<lambda>_. Some ''Digest''), RespBody = ''sdp2''\<rparr>"

definition demo_attempt :: "int \<Rightarrow> attempt" where
  "demo_attempt code = \<lparr>at_startErr = None, at_events = [TxResponse (Some (demo_resp code))], at_to = Some [(''tag'', ''rt'')],
     at_contact = None, at_recordRoutes = []\<rparr>"

definition demo_env :: "(nat \<Rightarrow> int) \<Rightarrow> invite_env" where
  "demo_env code = \<lparr>ie_user = ''u'', ie_pass = ''p'', ie_headers = [], ie_resolved = None, ie_sdp = ''sdp'', ie_now = 0,
     ie_attempt = (\<lambda>k. demo_attempt (code k)), ie_challenge = (\<lambda>_. None), ie_digest = (\<lambda>_. Ok ''cred'')\<rparr>"

definition demo_uri :: sip_uri where
  "demo_uri = \<lparr>User = ''1'', Host = ''h'', Port = 0, UriParams = []\<rparr>"

abbreviation demo_out :: sipOutbound where
  "demo_out \<equiv> newOutbound (\<lambda>x. x) ''SCL_1'' demo_uri None"

abbreviation demo_answered :: invite_env where
  "demo_answered \<equiv> demo_env (\<lambda>k. if k = 0 then 407 else 200)"

lemma demo_attemptInvite:
  "attemptInvite (demo_attempt code) now dest sdp auth c = (let n = so_nextCSeq c in
     if code div 100 = 1 then None else Some (on_response now n code
       (emitEvent ((new_event EventInviteSent (Some now))\<lparr>evSIPMethod := ''INVITE'', evCSeq := n\<rparr>)
         (osend (WInvite n dest sdp auth) (c\<lparr>so_nextCSeq := n + 1\<rparr>))), n, Ok (demo_resp code)))"
  by (simp add: attemptInvite_def demo_attempt_def setCSeq_out_def sipResponse_def Let_def demo_resp_def)

lemma demo_answer_challenge: "answer_challenge (demo_env f) k (demo_resp 407) = Ok (''Proxy-Authorization'', ''cred'')"
  by (simp add: answer_challenge_def demo_env_def demo_resp_def demo_attempt_def)


lemma demo_env_simps [simp]:
  "ie_attempt (demo_env code) k = demo_attempt (code k)" "ie_now (demo_env code) = 0" "ie_sdp (demo_env code) = ''sdp''"
  "StatusCode (demo_resp n) = n" "RespBody (demo_resp n) = ''sdp2''" "at_to (demo_attempt n) = Some [(''tag'', ''rt'')]"
  by (simp_all add: demo_env_def demo_resp_def demo_attempt_def)

lemma invite_loop_step:
  "k < 5 \<Longrightarrow> code k = 407 \<Longrightarrow> invite_loop (demo_env code) dest k auth cseq0 resp0 c =
     invite_loop (demo_env code) dest (Suc k) (Some (''Proxy-Authorization'', ''cred'')) (so_nextCSeq c) (Some (demo_resp 407))
       (emitEvent (invite_event EventAuthChallenged 0 407 (so_nextCSeq c)) (on_response 0 (so_nextCSeq c) 407
          (emitEvent ((new_event EventInviteSent (Some 0))\<lparr>evSIPMethod := ''INVITE'', evCSeq := so_nextCSeq c\<rparr>)
            (osend (WInvite (so_nextCSeq c) dest ''sdp'' auth) (c\<lparr>so_nextCSeq := so_nextCSeq c + 1\<rparr>)))))"
  by (simp add: invite_loop.simps [of "demo_env code" dest k] demo_attemptInvite Let_def demo_answer_challenge)

lemma invite_loop_200:
  "k < 5 \<Longrightarrow> code k = 200 \<Longrightarrow> \<exists>d. invite_loop (demo_env code) dest k auth cseq0 resp0 c = Some (d, Ok ''sdp2'') \<and>
     so_inviteOk d \<and> so_invite d \<and> invites d = invites c @ [(so_nextCSeq c, dest, ''sdp'', auth)] \<and>
     bye_count (so_wire d) = bye_count (so_wire c)"
  by (simp add: invite_loop.simps [of "demo_env code" dest k] demo_attemptInvite Let_def invite_answered_def on_response_def
       getTagFrom_def invites_def)

lemma demo_answered_run:
  "\<exists>d. Invite demo_answered (demo_out\<lparr>so_routeHeaders := [], so_preferSRV := False\<rparr>) = Some (d, Ok ''sdp2'') \<and>
     so_inviteOk d \<and> so_invite d \<and> length (invites d) = 2 \<and> bye_count (so_wire d) = 0"
proof -
  let ?c0 = "demo_out\<lparr>so_routeHeaders := [], so_preferSRV := False\<rparr>"
  have c0: "so_nextCSeq ?c0 = 1" "so_wire ?c0 = []" "so_routeHeaders ?c0 = []" "\<not> so_preferSRV ?c0"
    by (simp_all add: newOutbound_def)
  obtain c1 where c1: "Invite demo_answered ?c0 = invite_loop demo_answered '''' (Suc 0)
      (Some (''Proxy-Authorization'', ''cred'')) 1 (Some (demo_resp 407)) c1" "length (invites c1) = 1" "bye_count (so_wire c1) = 0"
    using c0 by (simp add: Invite_def invite_loop_step resolveDest_def) (simp add: on_response_def invites_def)
  from invite_loop_200 [of "Suc 0" "\<lambda>k. if k = 0 then 407 else 200" "''''" "Some (''Proxy-Authorization'', ''cred'')" 1
      "Some (demo_resp 407)" c1] c1 show ?thesis by auto
qed


theorem outbound_invite_requests_witness:
  "\<exists>d. length (invites d) = 2 \<and> map fst (invites d) = [1, 2] \<and> snd (snd (snd (hd (invites d)))) = None"
proof -
  obtain d where d: "Invite demo_answered (demo_out\<lparr>so_routeHeaders := [], so_preferSRV := False\<rparr>) = Some (d, Ok ''sdp2'')"
    "length (invites d) = 2" using demo_answered_run by blast
  from d(2) have "invites d \<noteq> []" by auto
  moreover have "map (\<lambda>i. of_nat (Suc i)) [0..<2] = ([1, 2] :: 32 word list)"
    by (simp add: upt_rec [of 0] upt_rec [of 1] upt_rec [of "Suc 0"])
  ultimately show ?thesis using outbound_invite_requests [OF d(1)] d(2) by metis
qed

text \<open>C17: an outbound INVITE returns as soon as each of its transactions does: whatever the
  peer answers, challenges included, the loop ends.\<close>

theorem outbound_invite_ends:
  assumes "\<forall>k<5. at_startErr (ie_attempt e k) \<noteq> None \<or> sipResponse (at_events (ie_attempt e k)) \<noteq> None"
  shows "\<exists>d r. Invite e c = Some (d, r)"
proof -
  have at: "attemptInvite (ie_attempt e k) (ie_now e) dest (ie_sdp e) auth c \<noteq> None" if "k < 5" for k dest auth c
    using assms that by (auto simp: attemptInvite_def setCSeq_out_def Let_def split: option.splits)
  have "invite_loop e dest k auth n resp c \<noteq> None" for dest k auth n resp c
  proof (induction "5 - k" arbitrary: k auth n resp c)
    case (Suc m)
    then have k: "k < 5" "m = 5 - Suc k" by auto
    from Suc(1) [OF k(2)] show ?case
      using k(1) at [of k dest auth c] by (auto simp: invite_loop.simps [of e dest k] Let_def split: sum.splits)
  qed (simp add: invite_loop.simps)
  then show ?thesis by (auto simp: Invite_def)
qed

theorem outbound_invite_ends_witness: "\<exists>d r. Invite (demo_env (\<lambda>_. 407)) demo_out = Some (d, r)"
  by (rule outbound_invite_ends) (simp add: demo_attempt_def sipResponse_def)

definition demo_bye :: "bool \<Rightarrow> obye_env" where
  "demo_bye closing = \<lparr>ob_closing = closing, ob_stackCSeq = 3, ob_dest = ''h'', ob_res = Ok (demo_resp 200), ob_now = 2\<rparr>"

text \<open>A dialog that was not answered with 200 never sends a BYE.\<close>

lemma unanswered_no_bye:
  assumes "odlg_inv c" "so_finalStatus c \<noteq> 200" "run (odlg_step False) ops c = Some d"
  shows "bye_count (so_wire d) = bye_count (so_wire c)"
proof -
  let ?P = "\<lambda>s. so_finalStatus s \<noteq> 200 \<and> bye_count (so_wire s) = bye_count (so_wire c)"
  have "?P d"
  proof (rule outbound_dialog.run_stable [where P = ?P, OF _ assms(1) _ assms(3)])
    fix x s s'
    assume s: "odlg_inv s" "?P s" "odlg_step False x s = Some s'"
    then have "\<not> so_inviteOk s" by (simp add: odlg_inv_def)
    then show "?P s'" using s odlg_step_final [OF s(3)] outbound_hangup.bye_established [OF s(1,3)] by metis
  qed (use assms(2) in simp)
  then show ?thesis by simp
qed

text \<open>C15: the outcome of an outbound INVITE and everything after it: the dialog is
  established exactly when the final response is 200, a body is returned only then, and
  while the service is not shutting down at most one BYE is ever sent, only for a call
  that was answered with 200, leaving no dialog behind.\<close>

theorem outbound_bye_once_after_200:
  assumes "Invite e ((newOutbound hash cid uri st)\<lparr>so_routeHeaders := rhs, so_preferSRV := srv\<rparr>) = Some (c, r)"
    and "run (odlg_step False) ops c = Some d"
  shows "(so_inviteOk c \<longleftrightarrow> so_finalStatus c = 200) \<and> ((\<exists>b. r = Ok b) \<longrightarrow> so_inviteOk c) \<and>
    bye_count (so_wire d) \<le> 1 \<and>
    (bye_count (so_wire d) = 1 \<longrightarrow> \<not> so_invite d \<and> \<not> so_inviteOk d \<and> so_finalStatus d = 200)"
proof -
  let ?c0 = "(newOutbound hash cid uri st)\<lparr>so_routeHeaders := rhs, so_preferSRV := srv\<rparr>"
  have "not_yet ?c0" by (simp add: newOutbound_def not_yet_def)
  from invite_loop_effect [OF assms(1) [unfolded Invite_def] this]
  have inv: "odlg_inv c" and out: "invite_outcome c r" and z: "bye_count (so_wire c) = 0"
    by (auto simp: invite_outcome_def odlg_inv_def loop_effect_def newOutbound_def)
  note once = outbound_hangup.run_byes [OF inv z assms(2)]
  have "odlg_inv d" using outbound_dialog.run_keeps [OF inv assms(2)] .
  moreover have "so_finalStatus d = 200" if "bye_count (so_wire d) = 1"
  proof (rule ccontr)
    assume "so_finalStatus d \<noteq> 200"
    then have "so_finalStatus c \<noteq> 200" using outbound_dialog.run_stable [of "\<lambda>s. so_finalStatus s = 200", OF _ inv _ assms(2)]
      odlg_step_final by metis
    then show False using unanswered_no_bye [OF inv _ assms(2)] z that by simp
  qed
  ultimately show ?thesis using out once by (auto simp: invite_outcome_def odlg_inv_def)
qed

theorem outbound_bye_once_after_200_witness:
  "\<exists>c d. run (odlg_step False) [OAck None 1, OClose (demo_bye False), OClose (demo_bye False)] c = Some d \<and>
     so_finalStatus c = 200 \<and> bye_count (so_wire d) = 1 \<and> \<not> so_inviteOk d"
proof -
  obtain c where c: "Invite demo_answered (demo_out\<lparr>so_routeHeaders := [], so_preferSRV := False\<rparr>) = Some (c, Ok ''sdp2'')"
    "so_inviteOk c" "so_invite c" "bye_count (so_wire c) = 0" using demo_answered_run by blast
  obtain d where d: "run (odlg_step False) [OAck None 1, OClose (demo_bye False), OClose (demo_bye False)] c = Some d"
    "bye_count (so_wire d) = 1" using c(2-4) by (simp add: odlg_defs demo_bye_def)
  from outbound_bye_once_after_200 [OF c(1) d(1)] c(2) d show ?thesis by blast
qed

text \<open>While the service is shutting down, hanging up does not forget the dialog, so each
  further \<open>Close\<close> of an established call sends another BYE.\<close>

theorem shutdown_close_repeats_bye:
  assumes "so_invite c" "so_inviteOk c"
  shows "\<exists>d. run (odlg_step True) (map OClose es) c = Some d \<and> so_inviteOk d \<and> so_nextCSeq d = so_nextCSeq c \<and>
    bye_count (so_wire d) = bye_count (so_wire c) + length es"
  using assms
proof (induction es arbitrary: c)
  case (Cons e es)
  let ?c = "Close_out (e\<lparr>ob_closing := True\<rparr>) c"
  have "so_invite ?c" "so_inviteOk ?c" "so_nextCSeq ?c = so_nextCSeq c" "bye_count (so_wire ?c) = Suc (bye_count (so_wire c))"
    using Cons.prems by (simp_all add: Close_out_def sendBye_out_def)
  with Cons.IH [of ?c] show ?case by simp
qed simp

theorem shutdown_close_repeats_bye_witness:
  "\<exists>c d. run (odlg_step True) [OClose (demo_bye True), OClose (demo_bye True)] c = Some d \<and>
     bye_count (so_wire d) = bye_count (so_wire c) + 2"
proof -
  obtain c :: sipOutbound where "so_invite c" "so_inviteOk c" using demo_answered_run by auto
  from shutdown_close_repeats_bye [OF this, of "[demo_bye True, demo_bye True]"] show ?thesis by fastforce
qed

text \<open>A cancelled INVITE is watched to the end: if the first non-provisional response is
  a 2xx, exactly one ACK and one BYE are sent and the late answer is reported; any other
  end sends nothing.\<close>

theorem cancelled_invite_late_answer:
  assumes "watchCancelledInvite cseq bseq dest evs = Some (ws, late)"
  shows "\<exists>pre ev post. evs = pre @ ev # post \<and>
    (\<forall>p\<in>set pre. \<exists>r. p = WaResponse (Some r) \<and> StatusCode r div 100 = 1) \<and>
    (case ev of WaResponse (Some r) \<Rightarrow> StatusCode r div 100 \<noteq> 1 \<and>
         (if StatusCode r div 100 = 2 then ws = [WAck cseq, WBye False bseq dest] \<and> late = Some (StatusCode r)
          else ws = [] \<and> late = None)
     | _ \<Rightarrow> ws = [] \<and> late = None)"
  using assms
proof (induction cseq bseq dest evs rule: watchCancelledInvite.induct)
  case (3 cseq bseq dest res es)
  show ?case
  proof (cases "StatusCode res div 100 = 1")
    case True
    with 3 obtain pre ev post where "es = pre @ ev # post" and
      "\<forall>p\<in>set pre. \<exists>r. p = WaResponse (Some r) \<and> StatusCode r div 100 = 1" and
      "case ev of WaResponse (Some r) \<Rightarrow> StatusCode r div 100 \<noteq> 1 \<and>
         (if StatusCode r div 100 = 2 then ws = [WAck cseq, WBye False bseq dest] \<and> late = Some (StatusCode r)
          else ws = [] \<and> late = None)
        | _ \<Rightarrow> ws = [] \<and> late = None" by auto
    then show ?thesis using True by (intro exI [of _ "WaResponse (Some res) # pre"] exI [of _ ev] exI [of _ post]) simp
  next
    case False
    then show ?thesis using 3(2)
      by (intro exI [of _ "[]"] exI [of _ "WaResponse (Some res)"] exI [of _ es]) (auto split: if_splits)
  qed
next
  case (2 cseq bseq dest es)
  then show ?case by (intro exI [of _ "[]"] exI [of _ "WaResponse None"] exI [of _ es]) simp
next
  case (4 cseq bseq dest es)
  then show ?case by (intro exI [of _ "[]"] exI [of _ WaDone] exI [of _ es]) simp
next
  case (5 cseq bseq dest es)
  then show ?case by (intro exI [of _ "[]"] exI [of _ WaTimer] exI [of _ es]) simp
qed simp

theorem cancelled_invite_late_answer_witness:
  "\<exists>pre ev post. [WaResponse (Some (demo_resp 180)), WaResponse (Some (demo_resp 200)), WaTimer] = pre @ ev # post \<and>
    (\<forall>p\<in>set pre. \<exists>r. p = WaResponse (Some r) \<and> StatusCode r div 100 = 1)"
  using cancelled_invite_late_answer [of 1 2 "''h''"
      "[WaResponse (Some (demo_resp 180)), WaResponse (Some (demo_resp 200)), WaTimer]"
      "[WAck 1, WBye False 2 ''h'']" "Some 200"] by (simp only: watchCancelledInvite.simps) auto

end
