(* ===== verification/InboundCall.thy ===== *)
theory InboundCall
  imports InboundDialog
begin

text \<open>
  \<open>inboundCall\<close> of src/pkg/sip/inbound.go: one call from the accepted INVITE to its
  end.  \<open>handleInvite\<close> is the whole life of the call; it runs against an environment
  that fixes what the dispatch service, the media port, the room, the callee's
  side and the clock do.  While it waits, the SIP peer acts on the same call
  (CANCEL, ACK, BYE); those actions are interleaved before each wait.  The media
  port and the room are represented by whether they exist and are open.
\<close>

section \<open>State\<close>

text \<open>An \<open>EndCall\<close> with no report, no disconnect reason and no headers.\<close>

definition end_call :: "CallStatus \<Rightarrow> Termination \<Rightarrow> int \<Rightarrow> EndCall" where
  "end_call st t code = \<lparr>Report = None, Status = st, Term = t, Reason = UNKNOWN_REASON, EHeaders = [], Code = code\<rparr>"

lemma end_call_simps [simp]: "Status (end_call st t code) = st" "Term (end_call st t code) = t" "Code (end_call st t code) = code"
  by (simp_all add: end_call_def)

datatype SetupOutcome = SetupAnswered | SetupAbandoned

text \<open>\<open>ic_sessionEnds\<close> are the reasons passed to \<open>OnSessionEnd\<close>, \<open>ic_rejected\<close> what was
  added to the cache of rejected INVITEs, \<open>ic_attrs\<close> the values of the call status
  attribute and \<open>ic_timeouts\<close> the calls of the media port's \<open>SetTimeout\<close>.\<close>

record inboundCall =
  ic_cc :: sipInbound
  ic_mon :: CallMonitor
  ic_metrics :: Monitor
  ic_done :: bool
  ic_ctxDone :: bool
  ic_closeReason :: "ReasonHeader option"
  ic_byeReceived :: bool
  ic_media :: bool
  ic_mediaOpen :: bool
  ic_audio :: "string option"
  ic_roomOpen :: bool
  ic_joined :: bool
  ic_registered :: bool
  ic_transferReg :: bool
  ic_started :: bool
  ic_lateAnswerPending :: bool
  ic_accepted :: bool
  ic_projectID :: string
  ic_setup :: "SetupOutcome list"
  ic_attrs :: "string list"
  ic_timeouts :: "(int \<times> int) list"
  ic_sessionEnds :: "string list"
  ic_rejected :: "rejected_entry list"

definition newInboundCall :: "CallMonitor \<Rightarrow> Monitor \<Rightarrow> sipInbound \<Rightarrow> inboundCall" where
  "newInboundCall mon m cc = \<lparr>ic_cc = cc, ic_mon = mon, ic_metrics = m, ic_done = False, ic_ctxDone = False,
     ic_closeReason = None, ic_byeReceived = False, ic_media = False, ic_mediaOpen = False, ic_audio = None,
     ic_roomOpen = True, ic_joined = False, ic_registered = True, ic_transferReg = False, ic_started = False,
     ic_lateAnswerPending = False, ic_accepted = False, ic_projectID = '''', ic_setup = [], ic_attrs = [], ic_timeouts = [],
     ic_sessionEnds = [], ic_rejected = []\<rparr>"

text \<open>What the outside does during one call.  \<open>he_msg\<close> is the \<open>Error()\<close> method.\<close>

record dispatch =
  diResult :: DispatchResult
  diRoomName :: string
  diProjectID :: string
  diTrunkID :: string
  diRuleID :: string
  diLateOffer :: bool
  diRingingTimeoutStatus :: int

datatype peer_op = PTick bool int | PCancel int | PAck "32 word option" string int | PBye ReasonHeader "32 word" int

datatype wait_event = WtCancelled | WtCtxDone | WtRoomClosed | WtMediaTimeout | WtEndCall EndCall | WtTimer | WtReady

datatype pin_event = PinCancelled | PinCtxDone | PinMediaTimeout | PinClosed | PinDigit "char option"

datatype end_event = CeStats | CeTick | CeCtxDone | CeEnd EndCall | CeRoomClosed DisconnectReason | CeMediaTimeout
  | CeAck | CeAckTimeout

record hi_env =
  he_now :: int
  he_msg :: "go_error \<Rightarrow> string"
  he_ringOk :: bool
  he_respOk :: bool
  he_close :: close_env
  he_disp :: dispatch
  he_mediaConfigErr :: "go_error option"
  he_portErr :: "go_error option"
  he_offer :: string
  he_genOffer :: "(go_error, string) result"
  he_genAnswer :: "(go_error, string) result"
  he_audio :: "string option"
  he_waitACK :: bool
  he_rounds :: "nat \<Rightarrow> acc_round"
  he_acceptOps :: "peer_op list"
  he_processAnswer :: "(go_error, string) result"
  he_mediaOps :: "peer_op list"
  he_mediaWait :: wait_event
  he_pin :: "(peer_op list \<times> pin_event) list"
  he_pinDisp :: "string \<Rightarrow> bool \<Rightarrow> dispatch"
  he_regErr :: "go_error option"
  he_joinErr :: "go_error option"
  he_roomSID :: "string option"
  he_publishErr :: "go_error option"
  he_subOps :: "peer_op list"
  he_subWait :: wait_event
  he_end :: "(peer_op list \<times> end_event) list"
  he_timeoutInitial :: int
  he_timeout :: int

section \<open>Closing\<close>

definition ic_emit :: "SignalingEvent \<Rightarrow> inboundCall \<Rightarrow> inboundCall" where
  "ic_emit ev c = c\<lparr>ic_cc := emit ev (ic_cc c)\<rparr>"

definition ic_state :: "(CallState \<Rightarrow> CallState) \<Rightarrow> inboundCall \<Rightarrow> inboundCall" where
  "ic_state f c = c\<lparr>ic_cc := (ic_cc c)\<lparr>si_state := map_option f (si_state (ic_cc c))\<rparr>\<rparr>"

definition setStatus :: "CallStatus \<Rightarrow> inboundCall \<Rightarrow> inboundCall" where
  "setStatus v c = (if Attribute v = '''' \<or> \<not> ic_joined c then c else c\<lparr>ic_attrs := ic_attrs c @ [Attribute v]\<rparr>)"

definition end_result :: "EndCall \<Rightarrow> ResultSt" where
  "end_result en = (let
     r = (if Status en = callMediaFailed then \<lparr>RCode = 488, RStatus = ''Media Failed''\<rparr>
          else if Status en = CallCancelled then \<lparr>RCode = 487, RStatus = ''Request Terminated''\<rparr>
          else \<lparr>RCode = 486, RStatus = ''Rejected''\<rparr>)
   in if Code en \<ge> 300 then \<lparr>RCode = Code en, RStatus = sipStatusOr (Code en) (RStatus r)\<rparr> else r)"

definition closeMedia :: "inboundCall \<Rightarrow> inboundCall" where
  "closeMedia c = c\<lparr>ic_roomOpen := False, ic_mediaOpen := False\<rparr>"

text \<open>The part of \<open>close\<close> before the dialog is closed: metrics and status.\<close>

definition close_account :: "EndCall \<Rightarrow> inboundCall \<Rightarrow> inboundCall" where
  "close_account en c = (let
     c1 = setStatus (Status en) (c\<lparr>ic_done := True\<rparr>);
     (mon, m) = CallTerminate (Term en) (ic_mon c1) (ic_metrics c1)
   in c1\<lparr>ic_mon := mon, ic_metrics := m,
        ic_setup := ic_setup c1 @ [if ic_accepted c1 then SetupAnswered else SetupAbandoned]\<rparr>)"

definition close_call :: "close_env \<Rightarrow> int \<Rightarrow> EndCall \<Rightarrow> inboundCall \<Rightarrow> inboundCall" where
  "close_call e now en c = (if ic_done c then c
     else let
       c1 = close_account en c;
       c2 = c1\<lparr>ic_cc := CloseWithStatus e (end_result en) (ic_cc c1)\<rparr>;
       c3 = ic_emit (callEndedEvent (Some now) (Term en) (lastStatusCode (ic_cc c2))) c2;
       c4 = (closeMedia c3)\<lparr>ic_registered := False, ic_transferReg := False\<rparr>;
       c5 = (case si_lastCallStatus (ic_cc c4) of
           Some st \<Rightarrow> ic_state (DeferUpdate (\<lambda>info. info\<lparr>ciStatusCode := Some st\<rparr>)) c4
         | None \<Rightarrow> c4)
     in c5\<lparr>ic_sessionEnds := ic_sessionEnds c5 @ [TReason (Term en)], ic_ctxDone := True\<rparr>)"

definition closeWithTerm :: "close_env \<Rightarrow> int \<Rightarrow> Termination \<Rightarrow> inboundCall \<Rightarrow> inboundCall" where
  "closeWithTerm e now t c = close_call e now (end_call callDropped t 0) c"

definition closeWithTimeout :: "(go_error \<Rightarrow> string) \<Rightarrow> close_env \<Rightarrow> int \<Rightarrow> bool \<Rightarrow> inboundCall \<Rightarrow> inboundCall" where
  "closeWithTimeout msg e now isError c = (let
     c1 = (if isError then c else ic_state (DeferUpdate (\<lambda>info. if ciError info = ''''
             then info\<lparr>ciError := msg (EPsrpc DeadlineExceeded (ENew ''media-timeout''))\<rparr> else info)) c)
   in close_call e now (end_call ((if isError then callDropped else callHangupMedia)) (Indeterminate ''media-timeout'') 0) c1)"

definition closeWithNoACK :: "close_env \<Rightarrow> int \<Rightarrow> inboundCall \<Rightarrow> inboundCall" where
  "closeWithNoACK e now c = close_call e now (end_call callNoACK (Indeterminate ''no-ack'') 0) c"

definition closeWith :: "close_env \<Rightarrow> int \<Rightarrow> CallStatus \<Rightarrow> Termination \<Rightarrow> ReasonHeader \<Rightarrow> inboundCall \<Rightarrow> inboundCall" where
  "closeWith e now status t reason c = (let
     c1 = ic_state (DeferUpdate (\<lambda>info. (info\<lparr>ciReason := CLIENT_INITIATED\<rparr>)
            \<lparr>ciError := if ciError info = '''' \<and> \<not> IsNormal reason then ReasonHeader_String reason else ciError info\<rparr>)) c;
     t1 = (if rType reason \<noteq> '''' \<and> \<not> IsNormal reason
           then t\<lparr>TReason := ''bye-'' @ ToLower (rType reason) @ ''-'' @ Itoa (rCause reason)\<rparr> else t)
   in close_call e now (end_call status t1 0) c1)"

definition close_reason :: "inboundCall \<Rightarrow> ReasonHeader" where
  "close_reason c = (case ic_closeReason c of Some r \<Rightarrow> r | None \<Rightarrow> zero_reason)"

definition closeWithCancelled :: "close_env \<Rightarrow> int \<Rightarrow> inboundCall \<Rightarrow> inboundCall" where
  "closeWithCancelled e now c = closeWith e now CallCancelled (Success ''cancelled'') (close_reason c) c"

definition closeWithHangup :: "close_env \<Rightarrow> int \<Rightarrow> inboundCall \<Rightarrow> inboundCall" where
  "closeWithHangup e now c = closeWith e now CallHangup (Success ''hangup'') (close_reason c) c"

definition Shutdown :: "close_env \<Rightarrow> int \<Rightarrow> inboundCall \<Rightarrow> inboundCall" where
  "Shutdown e now c = closeWithTerm e now (ServerError ''shutdown'') c"

definition mediaTimeout :: "hi_env \<Rightarrow> inboundCall \<Rightarrow> inboundCall \<times> go_error option" where
  "mediaTimeout h c = (if \<not> si_acked (ic_cc c)
     then (closeWithNoACK (he_close h) (he_now h) c, Some (EPsrpc DeadlineExceeded errNoACK))
     else (closeWithTimeout (he_msg h) (he_close h) (he_now h) False c, None))"


section \<open>The peer's side\<close>

text \<open>\<open>HandleBye\<close> on a call that exists: the BYE is answered, reported once, and the call's
  context is cancelled with the peer's reason.\<close>

definition Bye_in :: "ReasonHeader \<Rightarrow> inboundCall \<Rightarrow> inboundCall" where
  "Bye_in reason c = c\<lparr>ic_closeReason := Some reason, ic_ctxDone := True\<rparr>"

definition handle_bye :: "ReasonHeader \<Rightarrow> 32 word \<Rightarrow> int \<Rightarrow> inboundCall \<Rightarrow> inboundCall" where
  "handle_bye reason cseq now c = (let
     c1 = c\<lparr>ic_cc := AcceptBye (ic_cc c)\<rparr>;
     c2 = (if ic_byeReceived c1 then c1
           else ic_emit ((new_event EventByeReceived (Some now))\<lparr>evSIPMethod := ''BYE'', evCSeq := cseq,
                  evReason := reasonCause reason\<rparr>) (c1\<lparr>ic_byeReceived := True\<rparr>))
   in Bye_in reason c2)"

fun peer_step :: "peer_op \<Rightarrow> inboundCall \<Rightarrow> inboundCall option" where
  "peer_step (PTick ok now) c = Some (c\<lparr>ic_cc := ring_tick ok now (ic_cc c)\<rparr>)"
| "peer_step (PCancel now) c = map_option (\<lambda>cc. c\<lparr>ic_cc := cc\<rparr>) (ring_cancel now (ic_cc c))"
| "peer_step (PAck cseq body now) c = Some (c\<lparr>ic_cc := AcceptAck cseq body now (ic_cc c)\<rparr>)"
| "peer_step (PBye reason cseq now) c = Some (handle_bye reason cseq now c)"

section \<open>Stages of the call\<close>

text \<open>\<open>RespondAndDrop\<close> with the cache of rejected INVITEs.\<close>

definition ic_reject :: "hi_env \<Rightarrow> int \<Rightarrow> string \<Rightarrow> inboundCall \<Rightarrow> inboundCall" where
  "ic_reject h status reason c = (case RespondAndDrop (he_respOk h) (he_now h) status reason (ic_cc c) of (cc, entry) \<Rightarrow>
     c\<lparr>ic_cc := cc, ic_rejected := (case entry of Some x \<Rightarrow> ic_rejected c @ [x] | None \<Rightarrow> ic_rejected c)\<rparr>)"

definition media_reject :: "go_error \<Rightarrow> CallStatus \<times> Termination \<times> int \<times> string" where
  "media_reject err =
     (if errors_Is err ErrNoCommonMedia then (callMediaFailed, ClientError ''no-common-codec'', 488, ''No Acceptable Codec'')
      else if errors_Is err ErrNoCommonCrypto then
        (callMediaFailed, ClientError ''no-common-crypto'', 488, ''No Acceptable Encryption Profile'')
      else if list_ex is_sdp_error (chain err) then (callMediaFailed, ClientError ''sdp-error'', 488, ''Invalid SDP'')
      else (callDropped, ServerError ''media-failed'', 500, ''''))"

definition rejectMedia :: "hi_env \<Rightarrow> go_error \<Rightarrow> inboundCall \<Rightarrow> inboundCall" where
  "rejectMedia h err c = (case media_reject err of (status, t, code, phrase) \<Rightarrow>
     close_call (he_close h) (he_now h) (end_call status t 0) (ic_reject h code phrase c))"

definition createMediaPort :: "hi_env \<Rightarrow> inboundCall \<Rightarrow> inboundCall \<times> go_error option" where
  "createMediaPort h c = (if ic_media c then (c, None)
     else (case he_portErr h of
         Some e \<Rightarrow> (c, Some e)
       | None \<Rightarrow> (c\<lparr>ic_media := True, ic_mediaOpen := True\<rparr>, None)))"

text \<open>The codec itself is not part of the call information here; recording it makes the
  information dirty.\<close>

definition updateCallStateAudio :: "inboundCall \<Rightarrow> inboundCall \<times> go_error option" where
  "updateCallStateAudio c = (if ic_audio c = None then (c, Some (ENew ''media does not have negotiated audio''))
     else (ic_state (DeferUpdate (\<lambda>info. info)) c, None))"

definition negotiateMedia :: "hi_env \<Rightarrow> string option \<Rightarrow> inboundCall \<Rightarrow> inboundCall \<times> (go_error, string) result" where
  "negotiateMedia h localSDP c = (if \<not> ic_media c then (c, Err (ENew ''media port not created''))
     else if ic_audio c \<noteq> None then (c, case localSDP of Some s \<Rightarrow> Ok s | None \<Rightarrow> Err (ENew ''no local SDP''))
     else (case he_genAnswer h of
         Inl e \<Rightarrow> (c, Err e)
       | Inr answer \<Rightarrow> (case updateCallStateAudio (c\<lparr>ic_audio := he_audio h\<rparr>) of
             (c1, Some e) \<Rightarrow> (c1, Err e)
           | (c1, None) \<Rightarrow> (c1, Ok answer))))"

definition negotiateMediaForLateAnswer :: "hi_env \<Rightarrow> inboundCall \<Rightarrow> inboundCall \<times> go_error option" where
  "negotiateMediaForLateAnswer h c0 = (let c = c0\<lparr>ic_lateAnswerPending := False\<rparr> in
     if \<not> ic_media c then (c, Some (ENew ''media port not created''))
     else if ic_audio c \<noteq> None then (c, None)
     else (case he_processAnswer h of
         Inl e \<Rightarrow> (c, Some e)
       | Inr localSDP \<Rightarrow> updateCallStateAudio
           (c\<lparr>ic_audio := he_audio h, ic_cc := (ic_cc c)\<lparr>si_lastSDP := Some localSDP\<rparr>\<rparr>)))"

definition acceptCall :: "hi_env \<Rightarrow> string \<Rightarrow> bool \<Rightarrow> inboundCall \<Rightarrow> inboundCall \<times> go_error option" where
  "acceptCall h sdpData waitForAck c = (case Accept (he_now h) sdpData waitForAck (he_rounds h) (ic_cc c) of (cc, err, _) \<Rightarrow>
     let c1 = ic_emit (inviteResponseEvent EventAnsweredSent (si_okAt cc) 200 (si_inviteCSeq cc))
                (c\<lparr>ic_cc := cc, ic_accepted := True\<rparr>)
     in (case err of
          None \<Rightarrow> (c1, None)
        | Some e \<Rightarrow> if errors_Is e (ErrSentinel ''no ACK received for 200 OK'')
            then (closeWithNoACK (he_close h) (he_now h) c1, Some e)
            else (close_call (he_close h) (he_now h)
                    (end_call callAcceptFailed (ServerError ''accept-failed'') 0) c1, Some e)))"

definition waitMedia :: "hi_env \<Rightarrow> inboundCall \<Rightarrow> inboundCall \<times> bool \<times> go_error option" where
  "waitMedia h c = (case he_mediaWait h of
     WtCancelled \<Rightarrow> (closeWithCancelled (he_close h) (he_now h) c, False, None)
   | WtCtxDone \<Rightarrow> (closeWithHangup (he_close h) (he_now h) c, False, None)
   | WtRoomClosed \<Rightarrow> (closeWithHangup (he_close h) (he_now h) c, False, Some (EPsrpc Canceled (ENew ''room closed'')))
   | WtMediaTimeout \<Rightarrow> (case mediaTimeout h c of (c1, err) \<Rightarrow> (c1, False, err))
   | WtEndCall en \<Rightarrow> (close_call (he_close h) (he_now h) en c, False, None)
   | WtTimer \<Rightarrow> (c, True, None)
   | WtReady \<Rightarrow> (c, True, None))"

definition waitForMedia :: "hi_env \<Rightarrow> inboundCall \<Rightarrow> (inboundCall \<times> bool \<times> go_error option) option" where
  "waitForMedia h c = map_option (\<lambda>c1. case waitMedia h c1 of (c2, ok, err) \<Rightarrow>
       if ok then (setStatus CallActive c2, True, None) else (c2, False, err))
     (run peer_step (he_mediaOps h) (c\<lparr>ic_timeouts := ic_timeouts c @ [(he_timeoutInitial h, he_timeout h)]\<rparr>))"

text \<open>Returns whether the late-ACK timer was started along with the outcome.\<close>

definition acceptCallAndWaitForMedia ::
  "hi_env \<Rightarrow> string \<Rightarrow> bool \<Rightarrow> inboundCall \<Rightarrow> (inboundCall \<times> bool \<times> bool \<times> go_error option) option" where
  "acceptCallAndWaitForMedia h sdpBody expectingLateAnswer c = (let
     waitForAck = (expectingLateAnswer \<or> he_waitACK h)
   in case acceptCall h sdpBody waitForAck c of
        (c1, Some e) \<Rightarrow> Some (c1, False, False, Some e)
      | (c1, None) \<Rightarrow> (case run peer_step (he_acceptOps h) c1 of
          None \<Rightarrow> None
        | Some c2 \<Rightarrow> (let
            late = (if \<not> expectingLateAnswer then (c2, None)
                    else if si_ack (ic_cc c2) = None then (c2, Some (ENew ''ack not found''))
                    else negotiateMediaForLateAnswer h c2)
          in case late of
               (c3, Some e) \<Rightarrow> Some (c3, False, False, Some e)
             | (c3, None) \<Rightarrow> map_option (\<lambda>(c4, ok, err). (c4, ok, \<not> waitForAck, err)) (waitForMedia h c3))))"

definition waitSubscribe :: "hi_env \<Rightarrow> int \<Rightarrow> inboundCall \<Rightarrow> inboundCall \<times> bool \<times> go_error option" where
  "waitSubscribe h timeoutStatus c = (case he_subWait h of
     WtCancelled \<Rightarrow> (closeWithCancelled (he_close h) (he_now h) c, False, None)
   | WtCtxDone \<Rightarrow> (closeWithHangup (he_close h) (he_now h) c, False, None)
   | WtRoomClosed \<Rightarrow> (closeWithHangup (he_close h) (he_now h) c, False, Some (EPsrpc Canceled (ENew ''room closed'')))
   | WtMediaTimeout \<Rightarrow> (case mediaTimeout h c of (c1, err) \<Rightarrow> (c1, False, err))
   | WtEndCall en \<Rightarrow> (close_call (he_close h) (he_now h) en c, False,
        Some (EPsrpc Canceled (ENew ''rpc terminated the call'')))
   | WtTimer \<Rightarrow> (close_call (he_close h) (he_now h)
        (end_call callDropped (ServerError ''cannot-subscribe'') timeoutStatus) c, False,
        Some (EPsrpc DeadlineExceeded (ENew ''room subscription timed out'')))
   | WtReady \<Rightarrow> (c, True, None))"


section \<open>The pin prompt\<close>

definition pinLimit :: nat where "pinLimit = 16"

definition dispatch_event :: "hi_env \<Rightarrow> bool \<Rightarrow> dispatch \<Rightarrow> inboundCall \<Rightarrow> inboundCall" where
  "dispatch_event h withPIN d c = ic_emit ((lookupEvent EventCallDispatched (Some (he_now h)) 0 (dispatchResultName (diResult d)))
     \<lparr>evDispatchRuleID := diRuleID d, evWithPIN := withPIN\<rparr>) c"

definition set_project :: "dispatch \<Rightarrow> inboundCall \<Rightarrow> inboundCall" where
  "set_project d c = (if diProjectID d \<noteq> '''' then c\<lparr>ic_projectID := diProjectID d\<rparr> else c)"

definition pin_check :: "hi_env \<Rightarrow> string \<Rightarrow> inboundCall \<Rightarrow> inboundCall \<times> dispatch \<times> bool \<times> go_error option" where
  "pin_check h pin c = (let
     d = he_pinDisp h pin (pin = '''');
     c1 = set_project d (dispatch_event h True d c)
   in if diResult d = DispatchServiceUnavailable then
        (closeWithTerm (he_close h) (he_now h) (ServerError ''dispatch-error'') c1, d, False,
         Some (EPsrpc Unavailable (ENew ''dispatch rule evaluation unavailable'')))
      else if diResult d \<noteq> DispatchAccept \<or> diRoomName d = '''' then
        (closeWithTerm (he_close h) (he_now h) (ClientError ''wrong-pin'') c1, d, False,
         Some (EPsrpc PermissionDenied (ENew ''wrong pin'')))
      else (c1, d, True, None))"

text \<open>\<^const>\<open>None\<close>: the prompt is still waiting (or the interleaved actions panic).  The
  dispatch that comes with a failure is the zero value or the last one; the caller
  ignores it.\<close>

fun pin_loop ::
  "hi_env \<Rightarrow> string \<Rightarrow> (peer_op list \<times> pin_event) list \<Rightarrow> inboundCall \<Rightarrow>
   (inboundCall \<times> dispatch \<times> bool \<times> go_error option) option" where
  "pin_loop h pin [] c = None"
| "pin_loop h pin ((ops, ev) # evs) c = (case run peer_step ops c of
     None \<Rightarrow> None
   | Some c1 \<Rightarrow> (case ev of
       PinCancelled \<Rightarrow> Some (closeWithCancelled (he_close h) (he_now h) c1, he_disp h, False, None)
     | PinCtxDone \<Rightarrow> Some (closeWithHangup (he_close h) (he_now h) c1, he_disp h, False, None)
     | PinMediaTimeout \<Rightarrow> (case mediaTimeout h c1 of (c2, err) \<Rightarrow> Some (c2, he_disp h, False, err))
     | PinClosed \<Rightarrow> Some (c1\<lparr>ic_ctxDone := True\<rparr>, he_disp h, False,
         Some (EPsrpc Canceled (ENew ''failed reading DTMF event'')))
     | PinDigit None \<Rightarrow> pin_loop h pin evs c1
     | PinDigit (Some d) \<Rightarrow>
         if d = CHR ''#'' then Some (pin_check h pin c1)
         else if length (pin @ [d]) > pinLimit then
           Some (close_call (he_close h) (he_now h)
               (end_call callDropped (ClientError ''wrong-pin'') 0) c1, he_disp h, False,
             Some (EPsrpc PermissionDenied (ENew ''wrong pin'')))
         else pin_loop h (pin @ [d]) evs c1))"

definition pinPrompt :: "hi_env \<Rightarrow> inboundCall \<Rightarrow> (inboundCall \<times> dispatch \<times> bool \<times> go_error option) option" where
  "pinPrompt h c = pin_loop h '''' (he_pin h) c"

section \<open>Room and end of the call\<close>

definition createLiveKitParticipant :: "hi_env \<Rightarrow> CallStatus \<Rightarrow> inboundCall \<Rightarrow> inboundCall \<times> go_error option" where
  "createLiveKitParticipant h status c = (if ic_ctxDone c then (c, Some (ESentinel CtxCanceled))
     else (case he_regErr h of
         Some e \<Rightarrow> (c, Some e)
       | None \<Rightarrow> (case he_joinErr h of
           Some e \<Rightarrow> (c\<lparr>ic_transferReg := True\<rparr>, Some e)
         | None \<Rightarrow> (c\<lparr>ic_transferReg := True, ic_joined := True, ic_attrs := ic_attrs c @ [Attribute status]\<rparr>, None))))"

definition joinRoom :: "hi_env \<Rightarrow> CallStatus \<Rightarrow> inboundCall \<Rightarrow> inboundCall \<times> go_error option" where
  "joinRoom h status c = (case createLiveKitParticipant h status c of
     (c1, Some e) \<Rightarrow> (closeWithTerm (he_close h) (he_now h) (ServerError ''participant-failed'') c1,
        Some (EWrap ''cannot create LiveKit participant'' e))
   | (c1, None) \<Rightarrow> (c1, None))"

definition inviteOkAckLateTimeout :: int where "inviteOkAckLateTimeout = inviteOkRetryIntervalMax"

text \<open>\<open>ack\<close> and \<open>timer\<close> say whether the channels \<open>ackReceived\<close> and \<open>ackTimeout\<close> can still
  trigger.\<close>

fun end_loop ::
  "hi_env \<Rightarrow> bool \<Rightarrow> bool \<Rightarrow> (peer_op list \<times> end_event) list \<Rightarrow> inboundCall \<Rightarrow> (inboundCall \<times> go_error option) option" where
  "end_loop h ack timer [] c = None"
| "end_loop h ack timer ((ops, ev) # evs) c = (case run peer_step ops c of
     None \<Rightarrow> None
   | Some c1 \<Rightarrow> (case ev of
       CeStats \<Rightarrow> end_loop h ack timer evs c1
     | CeTick \<Rightarrow> end_loop h ack timer evs (ic_state ForceFlush c1)
     | CeCtxDone \<Rightarrow> Some (closeWithHangup (he_close h) (he_now h) c1, None)
     | CeEnd en \<Rightarrow> Some (close_call (he_close h) (he_now h) en c1, None)
     | CeRoomClosed r \<Rightarrow> Some (closeWithTerm (he_close h) (he_now h) (terminationFromRoomDisconnect r)
         (ic_state (DeferUpdate (\<lambda>info. info\<lparr>ciReason := disconnectReasonFromRoomClose r\<rparr>)) c1), None)
     | CeMediaTimeout \<Rightarrow> Some (mediaTimeout h c1)
     | CeAck \<Rightarrow> if ack then end_loop h False False evs c1 else end_loop h ack timer evs c1
     | CeAckTimeout \<Rightarrow> if timer then end_loop h ack False evs
           (c1\<lparr>ic_timeouts := ic_timeouts c1 @ [(min inviteOkAckLateTimeout (he_timeoutInitial h), he_timeout h)]\<rparr>)
         else end_loop h ack timer evs c1))"

definition waitForCallEnd :: "hi_env \<Rightarrow> bool \<Rightarrow> bool \<Rightarrow> inboundCall \<Rightarrow> (inboundCall \<times> go_error option) option" where
  "waitForCallEnd h ackReceived ackTimeout c = end_loop h ackReceived ackTimeout (he_end h) c"

section \<open>handleInvite\<close>

text \<open>What the dispatch decides before any media is set up: reject with an error, or go on,
  asking for a pin or not.\<close>

definition dispatch_reject :: "hi_env \<Rightarrow> dispatch \<Rightarrow> inboundCall \<Rightarrow> inboundCall \<times> go_error option \<times> bool" where
  "dispatch_reject h d c = (let close = closeWithTerm (he_close h) (he_now h) in case diResult d of
     DispatchAccept \<Rightarrow> (c, None, False)
   | DispatchRequestPin \<Rightarrow> (c, None, True)
   | DispatchNoRuleDrop \<Rightarrow> (close_call (he_close h) (he_now h)
         (end_call callFlood (ClientError ''flood'') 0) (c\<lparr>ic_cc := drop_dialog (ic_cc c)\<rparr>),
       Some (EPsrpc PermissionDenied (ENew ''call was not authorized by trunk configuration'')), False)
   | DispatchNoRuleReject \<Rightarrow> (close (ClientError ''no-dispatch'') (ic_reject h 404 ''Does not match Trunks or Dispatch Rules'' c),
       Some (EPsrpc NotFound (ENew ''no trunk configuration for call'')), False)
   | DispatchServiceUnavailable \<Rightarrow> (close (ServerError ''dispatch-error'') (ic_reject h 503 ''Try again later'' c),
       Some (EPsrpc Unavailable (ENew ''dispatch rule evaluation unavailable'')), False)
   | DispatchOther n \<Rightarrow> (close (ServerError ''unexpected-result'') (ic_reject h 501 '''' c),
       Some (EPsrpc Unimplemented (ENew ''unexpected dispatch result'')), False))"

text \<open>The SDP for the 200 OK: an answer to the offer, or our own offer when the INVITE has
  none and late offers are enabled.\<close>

definition prepare_sdp :: "hi_env \<Rightarrow> inboundCall \<Rightarrow> inboundCall \<times> (go_error, string \<times> bool) result" where
  "prepare_sdp h c = (case createMediaPort h c of
     (c1, Some e) \<Rightarrow> (c1, Err e)
   | (c1, None) \<Rightarrow> if he_offer h = '''' then
         (if \<not> diLateOffer (he_disp h) then (c1, Err (ESDP (ENew ''received INVITE without offer, late offer disabled'')))
          else (c1\<lparr>ic_lateAnswerPending := True\<rparr>, map_sum (\<lambda>e. e) (\<lambda>s. (s, True)) (he_genOffer h)))
       else (case negotiateMedia h None c1 of (c2, r) \<Rightarrow> (c2, map_sum (\<lambda>e. e) (\<lambda>s. (s, False)) r)))"

definition ringing_timeout_status :: "dispatch \<Rightarrow> int" where
  "ringing_timeout_status d = (if diRingingTimeoutStatus d \<noteq> 0 then diRingingTimeoutStatus d else 486)"

definition call_joined :: "hi_env \<Rightarrow> inboundCall \<Rightarrow> inboundCall" where
  "call_joined h c = ic_emit ((new_event EventRoomJoined (Some (he_now h))))
     (ic_state (Update (\<lambda>info. case he_roomSID h of Some s \<Rightarrow> info\<lparr>RoomId := s\<rparr> | None \<Rightarrow> info)) c)"

definition call_active :: "hi_env \<Rightarrow> inboundCall \<Rightarrow> inboundCall" where
  "call_active h c = (ic_state (Update (\<lambda>info. (info\<lparr>StartedAtNs := he_now h, ciStatus := SCS_ACTIVE\<rparr>)
     \<lparr>RoomId := case he_roomSID h of Some s \<Rightarrow> s | None \<Rightarrow> RoomId info\<rparr>)) c)\<lparr>ic_started := True\<rparr>"

text \<open>From the room on: \<open>d\<close> is the dispatch that was accepted, \<open>pinned\<close> whether the call was
  answered for the pin prompt already, \<open>timer\<close> whether the late-ACK timer runs.\<close>

definition subscribe_and_answer ::
  "hi_env \<Rightarrow> dispatch \<Rightarrow> string \<Rightarrow> bool \<Rightarrow> inboundCall \<Rightarrow> (inboundCall \<times> go_error option) option" where
  "subscribe_and_answer h d sdp late c = (case run peer_step (he_subOps h) c of
     None \<Rightarrow> None
   | Some c1 \<Rightarrow> (case waitSubscribe h (ringing_timeout_status d) c1 of
       (c2, False, err) \<Rightarrow> Some (c2, err)
     | (c2, True, _) \<Rightarrow> (case acceptCallAndWaitForMedia h sdp late c2 of
         None \<Rightarrow> None
       | Some (c3, False, _, err) \<Rightarrow> Some (c3, err)
       | Some (c3, True, timer, _) \<Rightarrow> waitForCallEnd h (\<not> late \<and> \<not> he_waitACK h) timer (call_active h c3))))"

definition bridge_call ::
  "hi_env \<Rightarrow> dispatch \<Rightarrow> bool \<Rightarrow> bool \<Rightarrow> string \<Rightarrow> bool \<Rightarrow> inboundCall \<Rightarrow> (inboundCall \<times> go_error option) option" where
  "bridge_call h d pinned timer sdp late c =
     (case joinRoom h (if pinned then CallActive else CallRinging) c of
        (c1, Some e) \<Rightarrow> Some (c1, Some (EWrap ''failed joining room'' e))
      | (c1, None) \<Rightarrow> (let c2 = call_joined h c1 in case he_publishErr h of
          Some e \<Rightarrow> Some (closeWithTerm (he_close h) (he_now h) (ServerError ''publish-failed'') c2,
            Some (EWrap ''publishing track to room failed'' e))
        | None \<Rightarrow>
          (if pinned then waitForCallEnd h (\<not> late \<and> \<not> he_waitACK h) timer (call_active h c2)
           else subscribe_and_answer h d sdp late c2)))"

definition handleInvite_body :: "hi_env \<Rightarrow> inboundCall \<Rightarrow> (inboundCall \<times> go_error option) option" where
  "handleInvite_body h c = (case StartRinging (he_ringOk h) (he_now h) (ic_cc c) of
     None \<Rightarrow> None
   | Some (cc, sent) \<Rightarrow> (let
       c1 = c\<lparr>ic_cc := cc\<rparr>;
       c2 = (if sent then ic_emit (inviteResponseEvent EventRingingSent (Some (he_now h)) 180 (si_inviteCSeq cc)) c1 else c1);
       d = he_disp h;
       c3 = dispatch_event h False d c2
     in case he_mediaConfigErr h of
          Some e \<Rightarrow> Some (closeWithTerm (he_close h) (he_now h) (ServerError ''media-config-error'') (ic_reject h 500 '''' c3),
            Some (EPsrpc Internal e))
        | None \<Rightarrow> (let
            c4 = ic_state (Update (\<lambda>info. info\<lparr>TrunkId := diTrunkID d, DispatchRuleId := diRuleID d\<rparr>)) (set_project d c3)
          in case dispatch_reject h d c4 of
               (c5, Some e, _) \<Rightarrow> Some (c5, Some e)
             | (c5, None, pin) \<Rightarrow> (case prepare_sdp h c5 of
                 (c6, Inl e) \<Rightarrow> Some (rejectMedia h e c6, Some e)
               | (c6, Inr (sdp, late)) \<Rightarrow>
                   if \<not> pin then bridge_call h d False False sdp late c6
                   else (case acceptCallAndWaitForMedia h sdp late c6 of
                       None \<Rightarrow> None
                     | Some (c7, False, _, err) \<Rightarrow> Some (c7, err)
                     | Some (c7, True, timer, _) \<Rightarrow> (case pinPrompt h c7 of
                         None \<Rightarrow> None
                       | Some (c8, d', False, err) \<Rightarrow> Some (c8, err)
                       | Some (c8, d', True, _) \<Rightarrow> bridge_call h d' True timer sdp late c8))))))"

text \<open>The deferred calls: \<open>closeWithTerm\<close> with \<open>other\<close>, then \<open>CallEnd\<close>.\<close>

definition handleInvite :: "hi_env \<Rightarrow> inboundCall \<Rightarrow> (inboundCall \<times> go_error option) option" where
  "handleInvite h c0 = (let
     m1 = InviteAccept (ic_mon c0) (ic_metrics c0);
     (mon, m2) = CallStart (ic_mon c0) m1
   in case handleInvite_body h (c0\<lparr>ic_mon := mon, ic_metrics := m2\<rparr>) of
        None \<Rightarrow> None
      | Some (c1, err) \<Rightarrow> (let c2 = closeWithTerm (he_close h) (he_now h) (ServerError ''other'') c1
          in map_option (\<lambda>(mon', m'). (c2\<lparr>ic_mon := mon', ic_metrics := m'\<rparr>, err)) (CallEnd (ic_mon c2) (ic_metrics c2))))"


section \<open>Every call ends exactly once\<close>

text \<open>A call that runs, and one that ended, seen from the call \<open>c0\<close> it started as.  \<open>J\<close> is what
  must hold when the call is in a room.\<close>

definition live :: "bool \<Rightarrow> inboundCall \<Rightarrow> inboundCall \<Rightarrow> bool" where
  "live J c0 c \<longleftrightarrow> \<not> ic_done c \<and> idlg_inv (ic_cc c) \<and> ic_sessionEnds c = ic_sessionEnds c0 \<and> ic_setup c = ic_setup c0 \<and>
     ic_mon c = ic_mon c0 \<and> ic_metrics c = ic_metrics c0 \<and> \<not> cm_terminated (ic_mon c0) \<and> (ic_joined c \<longrightarrow> J)"

definition ended :: "bool \<Rightarrow> inboundCall \<Rightarrow> inboundCall \<Rightarrow> bool" where
  "ended J c0 c \<longleftrightarrow> ic_done c \<and> idlg_inv (ic_cc c) \<and> closed_in (ic_cc c) \<and> \<not> ic_registered c \<and> \<not> ic_transferReg c \<and>
     \<not> ic_mediaOpen c \<and> \<not> ic_roomOpen c \<and> ic_ctxDone c \<and> (ic_joined c \<longrightarrow> J) \<and> length (ic_setup c) = Suc (length (ic_setup c0)) \<and>
     (\<exists>t. ic_sessionEnds c = ic_sessionEnds c0 @ [TReason t] \<and>
        (ic_mon c, ic_metrics c) = CallTerminate t (ic_mon c0) (ic_metrics c0))"

definition fin :: "bool \<Rightarrow> inboundCall \<Rightarrow> inboundCall \<Rightarrow> bool" where
  "fin J c0 c \<longleftrightarrow> live J c0 c \<or> ended J c0 c"

lemma live_fin: "live J c0 c \<Longrightarrow> fin J c0 c" and ended_fin: "ended J c0 c \<Longrightarrow> fin J c0 c"
  by (simp_all add: fin_def)

text \<open>Updates of the dialog and of the bookkeeping a running call may do.\<close>

lemma live_cc: "live J c0 c \<Longrightarrow> idlg_inv cc \<Longrightarrow> live J c0 (c\<lparr>ic_cc := cc\<rparr>)"
  by (simp add: live_def)

lemma emit_inv: "idlg_inv c \<Longrightarrow> idlg_inv (emit ev c)"
  by (rule same_dialog_inv [where c = c]) (simp_all add: same_dialog_refl)

lemma state_inv: "idlg_inv c \<Longrightarrow> idlg_inv (c\<lparr>si_state := s\<rparr>)"
  by (simp add: idlg_inv_def closed_in_def)

lemma lastSDP_inv: "idlg_inv c \<Longrightarrow> idlg_inv (c\<lparr>si_lastSDP := s\<rparr>)"
  by (simp add: idlg_inv_def closed_in_def)

lemma live_upd [simp]:
  "live J c0 (c\<lparr>ic_ctxDone := b\<rparr>) = live J c0 c" "live J c0 (c\<lparr>ic_closeReason := r\<rparr>) = live J c0 c"
  "live J c0 (c\<lparr>ic_byeReceived := b\<rparr>) = live J c0 c" "live J c0 (c\<lparr>ic_media := b\<rparr>) = live J c0 c"
  "live J c0 (c\<lparr>ic_mediaOpen := b\<rparr>) = live J c0 c" "live J c0 (c\<lparr>ic_audio := a\<rparr>) = live J c0 c"
  "live J c0 (c\<lparr>ic_transferReg := b\<rparr>) = live J c0 c" "live J c0 (c\<lparr>ic_started := b\<rparr>) = live J c0 c"
  "live J c0 (c\<lparr>ic_lateAnswerPending := b\<rparr>) = live J c0 c" "live J c0 (c\<lparr>ic_accepted := b\<rparr>) = live J c0 c"
  "live J c0 (c\<lparr>ic_projectID := p\<rparr>) = live J c0 c" "live J c0 (c\<lparr>ic_attrs := l\<rparr>) = live J c0 c"
  "live J c0 (c\<lparr>ic_timeouts := ts\<rparr>) = live J c0 c" "live J c0 (c\<lparr>ic_rejected := rs\<rparr>) = live J c0 c"
  by (simp_all add: live_def)

lemma live_emit [simp]: "live J c0 c \<Longrightarrow> live J c0 (ic_emit ev c)"
  by (simp add: live_def ic_emit_def emit_inv)

lemma live_state [simp]: "live J c0 c \<Longrightarrow> live J c0 (ic_state f c)"
  by (simp add: live_def ic_state_def state_inv)

lemma live_setStatus [simp]: "live J c0 c \<Longrightarrow> live J c0 (setStatus v c)"
  by (simp add: setStatus_def)

lemma live_dlg: "live J c0 c \<Longrightarrow> idlg_step x (ic_cc c) = Some cc \<Longrightarrow> live J c0 (c\<lparr>ic_cc := cc\<rparr>)"
  by (rule live_cc) (auto simp: live_def intro: inbound_dialog.step_keeps)

lemma CloseWithStatus_closed:
  "idlg_inv c \<Longrightarrow> closed_in (CloseWithStatus e r c)"
  using sendBye_in_cases [of c "ce_bye e" "ce_res1 e" "ce_res2 e" "ce_now e"]
  by (auto simp: CloseWithStatus_def sendStatus_def closed_in_def idlg_inv_def split: prod.splits)

lemma close_call_ends:
  assumes "live J c0 c"
  shows "ended J c0 (close_call e now en c)"
proof -
  let ?cc = "CloseWithStatus e (end_result en) (ic_cc c)"
  have d: "\<not> ic_done c" "idlg_inv (ic_cc c)" "ic_mon c = ic_mon c0" "ic_metrics c = ic_metrics c0" using assms by (auto simp: live_def)
  have cc: "idlg_inv ?cc" "closed_in ?cc"
    using inbound_dialog.step_keeps [OF d(2), of "DClose e (end_result en)"] CloseWithStatus_closed [OF d(2)] by auto
  obtain mon m where ct: "CallTerminate (Term en) (ic_mon c0) (ic_metrics c0) = (mon, m)" by fastforce
  have "\<exists>cc'. ic_cc (close_call e now en c) = cc' \<and> idlg_inv cc' \<and> closed_in cc'"
    using d cc ct by (auto simp: close_call_def close_account_def Let_def setStatus_def ic_emit_def ic_state_def closeMedia_def
        closed_in_def emit_inv state_inv split: option.splits)
  then show ?thesis using assms d ct
    by (auto simp: ended_def close_call_def close_account_def Let_def setStatus_def ic_emit_def ic_state_def closeMedia_def
        live_def split: option.splits intro!: exI [of _ "Term en"])
qed


lemma live_defer: "live J c0 c \<Longrightarrow> live J c0 (ic_state (DeferUpdate f) c)"
  by simp

lemma closers_end:
  assumes "live J c0 c"
  shows "ended J c0 (closeWithTerm e now t c)" "ended J c0 (closeWithTimeout msg e now b c)" "ended J c0 (closeWithNoACK e now c)"
    "ended J c0 (closeWithCancelled e now c)" "ended J c0 (closeWithHangup e now c)" "ended J c0 (fst (mediaTimeout h c))"
  using close_call_ends [OF assms] close_call_ends [OF live_defer [OF assms]]
  by (simp_all add: closeWithTerm_def closeWithTimeout_def closeWithNoACK_def closeWithCancelled_def closeWithHangup_def
      closeWith_def mediaTimeout_def Let_def)

lemma live_peer: "live J c0 c \<Longrightarrow> peer_step x c = Some d \<Longrightarrow> live J c0 d"
proof (cases x)
  case (PTick ok now)
  then show "live J c0 c \<Longrightarrow> peer_step x c = Some d \<Longrightarrow> live J c0 d" using live_dlg [of J c0 c "DTick ok now"] by auto
next
  case (PCancel now)
  then show "live J c0 c \<Longrightarrow> peer_step x c = Some d \<Longrightarrow> live J c0 d" using live_dlg [of J c0 c "DCancel now"] by auto
next
  case (PAck cseq body now)
  then show "live J c0 c \<Longrightarrow> peer_step x c = Some d \<Longrightarrow> live J c0 d" using live_dlg [of J c0 c "DAck cseq body now"] by auto
next
  case (PBye reason cseq now)
  then show "live J c0 c \<Longrightarrow> peer_step x c = Some d \<Longrightarrow> live J c0 d" using live_dlg [of J c0 c DBye]
    by (auto simp: handle_bye_def Bye_in_def Let_def)
qed

interpretation peer: keeps_inv peer_step "live J c0" for J c0
  by unfold_locales (rule live_peer)

text \<open>A stage reports whether the call goes on; if so it is still running.\<close>

definition stage :: "bool \<Rightarrow> inboundCall \<Rightarrow> inboundCall \<Rightarrow> bool \<Rightarrow> bool" where
  "stage J c0 c ok \<longleftrightarrow> (if ok then live J c0 c else fin J c0 c)"

lemma live_stage: "live J c0 c \<Longrightarrow> stage J c0 c ok"
  by (simp add: stage_def fin_def)

lemma ended_stage: "ended J c0 c \<Longrightarrow> stage J c0 c False"
  by (simp add: stage_def fin_def)

lemma live_reject: "live J c0 c \<Longrightarrow> live J c0 (ic_reject h status reason c)"
  using live_dlg [of J c0 c "DReject (he_respOk h) (he_now h) status reason"]
  by (auto simp: ic_reject_def split: prod.splits)

lemma rejectMedia_ends: "live J c0 c \<Longrightarrow> ended J c0 (rejectMedia h err c)"
  by (auto simp: rejectMedia_def live_reject intro: close_call_ends split: prod.splits)

lemma live_updateAudio: "live J c0 c \<Longrightarrow> live J c0 (fst (updateCallStateAudio c))"
  by (simp add: updateCallStateAudio_def)

lemma live_prepare:
  assumes "live J c0 c"
  shows "live J c0 (fst (prepare_sdp h c))"
proof -
  have "live J c0 (fst (createMediaPort h c))" using assms by (simp add: createMediaPort_def split: option.splits)
  moreover have "live J c0 (fst (negotiateMedia h s d))" if "live J c0 d" for d s
    using that live_updateAudio [of J c0 "d\<lparr>ic_audio := he_audio h\<rparr>"]
    by (auto simp: negotiateMedia_def split: sum.splits prod.splits option.splits)
  ultimately show ?thesis by (auto simp: prepare_sdp_def case_prod_beta split: option.splits)
qed

lemma acceptCall_stage:
  assumes "live J c0 c"
  shows "stage J c0 (fst (acceptCall h sdp w c)) (snd (acceptCall h sdp w c) = None)"
proof -
  let ?cc = "fst (Accept (he_now h) sdp w (he_rounds h) (ic_cc c))"
  have "live J c0 (c\<lparr>ic_cc := ?cc\<rparr>)" using live_dlg [OF assms, of "DAccept (he_now h) sdp w (he_rounds h)"] by simp
  then have l: "live J c0 (ic_emit ev (c\<lparr>ic_cc := ?cc, ic_accepted := True\<rparr>))" for ev by simp
  note ends = closers_end(3) [OF l] close_call_ends [OF l]
  show ?thesis using l ends
    by (auto simp: acceptCall_def Let_def stage_def fin_def split: prod.splits option.splits)
qed

lemma waits_stage:
  assumes "live J c0 c"
  shows "stage J c0 (fst (waitMedia h c)) (fst (snd (waitMedia h c)))"
    "stage J c0 (fst (waitSubscribe h st c)) (fst (snd (waitSubscribe h st c)))"
  using assms closers_end [OF assms] close_call_ends [OF assms]
  by (auto simp: waitMedia_def waitSubscribe_def stage_def fin_def case_prod_beta split: wait_event.splits)

lemma late_live:
  "live J c0 c \<Longrightarrow> live J c0 (fst (negotiateMediaForLateAnswer h c))"
  by (auto simp: negotiateMediaForLateAnswer_def Let_def updateCallStateAudio_def live_def state_inv lastSDP_inv ic_state_def
      split: sum.splits)


lemma waitForMedia_stage:
  assumes "live J c0 c" "waitForMedia h c = Some (d, ok, err)"
  shows "stage J c0 d ok"
proof -
  obtain c1 where "live J c0 c1" and eq: "(d, ok, err) = (case waitMedia h c1 of (c2, ok, err) \<Rightarrow>
      if ok then (setStatus CallActive c2, True, None) else (c2, False, err))"
    using assms peer.run_keeps [of J c0 "c\<lparr>ic_timeouts := ic_timeouts c @ [(he_timeoutInitial h, he_timeout h)]\<rparr>" "he_mediaOps h"]
    by (fastforce simp: waitForMedia_def)
  from waits_stage(1) [OF this(1), of h] eq show ?thesis by (auto simp: stage_def case_prod_beta split: if_splits)
qed

lemma accept_media_stage:
  assumes "live J c0 c" "acceptCallAndWaitForMedia h sdp late c = Some (d, ok, timer, err)"
  shows "stage J c0 d ok"
proof -
  let ?w = "late \<or> he_waitACK h"
  obtain c1 e1 where a: "acceptCall h sdp ?w c = (c1, e1)" by fastforce
  have s1: "stage J c0 c1 (e1 = None)" using acceptCall_stage [OF assms(1), of h sdp ?w] a by simp
  show ?thesis
  proof (cases e1)
    case (Some e)
    then show ?thesis using assms(2) a s1 by (auto simp: acceptCallAndWaitForMedia_def)
  next
    case None
    then have "live J c0 c1" using s1 by (simp add: stage_def)
    moreover obtain c2 where c2: "run peer_step (he_acceptOps h) c1 = Some c2"
      using assms(2) a None by (auto simp: acceptCallAndWaitForMedia_def split: option.splits)
    ultimately have l2: "live J c0 c2" using peer.run_keeps by blast
    define r where "r = (if \<not> late then (c2, None) else if si_ack (ic_cc c2) = None then (c2, Some (ENew ''ack not found''))
        else negotiateMediaForLateAnswer h c2)"
    have l3: "live J c0 (fst r)" using l2 late_live [OF l2, of h] by (simp add: r_def)
    have "(case r of (c3, Some e) \<Rightarrow> Some (c3, False, False, Some e)
        | (c3, None) \<Rightarrow> map_option (\<lambda>(c4, ok, err). (c4, ok, \<not> ?w, err)) (waitForMedia h c3)) = Some (d, ok, timer, err)"
      using assms(2) a None c2 unfolding acceptCallAndWaitForMedia_def r_def [symmetric] Let_def
      by (simp only: r_def option.case prod.case)
    then show ?thesis using l3 waitForMedia_stage [OF l3]
      by (auto simp: case_prod_beta live_stage split: option.splits)
  qed
qed

lemma pin_loop_stage:
  assumes "live J c0 c" "pin_loop h pin evs c = Some (d, disp, ok, err)" "length pin \<le> pinLimit"
  shows "stage J c0 d ok \<and> (ok \<longrightarrow> (\<exists>p. length p \<le> pinLimit \<and> disp = he_pinDisp h p (p = '''') \<and>
    diResult disp = DispatchAccept \<and> diRoomName disp \<noteq> ''''))"
  using assms
proof (induction h pin evs c rule: pin_loop.induct)
  case (2 h pin ops ev evs c)
  from "2.prems"(2) obtain c1 where c1: "run peer_step ops c = Some c1" by (auto split: option.splits)
  then have l1: "live J c0 c1" using peer.run_keeps "2.prems"(1) by blast
  note ends = closers_end [OF l1, THEN ended_stage] close_call_ends [OF l1, THEN ended_stage]
  show ?case
  proof (cases ev)
    case (PinDigit x)
    show ?thesis
    proof (cases x)
      case None
      then show ?thesis using "2.IH"(1) [OF c1] PinDigit c1 l1 "2.prems" by simp
    next
      case (Some k)
      consider "k = CHR ''#''" | "k \<noteq> CHR ''#''" "pinLimit < length (pin @ [k])" | "k \<noteq> CHR ''#''" "\<not> pinLimit < length (pin @ [k])"
        by blast
      then show ?thesis
      proof cases
        case 1
        have "live J c0 (set_project d' (dispatch_event h True d' c1))" for d'
          using l1 by (simp add: set_project_def dispatch_event_def)
        note closers_end(1) [OF this, THEN ended_stage] this
        then show ?thesis using "2.prems" PinDigit Some c1 1
          by (auto simp: pin_check_def Let_def live_stage split: if_splits)
      next
        case 2
        then show ?thesis using "2.prems" PinDigit Some c1 ends by auto
      next
        case 3
        then show ?thesis using "2.IH"(2) [OF c1 PinDigit Some] PinDigit Some c1 l1 "2.prems" by simp
      qed
    qed
  next
    case PinMediaTimeout
    then show ?thesis using "2.prems" c1 ends(6) [of h] by (auto simp: case_prod_beta)
  qed (use "2.prems" c1 l1 ends in \<open>auto simp: live_stage\<close>)
qed simp


lemma end_loop_fin:
  assumes "live J c0 c" "end_loop h ack timer evs c = Some (d, err)"
  shows "ended J c0 d"
  using assms
proof (induction h ack timer evs c rule: end_loop.induct)
  case (2 h ack timer ops ev evs c)
  from "2.prems"(2) obtain c1 where c1: "run peer_step ops c = Some c1" by (auto split: option.splits)
  then have l1: "live J c0 c1" using peer.run_keeps "2.prems"(1) by blast
  note ends = closers_end [OF l1] close_call_ends [OF l1] closers_end(1) [OF live_defer [OF l1]]
  show ?case
  proof (cases ev)
    case CeMediaTimeout
    then show ?thesis using "2.prems" c1 ends(6) [of h] by auto
  next
    case CeAck
    then show ?thesis using "2.prems" "2.IH"(3,4) [OF c1] c1 l1 by (auto split: if_splits)
  next
    case CeAckTimeout
    then show ?thesis using "2.prems" "2.IH"(5,6) [OF c1] c1 l1 by (auto split: if_splits)
  next
    case CeStats
    then show ?thesis using "2.prems" "2.IH"(1) [OF c1] c1 l1 by simp
  next
    case CeTick
    then show ?thesis using "2.prems" "2.IH"(2) [OF c1] c1 l1 by simp
  qed (use "2.prems" c1 ends in auto)
qed simp

lemma joinRoom_stage:
  assumes "live J c0 c" J
  shows "stage J c0 (fst (joinRoom h st c)) (snd (joinRoom h st c) = None)"
proof -
  have "live J c0 (fst (createLiveKitParticipant h st c))"
    using assms by (auto simp: createLiveKitParticipant_def live_def split: option.splits)
  then show ?thesis using closers_end(1) [THEN ended_stage]
    by (auto simp: joinRoom_def case_prod_beta live_stage split: option.splits)
qed

lemma live_active: "live J c0 c \<Longrightarrow> live J c0 (call_active h c)"
  by (simp add: call_active_def)

lemma subscribe_fin:
  assumes "live J c0 c" "subscribe_and_answer h d sdp late c = Some (c', err)"
  shows "fin J c0 c'"
proof -
  obtain c1 where c1: "run peer_step (he_subOps h) c = Some c1"
    using assms(2) by (auto simp: subscribe_and_answer_def split: option.splits)
  then have l1: "live J c0 c1" using assms(1) peer.run_keeps by blast
  obtain c2 ok e2 where w: "waitSubscribe h (ringing_timeout_status d) c1 = (c2, ok, e2)" by (metis surj_pair)
  have s2: "stage J c0 c2 ok" using waits_stage(2) [OF l1, of h "ringing_timeout_status d"] w by simp
  show ?thesis
  proof (cases ok)
    case False
    then show ?thesis using assms(2) c1 w s2 by (simp add: subscribe_and_answer_def stage_def)
  next
    case True
    then obtain c3 ok3 t3 e3 where a: "acceptCallAndWaitForMedia h sdp late c2 = Some (c3, ok3, t3, e3)"
      using assms(2) c1 w by (auto simp: subscribe_and_answer_def split: option.splits)
    have "stage J c0 c3 ok3" using accept_media_stage [OF _ a] s2 True by (simp add: stage_def)
    then show ?thesis using assms(2) c1 w a True end_loop_fin [OF live_active]
      by (cases ok3) (auto simp: subscribe_and_answer_def stage_def waitForCallEnd_def ended_fin)
  qed
qed

lemma bridge_fin:
  assumes "live J c0 c" J "bridge_call h d pinned timer sdp late c = Some (c', err)"
  shows "fin J c0 c'"
proof -
  let ?st = "if pinned then CallActive else CallRinging"
  obtain c1 e1 where j: "joinRoom h ?st c = (c1, e1)" by fastforce
  have s1: "stage J c0 c1 (e1 = None)" using joinRoom_stage [OF assms(1,2), of h ?st] j by simp
  show ?thesis
  proof (cases e1)
    case (Some e)
    then show ?thesis using assms(3) j s1 by (auto simp: bridge_call_def stage_def)
  next
    case None
    then have l2: "live J c0 (call_joined h c1)" using s1 by (simp add: stage_def call_joined_def)
    note b = assms(3) [unfolded bridge_call_def j None]
    show ?thesis
    proof (cases "he_publishErr h")
      case (Some e)
      then show ?thesis using b closers_end(1) [OF l2] by (auto simp: Let_def ended_fin)
    next
      case None
      then show ?thesis using b end_loop_fin [OF live_active [OF l2]] subscribe_fin [OF l2]
        by (cases pinned) (auto simp: Let_def waitForCallEnd_def ended_fin)
    qed
  qed
qed

text \<open>When a call may be in a room: the dispatch accepted it, or it accepted a pin of at
  most \<open>pinLimit\<close> digits for a named room.\<close>

definition admitted :: "hi_env \<Rightarrow> bool" where
  "admitted h \<longleftrightarrow> diResult (he_disp h) = DispatchAccept \<or>
     diResult (he_disp h) = DispatchRequestPin \<and> (\<exists>p. length p \<le> pinLimit \<and>
       diResult (he_pinDisp h p (p = '''')) = DispatchAccept \<and> diRoomName (he_pinDisp h p (p = '''')) \<noteq> '''')"

lemma dispatch_reject_stage:
  assumes "live J c0 c" "dispatch_reject h d c = (c1, err, pin)"
  shows "(err \<noteq> None \<longrightarrow> ended J c0 c1) \<and> (err = None \<longrightarrow> c1 = c \<and> diResult d = (if pin then DispatchRequestPin else DispatchAccept))"
proof -
  have "live J c0 (c\<lparr>ic_cc := drop_dialog (ic_cc c)\<rparr>)" using live_dlg [OF assms(1), of DDrop] by simp
  note closers_end(1) [OF live_reject [OF assms(1)]] close_call_ends [OF this]
  then show ?thesis using assms(2) by (auto simp: dispatch_reject_def Let_def split: DispatchResult.splits)
qed

text \<open>The body of \<open>handleInvite\<close> from the moment the media is prepared.\<close>

lemma answered_fin:
  assumes l: "live (admitted h) c0 c" and d: "diResult (he_disp h) = DispatchRequestPin"
    and "(case acceptCallAndWaitForMedia h sdp late c of
        None \<Rightarrow> None
      | Some (c7, False, _, err) \<Rightarrow> Some (c7, err)
      | Some (c7, True, timer, _) \<Rightarrow> (case pinPrompt h c7 of
          None \<Rightarrow> None
        | Some (c8, d', False, err) \<Rightarrow> Some (c8, err)
        | Some (c8, d', True, _) \<Rightarrow> bridge_call h d' True timer sdp late c8)) = Some (c', err)"
  shows "fin (admitted h) c0 c'"
proof -
  obtain c7 ok timer e7 where a: "acceptCallAndWaitForMedia h sdp late c = Some (c7, ok, timer, e7)"
    using assms(3) by (auto split: option.splits)
  have s7: "stage (admitted h) c0 c7 ok" by (rule accept_media_stage [OF l a])
  show ?thesis
  proof (cases ok)
    case False
    then show ?thesis using assms(3) a s7 by (simp add: stage_def)
  next
    case True
    then have l7: "live (admitted h) c0 c7" using s7 by (simp add: stage_def)
    obtain c8 d' ok8 e8 where p: "pin_loop h '''' (he_pin h) c7 = Some (c8, d', ok8, e8)"
      using assms(3) a True by (auto simp: pinPrompt_def split: option.splits)
    from pin_loop_stage [OF l7 p] have s8: "stage (admitted h) c0 c8 ok8" "ok8 \<longrightarrow> admitted h"
      using d by (auto simp: admitted_def)
    show ?thesis
    proof (cases ok8)
      case False
      then show ?thesis using assms(3) a True p s8 by (simp add: stage_def pinPrompt_def)
    next
      case True
      then have "live (admitted h) c0 c8" "admitted h" using s8 by (auto simp: stage_def)
      from bridge_fin [OF this] show ?thesis using assms(3) a \<open>ok\<close> p True by (simp add: pinPrompt_def)
    qed
  qed
qed

lemma body_fin:
  assumes l0: "live (admitted h) c0 c" and "handleInvite_body h c = Some (c', err)"
  shows "fin (admitted h) c0 c'"
proof -
  obtain cc sent where r: "StartRinging (he_ringOk h) (he_now h) (ic_cc c) = Some (cc, sent)"
    using assms(2) by (auto simp: handleInvite_body_def split: option.splits)
  have lr: "live (admitted h) c0 (c\<lparr>ic_cc := cc\<rparr>)" using live_dlg [OF l0, of "DStartRinging (he_ringOk h) (he_now h)"] r by simp
  define c3 where "c3 = dispatch_event h False (he_disp h)
    (if sent then ic_emit (inviteResponseEvent EventRingingSent (Some (he_now h)) 180 (si_inviteCSeq cc)) (c\<lparr>ic_cc := cc\<rparr>)
     else c\<lparr>ic_cc := cc\<rparr>)"
  have l3: "live (admitted h) c0 c3" using lr by (simp add: c3_def dispatch_event_def)
  show ?thesis
  proof (cases "he_mediaConfigErr h")
    case (Some e)
    then show ?thesis using assms(2) r closers_end(1) [OF live_reject [OF l3]]
      by (simp add: handleInvite_body_def Let_def c3_def [symmetric]) (auto simp: ended_fin)
  next
    case None
    define c4 where "c4 = ic_state (Update (\<lambda>info. info\<lparr>TrunkId := diTrunkID (he_disp h), DispatchRuleId := diRuleID (he_disp h)\<rparr>))
      (set_project (he_disp h) c3)"
    have l4: "live (admitted h) c0 c4" using l3 by (simp add: c4_def set_project_def)
    obtain c5 e5 pin where dr: "dispatch_reject h (he_disp h) c4 = (c5, e5, pin)" by (metis surj_pair)
    note b = assms(2) [unfolded handleInvite_body_def r option.case prod.case Let_def c3_def [symmetric] None c4_def [symmetric] dr]
    show ?thesis
    proof (cases e5)
      case (Some e)
      then show ?thesis using b dispatch_reject_stage [OF l4 dr] by (auto simp: ended_fin)
    next
      case None
      then have l5: "live (admitted h) c0 c5" and d: "diResult (he_disp h) = (if pin then DispatchRequestPin else DispatchAccept)"
        using dispatch_reject_stage [OF l4 dr] l4 by auto
      obtain c6 x where p: "prepare_sdp h c5 = (c6, x)" by fastforce
      have l6: "live (admitted h) c0 c6" using live_prepare [OF l5, of h] p by simp
      show ?thesis
      proof (cases x)
        case (Inl e)
        then show ?thesis using b None p rejectMedia_ends [OF l6] by (auto simp: ended_fin)
      next
        case (Inr y)
        obtain sdp late where y: "y = (sdp, late)" by fastforce
        show ?thesis
        proof (cases pin)
          case True
          then show ?thesis using b None p Inr y answered_fin [OF l6, of sdp late] d by simp
        next
          case False
          then have "admitted h" using d by (simp add: admitted_def)
          from bridge_fin [OF l6 this] show ?thesis using b None p Inr y False by simp
        qed
      qed
    qed
  qed
qed


text \<open>The call as \<open>processInvite\<close> sets it up: a dialog from a valid INVITE, \<open>100 Processing\<close> sent
  or not, and the call state attached.\<close>

definition fresh_call :: "invite_msg \<Rightarrow> (string \<times> string \<Rightarrow> string option) \<Rightarrow> string \<Rightarrow> bool \<Rightarrow> int \<Rightarrow> CallState \<Rightarrow>
    CallMonitor \<Rightarrow> Monitor \<Rightarrow> inboundCall option" where
  "fresh_call m cached fresh ok now st mon metrics = (case newInbound m cached fresh of
     Inl _ \<Rightarrow> None
   | Inr cc \<Rightarrow> Some (newInboundCall mon metrics ((fst (Processing ok now cc))\<lparr>si_state := Some st\<rparr>)))"

lemma fresh_call_dialog:
  assumes "fresh_call m cached fresh ok now st mon metrics = Some c"
  shows "\<exists>cc. c = newInboundCall mon metrics cc \<and> idlg_inv cc \<and> \<not> si_inviteOk cc \<and> resp_codes (si_wire cc) \<in> {[], [100]}"
proof -
  from assms obtain cc where cc: "newInbound m cached fresh = Ok cc"
    "c = newInboundCall mon metrics ((fst (Processing ok now cc))\<lparr>si_state := Some st\<rparr>)"
    by (auto simp: fresh_call_def split: sum.splits)
  have init: "idlg_inv cc" "si_wire cc = []" "\<not> si_inviteOk cc"
    using newInbound_init [OF cc(1)] by (auto simp: idlg_inv_def)
  have "idlg_inv (fst (Processing ok now cc))" using inbound_dialog.step_keeps [OF init(1), of "DProcessing ok now"] by simp
  moreover have "\<not> si_inviteOk (fst (Processing ok now cc))" using Processing_same [of cc ok now] init by (simp add: same_dialog_def)
  moreover have "resp_codes (si_wire (fst (Processing ok now cc))) \<in> {[], [100]}"
    using init(2) by (auto simp: Processing_def respond_def respondWithData_def Let_def)
  ultimately show ?thesis using cc(2) by (intro exI [of _ "(fst (Processing ok now cc))\<lparr>si_state := Some st\<rparr>"]) (simp add: state_inv)
qed

lemma fin_closed: "fin J c0 c \<Longrightarrow> ended J c0 (closeWithTerm e now t c)"
proof -
  have "closeWithTerm e now t c = c" if "ended J c0 c"
    using that by (simp add: ended_def closeWithTerm_def close_call_def)
  then show "fin J c0 c \<Longrightarrow> ended J c0 (closeWithTerm e now t c)" using closers_end(1) by (auto simp: fin_def)
qed

lemma CallEnd_after:
  assumes "CallStart mon m = (mon1, m1)" "\<not> cm_started mon" "CallTerminate t mon1 m1 = (mon2, m2)"
    "CallEnd mon2 m2 = Some (mon3, m3)"
  shows "callsActive m3 = callsActive m \<and>
    callsTerminated m3 = (if cm_terminated mon then callsTerminated m else
      bump (callsTerminated m) (cm_dir mon, cm_toHost mon, providerLabel mon, Result t, TReason t) 1)"
  using assms by (auto simp: CallStart_def CallTerminate_def CallEnd_def Let_def bump_def providerLabel_def split: if_splits)

text \<open>Once the body returns, \<open>handleInvite\<close> does: the deferred calls do not panic.\<close>

lemma handleInvite_returns:
  assumes "fresh_call m cached fresh ok now st mon metrics = Some c" "\<not> cm_started mon" "\<not> cm_terminated mon"
    and "\<And>mon m. \<exists>c1 err. handleInvite_body h (c\<lparr>ic_mon := mon, ic_metrics := m\<rparr>) = Some (c1, err)"
  shows "\<exists>d err. handleInvite h c = Some (d, err)"
proof -
  from fresh_call_dialog [OF assms(1)] obtain cc where f: "c = newInboundCall mon metrics cc" "idlg_inv cc" by blast
  obtain mon1 m2 where cs: "CallStart mon (InviteAccept mon metrics) = (mon1, m2)" by fastforce
  then have p: "cm_providerAtStart mon1 \<noteq> None" "\<not> cm_terminated mon1"
    using assms(2,3) by (auto simp: CallStart_def Let_def split: if_splits)
  let ?c0 = "c\<lparr>ic_mon := mon1, ic_metrics := m2\<rparr>"
  have l: "live (admitted h) ?c0 ?c0" using f p by (simp add: live_def newInboundCall_def)
  obtain c1 err where b: "handleInvite_body h ?c0 = Some (c1, err)" using assms(4) by blast
  let ?c2 = "closeWithTerm (he_close h) (he_now h) (ServerError ''other'') c1"
  have "ended (admitted h) ?c0 ?c2" by (rule fin_closed [OF body_fin [OF l b]])
  then obtain t where "(ic_mon ?c2, ic_metrics ?c2) = CallTerminate t mon1 m2" by (auto simp: ended_def)
  then have "cm_providerAtStart (ic_mon ?c2) \<noteq> None" using p by (simp add: CallTerminate_def)
  then have "CallEnd (ic_mon ?c2) (ic_metrics ?c2) \<noteq> None" by (auto simp: CallEnd_def)
  then show ?thesis using b cs f by (auto simp: handleInvite_def Let_def newInboundCall_def)
qed

definition ready :: "inboundCall \<Rightarrow> bool" where
  "ready c \<longleftrightarrow> \<not> ic_done c \<and> idlg_inv (ic_cc c) \<and> \<not> ic_joined c \<and> \<not> cm_started (ic_mon c) \<and> \<not> cm_terminated (ic_mon c) \<and>
     ic_sessionEnds c = [] \<and> ic_setup c = []"

lemma handleInvite_ended:
  assumes r: "ready c" and h: "handleInvite h c = Some (d, err)"
  shows "ic_done d \<and> closed_in (ic_cc d) \<and> \<not> ic_registered d \<and> \<not> ic_transferReg d \<and> \<not> ic_mediaOpen d \<and> \<not> ic_roomOpen d \<and>
    length (ic_setup d) = 1 \<and> callsActive (ic_metrics d) = callsActive (ic_metrics c) \<and>
    (\<exists>t :: Termination. ic_sessionEnds d = [TReason t] \<and> callsTerminated (ic_metrics d) = bump (callsTerminated (ic_metrics c))
       (cm_dir (ic_mon c), cm_toHost (ic_mon c), providerLabel (ic_mon c), Result t, TReason t) 1)"
proof -
  obtain mon1 m2 where cs: "CallStart (ic_mon c) (InviteAccept (ic_mon c) (ic_metrics c)) = (mon1, m2)" by fastforce
  define c0 where "c0 = c\<lparr>ic_mon := mon1, ic_metrics := m2\<rparr>"
  have "\<not> cm_terminated mon1" using cs r by (auto simp: ready_def CallStart_def Let_def split: if_splits)
  then have l: "live (admitted h) c0 c0" using r by (simp add: ready_def live_def c0_def)
  obtain c1 mon' m' where b: "handleInvite_body h c0 = Some (c1, err)"
    "CallEnd (ic_mon (closeWithTerm (he_close h) (he_now h) (ServerError ''other'') c1))
       (ic_metrics (closeWithTerm (he_close h) (he_now h) (ServerError ''other'') c1)) = Some (mon', m')"
    "d = (closeWithTerm (he_close h) (he_now h) (ServerError ''other'') c1)\<lparr>ic_mon := mon', ic_metrics := m'\<rparr>"
    using h cs by (auto simp: handleInvite_def c0_def Let_def split: option.splits)
  define c2 where "c2 = closeWithTerm (he_close h) (he_now h) (ServerError ''other'') c1"
  from body_fin [OF l b(1)] have e: "ended (admitted h) c0 c2" unfolding c2_def by (rule fin_closed)
  then obtain t where t: "ic_sessionEnds c2 = [TReason t]" "CallTerminate t mon1 m2 = (ic_mon c2, ic_metrics c2)"
    using r by (auto simp: ready_def ended_def c0_def)
  have ce: "CallEnd (ic_mon c2) (ic_metrics c2) = Some (mon', m')" using b(2) by (simp add: c2_def)
  have "callsActive m' = callsActive (ic_metrics c)"
    "callsTerminated m' = bump (callsTerminated (ic_metrics c))
       (cm_dir (ic_mon c), cm_toHost (ic_mon c), providerLabel (ic_mon c), Result t, TReason t) 1"
    using CallEnd_after [OF cs _ t(2) ce] r by (simp_all add: ready_def InviteAccept_def)
  moreover have "d = c2\<lparr>ic_mon := mon', ic_metrics := m'\<rparr>" using b(3) by (simp add: c2_def)
  ultimately show ?thesis using e t(1) r by (simp add: ready_def ended_def c0_def) (rule exI [of _ t], simp)
qed


definition demo_disp :: "DispatchResult \<Rightarrow> dispatch" where
  "demo_disp r = \<lparr>diResult = r, diRoomName = ''r'', diProjectID = '''', diTrunkID = '''', diRuleID = '''', diLateOffer = False,
     diRingingTimeoutStatus = 0\<rparr>"

definition demo_h :: "DispatchResult \<Rightarrow> hi_env" where
  "demo_h r = \<lparr>he_now = 5, he_msg = (\<lambda>_. ''''), he_ringOk = True, he_respOk = True, he_close = demo_close,
     he_disp = demo_disp r, he_mediaConfigErr = None, he_portErr = None, he_offer = ''o'', he_genOffer = Ok ''x'',
     he_genAnswer = Ok ''a'', he_audio = Some ''PCMU'', he_waitACK = False, he_rounds = demo_ack_round, he_acceptOps = [],
     he_processAnswer = Ok '''', he_mediaOps = [], he_mediaWait = WtReady, he_pin = [], he_pinDisp = (\<lambda>_ _. demo_disp DispatchAccept),
     he_regErr = None, he_joinErr = None, he_roomSID = Some ''RM'', he_publishErr = None, he_subOps = [PCancel 7],
     he_subWait = WtCancelled, he_end = [], he_timeoutInitial = 30, he_timeout = 15\<rparr>"


definition demo_state :: CallState where
  "demo_state = NewCallState True \<lparr>CallId = ''SCL_1'', SipCallId = ''cid'', ciDirection = SCD_INBOUND, TrunkId = '''', RoomId = '''',
     DispatchRuleId = '''', ciStatus = SCS_CALL_INCOMING, ciStatusCode = None, ciError = '''', ciReason = UNKNOWN_REASON,
     StartedAtNs = 0, EndedAtNs = 0\<rparr>"

definition demo_call :: inboundCall where
  "demo_call = newInboundCall (NewCall ''inbound'' ''h'') empty_monitor ((fst (Processing True 1 demo_dialog))\<lparr>si_state := Some demo_state\<rparr>)"

lemma demo_call_fresh:
  "fresh_call demo_invite (\<lambda>_. None) ''SCL_1'' True 1 demo_state (NewCall ''inbound'' ''h'') empty_monitor = Some demo_call"
  by (simp add: fresh_call_def demo_dialog_new demo_call_def)

lemma demo_call_tx: "si_inviteTx (ic_cc demo_call)"
  by (simp add: demo_call_def newInboundCall_def Processing_def demo_dialog_def respond_def respondWithData_def Let_def)

lemma demo_ring: "\<exists>cc sent. StartRinging True 5 (ic_cc demo_call) = Some (cc, sent)"
  using demo_call_tx respond_same [of "ic_cc demo_call" True 5 180 "''Ringing''"]
  by (cases "respond True 5 180 ''Ringing'' (ic_cc demo_call)") (simp add: StartRinging_def same_dialog_def)

lemma demo_handleInvite: "\<exists>d err. handleInvite (demo_h DispatchNoRuleReject) demo_call = Some (d, err)"
proof -
  let ?h = "demo_h DispatchNoRuleReject"
  obtain cc sent where r: "StartRinging True 5 (ic_cc demo_call) = Some (cc, sent)" using demo_ring by blast
  have "\<exists>c1 err. handleInvite_body ?h (demo_call\<lparr>ic_mon := mon, ic_metrics := m\<rparr>) = Some (c1, err)" for mon m
    using r by (simp add: handleInvite_body_def Let_def dispatch_reject_def demo_h_def demo_disp_def)
  then show ?thesis using handleInvite_returns [OF demo_call_fresh] by (simp add: NewCall_def)
qed



section \<open>Who is let in\<close>

text \<open>A dialog that was not answered.\<close>

definition no200 :: "sipInbound \<Rightarrow> bool" where
  "no200 cc \<longleftrightarrow> 200 \<notin> set (resp_codes (si_wire cc)) \<and> \<not> si_inviteOk cc"

lemma no200_emit [simp]: "no200 (emit ev cc) = no200 cc"
  by (simp add: no200_def)

lemma no200_state [simp]: "no200 (cc\<lparr>si_state := s\<rparr>) = no200 cc"
  by (simp add: no200_def)

lemma no200_respond: "no200 cc \<Longrightarrow> st \<noteq> 200 \<Longrightarrow> no200 (fst (respond ok now st r cc))"
  by (auto simp: no200_def respond_def respondWithData_def Let_def)

lemma no200_drop: "no200 cc \<Longrightarrow> no200 (drop_dialog cc)"
  by (simp add: no200_def)

lemma no200_reject:
  assumes "no200 (ic_cc c)" "st \<noteq> 200"
  shows "no200 (ic_cc (ic_reject h st r c))"
proof -
  have "no200 (stopRinging (ic_cc c))" using assms(1) by (simp add: no200_def)
  from no200_drop [OF no200_respond [OF this assms(2)]] show ?thesis
    by (simp add: ic_reject_def RespondAndDrop_def Let_def)
qed

lemma end_result_code: "RCode (end_result en) \<noteq> 200"
  by (auto simp: end_result_def Let_def)

lemma no200_close:
  assumes "no200 cc" "RCode r \<noteq> 200"
  shows "no200 (CloseWithStatus e r cc)"
proof -
  have "no200 (sendStatus ok now r cc)" for ok now
    using assms by (auto simp: sendStatus_def NewResponse_def newResponse_def no200_def)
  then show ?thesis using assms no200_drop by (auto simp: CloseWithStatus_def no200_def)
qed

lemma no200_close_call:
  assumes "no200 (ic_cc c)"
  shows "no200 (ic_cc (close_call e now en c))"
proof -
  have "ic_cc (close_account en c) = ic_cc c"
    by (simp add: close_account_def setStatus_def Let_def case_prod_beta)
  then show ?thesis using assms no200_close [OF assms end_result_code, of e en]
    by (simp add: close_call_def Let_def ic_emit_def closeMedia_def ic_state_def split: option.splits)
qed

lemma no200_ring:
  assumes "no200 cc" "StartRinging ok now cc = Some (cc', sent)"
  shows "no200 cc'"
proof -
  obtain c1 s1 where r: "respond ok now 180 ''Ringing'' cc = (c1, s1)" by fastforce
  then have "no200 c1" using no200_respond [OF assms(1), of 180 ok now "''Ringing''"] by simp
  then show ?thesis using assms(2) r by (auto simp: StartRinging_def no200_def split: if_splits)
qed

lemma rejected_no200:
  assumes "handleInvite_body h c = Some (d, err)" "no200 (ic_cc c)"
    and "diResult (he_disp h) \<notin> {DispatchAccept, DispatchRequestPin}"
  shows "no200 (ic_cc d)"
proof -
  obtain cc sent where r: "StartRinging (he_ringOk h) (he_now h) (ic_cc c) = Some (cc, sent)"
    using assms(1) by (auto simp: handleInvite_body_def split: option.splits)
  define c3 where "c3 = dispatch_event h False (he_disp h)
    (if sent then ic_emit (inviteResponseEvent EventRingingSent (Some (he_now h)) 180 (si_inviteCSeq cc)) (c\<lparr>ic_cc := cc\<rparr>)
     else c\<lparr>ic_cc := cc\<rparr>)"
  have n3: "no200 (ic_cc c3)" using no200_ring [OF assms(2) r] by (simp add: c3_def dispatch_event_def ic_emit_def)
  define c4 where "c4 = ic_state (Update (\<lambda>info. info\<lparr>TrunkId := diTrunkID (he_disp h), DispatchRuleId := diRuleID (he_disp h)\<rparr>))
      (set_project (he_disp h) c3)"
  have n4: "no200 (ic_cc c4)" using n3 by (simp add: c4_def set_project_def ic_state_def)
  note b = assms(1) [unfolded handleInvite_body_def r option.case prod.case Let_def c3_def [symmetric] c4_def [symmetric]]
  note close = no200_close_call [OF no200_reject [OF n3]] no200_close_call [OF no200_reject [OF n4]]
    no200_close_call [of "c4\<lparr>ic_cc := drop_dialog (ic_cc c4)\<rparr>"]
  show ?thesis using b close no200_drop [OF n4] assms(3)
    by (cases "diResult (he_disp h)") (auto simp: dispatch_reject_def closeWithTerm_def split: option.splits)
qed

lemma handleInvite_admission:
  assumes "fresh_call m cached fresh ok now st mon metrics = Some c" "\<not> cm_terminated mon"
    and "handleInvite h c = Some (d, err)"
  shows "(ic_joined d \<longrightarrow> diResult (he_disp h) = DispatchAccept \<or> diResult (he_disp h) = DispatchRequestPin \<and>
      (\<exists>p. length p \<le> 16 \<and> diResult (he_pinDisp h p (p = '''')) = DispatchAccept \<and> diRoomName (he_pinDisp h p (p = '''')) \<noteq> '''')) \<and>
    (200 \<in> set (resp_codes (si_wire (ic_cc d))) \<longrightarrow> diResult (he_disp h) \<in> {DispatchAccept, DispatchRequestPin})"
proof -
  from fresh_call_dialog [OF assms(1)] obtain cc where f: "c = newInboundCall mon metrics cc" "idlg_inv cc" "no200 cc"
    by (auto simp: no200_def)
  obtain mon1 m2 where cs: "CallStart mon (InviteAccept mon metrics) = (mon1, m2)" by fastforce
  define c0 where "c0 = c\<lparr>ic_mon := mon1, ic_metrics := m2\<rparr>"
  have "\<not> cm_terminated mon1" using cs assms(2) by (auto simp: CallStart_def Let_def split: if_splits)
  then have l: "live (admitted h) c0 c0" using f by (simp add: live_def c0_def newInboundCall_def)
  obtain c1 where b: "handleInvite_body h c0 = Some (c1, err)"
    "ic_cc d = ic_cc (closeWithTerm (he_close h) (he_now h) (ServerError ''other'') c1)"
    "ic_joined d = ic_joined (closeWithTerm (he_close h) (he_now h) (ServerError ''other'') c1)"
    using assms(3) cs f(1) by (auto simp: handleInvite_def c0_def Let_def newInboundCall_def split: option.splits)
  from fin_closed [OF body_fin [OF l b(1)]] have "ic_joined d \<longrightarrow> admitted h" using b(3) by (simp add: ended_def)
  moreover have "no200 (ic_cc d)" if "diResult (he_disp h) \<notin> {DispatchAccept, DispatchRequestPin}"
    using no200_close_call [OF rejected_no200 [OF b(1) _ that]] f b(2) by (simp add: c0_def newInboundCall_def closeWithTerm_def)
  ultimately show ?thesis by (auto simp: admitted_def pinLimit_def no200_def)
qed

text \<open>A caller reaches a room only if the dispatch rules let it: directly, or with a pin
  of at most sixteen digits for which the dispatch names a room; and the call is
  answered (200 OK) only when the dispatch accepted it or asked for a pin.\<close>

theorem inbound_call_admission:
  assumes "fresh_call m cached fresh ok now st mon metrics = Some c" "\<not> cm_terminated mon"
    and "handleInvite h c = Some (d, err)"
  shows "(ic_joined d \<longrightarrow> diResult (he_disp h) = DispatchAccept \<or> diResult (he_disp h) = DispatchRequestPin \<and>
      (\<exists>p. length p \<le> 16 \<and> diResult (he_pinDisp h p (p = '''')) = DispatchAccept \<and> diRoomName (he_pinDisp h p (p = '''')) \<noteq> '''')) \<and>
    (200 \<in> set (resp_codes (si_wire (ic_cc d))) \<longrightarrow> diResult (he_disp h) \<in> {DispatchAccept, DispatchRequestPin})"
  by (rule handleInvite_admission [OF assms])

theorem inbound_call_admission_witness:
  "\<exists>d err. handleInvite (demo_h DispatchNoRuleReject) demo_call = Some (d, err) \<and> \<not> ic_joined d \<and>
     200 \<notin> set (resp_codes (si_wire (ic_cc d)))"
proof -
  obtain d err where d: "handleInvite (demo_h DispatchNoRuleReject) demo_call = Some (d, err)" using demo_handleInvite by blast
  have "diResult (he_disp (demo_h DispatchNoRuleReject)) = DispatchNoRuleReject" by (simp add: demo_h_def demo_disp_def)
  with inbound_call_admission [OF demo_call_fresh _ d] d show ?thesis by (auto simp: NewCall_def)
qed

end
