(* ===== verification/OutboundCall.thy ===== *)
theory OutboundCall
  imports OutboundDialog
begin

text \<open>
  \<open>outboundCall\<close> of src/pkg/sip/outbound.go: creation, dialling, waiting for the end and
  closing.  The media port, the room, the clock and the SIP peer are arguments;
  \<open>CloseWith\<close> may come from several goroutines (the RPC, a BYE of the peer, the
  wait loop, the shutdown), in any order.  Playing dial tones, connecting the audio
  and the participant attributes other than the call status are not represented.
\<close>

section \<open>State\<close>

record outboundCall =
  oc_cc :: sipOutbound
  oc_mon :: CallMonitor
  oc_metrics :: Monitor
  oc_started :: bool
  oc_stopped :: bool
  oc_closing :: bool
  oc_inviteTime :: "int option"
  oc_acceptTime :: "int option"
  oc_media :: bool
  oc_mediaOpen :: bool
  oc_room :: bool
  oc_roomOpen :: bool
  oc_registered :: bool
  oc_transferReg :: bool
  oc_byeReceived :: bool
  oc_attrs :: "string list"
  oc_sessionEnds :: "string list"

text \<open>\<open>oe_shutdown\<close>: the service is closing; \<open>oe_bye\<close>: what closing the dialog meets;
  \<open>oe_msg\<close>: the \<open>Error()\<close> method.\<close>

record oc_env =
  oe_now :: int
  oe_msg :: "go_error \<Rightarrow> string"
  oe_bye :: obye_env
  oe_mediaErr :: "go_error option"
  oe_joinErr :: "go_error option"
  oe_rpcErr :: "go_error option"
  oe_transferID :: string
  oe_offer :: "(go_error, string) result"
  oe_invite :: invite_env
  oe_ringingSeen :: bool
  oe_answerErr :: "go_error option"
  oe_ackErr :: "go_error option"
  oe_abort :: "go_error option"
  oe_audio :: "string option"
  oe_dtmf :: string
  oe_dtmfErr :: "go_error option"
  oe_roomSID :: "string option"

definition oc_emit :: "SignalingEvent \<Rightarrow> outboundCall \<Rightarrow> outboundCall" where
  "oc_emit ev c = c\<lparr>oc_cc := emitEvent ev (oc_cc c)\<rparr>"

definition oc_state :: "(CallState \<Rightarrow> CallState) \<Rightarrow> outboundCall \<Rightarrow> outboundCall" where
  "oc_state f c = c\<lparr>oc_cc := (oc_cc c)\<lparr>so_state := map_option f (so_state (oc_cc c))\<rparr>\<rparr>"

definition setStatusWith :: "CallStatus \<Rightarrow> outboundCall \<Rightarrow> outboundCall" where
  "setStatusWith v c = (if Attribute v = '''' \<or> \<not> oc_room c then c else c\<lparr>oc_attrs := oc_attrs c @ [Attribute v]\<rparr>)"

section \<open>Closing\<close>

definition ensureClosed :: "int \<Rightarrow> outboundCall \<Rightarrow> outboundCall" where
  "ensureClosed now c = oc_state (Update (\<lambda>info.
     (info\<lparr>ciStatus := if ciError info \<noteq> '''' then SCS_ERROR else SCS_DISCONNECTED\<rparr>)
       \<lparr>EndedAtNs := if EndedAtNs info = 0 then now else EndedAtNs info\<rparr>)) c"

definition setErrStatus :: "(go_error \<Rightarrow> string) \<Rightarrow> int \<Rightarrow> go_error option \<Rightarrow> outboundCall \<Rightarrow> outboundCall" where
  "setErrStatus msg now err c = (case err of
     None \<Rightarrow> c
   | Some e \<Rightarrow> oc_state (Update (\<lambda>info. if ciError info \<noteq> '''' then info
       else info\<lparr>ciError := msg e, ciStatus := SCS_ERROR, EndedAtNs := if EndedAtNs info = 0 then now else EndedAtNs info\<rparr>)) c)"

definition stopSIP :: "obye_env \<Rightarrow> Termination \<Rightarrow> outboundCall \<Rightarrow> outboundCall" where
  "stopSIP e t c = (case CallTerminate t (oc_mon c) (oc_metrics c) of (mon, m) \<Rightarrow>
     c\<lparr>oc_mon := mon, oc_metrics := m, oc_cc := Close_out e (oc_cc c)\<rparr>)"

definition close_info :: "(go_error \<Rightarrow> string) \<Rightarrow> int \<Rightarrow> EndCall \<Rightarrow> SIPCallInfo \<Rightarrow> SIPCallInfo" where
  "close_info msg now en info = (let
     i1 = (case Report en of Some e \<Rightarrow> if ciError info = '''' then info\<lparr>ciError := msg e\<rparr> else info | None \<Rightarrow> info)
   in i1\<lparr>ciStatus := if ciError i1 \<noteq> '''' then SCS_ERROR else SCS_DISCONNECTED, ciReason := Reason en,
         EndedAtNs := if EndedAtNs i1 = 0 then now else EndedAtNs i1\<rparr>)"

text \<open>\<open>close\<close>; the result tells whether this call closed it.  \<open>CallEnd\<close> may panic.\<close>

definition oc_close :: "oc_env \<Rightarrow> EndCall \<Rightarrow> outboundCall \<Rightarrow> (outboundCall \<times> bool) option" where
  "oc_close e en c0 = (let c = c0\<lparr>oc_closing := True\<rparr> in
     if oc_stopped c then Some (c, False)
     else (let
         c1 = setStatusWith (Status en) (c\<lparr>oc_stopped := True\<rparr>);
         c2 = oc_state (Update (close_info (oe_msg e) (oe_now e) en)) c1
       in case CallEnd (oc_mon c2) (oc_metrics c2) of
            None \<Rightarrow> None
          | Some (mon, m) \<Rightarrow> (let
              c3 = c2\<lparr>oc_mon := mon, oc_metrics := m\<rparr>;
              c4 = oc_emit (callEndedEvent (Some (oe_now e)) (Term en) (so_finalStatus (oc_cc c3))) c3;
              c5 = stopSIP (oe_bye e) (Term en) c4
            in Some (c5\<lparr>oc_mediaOpen := False, oc_roomOpen := False, oc_registered := False, oc_transferReg := False,
                 oc_sessionEnds := oc_sessionEnds c5 @ [TReason (Term en)]\<rparr>, True))))"

definition end_out :: "go_error option \<Rightarrow> CallStatus \<Rightarrow> Termination \<Rightarrow> DisconnectReason \<Rightarrow> EndCall" where
  "end_out rep st t r = \<lparr>Report = rep, Status = st, Term = t, Reason = r, EHeaders = [], Code = 0\<rparr>"

definition oc_Close :: "oc_env \<Rightarrow> outboundCall \<Rightarrow> outboundCall option" where
  "oc_Close e c = map_option fst (oc_close e (end_out None callDropped (ServerError ''shutdown'') SERVER_SHUTDOWN) c)"

definition oc_closeWithTimeout :: "oc_env \<Rightarrow> outboundCall \<Rightarrow> outboundCall option" where
  "oc_closeWithTimeout e c = map_option fst (oc_close e (end_out (Some (EPsrpc DeadlineExceeded (ENew ''media-timeout'')))
     callDropped (Indeterminate ''media-timeout'') MEDIA_FAILURE) c)"

definition oc_EndCall :: "oc_env \<Rightarrow> outboundCall \<Rightarrow> (outboundCall \<times> go_error option) option" where
  "oc_EndCall e c = map_option (\<lambda>(c1, done). (c1, if done then None else Some (ENew ''call already ended'')))
     (oc_close e (end_out None CallHangup (Success ''rpc'') CLIENT_INITIATED) c)"

text \<open>\<open>onOutboundBye\<close> on a call that exists.\<close>

definition oc_bye :: "oc_env \<Rightarrow> 32 word \<Rightarrow> string option \<Rightarrow> outboundCall \<Rightarrow> outboundCall option" where
  "oc_bye e cseq reason c = (let
     c1 = (if oc_byeReceived c then c
           else oc_emit ((new_event EventByeReceived (Some (oe_now e)))\<lparr>evSIPMethod := ''BYE'', evCSeq := cseq,
             evReason := messageCause reason\<rparr>) (c\<lparr>oc_byeReceived := True\<rparr>));
     c2 = c1\<lparr>oc_cc := AcceptBye_out (oc_cc c1)\<rparr>
   in map_option fst (oc_close e (end_out None CallHangup (Success ''bye'') CLIENT_INITIATED) c2))"

section \<open>Creation and dialling\<close>

text \<open>\<open>newCall\<close> up to the media port and the room; \<open>rhs\<close> are the Route headers if their
  feature is enabled.\<close>

definition connectToRoom :: "oc_env \<Rightarrow> outboundCall \<Rightarrow> outboundCall \<times> go_error option" where
  "connectToRoom e c = (let c1 = (if oe_transferID e \<noteq> '''' then c\<lparr>oc_transferReg := True\<rparr> else c) in
     case oe_joinErr e of
       Some err \<Rightarrow> (c1, Some err)
     | None \<Rightarrow> (c1\<lparr>oc_room := True, oc_roomOpen := True, oc_attrs := oc_attrs c1 @ [Attribute CallDialing]\<rparr>, oe_rpcErr e))"

definition init_call ::
  "oc_env \<Rightarrow> (string \<Rightarrow> string) \<Rightarrow> string \<Rightarrow> sip_uri \<Rightarrow> string list \<Rightarrow> bool \<Rightarrow> CallState \<Rightarrow> string \<Rightarrow> string \<Rightarrow> Monitor \<Rightarrow> outboundCall" where
  "init_call e hash cid uri rhs srv st toHost provider m = oc_emit (new_event EventCallRequested (Some (oe_now e)))
     \<lparr>oc_cc = (newOutbound hash cid uri (Some (DeferUpdate (\<lambda>info. info\<lparr>SipCallId := hash cid\<rparr>) st)))
        \<lparr>so_routeHeaders := rhs, so_preferSRV := srv\<rparr>,
      oc_mon = SetProvider provider (NewCall ''outbound'' toHost), oc_metrics = m, oc_started = False,
      oc_stopped = False, oc_closing = False, oc_inviteTime = None, oc_acceptTime = None, oc_media = False, oc_mediaOpen = False,
      oc_room = False, oc_roomOpen = False, oc_registered = False, oc_transferReg = False, oc_byeReceived = False, oc_attrs = [],
      oc_sessionEnds = []\<rparr>"

definition newCall ::
  "oc_env \<Rightarrow> (string \<Rightarrow> string) \<Rightarrow> string \<Rightarrow> sip_uri \<Rightarrow> string list \<Rightarrow> bool \<Rightarrow> CallState \<Rightarrow> string \<Rightarrow> string \<Rightarrow> Monitor \<Rightarrow>
   (outboundCall \<times> go_error option) option" where
  "newCall e hash cid uri rhs srv st toHost provider m = (let c = init_call e hash cid uri rhs srv st toHost provider m
   in case oe_mediaErr e of
        Some err \<Rightarrow> map_option (\<lambda>(c1, _). (c1, Some err)) (oc_close e
          (end_out (Some (EWrap ''media failed'' err)) callDropped (ServerError ''media-failed'') MEDIA_FAILURE) c)
      | None \<Rightarrow> (case connectToRoom e (c\<lparr>oc_media := True, oc_mediaOpen := True\<rparr>) of
          (c1, Some err) \<Rightarrow> map_option (\<lambda>(c2, _). (c2, Some (EPsrpc Internal (EWrap ''update room failed'' err)))) (oc_close e
            (end_out (Some (EWrap ''room join failed'' err)) callDropped (ServerError ''join-failed'') JOIN_FAILURE) c1)
        | (c1, None) \<Rightarrow> Some (c1\<lparr>oc_registered := True\<rparr>, None)))"

definition invite_error_label :: "go_error \<Rightarrow> string" where
  "invite_error_label err = (case as_SIPStatus err of Some (code, _) \<Rightarrow> statusName code | None \<Rightarrow> ''other'')"

text \<open>\<open>sipSignal\<close>.  \<open>oe_abort\<close> is the cause of the context if it ended by the time the answer
  was acknowledged; \<^const>\<open>None\<close> as a result: the INVITE is still waiting.\<close>

definition sipSignal :: "oc_env \<Rightarrow> outboundCall \<Rightarrow> (outboundCall \<times> go_error option) option" where
  "sipSignal e c = (case oe_offer e of
     Inl err \<Rightarrow> Some (c, Some err)
   | Inr offer \<Rightarrow> (let
       c1 = c\<lparr>oc_metrics := InviteReq (oc_mon c) (oc_metrics c), oc_inviteTime := Some (oe_now e)\<rparr>
     in case Invite ((oe_invite e)\<lparr>ie_sdp := offer\<rparr>) (oc_cc c1) of
          None \<Rightarrow> None
        | Some (cc, r) \<Rightarrow> (let
            c2 = (if oe_ringingSeen e then setStatusWith CallRinging (c1\<lparr>oc_cc := cc\<rparr>) else c1\<lparr>oc_cc := cc\<rparr>)
          in case r of
               Inl err \<Rightarrow> (let
                 c3 = c2\<lparr>oc_metrics := InviteError (invite_error_label err) (oc_mon c2) (oc_metrics c2)\<rparr>;
                 c4 = (case as_SIPStatus err of
                     Some st \<Rightarrow> oc_state (DeferUpdate (\<lambda>info. info\<lparr>ciStatusCode := Some st\<rparr>)) c3
                   | None \<Rightarrow> c3)
               in Some (c4\<lparr>oc_cc := Close_out (oe_bye e) (oc_cc c4)\<rparr>, Some err))
             | Inr sdpResp \<Rightarrow> (let c3 = c2\<lparr>oc_acceptTime := Some (oe_now e)\<rparr> in
                 case oe_answerErr e of
                   Some err \<Rightarrow> Some (c3, Some err)
                 | None \<Rightarrow> (let c4 = c3\<lparr>oc_metrics := InviteAccept (oc_mon c3) (oc_metrics c3)\<rparr> in
                     case AckInviteOK (oe_ackErr e) (oe_now e) (oc_cc c4) of
                       (cc5, Some err) \<Rightarrow> Some (c4\<lparr>oc_cc := cc5\<rparr>, Some err)
                     | (cc5, None) \<Rightarrow> (let c5 = c4\<lparr>oc_cc := cc5\<rparr> in
                         case oe_abort e of
                           Some cause \<Rightarrow> Some (c5, Some (EPsrpc Canceled cause))
                         | None \<Rightarrow> if oe_audio e = None
                             then Some (c5, Some (ENew ''call media does not have negotiated audio''))
                             else Some (oc_state (DeferUpdate (\<lambda>info. info)) c5, None)))))))"

definition dialSIP :: "oc_env \<Rightarrow> outboundCall \<Rightarrow> (outboundCall \<times> go_error option) option" where
  "dialSIP e c = (case sipSignal e c of
     None \<Rightarrow> None
   | Some (c1, Some err) \<Rightarrow> Some (c1, Some err)
   | Some (c1, None) \<Rightarrow>
       if oe_dtmf e \<noteq> '''' then (let c2 = setStatusWith CallAutomation c1 in
         case oe_dtmfErr e of
           Some err \<Rightarrow> Some (c2, Some (EWrap ''error writing digits'' err))
         | None \<Rightarrow> Some (setStatusWith CallActive c2, None))
       else Some (setStatusWith CallActive c1, None))"

definition connectSIP :: "oc_env \<Rightarrow> outboundCall \<Rightarrow> (outboundCall \<times> go_error option) option" where
  "connectSIP e c = (case dialSIP e c of
     None \<Rightarrow> None
   | Some (c1, None) \<Rightarrow> Some (c1\<lparr>oc_started := True\<rparr>, None)
   | Some (c1, Some err) \<Rightarrow> (let
       res0 = classifyInviteError err;
       res = (if oc_inviteTime c1 \<noteq> None then afterInvite res0 else res0)
     in map_option (\<lambda>(c2, _). (c2, returnErr res)) (oc_close e (ifEnd res) c1)))"

definition Dial :: "oc_env \<Rightarrow> outboundCall \<Rightarrow> (outboundCall \<times> go_error option) option" where
  "Dial e c = (let
     (mon, m) = (if oc_stopped c then (oc_mon c, oc_metrics c) else CallStart (oc_mon c) (oc_metrics c))
   in case connectSIP e (c\<lparr>oc_mon := mon, oc_metrics := m\<rparr>) of
        None \<Rightarrow> None
      | Some (c1, Some err) \<Rightarrow> Some (ensureClosed (oe_now e) c1, Some err)
      | Some (c1, None) \<Rightarrow> Some (oc_state (Update (\<lambda>info. if EndedAtNs info \<noteq> 0 then info
          else (case oe_roomSID e of
              None \<Rightarrow> info
            | Some sid \<Rightarrow> info\<lparr>RoomId := sid, StartedAtNs := oe_now e, ciStatus := SCS_ACTIVE\<rparr>))) c1, None))"

section \<open>Waiting for the end\<close>

datatype owait_event = OwStats | OwTick | OwDisconnected DisconnectReason | OwMediaTimeout | OwCtxDone | OwClosed

fun owait_loop :: "oc_env \<Rightarrow> owait_event list \<Rightarrow> outboundCall \<Rightarrow> (outboundCall \<times> go_error option) option" where
  "owait_loop e [] c = None"
| "owait_loop e (OwStats # evs) c = owait_loop e evs c"
| "owait_loop e (OwTick # evs) c = owait_loop e evs (oc_state ForceFlush c)"
| "owait_loop e (OwDisconnected r # evs) c = map_option (\<lambda>(c1, _). (c1, None))
     (oc_close e (end_out None callDropped (terminationFromRoomDisconnect r) (disconnectReasonFromRoomClose r)) c)"
| "owait_loop e (OwMediaTimeout # evs) c = (let err = EPsrpc DeadlineExceeded (ENew ''media timeout'') in
     map_option (\<lambda>c1. (setErrStatus (oe_msg e) (oe_now e) (Some err) c1, Some err)) (oc_closeWithTimeout e c))"
| "owait_loop e (OwCtxDone # evs) c = map_option (\<lambda>(c1, _). (c1, None))
     (oc_close e (end_out None CallHangup (Success ''hangup'') CLIENT_INITIATED) c)"
| "owait_loop e (OwClosed # evs) c = (if oc_stopped c then Some (c, None) else owait_loop e evs c)"

definition waitClose :: "oc_env \<Rightarrow> owait_event list \<Rightarrow> outboundCall \<Rightarrow> (outboundCall \<times> go_error option) option" where
  "waitClose e evs c = map_option (\<lambda>(c1, err). (ensureClosed (oe_now e) c1, err)) (owait_loop e evs c)"


section \<open>An outbound call ends once\<close>

text \<open>Everything that acts on a call, in any order: the dialling, the wait loop, the RPC, a BYE
  of the peer, the shutdown and any other \<open>CloseWith\<close>.\<close>

datatype oc_op = OcDial oc_env | OcWait oc_env "owait_event list" | OcEndCall oc_env | OcBye oc_env "32 word" "string option"
  | OcShutdown oc_env | OcCloseWith oc_env EndCall

fun oc_step :: "oc_op \<Rightarrow> outboundCall \<Rightarrow> outboundCall option" where
  "oc_step (OcDial e) c = map_option fst (Dial e c)"
| "oc_step (OcWait e evs) c = map_option fst (waitClose e evs c)"
| "oc_step (OcEndCall e) c = map_option fst (oc_EndCall e c)"
| "oc_step (OcBye e cseq reason) c = oc_bye e cseq reason c"
| "oc_step (OcShutdown e) c = oc_Close e c"
| "oc_step (OcCloseWith e en) c = map_option fst (oc_close e en c)"

text \<open>The accounting of a call: \<open>mon0\<close> and \<open>m0\<close> are the monitor and the metrics it started
  with.\<close>

definition oc_acct :: "CallMonitor \<Rightarrow> Monitor \<Rightarrow> outboundCall \<Rightarrow> bool" where
  "oc_acct mon0 m0 c \<longleftrightarrow>
     cm_dir (oc_mon c) = cm_dir mon0 \<and> cm_toHost (oc_mon c) = cm_toHost mon0 \<and> cm_provider (oc_mon c) = cm_provider mon0 \<and>
     (if oc_stopped c then
        \<not> cm_started (oc_mon c) \<and> cm_terminated (oc_mon c) \<and> callsActive (oc_metrics c) = callsActive m0 \<and>
        \<not> oc_registered c \<and> \<not> oc_transferReg c \<and> \<not> oc_mediaOpen c \<and> \<not> oc_roomOpen c \<and> oc_closing c \<and>
        (\<exists>t :: Termination. oc_sessionEnds c = [TReason t] \<and> callsTerminated (oc_metrics c) =
           bump (callsTerminated m0) (cm_dir mon0, cm_toHost mon0, providerLabel mon0, Result t, TReason t) 1)
      else oc_sessionEnds c = [] \<and> \<not> cm_terminated (oc_mon c) \<and> callsTerminated (oc_metrics c) = callsTerminated m0 \<and>
        (if cm_started (oc_mon c) then cm_providerAtStart (oc_mon c) = Some (providerLabel mon0) \<and>
             callsActive (oc_metrics c) = bump (callsActive m0) (cm_dir mon0, cm_toHost mon0, providerLabel mon0) 1
         else callsActive (oc_metrics c) = callsActive m0))"

text \<open>What the accounting does not depend on.\<close>

definition same_acct :: "outboundCall \<Rightarrow> outboundCall \<Rightarrow> bool" where
  "same_acct c d \<longleftrightarrow> oc_mon d = oc_mon c \<and> oc_stopped d = oc_stopped c \<and>
     callsActive (oc_metrics d) = callsActive (oc_metrics c) \<and> callsTerminated (oc_metrics d) = callsTerminated (oc_metrics c) \<and>
     oc_registered d = oc_registered c \<and> oc_transferReg d = oc_transferReg c \<and> oc_mediaOpen d = oc_mediaOpen c \<and>
     oc_roomOpen d = oc_roomOpen c \<and> oc_closing d = oc_closing c \<and> oc_sessionEnds d = oc_sessionEnds c"

lemma same_acct_keeps: "oc_acct mon0 m0 c \<Longrightarrow> same_acct c d \<Longrightarrow> oc_acct mon0 m0 d"
  by (simp add: oc_acct_def same_acct_def)

lemma same_acct_refl [simp]: "same_acct c c"
  by (simp add: same_acct_def)

lemma same_acct_trans: "same_acct a b \<Longrightarrow> same_acct b c \<Longrightarrow> same_acct a c"
  by (simp add: same_acct_def)

lemma same_acct_upd [simp]:
  "same_acct c (d\<lparr>oc_cc := cc\<rparr>) = same_acct c d" "same_acct c (d\<lparr>oc_started := b\<rparr>) = same_acct c d"
  "same_acct c (d\<lparr>oc_inviteTime := t\<rparr>) = same_acct c d" "same_acct c (d\<lparr>oc_acceptTime := t\<rparr>) = same_acct c d"
  "same_acct c (d\<lparr>oc_byeReceived := b\<rparr>) = same_acct c d"
  "same_acct c (oc_emit ev d) = same_acct c d" "same_acct c (oc_state f d) = same_acct c d"
  "same_acct c (setStatusWith v d) = same_acct c d" "same_acct c (ensureClosed now d) = same_acct c d"
  by (auto simp: same_acct_def oc_emit_def oc_state_def setStatusWith_def ensureClosed_def)

lemma invite_metrics [simp]:
  "callsActive (InviteReq mon m) = callsActive m" "callsTerminated (InviteReq mon m) = callsTerminated m"
  "callsActive (InviteAccept mon m) = callsActive m" "callsTerminated (InviteAccept mon m) = callsTerminated m"
  "callsActive (InviteError l mon m) = callsActive m" "callsTerminated (InviteError l mon m) = callsTerminated m"
  by (simp_all add: InviteReq_def InviteAccept_def InviteError_def)

lemma bump_back [simp]: "bump (bump f k 1) k (- 1) = f"
  by (auto simp: bump_def)

lemma oc_close_acct:
  assumes "oc_acct mon0 m0 c"
  shows "\<exists>d. oc_close e en c = Some (d, \<not> oc_stopped c) \<and> oc_acct mon0 m0 d \<and> oc_stopped d"
proof (cases "oc_stopped c")
  case True
  then show ?thesis using assms by (simp add: oc_close_def oc_acct_def)
next
  case False
  let ?c = "oc_state (Update (close_info (oe_msg e) (oe_now e) en)) (setStatusWith (Status en) (c\<lparr>oc_closing := True, oc_stopped := True\<rparr>))"
  have c: "oc_mon ?c = oc_mon c" "oc_metrics ?c = oc_metrics c" "oc_sessionEnds ?c = oc_sessionEnds c" "oc_closing ?c" "oc_stopped ?c"
    by (simp_all add: oc_state_def setStatusWith_def)
  obtain mon m where ce: "CallEnd (oc_mon c) (oc_metrics c) = Some (mon, m)"
    using assms False by (auto simp: oc_acct_def CallEnd_def split: if_splits)
  then have m: "mon = (oc_mon c)\<lparr>cm_started := False\<rparr>" "callsActive m = callsActive m0" "callsTerminated m = callsTerminated m0"
    using assms False by (auto simp: oc_acct_def CallEnd_def split: if_splits)
  show ?thesis using assms False c ce m
    by (auto simp: oc_close_def Let_def stopSIP_def CallTerminate_def oc_acct_def oc_emit_def providerLabel_def)
qed


lemma oc_close_keeps: "oc_acct mon0 m0 c \<Longrightarrow> oc_close e en c = Some (d, b) \<Longrightarrow> oc_acct mon0 m0 d \<and> oc_stopped d"
  using oc_close_acct [of mon0 m0 c e en] by auto

lemma same_acct_metrics [simp]:
  "callsActive m = callsActive (oc_metrics d) \<Longrightarrow> callsTerminated m = callsTerminated (oc_metrics d) \<Longrightarrow>
     same_acct c (d\<lparr>oc_metrics := m\<rparr>) = same_acct c d"
  by (simp add: same_acct_def)

lemma setStatusWith_keeps [simp]:
  "oc_mon (setStatusWith v c) = oc_mon c" "oc_metrics (setStatusWith v c) = oc_metrics c" "oc_cc (setStatusWith v c) = oc_cc c"
  by (simp_all add: setStatusWith_def)

lemma sipSignal_acct:
  assumes "sipSignal e c = Some (d, err)"
  shows "same_acct c d"
proof (cases "oe_offer e")
  case (Inr offer)
  define c1 where "c1 = c\<lparr>oc_metrics := InviteReq (oc_mon c) (oc_metrics c), oc_inviteTime := Some (oe_now e)\<rparr>"
  have c1: "same_acct c c1" by (simp add: c1_def same_acct_def)
  from assms Inr obtain cc r where i: "Invite ((oe_invite e)\<lparr>ie_sdp := offer\<rparr>) (oc_cc c1) = Some (cc, r)"
    by (auto simp: sipSignal_def Let_def c1_def split: option.splits)
  define c2 where "c2 = (if oe_ringingSeen e then setStatusWith CallRinging (c1\<lparr>oc_cc := cc\<rparr>) else c1\<lparr>oc_cc := cc\<rparr>)"
  have c2: "same_acct c c2" using c1 by (simp add: c2_def)
  note b = assms [unfolded sipSignal_def Inr sum.case Let_def c1_def [symmetric] i option.case prod.case c2_def [symmetric]]
  show ?thesis
  proof (cases r)
    case (Inl x)
    have "same_acct c (c2\<lparr>oc_metrics := InviteError l (oc_mon c2) (oc_metrics c2)\<rparr>)" for l using c2 by simp
    then show ?thesis using b Inl by (auto split: option.splits)
  next
    case (Inr body)
    have "same_acct c (c2\<lparr>oc_acceptTime := t, oc_metrics := InviteAccept (oc_mon c2) (oc_metrics c2), oc_cc := x\<rparr>)" for t x
      using c2 by (simp add: same_acct_def)
    then show ?thesis using b Inr c2 by (auto split: option.splits prod.splits if_split_asm)
  qed
qed (use assms in \<open>simp add: sipSignal_def\<close>)

lemma dialSIP_acct: "dialSIP e c = Some (d, err) \<Longrightarrow> same_acct c d"
  by (auto simp: dialSIP_def Let_def dest!: sipSignal_acct split: option.splits if_splits)

lemma connectSIP_acct:
  assumes "oc_acct mon0 m0 c" "connectSIP e c = Some (d, err)"
  shows "oc_acct mon0 m0 d"
proof -
  obtain c1 e1 where d: "dialSIP e c = Some (c1, e1)" using assms(2) by (auto simp: connectSIP_def split: option.splits)
  have a1: "oc_acct mon0 m0 c1" by (rule same_acct_keeps [OF assms(1) dialSIP_acct [OF d]])
  show ?thesis
  proof (cases e1)
    case None
    have "same_acct c1 (c1\<lparr>oc_started := True\<rparr>)" by simp
    from same_acct_keeps [OF a1 this] show ?thesis using assms(2) d None by (simp add: connectSIP_def)
  next
    case (Some x)
    then show ?thesis using assms(2) d oc_close_keeps [OF a1] by (auto simp: connectSIP_def Let_def)
  qed
qed

lemma Dial_acct:
  assumes "oc_acct mon0 m0 c" "Dial e c = Some (d, err)"
  shows "oc_acct mon0 m0 d"
proof -
  obtain mon m where cs: "(if oc_stopped c then (oc_mon c, oc_metrics c) else CallStart (oc_mon c) (oc_metrics c)) = (mon, m)"
    by fastforce
  let ?c = "c\<lparr>oc_mon := mon, oc_metrics := m\<rparr>"
  have a: "oc_acct mon0 m0 ?c"
    using assms(1) cs by (auto simp: oc_acct_def CallStart_def Let_def bump_def providerLabel_def split: if_splits)
  obtain c1 e1 where c1: "connectSIP e ?c = Some (c1, e1)" using assms(2) cs by (auto simp: Dial_def split: option.splits)
  have "same_acct c1 d" using assms(2) cs c1 by (auto simp: Dial_def split: option.splits)
  with connectSIP_acct [OF a c1] show ?thesis by (rule same_acct_keeps)
qed

lemma owait_acct:
  assumes "oc_acct mon0 m0 c" "owait_loop e evs c = Some (d, err)"
  shows "oc_acct mon0 m0 d \<and> oc_stopped d"
  using assms
proof (induction e evs c rule: owait_loop.induct)
  case (3 e evs c)
  have "same_acct c (oc_state ForceFlush c)" by simp
  from 3 same_acct_keeps [OF "3.prems"(1) this] show ?case by simp
next
  case (5 e evs c)
  then obtain c1 b where c: "oc_close e (end_out (Some (EPsrpc DeadlineExceeded (ENew ''media-timeout'')))
      callDropped (Indeterminate ''media-timeout'') MEDIA_FAILURE) c = Some (c1, b)" and "same_acct c1 d"
    by (auto simp: oc_closeWithTimeout_def setErrStatus_def Let_def)
  moreover have "oc_acct mon0 m0 c1 \<and> oc_stopped c1" by (rule oc_close_keeps [OF "5.prems"(1) c])
  ultimately show ?case using same_acct_keeps by (auto simp: same_acct_def)
next
  case (4 e r evs c)
  then show ?case using oc_close_keeps [OF "4.prems"(1)] by auto
next
  case (6 e evs c)
  then show ?case using oc_close_keeps [OF "6.prems"(1)] by auto
qed (auto split: if_splits)

lemma oc_step_acct: "oc_acct mon0 m0 c \<Longrightarrow> oc_step x c = Some d \<Longrightarrow> oc_acct mon0 m0 d"
proof (cases x)
  case (OcDial e)
  then show "oc_acct mon0 m0 c \<Longrightarrow> oc_step x c = Some d \<Longrightarrow> oc_acct mon0 m0 d" using Dial_acct by auto
next
  case (OcWait e evs)
  then show "oc_acct mon0 m0 c \<Longrightarrow> oc_step x c = Some d \<Longrightarrow> oc_acct mon0 m0 d"
    using owait_acct by (fastforce simp: waitClose_def intro: same_acct_keeps)
next
  case (OcBye e cseq reason)
  assume a: "oc_acct mon0 m0 c" and "oc_step x c = Some d"
  moreover define c1 where "c1 = (if oc_byeReceived c then c else oc_emit ((new_event EventByeReceived (Some (oe_now e)))
      \<lparr>evSIPMethod := ''BYE'', evCSeq := cseq, evReason := messageCause reason\<rparr>) (c\<lparr>oc_byeReceived := True\<rparr>))"
  moreover have "oc_acct mon0 m0 (c1\<lparr>oc_cc := AcceptBye_out (oc_cc c1)\<rparr>)" by (rule same_acct_keeps [OF a]) (simp add: c1_def)
  ultimately show "oc_acct mon0 m0 d"
    using OcBye oc_close_keeps [of mon0 m0 "c1\<lparr>oc_cc := AcceptBye_out (oc_cc c1)\<rparr>" e]
    unfolding c1_def [symmetric] by (auto simp: oc_bye_def Let_def c1_def [symmetric])
qed (auto simp: oc_EndCall_def oc_Close_def dest: oc_close_keeps)

interpretation outbound_acct: keeps_inv oc_step "oc_acct mon0 m0" for mon0 m0
  by unfold_locales (rule oc_step_acct)


lemma oc_step_stopped:
  assumes "oc_acct mon0 m0 c" "oc_stopped c" "oc_step x c = Some d"
  shows "oc_stopped d"
proof -
  have close: "oc_close e en c' = Some (c'\<lparr>oc_closing := True\<rparr>, False)" if "oc_stopped c'" for e en c'
    using that by (simp add: oc_close_def)
  have dial: "oc_stopped d'" if D: "Dial e c = Some (d', err)" for e d' err
  proof -
    obtain c1 e1 where c1: "connectSIP e c = Some (c1, e1)" using D assms(2) by (auto simp: Dial_def split: option.splits)
    then have eq: "oc_stopped d' = oc_stopped c1"
      using D assms(2) by (auto simp: Dial_def oc_state_def ensureClosed_def split: option.splits)
    from c1 obtain c2 e2 where "dialSIP e c = Some (c2, e2)" "oc_stopped c1 = oc_stopped c2 \<or> oc_stopped c1"
      by (auto simp: connectSIP_def Let_def oc_close_def split: option.splits if_splits)
    then show ?thesis using dialSIP_acct [of e c c2 e2] assms(2) eq by (auto simp: same_acct_def)
  qed
  show ?thesis
  proof (cases x)
    case (OcWait e evs)
    then show ?thesis using assms(3) owait_acct [OF assms(1)] by (fastforce simp: waitClose_def ensureClosed_def oc_state_def)
  next
    case (OcBye e cseq reason)
    then show ?thesis using assms(2,3) by (auto simp: oc_bye_def Let_def close oc_emit_def)
  qed (use assms(2,3) close dial in \<open>auto simp: oc_EndCall_def oc_Close_def\<close>)
qed

lemma newCall_acct:
  assumes "newCall e hash cid uri rhs srv st toHost provider m = Some (c, err)"
  shows "oc_acct (SetProvider provider (NewCall ''outbound'' toHost)) m c \<and> (oc_stopped c \<longleftrightarrow> err \<noteq> None)"
proof -
  let ?mon = "SetProvider provider (NewCall ''outbound'' toHost)"
  define c0 where "c0 = init_call e hash cid uri rhs srv st toHost provider m"
  have ns: "\<not> cm_started ?mon" "\<not> cm_terminated ?mon" by (simp_all add: SetProvider_def NewCall_def)
  then have a0: "oc_acct ?mon m c0" "\<not> oc_stopped c0" by (simp_all add: c0_def init_call_def oc_acct_def oc_emit_def)
  let ?c1 = "fst (connectToRoom e (c0\<lparr>oc_media := True, oc_mediaOpen := True\<rparr>))"
  have a1: "oc_acct ?mon m ?c1" "\<not> oc_stopped ?c1" "oc_acct ?mon m (?c1\<lparr>oc_registered := True\<rparr>)"
    using a0 by (auto simp: connectToRoom_def Let_def oc_acct_def split: option.splits)
  note n = assms [unfolded newCall_def Let_def c0_def [symmetric]]
  show ?thesis
  proof (cases "oe_mediaErr e")
    case (Some x)
    then show ?thesis using n oc_close_keeps [OF a0(1)] by (auto dest: sym)
  next
    case None
    then show ?thesis using n oc_close_keeps [OF a1(1)] a1(2,3)
      by (cases "connectToRoom e (c0\<lparr>oc_media := True, oc_mediaOpen := True\<rparr>)") (auto split: option.splits)
  qed
qed

text \<open>C5: an outbound call ends once, whoever ends it: after its creation and any interleaving of
  dialling, waiting, RPC, BYE and shutdown, either it is still running and nothing was
  reported, or it was closed exactly once: one termination counted, the number of active
  calls as before, \<open>OnSessionEnd\<close> called once, media, room and registrations released.  A
  creation that fails has closed the call.\<close>

theorem outbound_call_ends_once:
  assumes "newCall e hash cid uri rhs srv st toHost provider m = Some (c, err)" "run oc_step ops c = Some d"
  shows "(oc_stopped d \<longrightarrow> \<not> oc_registered d \<and> \<not> oc_transferReg d \<and> \<not> oc_mediaOpen d \<and> \<not> oc_roomOpen d \<and>
      callsActive (oc_metrics d) = callsActive m \<and>
      (\<exists>t :: Termination. oc_sessionEnds d = [TReason t] \<and> callsTerminated (oc_metrics d) = bump (callsTerminated m)
         (''outbound'', toHost, providerLabel (SetProvider provider (NewCall ''outbound'' toHost)), Result t, TReason t) 1)) \<and>
    (\<not> oc_stopped d \<longrightarrow> err = None \<and> oc_sessionEnds d = [] \<and> callsTerminated (oc_metrics d) = callsTerminated m)"
proof -
  let ?mon = "SetProvider provider (NewCall ''outbound'' toHost)"
  note n = newCall_acct [OF assms(1)]
  have a: "oc_acct ?mon m d" using outbound_acct.run_keeps [OF _ assms(2)] n by blast
  have "oc_stopped d" if "err \<noteq> None"
  proof (rule outbound_acct.run_stable [of ?mon m oc_stopped, OF _ _ _ assms(2)])
    show "oc_acct ?mon m c" "oc_stopped c" using n that by auto
  qed (rule oc_step_stopped)
  moreover have "cm_dir ?mon = ''outbound''" "cm_toHost ?mon = toHost" by (simp_all add: SetProvider_def NewCall_def)
  ultimately show ?thesis using a by (cases err) (auto simp: oc_acct_def)
qed


definition demo_oc_env :: "(nat \<Rightarrow> int) \<Rightarrow> oc_env" where
  "demo_oc_env code = \<lparr>oe_now = 4, oe_msg = (\<lambda>_. ''failed''), oe_bye = demo_bye False, oe_mediaErr = None, oe_joinErr = None,
     oe_rpcErr = None, oe_transferID = ''t'', oe_offer = Ok ''sdp'', oe_invite = demo_env code, oe_ringingSeen = True, oe_answerErr = None,
     oe_ackErr = None, oe_abort = None, oe_audio = Some ''PCMU'', oe_dtmf = '''', oe_dtmfErr = None, oe_roomSID = Some ''RM''\<rparr>"

definition demo_ostate :: CallState where
  "demo_ostate = NewCallState True \<lparr>CallId = ''SCL_1'', SipCallId = '''', ciDirection = SCD_OUTBOUND, TrunkId = '''', RoomId = '''',
     DispatchRuleId = '''', ciStatus = SCS_CALL_INCOMING, ciStatusCode = None, ciError = '''', ciReason = UNKNOWN_REASON,
     StartedAtNs = 0, EndedAtNs = 0\<rparr>"

abbreviation demo_newCall :: "(outboundCall \<times> go_error option) option" where
  "demo_newCall \<equiv> newCall (demo_oc_env (\<lambda>_. 200)) (\<lambda>x. x) ''SCL_1'' demo_uri [] False demo_ostate ''h'' ''p'' empty_monitor"

lemma demo_newCall_ok: "\<exists>c. demo_newCall = Some (c, None) \<and> \<not> oc_stopped c"
  by (simp add: newCall_def init_call_def demo_oc_env_def Let_def connectToRoom_def oc_emit_def)

theorem outbound_call_ends_once_witness:
  "\<exists>c d. demo_newCall = Some (c, None) \<and>
     run oc_step [OcEndCall (demo_oc_env (\<lambda>_. 200)), OcShutdown (demo_oc_env (\<lambda>_. 200))] c = Some d \<and>
     oc_stopped d \<and> callsActive (oc_metrics d) = callsActive empty_monitor"
proof -
  obtain c where c: "demo_newCall = Some (c, None)" "\<not> oc_stopped c" using demo_newCall_ok by blast
  note a = newCall_acct [OF c(1), THEN conjunct1]
  obtain d1 b1 where d1: "oc_close (demo_oc_env (\<lambda>_. 200)) (end_out None CallHangup (Success ''rpc'') CLIENT_INITIATED) c = Some (d1, b1)"
    using oc_close_acct [OF a] by blast
  note a1 = oc_close_keeps [OF a d1]
  obtain d b where d: "oc_close (demo_oc_env (\<lambda>_. 200)) (end_out None callDropped (ServerError ''shutdown'') SERVER_SHUTDOWN) d1 = Some (d, b)"
    using oc_close_acct [OF a1 [THEN conjunct1]] by blast
  have s: "oc_stopped d" using oc_close_keeps [OF a1 [THEN conjunct1] d] by blast
  have r: "run oc_step [OcEndCall (demo_oc_env (\<lambda>_. 200)), OcShutdown (demo_oc_env (\<lambda>_. 200))] c = Some d"
    using d1 d by (simp add: oc_EndCall_def oc_Close_def)
  from outbound_call_ends_once [OF c(1) r] s c r show ?thesis by blast
qed

section \<open>What dialling leaves behind\<close>

text \<open>The dialog's books: a BYE was sent exactly when an answered call is no longer
  established.\<close>

definition bye_ok :: "sipOutbound \<Rightarrow> bool" where
  "bye_ok cc \<longleftrightarrow> odlg_inv cc \<and> bye_count (so_wire cc) = (if so_finalStatus cc = 200 \<and> \<not> so_inviteOk cc then 1 else 0)"

lemma bye_ok_state [simp]: "bye_ok (cc\<lparr>so_state := s\<rparr>) = bye_ok cc"
  by (simp add: bye_ok_def odlg_inv_def)

lemma bye_ok_emit [simp]: "bye_ok (emitEvent ev cc) = bye_ok cc"
  by (simp add: bye_ok_def odlg_inv_def)

lemma Close_out_bye_ok:
  assumes "bye_ok cc" "\<not> ob_closing b"
  shows "bye_ok (Close_out b cc) \<and> \<not> so_invite (Close_out b cc) \<and> \<not> so_inviteOk (Close_out b cc)"
  using assms by (auto simp: bye_ok_def odlg_inv_def odlg_defs)

lemma Invite_bye_ok:
  assumes "Invite ie cc = Some (d, r)" "not_yet cc" "bye_count (so_wire cc) = 0"
  shows "bye_ok d \<and> ((\<exists>b. r = Ok b) \<longrightarrow> so_inviteOk d)"
  using invite_loop_effect [OF assms(1) [unfolded Invite_def] assms(2)] assms(3)
  by (auto simp: bye_ok_def invite_outcome_def odlg_inv_def loop_effect_def)

lemma AckInviteOK_bye_ok:
  assumes "bye_ok cc" "AckInviteOK err now cc = (d, e)"
  shows "bye_ok d \<and> so_inviteOk d = so_inviteOk cc \<and>
    (e = None \<longrightarrow> so_inviteOk d \<and> WAck (so_inviteCSeq d) \<in> set (so_wire d))"
  using assms by (auto simp: AckInviteOK_def bye_ok_def odlg_inv_def split: if_splits option.splits)

definition acked_out :: "sipOutbound \<Rightarrow> bool" where
  "acked_out cc \<longleftrightarrow> so_inviteOk cc \<and> WAck (so_inviteCSeq cc) \<in> set (so_wire cc)"

lemma sipSignal_dialog:
  assumes "sipSignal e c = Some (d, err)" "not_yet (oc_cc c)" "bye_count (so_wire (oc_cc c)) = 0" "\<not> ob_closing (oe_bye e)"
  shows "bye_ok (oc_cc d) \<and> (err = None \<longrightarrow> acked_out (oc_cc d))"
proof (cases "oe_offer e")
  case (Inl x)
  then show ?thesis using assms by (auto simp: sipSignal_def bye_ok_def not_yet_def odlg_inv_def)
next
  case (Inr offer)
  obtain cc r where i: "Invite ((oe_invite e)\<lparr>ie_sdp := offer\<rparr>) (oc_cc c) = Some (cc, r)"
    using assms(1) Inr by (auto simp: sipSignal_def Let_def split: option.splits)
  have ok: "bye_ok cc" "(\<exists>b. r = Ok b) \<longrightarrow> so_inviteOk cc" using Invite_bye_ok [OF i assms(2,3)] by auto
  have ss: "oc_cc (setStatusWith v x) = oc_cc x" "oc_cc (oc_state f x) = (oc_cc x)\<lparr>so_state := map_option f (so_state (oc_cc x))\<rparr>" for v x f
    by (simp_all add: setStatusWith_def oc_state_def)
  show ?thesis
  proof (cases r)
    case (Inl x)
    then show ?thesis using assms(1) Inr i Close_out_bye_ok [OF _ assms(4)] ok(1)
      by (auto simp: sipSignal_def Let_def ss split: option.splits)
  next
    case (Inr body)
    show ?thesis
    proof (cases "oe_answerErr e")
      case (Some x)
      then show ?thesis using assms(1) \<open>oe_offer e = Inr offer\<close> i \<open>r = Inr body\<close> ok(1) by (auto simp: sipSignal_def Let_def ss)
    next
      case None
      obtain cc5 e5 where a: "AckInviteOK (oe_ackErr e) (oe_now e) cc = (cc5, e5)" by fastforce
      note ack = AckInviteOK_bye_ok [OF ok(1) a]
      have "bye_ok (cc5\<lparr>so_state := s\<rparr>)" "acked_out (cc5\<lparr>so_state := s\<rparr>) = acked_out cc5" for s
        using ack by (simp_all add: acked_out_def)
      then show ?thesis using assms(1) \<open>oe_offer e = Inr offer\<close> i \<open>r = Inr body\<close> None a ack
        by (auto simp: sipSignal_def Let_def ss acked_out_def split: option.splits if_splits)
    qed
  qed
qed


lemmas returnErr_set = classifyInviteError_returns afterInvite_returns

lemma oc_close_dialog:
  assumes "oc_close e en c = Some (d, b)" "\<not> oc_stopped c" "bye_ok (oc_cc c)" "\<not> ob_closing (oe_bye e)"
  shows "bye_ok (oc_cc d) \<and> \<not> so_invite (oc_cc d) \<and> \<not> so_inviteOk (oc_cc d)"
proof -
  obtain cc where "oc_cc d = Close_out (oe_bye e) cc" "bye_ok cc"
    using assms by (auto simp: oc_close_def Let_def stopSIP_def oc_emit_def oc_state_def setStatusWith_def
        split: option.splits prod.splits if_splits)
  then show ?thesis using Close_out_bye_ok [OF _ assms(4)] by simp
qed

lemma dialSIP_dialog:
  assumes "dialSIP e c = Some (d, err)" "not_yet (oc_cc c)" "bye_count (so_wire (oc_cc c)) = 0" "\<not> ob_closing (oe_bye e)"
  shows "bye_ok (oc_cc d) \<and> (err = None \<longrightarrow> acked_out (oc_cc d))"
proof -
  obtain c1 e1 where s: "sipSignal e c = Some (c1, e1)" using assms(1) by (auto simp: dialSIP_def split: option.splits)
  have "oc_cc (setStatusWith v x) = oc_cc x" for v x by (simp add: setStatusWith_def)
  then show ?thesis using sipSignal_dialog [OF s assms(2-4)] assms(1) s
    by (auto simp: dialSIP_def Let_def split: option.splits if_splits)
qed

lemma connectSIP_dialog:
  assumes "connectSIP e c = Some (d, err)" "not_yet (oc_cc c)" "bye_count (so_wire (oc_cc c)) = 0" "\<not> ob_closing (oe_bye e)"
    "oc_acct mon0 m0 c" "\<not> oc_stopped c"
  shows "bye_ok (oc_cc d) \<and> (if err = None then acked_out (oc_cc d) \<and> \<not> oc_stopped d \<and> oc_started d
    else oc_stopped d \<and> \<not> so_invite (oc_cc d) \<and> \<not> so_inviteOk (oc_cc d))"
proof -
  obtain c1 e1 where d: "dialSIP e c = Some (c1, e1)" using assms(1) by (auto simp: connectSIP_def split: option.splits)
  note dl = dialSIP_dialog [OF d assms(2-4)]
  have s1: "\<not> oc_stopped c1" using dialSIP_acct [OF d] assms(6) by (simp add: same_acct_def)
  show ?thesis
  proof (cases e1)
    case None
    then show ?thesis using assms(1) d dl s1 by (auto simp: connectSIP_def)
  next
    case (Some x)
    let ?res = "if oc_inviteTime c1 \<noteq> None then afterInvite (classifyInviteError x) else classifyInviteError x"
    have "returnErr ?res \<noteq> None" using returnErr_set(1) [of x] returnErr_set(2) [of "classifyInviteError x"]
      by (cases "returnErr (afterInvite (classifyInviteError x))") auto
    moreover obtain b where cl: "oc_close e (ifEnd ?res) c1 = Some (d, b)" "err = returnErr ?res"
      using assms(1) d Some by (auto simp: connectSIP_def Let_def)
    moreover have "oc_stopped d" using oc_close_keeps [OF same_acct_keeps [OF assms(5) dialSIP_acct [OF d]] cl(1)] by blast
    ultimately show ?thesis using oc_close_dialog [OF cl(1) s1 _ assms(4)] dl by simp
  qed
qed

lemma newCall_dialog:
  "newCall e hash cid uri rhs srv st toHost provider m = Some (c, None) \<Longrightarrow>
     not_yet (oc_cc c) \<and> so_wire (oc_cc c) = []"
proof -
  let ?c0 = "init_call e hash cid uri rhs srv st toHost provider m"
  have i: "not_yet (oc_cc ?c0)" "so_wire (oc_cc ?c0) = []"
    by (simp_all add: init_call_def oc_emit_def not_yet_def newOutbound_def)
  obtain c1 r where r: "connectToRoom e (?c0\<lparr>oc_media := True, oc_mediaOpen := True\<rparr>) = (c1, r)" by fastforce
  have "oc_cc (fst (connectToRoom e x)) = oc_cc x" for x by (simp add: connectToRoom_def Let_def split: option.splits)
  from this [of "?c0\<lparr>oc_media := True, oc_mediaOpen := True\<rparr>"] have "oc_cc c1 = oc_cc ?c0" using r by simp
  then show "newCall e hash cid uri rhs srv st toHost provider m = Some (c, None) \<Longrightarrow> not_yet (oc_cc c) \<and> so_wire (oc_cc c) = []"
    using i r by (auto simp: newCall_def Let_def split: option.splits)
qed

lemma Dial_outcome:
  assumes "newCall e0 hash cid uri rhs srv st toHost provider m = Some (c, None)"
    and "Dial e c = Some (d, err)" "\<not> ob_closing (oe_bye e)"
  shows "if err = None then \<not> oc_stopped d \<and> oc_started d \<and> so_inviteOk (oc_cc d) \<and> so_finalStatus (oc_cc d) = 200 \<and>
        WAck (so_inviteCSeq (oc_cc d)) \<in> set (so_wire (oc_cc d)) \<and> bye_count (so_wire (oc_cc d)) = 0
    else oc_stopped d \<and> \<not> so_invite (oc_cc d) \<and> \<not> so_inviteOk (oc_cc d) \<and>
        bye_count (so_wire (oc_cc d)) = (if so_finalStatus (oc_cc d) = 200 then 1 else 0)"
proof -
  note nc = newCall_acct [OF assms(1)] newCall_dialog [OF assms(1)]
  obtain mon m1 where cs: "CallStart (oc_mon c) (oc_metrics c) = (mon, m1)" by fastforce
  let ?c = "c\<lparr>oc_mon := mon, oc_metrics := m1\<rparr>"
  have ac: "oc_acct (SetProvider provider (NewCall ''outbound'' toHost)) m ?c" "\<not> oc_stopped ?c"
    using nc cs by (auto simp: oc_acct_def CallStart_def Let_def bump_def providerLabel_def split: if_splits)
  obtain c1 e1 where c1: "connectSIP e ?c = Some (c1, e1)"
    using assms(2) cs ac(2) by (auto simp: Dial_def split: option.splits)
  have d: "bye_ok (oc_cc c1)" "if e1 = None then acked_out (oc_cc c1) \<and> \<not> oc_stopped c1 \<and> oc_started c1
      else oc_stopped c1 \<and> \<not> so_invite (oc_cc c1) \<and> \<not> so_inviteOk (oc_cc c1)"
    using connectSIP_dialog [OF c1 _ _ assms(3) ac] nc by auto
  have "err = e1" "\<exists>s. oc_cc d = (oc_cc c1)\<lparr>so_state := s\<rparr>" "oc_stopped d = oc_stopped c1" "oc_started d = oc_started c1"
    using assms(2) cs ac(2) c1 by (auto simp: Dial_def ensureClosed_def oc_state_def split: option.splits)
  then show ?thesis using d by (auto simp: bye_ok_def acked_out_def odlg_inv_def split: if_splits)
qed



lemma demo_oc_env_simps [simp]:
  "oe_offer (demo_oc_env f) = Ok ''sdp''" "oe_invite (demo_oc_env f) = demo_env f" "oe_answerErr (demo_oc_env f) = None"
  "oe_ackErr (demo_oc_env f) = None" "oe_abort (demo_oc_env f) = None" "oe_audio (demo_oc_env f) = Some ''PCMU''"
  "oe_dtmf (demo_oc_env f) = ''''" "oe_bye (demo_oc_env f) = demo_bye False" "(demo_env f)\<lparr>ie_sdp := ''sdp''\<rparr> = demo_env f"
  by (simp_all add: demo_oc_env_def demo_env_def)

lemma demo_Invite_200: "\<exists>cc. Invite (demo_env (\<lambda>_. 200)) cc0 = Some (cc, Ok ''sdp2'') \<and> so_inviteOk cc \<and> so_invite cc"
  using invite_loop_200 [of 0 "\<lambda>_. 200"] by (fastforce simp: Invite_def)

lemma demo_sipSignal: "\<exists>d. sipSignal (demo_oc_env (\<lambda>_. 200)) c = Some (d, None)"
proof -
  obtain cc where "Invite (demo_env (\<lambda>_. 200)) (oc_cc c) = Some (cc, Ok ''sdp2'')" "so_inviteOk cc" "so_invite cc"
    using demo_Invite_200 by blast
  then show ?thesis by (simp add: sipSignal_def Let_def AckInviteOK_def setStatusWith_def)
qed

lemma demo_Dial: "\<exists>d. Dial (demo_oc_env (\<lambda>_. 200)) c = Some (d, None)"
proof -
  obtain mon m where cs: "(if oc_stopped c then (oc_mon c, oc_metrics c) else CallStart (oc_mon c) (oc_metrics c)) = (mon, m)"
    by fastforce
  obtain d where "connectSIP (demo_oc_env (\<lambda>_. 200)) (c\<lparr>oc_mon := mon, oc_metrics := m\<rparr>) = Some (d, None)"
    using demo_sipSignal [of "c\<lparr>oc_mon := mon, oc_metrics := m\<rparr>"] by (auto simp: connectSIP_def dialSIP_def)
  then show ?thesis using cs by (simp add: Dial_def)
qed





end
