(* ===== verification/CallManager.thy ===== *)
theory CallManager
  imports InboundCall OutboundCall DigestAuth Refer
begin

text \<open>
  The call manager (manager.go and its handlers in inbound.go and client.go): the maps of active
  calls, the caches of INVITEs, the admission of an INVITE up to the start of a call, and the
  routing of ACK, BYE and NOTIFY to the calls.

  The information kept per challenged caller is shared by pointer between the cache and the
  timers, so it lives in a store and the cache holds addresses: an entry that is evicted from the
  cache is still reachable from its timer. A timer that was started stays pending until its
  function runs, whether it was stopped or not, because a timer can fire just as it is stopped.
  The entries of the caches may be evicted at any moment.
\<close>

section \<open>State\<close>

record inboundCallInfo =
  ci_cseq :: "32 word"
  ci_cseqAuth :: "32 word"
  ci_invites :: "32 word"
  ci_invitesAuth :: "32 word"
  ci_timer :: "nat option"

record challenge_timer =
  ct_info :: nat
  ct_state :: CallState
  ct_at :: int
  ct_code :: int
  ct_status :: string
  ct_pending :: bool

record callManager =
  km_byLocalTag :: "string \<rightharpoonup> inboundCall"
  km_activeCalls :: "string \<rightharpoonup> outboundCall"
  km_provisional :: "(string \<times> string) \<rightharpoonup> string"
  km_rejected :: "((string \<times> string) \<rightharpoonup> (int \<times> string)) option"
  km_infos :: "string \<rightharpoonup> nat"
  km_store :: "inboundCallInfo list"
  km_timers :: "challenge_timer list"
  km_metrics :: Monitor
  km_hide :: bool
  km_closing :: bool
  km_fired :: "(nat \<times> CallState) list"
  km_ended :: "CallState list"

definition newCallManager :: "bool \<Rightarrow> bool \<Rightarrow> Monitor \<Rightarrow> callManager" where
  "newCallManager hide disableRejectedInviteCache m = \<lparr>km_byLocalTag = Map.empty, km_activeCalls = Map.empty,
     km_provisional = Map.empty, km_rejected = (if disableRejectedInviteCache then None else Some Map.empty),
     km_infos = Map.empty, km_store = [], km_timers = [], km_metrics = m, km_hide = hide, km_closing = False,
     km_fired = [], km_ended = []\<rparr>"

definition empty_info :: inboundCallInfo where
  "empty_info = \<lparr>ci_cseq = 0, ci_cseqAuth = 0, ci_invites = 0, ci_invitesAuth = 0, ci_timer = None\<rparr>"

section \<open>Information on challenged callers\<close>

definition countInvite :: "bool \<Rightarrow> 32 word option \<Rightarrow> inboundCallInfo \<Rightarrow> inboundCallInfo" where
  "countInvite hasAuth cseq c = (case cseq of
     None \<Rightarrow> c
   | Some n \<Rightarrow>
       if hasAuth then
         (let c1 = (if ci_cseqAuth c = 0 then c\<lparr>ci_cseqAuth := n\<rparr> else c) in
          if n > ci_cseqAuth c1 then c1 else c1\<lparr>ci_invitesAuth := ci_invitesAuth c1 + 1\<rparr>)
       else
         (let c1 = (if ci_cseq c = 0 then c\<lparr>ci_cseq := n\<rparr> else c) in
          if n > ci_cseq c1 then c1 else c1\<lparr>ci_invites := ci_invites c1 + 1\<rparr>))"

definition getCallInfo :: "string \<Rightarrow> callManager \<Rightarrow> nat \<times> callManager" where
  "getCallInfo tag km = (case km_infos km tag of
     Some a \<Rightarrow> (a, km)
   | None \<Rightarrow> (let a = length (km_store km) in
       (a, km\<lparr>km_store := km_store km @ [empty_info], km_infos := (km_infos km)(tag \<mapsto> a)\<rparr>)))"

definition upd_info :: "nat \<Rightarrow> (inboundCallInfo \<Rightarrow> inboundCallInfo) \<Rightarrow> callManager \<Rightarrow> callManager" where
  "upd_info a f km = km\<lparr>km_store := (km_store km)[a := f (km_store km ! a)]\<rparr>"

definition stopChallengeTimer :: "nat \<Rightarrow> callManager \<Rightarrow> callManager" where
  "stopChallengeTimer a km = upd_info a (\<lambda>c. c\<lparr>ci_timer := None\<rparr>) km"

definition startChallengeTimer :: "nat \<Rightarrow> CallState \<Rightarrow> int \<Rightarrow> int \<Rightarrow> string \<Rightarrow> callManager \<Rightarrow> callManager" where
  "startChallengeTimer a st challengedAt code status km0 = (let
     km = stopChallengeTimer a km0;
     t = length (km_timers km);
     km1 = km\<lparr>km_timers := km_timers km @ [\<lparr>ct_info = a, ct_state = st, ct_at = challengedAt, ct_code = code,
       ct_status = status, ct_pending = True\<rparr>]\<rparr>
   in upd_info a (\<lambda>c. c\<lparr>ci_timer := Some t\<rparr>) km1)"

definition challenge_timed_out :: "challenge_timer \<Rightarrow> CallState" where
  "challenge_timed_out t = EmitSignalingEvent
     (callEndedEvent (Some (ct_at t)) (ClientError ''unauthorized'') (ct_code t))
     (Update (\<lambda>info. info\<lparr>ciStatus := SCS_ERROR, ciError := ''auth challenge issued, no authenticated retry received'',
        EndedAtNs := ct_at t, ciStatusCode := Some (ct_code t, ct_status t)\<rparr>) (ct_state t))"

definition fireChallengeTimer :: "nat \<Rightarrow> callManager \<Rightarrow> callManager" where
  "fireChallengeTimer i km = (if i < length (km_timers km) \<and> ct_pending (km_timers km ! i) then
     (let t = km_timers km ! i;
          km1 = km\<lparr>km_timers := (km_timers km)[i := t\<lparr>ct_pending := False\<rparr>]\<rparr>
      in if ci_timer (km_store km ! ct_info t) = Some i then
           (stopChallengeTimer (ct_info t) km1)\<lparr>km_fired := km_fired km @ [(i, challenge_timed_out t)]\<rparr>
         else km1)
     else km)"

section \<open>Admission of an INVITE\<close>

datatype ProviderType = PROVIDER_TYPE_INTERNAL | PROVIDER_TYPE_EXTERNAL | PROVIDER_TYPE_OTHER int

record ProviderInfo =
  pi_Type :: ProviderType
  pi_Name :: string
  pi_PreventTransfer :: bool

definition providerInfoLabel :: "ProviderInfo option \<Rightarrow> string" where
  "providerInfoLabel p = (case p of
     None \<Rightarrow> ProviderUnknown
   | Some i \<Rightarrow> (case pi_Type i of
       PROVIDER_TYPE_INTERNAL \<Rightarrow> ''internal/'' @ (if pi_Name i \<noteq> '''' then ToLower (pi_Name i) else ProviderUnknown)
     | PROVIDER_TYPE_EXTERNAL \<Rightarrow> ''external''
     | PROVIDER_TYPE_OTHER _ \<Rightarrow> ProviderUnknown))"

record AuthInfo =
  ai_Result :: AuthResult
  ai_ProjectID :: string
  ai_TrunkID :: string
  ai_Auth :: InboundAuth
  ai_Provider :: "ProviderInfo option"

text \<open>What the environment contributes to one INVITE: whether the source address parses, the
  message, the tag generator, whether responses can be sent, the outcome of the SDP negotiation of
  a re-INVITE, the auth service, and the parameters of the digest.\<close>

record 'k invite_in =
  in_srcOk :: bool
  in_msg :: invite_msg
  in_req :: sip_request
  in_fresh :: string
  in_now :: int
  in_tryOk :: bool
  in_respOk :: bool
  in_toHost :: string
  in_sdpAnswer :: "string \<Rightarrow> go_error option"
  in_localSDP :: "(go_error, string) result"
  in_auth :: "(go_error, AuthInfo) result"
  in_events :: bool
  in_errMsg :: "go_error \<Rightarrow> string"
  in_env :: "'k auth_env"
  in_rnd :: "string option"

record invite_out =
  io_wire :: "wire list"
  io_err :: "go_error option"
  io_state :: "CallState option"
  io_challenge :: "challenge option"
  io_call :: bool

definition no_call :: "wire list \<Rightarrow> go_error option \<Rightarrow> CallState option \<Rightarrow> invite_out" where
  "no_call ws err st = \<lparr>io_wire = ws, io_err = err, io_state = st, io_challenge = None, io_call = False\<rparr>"

definition sdpBodyFromRequest :: "sip_request \<Rightarrow> string" where
  "sdpBodyFromRequest req = (case ReqHeader req ''Content-Type'' of
     Some v \<Rightarrow> if v \<noteq> ''application/sdp'' then '''' else ReqBody req
   | None \<Rightarrow> ReqBody req)"

definition AcceptAsKeepAlive :: "bool \<Rightarrow> int \<Rightarrow> string \<Rightarrow> sipInbound \<Rightarrow> sipInbound" where
  "AcceptAsKeepAlive ok now sdp c = fst (respondWithData ok now 200 ''OK'' sdp c)"

definition RejectAsKeepAlive :: "bool \<Rightarrow> int \<Rightarrow> int \<Rightarrow> string \<Rightarrow> sipInbound \<Rightarrow> sipInbound" where
  "RejectAsKeepAlive ok now status reason c = fst (respond ok now status reason c)"

definition OwnSDP :: "sipInbound \<Rightarrow> string" where
  "OwnSDP c = (case si_lastSDP c of Some s \<Rightarrow> s | None \<Rightarrow> '''')"

definition newState :: "'k invite_in \<Rightarrow> string \<Rightarrow> sipInbound \<Rightarrow> sipInbound" where
  "newState i trunkID cc = (let
     st = NewCallState (in_events i) \<lparr>CallId = si_id cc, SipCallId = si_sipCallID cc, ciDirection = SCD_INBOUND,
       TrunkId = trunkID, RoomId = '''', DispatchRuleId = '''', ciStatus = SCS_CALL_INCOMING, ciStatusCode = None,
       ciError = '''', ciReason = UNKNOWN_REASON, StartedAtNs = 0, EndedAtNs = 0\<rparr>;
     cc1 = emit ((new_event EventInviteReceived (Some (in_now i)))\<lparr>evSIPMethod := ''INVITE'',
       evCSeq := si_inviteCSeq cc, evTransport := si_tr cc\<rparr>) (cc\<lparr>si_state := Some st\<rparr>)
   in case si_tryingAt cc of
        None \<Rightarrow> cc1
      | Some t \<Rightarrow> emit (inviteResponseEvent EventTryingSent (Some t) 100 (si_inviteCSeq cc)) cc1)"

definition cache_rejection :: "rejected_entry option \<Rightarrow> callManager \<Rightarrow> callManager" where
  "cache_rejection entry km = (case (km_rejected km, entry) of
     (Some cache, Some (k, v)) \<Rightarrow> km\<lparr>km_rejected := Some (cache(k \<mapsto> v))\<rparr>
   | _ \<Rightarrow> km)"

definition cached_rejection :: "callManager \<Rightarrow> sipInbound \<Rightarrow> (int \<times> string) option" where
  "cached_rejection km cc = (case km_rejected km of
     None \<Rightarrow> None
   | Some cache \<Rightarrow> cache (si_sipCallID cc, si_tag cc))"

definition close_state :: "(go_error \<Rightarrow> string) \<Rightarrow> int \<Rightarrow> go_error option \<Rightarrow> (int \<times> string) option \<Rightarrow> CallState \<Rightarrow> CallState" where
  "close_state msg now retErr lastStatus st = Update (\<lambda>info. let
     i1 = (case retErr of
         Some e \<Rightarrow> if ciError info = '''' then info\<lparr>ciStatus := SCS_ERROR, ciError := msg e\<rparr>
           else info\<lparr>ciStatus := SCS_DISCONNECTED\<rparr>
       | None \<Rightarrow> info\<lparr>ciStatus := SCS_DISCONNECTED\<rparr>);
     i2 = (case lastStatus of Some s \<Rightarrow> i1\<lparr>ciStatusCode := Some s\<rparr> | None \<Rightarrow> i1)
   in i2\<lparr>EndedAtNs := now\<rparr>) st"

definition end_without_call ::
  "'k invite_in \<Rightarrow> Termination \<Rightarrow> go_error \<Rightarrow> sipInbound \<Rightarrow> callManager \<Rightarrow> callManager \<times> invite_out" where
  "end_without_call i t err cc km = (let
     st = map_option (\<lambda>s. close_state (in_errMsg i) (in_now i) (Some err) (si_lastCallStatus cc)
       (EmitSignalingEvent (callEndedEvent (Some (in_now i)) t (lastStatusCode cc)) s)) (si_state cc)
   in (km\<lparr>km_ended := km_ended km @ (case st of Some s \<Rightarrow> [s] | None \<Rightarrow> [])\<rparr>, no_call (si_wire cc) (Some err) st))"

text \<open>The results of the auth lookup that end the INVITE: the reason counted, the response (or
  none when the INVITE is dropped) and the error returned.\<close>

fun auth_reject :: "AuthResult \<Rightarrow> (Termination \<times> (int \<times> string) option \<times> go_error) option" where
  "auth_reject AuthDrop = Some (ClientError ''flood'', None,
     EPsrpc PermissionDenied (ENew ''call was not authorized by trunk configuration''))"
| "auth_reject AuthNotFound = Some (ClientError ''no-rule'', Some (404, ''Does not match any SIP Trunks''),
     EPsrpc NotFound (ENew ''no trunk configuration for call''))"
| "auth_reject AuthQuotaExceeded = Some (ClientError ''quota-exceeded'', Some (503, ''Service temporarily unavailable''),
     EPsrpc ResourceExhausted (ENew ''quota limit exceeded''))"
| "auth_reject AuthNoTrunkFound = Some (ClientError ''no-trunk'', Some (404, ''No trunk found''),
     EPsrpc NotFound (ENew ''no trunk found for call''))"
| "auth_reject AuthRouteNotAllowed = Some (ClientError ''route-not-allowed'', Some (503, ''Service temporarily unavailable''),
     EPsrpc PermissionDenied (ENew ''route not allowed''))"
| "auth_reject AuthFailureOther = Some (ClientError ''auth-other'', Some (403, ''Auth failure''),
     EPsrpc PermissionDenied (ENew ''auth failure''))"
| "auth_reject AuthRejectedAsError = Some (ClientError ''auth-rejected-as-error'', Some (403, ''Auth failure''),
     EPsrpc PermissionDenied (ENew ''call was rejected by the auth service''))"
| "auth_reject AuthPassword = None"
| "auth_reject AuthAccept = None"
| "auth_reject (AuthOther n) = None"

definition start_call :: "CallMonitor \<Rightarrow> sipInbound \<Rightarrow> callManager \<Rightarrow> callManager \<times> invite_out" where
  "start_call cmon cc km = (km\<lparr>km_byLocalTag := (km_byLocalTag km)(si_id cc \<mapsto> newInboundCall cmon (km_metrics km) cc)\<rparr>,
     \<lparr>io_wire = si_wire cc, io_err = None, io_state = si_state cc, io_challenge = None, io_call = True\<rparr>)"

definition send_auth_response :: "bool \<Rightarrow> int \<Rightarrow> ResultSt \<Rightarrow> sipInbound \<Rightarrow> sipInbound" where
  "send_auth_response ok now res cc = (if \<not> ok then cc
     else (case newResponse (RCode res) (RStatus res) '''' of (code, reason, body) \<Rightarrow>
       let cc1 = setLastStatus (RCode res) (RStatus res) (send (WResp code reason body) cc) in
       if RCode res \<noteq> 407 then emitRejected (RCode res) (RStatus res) now cc1 else cc1))"

definition password_invite ::
  "'k invite_in \<Rightarrow> AuthInfo \<Rightarrow> CallMonitor \<Rightarrow> sipInbound \<Rightarrow> callManager \<Rightarrow> callManager \<times> invite_out" where
  "password_invite i r cmon cc0 km0 = (let
     cc = (if km_hide km0 then
         (case Processing (in_tryOk i) (in_now i) cc0 of (c, sent) \<Rightarrow>
           if sent then emit (inviteResponseEvent EventTryingSent (si_tryingAt c) 100 (si_inviteCSeq c)) c else c)
       else cc0);
     (a, km1) = getCallInfo (si_id cc) km0;
     km2 = upd_info a (countInvite (inviteHasAuth (in_req i)) (im_cseq (in_msg i))) (stopChallengeTimer a km1);
     (res, hdr) = handleInviteAuth (in_env i) (in_rnd i) (in_req i) (ai_Auth r) (in_now i) (in_now i)
   in if RCode res = 200 then start_call cmon cc km2
      else (let
        cc1 = send_auth_response (in_respOk i) (in_now i) res cc;
        err = EPsrpc PermissionDenied (ENew ''invalid credentials were provided'');
        km3 = km2\<lparr>km_provisional := (km_provisional km2)((si_sipCallID cc1, si_tag cc1) \<mapsto> si_id cc1),
                  km_metrics := InviteErrorShort (ClientError ''unauthorized'') cmon (km_metrics km2)\<rparr>
      in if RCode res = 407 then
           ((case si_state cc1 of
               Some st \<Rightarrow> startChallengeTimer a st (in_now i) (RCode res) (RStatus res) km3
             | None \<Rightarrow> km3),
            (no_call (si_wire cc1) (Some err) (si_state cc1))\<lparr>io_challenge := if in_respOk i then hdr else None\<rparr>)
         else end_without_call i (ClientError ''unauthorized'') err cc1 km3))"

definition authorized_invite ::
  "'k invite_in \<Rightarrow> AuthInfo \<Rightarrow> CallMonitor \<Rightarrow> sipInbound \<Rightarrow> callManager \<Rightarrow> callManager \<times> invite_out" where
  "authorized_invite i r cmon cc km = (case auth_reject (ai_Result r) of
     Some (t, resp, err) \<Rightarrow> (let
       km1 = km\<lparr>km_metrics := InviteErrorShort t cmon (km_metrics km)\<rparr>
     in case resp of
          None \<Rightarrow> end_without_call i t err (drop_dialog cc) km1
        | Some (status, reason) \<Rightarrow> (case RespondAndDrop (in_respOk i) (in_now i) status reason cc of (cc1, entry) \<Rightarrow>
            end_without_call i t err cc1 (cache_rejection entry km1)))
   | None \<Rightarrow> if ai_Result r = AuthPassword then password_invite i r cmon cc km
       else if ai_Result r = AuthAccept then
         (case getCallInfo (si_id cc) km of (a, km1) \<Rightarrow>
           start_call cmon cc (upd_info a (countInvite (inviteHasAuth (in_req i)) (im_cseq (in_msg i))) km1))
       else start_call cmon cc km)"

definition new_invite :: "'k invite_in \<Rightarrow> sipInbound \<Rightarrow> callManager \<Rightarrow> callManager \<times> invite_out" where
  "new_invite i cc0 km = (let
     cmon = NewCall ''inbound'' (in_toHost i);
     km1 = km\<lparr>km_metrics := InviteReq cmon (km_metrics km)\<rparr>;
     cc = (if km_hide km then cc0 else fst (Processing (in_tryOk i) (in_now i) cc0))
   in case in_auth i of
        Inl e \<Rightarrow> (let
          t = ServerError ''auth-error'';
          cc1 = emit (lookupEvent EventInviteAuthorized (Some (in_now i)) 0 ''error'') (newState i '''' cc)
        in case RespondAndDrop (in_respOk i) (in_now i) 503 ''Try again later'' cc1 of (cc2, entry) \<Rightarrow>
          (cache_rejection entry (km1\<lparr>km_metrics := InviteErrorShort t cmon (km_metrics km1)\<rparr>),
           no_call (si_wire cc2) (Some (EPsrpc PermissionDenied (EWrap ''rejecting inbound, auth check failed'' e)))
             (emit_opt (callEndedEvent (Some (in_now i)) t (lastStatusCode cc2)) (si_state cc2))))
      | Inr r \<Rightarrow> (let
          cmon1 = SetProvider (providerInfoLabel (ai_Provider r)) cmon;
          cc1 = newState i (ai_TrunkID r) cc;
          cc2 = emit (lookupEvent EventInviteAuthorized (Some (in_now i)) 0 (authResultName (ai_Result r)))
                  (cc1\<lparr>si_state := map_option Flush (si_state cc1)\<rparr>)
        in authorized_invite i r cmon1 cc2 km1))"

definition reinvite_inbound :: "'k invite_in \<Rightarrow> sipInbound \<Rightarrow> inboundCall \<Rightarrow> callManager \<Rightarrow> callManager \<times> invite_out" where
  "reinvite_inbound i cc existing km = (let
     upd = (if \<not> ic_media existing then None else in_sdpAnswer i (sdpBodyFromRequest (in_req i)));
     cc1 = (if ic_lateAnswerPending existing then RejectAsKeepAlive (in_respOk i) (in_now i) 491 ''Request Pending'' cc
            else (case upd of
                Some e \<Rightarrow> RejectReinvite (in_respOk i) (in_now i) e cc
              | None \<Rightarrow> AcceptAsKeepAlive (in_respOk i) (in_now i) (OwnSDP (ic_cc existing)) cc))
   in (km, no_call (si_wire cc1) None None))"

definition reinvite_outbound :: "'k invite_in \<Rightarrow> sipInbound \<Rightarrow> outboundCall \<Rightarrow> callManager \<Rightarrow> callManager \<times> invite_out" where
  "reinvite_outbound i cc oc km = (case in_localSDP i of
     Inl _ \<Rightarrow> (km, no_call (si_wire (RejectAsKeepAlive (in_respOk i) (in_now i) 491 ''Request Pending'' cc)) None None)
   | Inr sdp \<Rightarrow> if sdp = '''' then
         (km, no_call (si_wire (RejectAsKeepAlive (in_respOk i) (in_now i) 491 ''Request Pending'' cc)) None None)
       else (case in_sdpAnswer i (sdpBodyFromRequest (in_req i)) of
           Some e \<Rightarrow> (km, no_call (si_wire (RejectReinvite (in_respOk i) (in_now i) e cc)) None None)
         | None \<Rightarrow> (km\<lparr>km_activeCalls := (km_activeCalls km)(si_id cc \<mapsto>
                oc\<lparr>oc_cc := RecordInvite (si_inviteCSeq cc) (oc_cc oc)\<rparr>)\<rparr>,
              no_call (si_wire (AcceptAsKeepAlive (in_respOk i) (in_now i) sdp cc)) None None)))"

definition processInvite :: "'k invite_in \<Rightarrow> callManager \<Rightarrow> callManager \<times> invite_out" where
  "processInvite i km0 = (let km = km0\<lparr>km_metrics := InviteReqRaw (km_metrics km0)\<rparr> in
     if \<not> in_srcOk i then (km, no_call [] (Some (EPsrpc MalformedRequest (ENew ''cannot parse source IP''))) None)
     else (case newInbound (in_msg i) (km_provisional km) (in_fresh i) of
       Inl e \<Rightarrow> (km, no_call (if km_hide km then [] else [WResp 400 (sipStatus 400) ''''])
         (Some (EPsrpc InvalidArgument (EWrap ''invite validation failed'' e))) None)
     | Inr cc \<Rightarrow> (case cached_rejection km cc of
         Some (status, reason) \<Rightarrow> (case RespondAndDrop (in_respOk i) (in_now i) status reason cc of (cc1, entry) \<Rightarrow>
           (cache_rejection entry km, no_call (si_wire cc1) None None))
       | None \<Rightarrow> (let
           existing = km_byLocalTag km (si_id cc);
           oc = km_activeCalls km (si_id cc)
         in if (case existing of Some c \<Rightarrow> si_inviteCSeq (ic_cc c) < si_inviteCSeq cc | None \<Rightarrow> False)
            then reinvite_inbound i cc (the existing) km
            else if (case oc of Some c \<Rightarrow> so_latestInviteCSeq (oc_cc c) < si_inviteCSeq cc | None \<Rightarrow> False)
            then reinvite_outbound i cc (the oc) km
            else new_invite i cc km))))"

section \<open>Serving the calls\<close>

text \<open>Once a call is registered, processInvite runs handleInvite on it and reports the end of
  the call. The metrics are shared by all calls, so a call picks them up when it runs and leaves
  its updates behind.\<close>

definition serve_call :: "hi_env \<Rightarrow> string \<Rightarrow> callManager \<Rightarrow> (callManager \<times> go_error option) option" where
  "serve_call h tag km = (case km_byLocalTag km tag of
     None \<Rightarrow> Some (km, None)
   | Some c \<Rightarrow> map_option (\<lambda>(c1, err). let
       st = map_option (close_state (he_msg h) (he_now h) err (si_lastCallStatus (ic_cc c1))) (si_state (ic_cc c1));
       km1 = fold (\<lambda>x. cache_rejection (Some x)) (ic_rejected c1) km
     in (km1\<lparr>km_byLocalTag := (km_byLocalTag km)(tag := if ic_registered c1 then Some c1 else None),
             km_metrics := ic_metrics c1, km_ended := km_ended km @ (case st of Some s \<Rightarrow> [s] | None \<Rightarrow> [])\<rparr>, err))
       (handleInvite h (c\<lparr>ic_metrics := km_metrics km\<rparr>)))"

definition HandleAck :: "sip_request \<Rightarrow> 32 word option \<Rightarrow> int \<Rightarrow> callManager \<Rightarrow> callManager" where
  "HandleAck req cseq now km = (case GetLocalTagUAS req of
     Inl _ \<Rightarrow> km
   | Inr tag \<Rightarrow> (case km_byLocalTag km tag of
       None \<Rightarrow> km
     | Some c \<Rightarrow> km\<lparr>km_byLocalTag := (km_byLocalTag km)(tag \<mapsto>
         c\<lparr>ic_cc := AcceptAck cseq (ReqBody req) now (ic_cc c)\<rparr>)\<rparr>))"

definition bye_reason :: "sip_request \<Rightarrow> ReasonHeader" where
  "bye_reason req = (case ReqHeader req ''Reason'' of
     None \<Rightarrow> zero_reason
   | Some raw \<Rightarrow> (case ParseReasonHeader raw of Inl _ \<Rightarrow> zero_reason | Inr r \<Rightarrow> r))"

definition store_outbound :: "string \<Rightarrow> outboundCall \<Rightarrow> callManager \<Rightarrow> callManager" where
  "store_outbound tag oc km = km\<lparr>km_activeCalls := (km_activeCalls km)(tag := if oc_registered oc then Some oc else None),
     km_metrics := oc_metrics oc\<rparr>"

definition onOutboundBye :: "oc_env \<Rightarrow> string \<Rightarrow> sip_request \<Rightarrow> 32 word \<Rightarrow> callManager \<Rightarrow> callManager option option" where
  "onOutboundBye e tag req cseq km = (case km_activeCalls km tag of
     None \<Rightarrow> None
   | Some oc \<Rightarrow> Some (map_option (\<lambda>oc1. store_outbound tag oc1 km)
       (oc_bye e cseq (ReqHeader req ''Reason'') (oc\<lparr>oc_metrics := km_metrics km\<rparr>))))"

definition HandleBye ::
  "oc_env \<Rightarrow> sip_request \<Rightarrow> 32 word option \<Rightarrow> int \<Rightarrow> callManager \<Rightarrow> (callManager \<times> wire list) option" where
  "HandleBye e req cseq now km = (let n = (case cseq of Some n \<Rightarrow> n | None \<Rightarrow> 0) in
     case GetLocalTagUAS req of
       Inl _ \<Rightarrow> Some (km, [WResp 400 (sipStatus 400) ''''])
     | Inr tag \<Rightarrow> (case km_byLocalTag km tag of
         Some c \<Rightarrow> Some (km\<lparr>km_byLocalTag := (km_byLocalTag km)(tag \<mapsto> handle_bye (bye_reason req) n now c)\<rparr>, [WByeOk])
       | None \<Rightarrow> (case onOutboundBye e tag req n km of
           Some r \<Rightarrow> map_option (\<lambda>km1. (km1, [WByeOk])) r
         | None \<Rightarrow> Some (km, [WResp 481 (sipStatus 481) '''']))))"

definition notify_response :: "(go_error \<Rightarrow> string) \<Rightarrow> (go_error, refer_action) result \<Rightarrow> wire" where
  "notify_response msg r = (case sipCodeAndMessageFromError msg (case r of Inl e \<Rightarrow> Some e | Inr _ \<Rightarrow> None) of (code, m) \<Rightarrow>
     (case newResponse code m '''' of (c, reason, body) \<Rightarrow> WResp c reason body))"

definition HandleNotify ::
  "(int \<Rightarrow> psrpc_code) \<Rightarrow> (go_error \<Rightarrow> string) \<Rightarrow> sip_request \<Rightarrow> callManager \<Rightarrow> refer_action \<times> wire" where
  "HandleNotify sipcode msg req km = (let act = (\<lambda>r. case r of Inr a \<Rightarrow> a | Inl _ \<Rightarrow> ReferNone) in
     case GetLocalTagUAS req of
       Inl _ \<Rightarrow> (ReferNone, WResp 400 (sipStatus 400) '''')
     | Inr tag \<Rightarrow> (case km_byLocalTag km tag of
         Some c \<Rightarrow> (let r = dialog_handleNotify sipcode (uint (si_referCseq (ic_cc c))) req in (act r, notify_response msg r))
       | None \<Rightarrow> (case km_activeCalls km tag of
           Some oc \<Rightarrow> (let r = dialog_handleNotify sipcode (uint (so_referCseq (oc_cc oc))) req in (act r, notify_response msg r))
         | None \<Rightarrow> (ReferNone, WResp 481 (sipStatus 481) ''''))))"

definition HandleOptions :: wire where "HandleOptions = WResp 200 (sipStatus 200) ''''"

definition HandleNoRoute :: wire where "HandleNoRoute = WResp 405 (sipStatus 405) ''''"

text \<open>Stop empties both maps and closes the calls that were in them, in the unspecified order in
  which the values of a map come.\<close>

fun stop_outbound :: "oc_env \<Rightarrow> outboundCall list \<Rightarrow> Monitor \<Rightarrow> (outboundCall list \<times> Monitor) option" where
  "stop_outbound e [] m = Some ([], m)"
| "stop_outbound e (c # cs) m = (case oc_Close e (c\<lparr>oc_metrics := m\<rparr>) of
     None \<Rightarrow> None
   | Some c1 \<Rightarrow> map_option (\<lambda>(cs1, m1). (c1 # cs1, m1)) (stop_outbound e cs (oc_metrics c1)))"

fun stop_inbound :: "close_env \<Rightarrow> int \<Rightarrow> inboundCall list \<Rightarrow> Monitor \<Rightarrow> inboundCall list \<times> Monitor" where
  "stop_inbound e now [] m = ([], m)"
| "stop_inbound e now (c # cs) m = (let
     c1 = Shutdown e now (c\<lparr>ic_metrics := m\<rparr>);
     (cs1, m1) = stop_inbound e now cs (ic_metrics c1)
   in (c1 # cs1, m1))"

definition Stop ::
  "oc_env \<Rightarrow> close_env \<Rightarrow> int \<Rightarrow> string list \<Rightarrow> string list \<Rightarrow> callManager \<Rightarrow>
   (callManager \<times> outboundCall list \<times> inboundCall list) option" where
  "Stop e ce now outs ins km = (case stop_outbound e (List.map_filter (km_activeCalls km) outs) (km_metrics km) of
     None \<Rightarrow> None
   | Some (ocs, m1) \<Rightarrow> (case stop_inbound ce now (List.map_filter (km_byLocalTag km) ins) m1 of (ics, m2) \<Rightarrow>
       Some (km\<lparr>km_closing := True, km_activeCalls := Map.empty, km_byLocalTag := Map.empty, km_metrics := m2\<rparr>, ocs, ics)))"

section \<open>What one INVITE does\<close>

lemma cache_rejection_fields [simp]:
  "km_byLocalTag (cache_rejection x km) = km_byLocalTag km" "km_activeCalls (cache_rejection x km) = km_activeCalls km"
  "km_provisional (cache_rejection x km) = km_provisional km" "km_infos (cache_rejection x km) = km_infos km"
  "km_store (cache_rejection x km) = km_store km" "km_timers (cache_rejection x km) = km_timers km"
  "km_metrics (cache_rejection x km) = km_metrics km" "km_hide (cache_rejection x km) = km_hide km"
  "km_fired (cache_rejection x km) = km_fired km" "km_ended (cache_rejection x km) = km_ended km"
  by (auto simp: cache_rejection_def split: option.splits prod.splits)

lemma getCallInfo_fields:
  assumes "getCallInfo tag km = (a, km')"
  shows "km_byLocalTag km' = km_byLocalTag km" "km_activeCalls km' = km_activeCalls km"
    "km_provisional km' = km_provisional km" "km_timers km' = km_timers km" "km_rejected km' = km_rejected km"
    "km_metrics km' = km_metrics km" "km_hide km' = km_hide km" "km_fired km' = km_fired km" "km_ended km' = km_ended km"
  using assms by (auto simp: getCallInfo_def Let_def split: option.splits)

lemma upd_info_fields [simp]:
  "km_byLocalTag (upd_info a f km) = km_byLocalTag km" "km_activeCalls (upd_info a f km) = km_activeCalls km"
  "km_provisional (upd_info a f km) = km_provisional km" "km_infos (upd_info a f km) = km_infos km"
  "km_timers (upd_info a f km) = km_timers km" "km_rejected (upd_info a f km) = km_rejected km"
  "km_metrics (upd_info a f km) = km_metrics km" "km_hide (upd_info a f km) = km_hide km"
  "km_fired (upd_info a f km) = km_fired km" "km_ended (upd_info a f km) = km_ended km"
  by (simp_all add: upd_info_def)

lemma stopChallengeTimer_fields [simp]:
  "km_byLocalTag (stopChallengeTimer a km) = km_byLocalTag km" "km_activeCalls (stopChallengeTimer a km) = km_activeCalls km"
  "km_provisional (stopChallengeTimer a km) = km_provisional km" "km_infos (stopChallengeTimer a km) = km_infos km"
  "km_timers (stopChallengeTimer a km) = km_timers km" "km_rejected (stopChallengeTimer a km) = km_rejected km"
  "km_metrics (stopChallengeTimer a km) = km_metrics km" "km_hide (stopChallengeTimer a km) = km_hide km"
  "km_fired (stopChallengeTimer a km) = km_fired km" "km_ended (stopChallengeTimer a km) = km_ended km"
  by (simp_all add: stopChallengeTimer_def)

lemma startChallengeTimer_fields [simp]:
  "km_byLocalTag (startChallengeTimer a st t c s km) = km_byLocalTag km"
  "km_activeCalls (startChallengeTimer a st t c s km) = km_activeCalls km"
  "km_provisional (startChallengeTimer a st t c s km) = km_provisional km"
  "km_infos (startChallengeTimer a st t c s km) = km_infos km"
  "km_rejected (startChallengeTimer a st t c s km) = km_rejected km"
  "km_metrics (startChallengeTimer a st t c s km) = km_metrics km"
  "km_hide (startChallengeTimer a st t c s km) = km_hide km"
  "km_fired (startChallengeTimer a st t c s km) = km_fired km"
  "km_ended (startChallengeTimer a st t c s km) = km_ended km"
  by (simp_all add: startChallengeTimer_def Let_def)

lemma newState_fields [simp]:
  "si_wire (newState i t cc) = si_wire cc" "si_inviteTx (newState i t cc) = si_inviteTx cc" "si_id (newState i t cc) = si_id cc"
  "si_tag (newState i t cc) = si_tag cc" "si_sipCallID (newState i t cc) = si_sipCallID cc"
  "si_inviteCSeq (newState i t cc) = si_inviteCSeq cc"
  "idlg_inv (newState i t cc) = idlg_inv cc"
  "si_state (newState i t cc) \<noteq> None"
  by (auto simp: newState_def Let_def emit_def emit_opt_def idlg_inv_def closed_in_def split: option.splits)

lemma emit_ident [simp]: "si_id (emit ev c) = si_id c" "si_tag (emit ev c) = si_tag c" "si_sipCallID (emit ev c) = si_sipCallID c"
  "idlg_inv (emit ev c) = idlg_inv c"
  by (simp_all add: emit_def idlg_inv_def closed_in_def)

lemma respond_ident [simp]:
  "si_id (fst (respondWithData ok now st r b c)) = si_id c" "si_tag (fst (respondWithData ok now st r b c)) = si_tag c"
  "si_sipCallID (fst (respondWithData ok now st r b c)) = si_sipCallID c"
  by (auto simp: respondWithData_def Let_def emitRejected_def setLastStatus_def send_def split: option.splits)

lemma respond_unsent: "respond ok now st r c = (d, False) \<Longrightarrow> d = c"
  by (auto simp: respond_def respondWithData_def Let_def split: if_splits)

lemma Processing_ident [simp]:
  "si_id (fst (Processing ok now c)) = si_id c" "si_tag (fst (Processing ok now c)) = si_tag c"
  "si_sipCallID (fst (Processing ok now c)) = si_sipCallID c" "si_inviteTx (fst (Processing ok now c)) = si_inviteTx c"
  "finals (si_wire (fst (Processing ok now c))) = finals (si_wire c)"
proof -
  have p: "fst (Processing ok now c) = c \<or> (\<exists>t. fst (Processing ok now c) = (fst (respond ok now 100 ''Processing'' c))\<lparr>si_tryingAt := t\<rparr>)"
    by (cases "respond ok now 100 ''Processing'' c") (auto simp: Processing_def dest: respond_unsent)
  have r: "si_inviteTx (fst (respond ok now 100 ''Processing'' c)) = si_inviteTx c"
    using respond_same [of c ok now 100 "''Processing''"] by (simp add: same_dialog_def)
  show "si_id (fst (Processing ok now c)) = si_id c" "si_tag (fst (Processing ok now c)) = si_tag c"
    "si_sipCallID (fst (Processing ok now c)) = si_sipCallID c"
    using p by (auto simp: respond_def)
  show "si_inviteTx (fst (Processing ok now c)) = si_inviteTx c"
    "finals (si_wire (fst (Processing ok now c))) = finals (si_wire c)"
    using p r respond_provisional [of 100 ok now "''Processing''" c] by auto
qed

lemma Processing_inv: "idlg_inv c \<Longrightarrow> idlg_inv (fst (Processing ok now c))"
  by (rule same_dialog_inv [OF _ Processing_same])

lemma RespondAndDrop_facts [simp]:
  "si_id (fst (RespondAndDrop ok now st r c)) = si_id c" "si_tag (fst (RespondAndDrop ok now st r c)) = si_tag c"
  "si_sipCallID (fst (RespondAndDrop ok now st r c)) = si_sipCallID c"
  "si_wire (fst (RespondAndDrop ok now st r c)) =
     si_wire c @ (if si_inviteTx c \<and> ok then [WResp st (if r = '''' then sipStatus st else r) ''''] else [])"
  by (auto simp: RespondAndDrop_def Let_def respond_def respondWithData_def drop_dialog_def stopRinging_def emitRejected_def
      setLastStatus_def send_def emit_def split: option.splits)

lemma end_without_call_facts:
  assumes "end_without_call i t err cc km = (km', out)"
  shows "io_wire out = si_wire cc \<and> \<not> io_call out \<and> io_err out = Some err \<and> io_challenge out = None \<and>
    km' = km\<lparr>km_ended := km_ended km'\<rparr>"
  using assms by (auto simp: end_without_call_def no_call_def Let_def)

lemma drop_wire [simp]: "si_wire (drop_dialog c) = si_wire c"
  by (simp add: drop_dialog_def stopRinging_def)

lemma auth_reject_code:
  "auth_reject x = Some (t, Some (st, r), e) \<Longrightarrow> 200 \<le> st \<and> r \<noteq> ''''"
  by (cases x) auto

lemma handleInviteAuth_code:
  "RCode (fst (handleInviteAuth E rnd req auth now now')) \<in> {200, 401, 407, 500}"
  by (auto simp: handleInviteAuth_def validateAuthorization_def mk_result_def Let_def
      split: option.splits if_splits sum.splits prod.splits)

lemma send_auth_response_facts [simp]:
  "si_id (send_auth_response ok now res cc) = si_id cc" "si_tag (send_auth_response ok now res cc) = si_tag cc"
  "si_sipCallID (send_auth_response ok now res cc) = si_sipCallID cc"
  "finals (si_wire (send_auth_response ok now res cc)) =
     finals (si_wire cc) @ (if ok \<and> 200 \<le> RCode res then [RCode res] else [])"
  by (auto simp: send_auth_response_def newResponse_def Let_def setLastStatus_def emitRejected_def send_def emit_def finals_def
      split: option.splits)

text \<open>The responses an INVITE gets while it is admitted: none if it becomes a call, at most one
  final otherwise.\<close>

definition one_answer :: "bool \<Rightarrow> bool \<Rightarrow> invite_out \<Rightarrow> bool" where
  "one_answer ok dropped out \<longleftrightarrow>
     (if io_call out then finals (io_wire out) = []
      else if ok \<and> \<not> dropped then length (finals (io_wire out)) = 1 else finals (io_wire out) = [])"

lemma password_answer:
  assumes p: "password_invite i r cmon cc km = (km', out)" and f: "finals (si_wire cc) = []"
  shows "one_answer (in_respOk i) False out"
proof -
  define cc1 where "cc1 = (if km_hide km then
      (case Processing (in_tryOk i) (in_now i) cc of (c, sent) \<Rightarrow>
        if sent then emit (inviteResponseEvent EventTryingSent (si_tryingAt c) 100 (si_inviteCSeq c)) c else c) else cc)"
  have f1: "finals (si_wire cc1) = []"
    using f Processing_ident(5) [of "in_tryOk i" "in_now i" cc]
    by (cases "Processing (in_tryOk i) (in_now i) cc") (auto simp: cc1_def)
  obtain res hdr where a: "handleInviteAuth (in_env i) (in_rnd i) (in_req i) (ai_Auth r) (in_now i) (in_now i) = (res, hdr)"
    by fastforce
  have c: "RCode res \<in> {200, 401, 407, 500}" using handleInviteAuth_code a by (metis fst_conv)
  show ?thesis using p f1 c unfolding password_invite_def Let_def cc1_def [symmetric] a
    by (auto simp: one_answer_def start_call_def no_call_def dest!: end_without_call_facts split: prod.splits if_splits)
qed

lemma authorized_answer:
  assumes a: "authorized_invite i r cmon cc km = (km', out)" and f: "finals (si_wire cc) = []" "si_inviteTx cc"
  shows "one_answer (in_respOk i) (ai_Result r = AuthDrop) out"
proof (cases "auth_reject (ai_Result r)")
  case None
  then have "ai_Result r \<noteq> AuthDrop" by auto
  then show ?thesis using a None f password_answer [of i r cmon cc km km' out]
    by (auto simp: authorized_invite_def one_answer_def start_call_def split: if_splits prod.splits)
next
  case (Some x)
  obtain t resp err where x: "x = (t, resp, err)" by (cases x)
  show ?thesis
  proof (cases resp)
    case None
    have "ai_Result r = AuthDrop" using Some x None by (cases "ai_Result r") auto
    then show ?thesis using a Some x None f by (auto simp: authorized_invite_def one_answer_def dest!: end_without_call_facts)
  next
    case (Some sr)
    obtain st rs where sr: "sr = (st, rs)" by (cases sr)
    have n: "ai_Result r \<noteq> AuthDrop" using \<open>auth_reject (ai_Result r) = Some x\<close> x Some by auto
    obtain cc1 en where rd: "RespondAndDrop (in_respOk i) (in_now i) st rs cc = (cc1, en)" by fastforce
    have w: "finals (si_wire cc1) = (if in_respOk i then [st] else [])"
      using RespondAndDrop_facts(4) [of "in_respOk i" "in_now i" st rs cc] rd f
        auth_reject_code [of "ai_Result r" t st rs err] \<open>auth_reject (ai_Result r) = Some x\<close> x Some sr
      by (auto simp: finals_def)
    show ?thesis using a \<open>auth_reject (ai_Result r) = Some x\<close> x Some sr rd w n
      by (auto simp: authorized_invite_def one_answer_def dest!: end_without_call_facts)
  qed
qed

lemma new_invite_answer:
  assumes n: "new_invite i cc km = (km', out)" and f: "finals (si_wire cc) = []" "si_inviteTx cc"
  shows "one_answer (in_respOk i) (\<exists>r. in_auth i = Ok r \<and> ai_Result r = AuthDrop) out"
proof -
  define cc1 where "cc1 = (if km_hide km then cc else fst (Processing (in_tryOk i) (in_now i) cc))"
  have f1: "finals (si_wire cc1) = []" "si_inviteTx cc1" using f by (simp_all add: cc1_def)
  show ?thesis
  proof (cases "in_auth i")
    case (Inl e)
    let ?c = "emit (lookupEvent EventInviteAuthorized (Some (in_now i)) 0 ''error'') (newState i '''' cc1)"
    obtain cc2 en where rd: "RespondAndDrop (in_respOk i) (in_now i) 503 ''Try again later'' ?c = (cc2, en)" by fastforce
    then have "finals (si_wire cc2) = (if in_respOk i then [503] else [])"
      using RespondAndDrop_facts(4) [of "in_respOk i" "in_now i" 503 "''Try again later''" ?c] f1
      by (simp add: finals_def)
    then show ?thesis using n rd Inl unfolding new_invite_def cc1_def [symmetric] Let_def
      by (auto simp: one_answer_def no_call_def)
  next
    case (Inr r)
    then show ?thesis using n f1 unfolding new_invite_def cc1_def [symmetric] Let_def
      by (auto dest: authorized_answer)
  qed
qed

lemma reinvite_wires:
  assumes "si_wire cc = []" "si_inviteTx cc"
  shows "si_wire (RejectAsKeepAlive ok now 491 ''Request Pending'' cc) = (if ok then [WResp 491 ''Request Pending'' ''''] else [])"
    "si_wire (AcceptAsKeepAlive ok now sdp cc) = (if ok then [WResp 200 ''OK'' sdp] else [])"
    "\<exists>code r. code \<in> {488, 500} \<and> si_wire (RejectReinvite ok now e cc) = (if ok then [WResp code r ''''] else [])"
proof -
  have r: "si_wire (fst (respondWithData ok now st r b cc)) = (if ok then [WResp st (if r = '''' then sipStatus st else r) b] else [])"
    for st r b using assms by (simp add: respondWithData_def Let_def)
  show "si_wire (RejectAsKeepAlive ok now 491 ''Request Pending'' cc) = (if ok then [WResp 491 ''Request Pending'' ''''] else [])"
    "si_wire (AcceptAsKeepAlive ok now sdp cc) = (if ok then [WResp 200 ''OK'' sdp] else [])"
    by (simp_all add: RejectAsKeepAlive_def AcceptAsKeepAlive_def respond_def r)
  show "\<exists>code r. code \<in> {488, 500} \<and> si_wire (RejectReinvite ok now e cc) = (if ok then [WResp code r ''''] else [])"
    by (auto simp: RejectReinvite_def respond_def r)
qed

definition cache_ok :: "callManager \<Rightarrow> bool" where
  "cache_ok km \<longleftrightarrow> (\<forall>cache k st r. km_rejected km = Some cache \<longrightarrow> cache k = Some (st, r) \<longrightarrow> 300 \<le> st)"

lemma processInvite_cases:
  assumes "processInvite i km = (km', out)" "in_srcOk i"
    and "newInbound (in_msg i) (km_provisional km) (in_fresh i) = Ok cc"
  shows "(\<exists>st r entry. cached_rejection km cc = Some (st, r) \<and> io_call out = False \<and> io_err out = None \<and>
      km' = cache_rejection entry (km\<lparr>km_metrics := InviteReqRaw (km_metrics km)\<rparr>) \<and>
      entry = snd (RespondAndDrop (in_respOk i) (in_now i) st r cc) \<and>
      io_wire out = (if in_respOk i then [WResp st (if r = '''' then sipStatus st else r) ''''] else [])) \<or>
    cached_rejection km cc = None \<and>
     ((\<exists>c. km_byLocalTag km (si_id cc) = Some c \<and> si_inviteCSeq (ic_cc c) < si_inviteCSeq cc \<and>
         (km', out) = reinvite_inbound i cc c (km\<lparr>km_metrics := InviteReqRaw (km_metrics km)\<rparr>)) \<or>
      (\<forall>c. km_byLocalTag km (si_id cc) = Some c \<longrightarrow> \<not> si_inviteCSeq (ic_cc c) < si_inviteCSeq cc) \<and>
       ((\<exists>oc. km_activeCalls km (si_id cc) = Some oc \<and> so_latestInviteCSeq (oc_cc oc) < si_inviteCSeq cc \<and>
          (km', out) = reinvite_outbound i cc oc (km\<lparr>km_metrics := InviteReqRaw (km_metrics km)\<rparr>)) \<or>
        (\<forall>oc. km_activeCalls km (si_id cc) = Some oc \<longrightarrow> \<not> so_latestInviteCSeq (oc_cc oc) < si_inviteCSeq cc) \<and>
          (km', out) = new_invite i cc (km\<lparr>km_metrics := InviteReqRaw (km_metrics km)\<rparr>)))"
proof -
  have cr: "cached_rejection (km\<lparr>km_metrics := m\<rparr>) cc = cached_rejection km cc" for m by (simp add: cached_rejection_def)
  have w: "si_wire cc = []" "si_inviteTx cc" using newInbound_init [OF assms(3)] by auto
  show ?thesis
  proof (cases "cached_rejection km cc")
    case (Some x)
    obtain st r where x: "x = (st, r)" by (cases x)
    obtain cc1 entry where rd: "RespondAndDrop (in_respOk i) (in_now i) st r cc = (cc1, entry)" by fastforce
    have "si_wire cc1 = (if in_respOk i then [WResp st (if r = '''' then sipStatus st else r) ''''] else [])"
      using RespondAndDrop_facts(4) [of "in_respOk i" "in_now i" st r cc] rd w by simp
    then show ?thesis using assms Some x rd by (auto simp: processInvite_def cr Let_def no_call_def)
  next
    case None
    then show ?thesis using assms
      by (auto simp: processInvite_def cr Let_def split: option.splits if_split_asm)
  qed
qed

lemma processInvite_answer:
  assumes p: "processInvite i km = (km', out)" and c: "cache_ok km"
  shows "length (finals (io_wire out)) \<le> 1 \<and> (io_call out \<longrightarrow> finals (io_wire out) = []) \<and>
    (\<not> io_call out \<and> in_respOk i \<and> in_srcOk i \<and> newInbound (in_msg i) (km_provisional km) (in_fresh i) = Ok cc \<and>
       \<not> (\<exists>r. in_auth i = Ok r \<and> ai_Result r = AuthDrop) \<longrightarrow> length (finals (io_wire out)) = 1)"
proof (cases "in_srcOk i")
  case False
  then show ?thesis using p by (auto simp: processInvite_def no_call_def Let_def)
next
  case src: True
  show ?thesis
  proof (cases "newInbound (in_msg i) (km_provisional km) (in_fresh i)")
    case (Inl e)
    then show ?thesis using p src by (auto simp: processInvite_def no_call_def Let_def finals_def)
  next
    case (Inr cc1)
    let ?d = "\<exists>r. in_auth i = Ok r \<and> ai_Result r = AuthDrop"
    let ?k = "km\<lparr>km_metrics := InviteReqRaw (km_metrics km)\<rparr>"
    have w: "si_wire cc1 = []" "si_inviteTx cc1" using newInbound_init [OF Inr] by auto
    note rw = reinvite_wires [OF w, of "in_respOk i" "in_now i"]
    have inb: "one_answer (in_respOk i) False out" if "(km', out) = reinvite_inbound i cc1 c1 ?k" for c1
    proof (cases "ic_lateAnswerPending c1")
      case True
      then show ?thesis using that rw(1) by (auto simp: reinvite_inbound_def one_answer_def no_call_def finals_def Let_def)
    next
      case nl: False
      define u where "u = (if \<not> ic_media c1 then None else in_sdpAnswer i (sdpBodyFromRequest (in_req i)))"
      show ?thesis using that nl rw(2) rw(3) [of "the u"]
        by (cases u) (auto simp: reinvite_inbound_def u_def [symmetric] one_answer_def no_call_def finals_def Let_def)
    qed
    have outb: "one_answer (in_respOk i) False out" if "(km', out) = reinvite_outbound i cc1 oc ?k" for oc
    proof -
      define u where "u = in_sdpAnswer i (sdpBodyFromRequest (in_req i))"
      show ?thesis using that rw(1,2) rw(3) [of "the u"]
        by (cases u) (auto simp: reinvite_outbound_def u_def [symmetric] one_answer_def no_call_def finals_def Let_def
            split: sum.splits if_split_asm)
    qed
    have rej: "one_answer (in_respOk i) False out"
      if "cached_rejection km cc1 = Some (st, r)" "io_call out = False"
        "io_wire out = (if in_respOk i then [WResp st (if r = '''' then sipStatus st else r) ''''] else [])" for st r
    proof -
      have "300 \<le> st" using c that(1) unfolding cache_ok_def cached_rejection_def by (auto split: option.splits)
      then show ?thesis using that by (auto simp: one_answer_def finals_def)
    qed
    have new: "one_answer (in_respOk i) ?d out" if "(km', out) = new_invite i cc1 ?k"
      using new_invite_answer [of i cc1 ?k km' out] that w by simp
    have "one_answer (in_respOk i) False out \<or> one_answer (in_respOk i) ?d out"
      using processInvite_cases [OF p src Inr] by (elim disjE exE conjE) (use rej inb outb new in blast)+
    then show ?thesis using src by (auto simp: one_answer_def split: if_split_asm)
  qed
qed

text \<open>A re-INVITE is answered once and never starts a call: when an INVITE for a registered
  inbound call carries a higher CSeq than the one that set the call up, the manager keeps
  every call and every cache as it is and sends exactly one response, which is 491 while the
  caller still owes an answer, an error when the new session description is refused, and
  otherwise 200 with the session description this side answered with before.\<close>

theorem reinvite_answered_once:
  assumes p: "processInvite i km = (km', out)" and ok: "in_srcOk i" "in_respOk i"
    and cc: "newInbound (in_msg i) (km_provisional km) (in_fresh i) = Ok cc" "cached_rejection km cc = None"
    and ex: "km_byLocalTag km (si_id cc) = Some c" "si_inviteCSeq (ic_cc c) < si_inviteCSeq cc"
  shows "km' = km\<lparr>km_metrics := InviteReqRaw (km_metrics km)\<rparr> \<and> \<not> io_call out \<and> io_err out = None \<and>
    (\<exists>code r body. io_wire out = [WResp code r body] \<and> code \<in> {200, 488, 491, 500} \<and>
       (code = 491 \<longleftrightarrow> ic_lateAnswerPending c) \<and>
       (code = 200 \<longleftrightarrow> \<not> ic_lateAnswerPending c \<and> (ic_media c \<longrightarrow> in_sdpAnswer i (sdpBodyFromRequest (in_req i)) = None)) \<and>
       (code = 200 \<longrightarrow> body = OwnSDP (ic_cc c)))"
proof -
  have w: "si_wire cc = []" "si_inviteTx cc" using newInbound_init [OF cc(1)] by auto
  note rw = reinvite_wires [OF w, of "in_respOk i" "in_now i"]
  define u where "u = (if \<not> ic_media c then None else in_sdpAnswer i (sdpBodyFromRequest (in_req i)))"
  have u: "u = None \<longleftrightarrow> (ic_media c \<longrightarrow> in_sdpAnswer i (sdpBodyFromRequest (in_req i)) = None)" by (simp add: u_def)
  have r: "(km', out) = reinvite_inbound i cc c (km\<lparr>km_metrics := InviteReqRaw (km_metrics km)\<rparr>)"
    using processInvite_cases [OF p ok(1) cc(1)] cc(2) ex by auto
  obtain code rs where code: "code \<in> {488, 500}"
    "si_wire (RejectReinvite (in_respOk i) (in_now i) (the u) cc) = [WResp code rs '''']"
    using rw(3) [of "the u"] ok by auto
  show ?thesis
  proof (cases "ic_lateAnswerPending c")
    case True
    then show ?thesis using r ok rw(1) by (auto simp: reinvite_inbound_def no_call_def Let_def)
  next
    case False
    then show ?thesis using r ok rw(2) code u
      by (cases u) (auto simp: reinvite_inbound_def u_def [symmetric] no_call_def Let_def)
  qed
qed

definition demo_auth :: InboundAuth where
  "demo_auth = \<lparr>Realm = ''r'', Username = ''bob'', Password = ''pw''\<rparr>"

definition demo_info :: "AuthResult \<Rightarrow> AuthInfo" where
  "demo_info res = \<lparr>ai_Result = res, ai_ProjectID = ''p'', ai_TrunkID = ''t'', ai_Auth = demo_auth, ai_Provider = None\<rparr>"

definition demo_in :: "invite_msg \<Rightarrow> AuthResult \<Rightarrow> string invite_in" where
  "demo_in m res = \<lparr>in_srcOk = True, in_msg = m, in_req = demo_req ''bobpw'', in_fresh = ''SCL_1'', in_now = 7000000,
     in_tryOk = True, in_respOk = True, in_toHost = ''h'', in_sdpAnswer = (\<lambda>_. None), in_localSDP = Ok ''x'',
     in_auth = Ok (demo_info res), in_events = True, in_errMsg = (\<lambda>_. ''e''), in_env = DigestAuth.demo_env, in_rnd = None\<rparr>"

definition demo_reinvite :: invite_msg where
  "demo_reinvite = \<lparr>im_callID = Some ''cid'', im_from = Some (Some [(''tag'', ''ft'')]), im_to = Some (Some [(''tag'', ''SCL_1'')]),
     im_cseq = Some 2, im_legTr = TransportUDP, im_tr = TransportUDP\<rparr>"

abbreviation demo_km :: callManager where "demo_km \<equiv> newCallManager False False empty_monitor"

definition demo_km_call :: callManager where
  "demo_km_call = demo_km\<lparr>km_byLocalTag := [''SCL_1'' \<mapsto> demo_call]\<rparr>"

lemma demo_reinvite_ok:
  "\<exists>cc. newInbound demo_reinvite (km_provisional demo_km_call) f = Ok cc \<and> si_id cc = ''SCL_1'' \<and> si_inviteCSeq cc = 2"
  by (simp add: newInbound_def demo_reinvite_def tag_of_def)

lemma demo_call_fields: "si_inviteCSeq (ic_cc demo_call) = 1" "\<not> ic_lateAnswerPending demo_call" "\<not> ic_media demo_call"
  by (simp_all add: demo_call_def newInboundCall_def demo_dialog_def Processing_def respond_def respondWithData_def Let_def
      emitRejected_def setLastStatus_def send_def)

theorem reinvite_answered_once_witness:
  "\<exists>r. io_wire (snd (processInvite (demo_in demo_reinvite AuthDrop) demo_km_call)) = [WResp 200 r (OwnSDP (ic_cc demo_call))]"
proof -
  let ?i = "demo_in demo_reinvite AuthDrop"
  obtain cc where cc: "newInbound (in_msg ?i) (km_provisional demo_km_call) (in_fresh ?i) = Ok cc" "si_id cc = ''SCL_1''" "si_inviteCSeq cc = 2"
    using demo_reinvite_ok by (auto simp: demo_in_def)
  have "cached_rejection demo_km_call cc = None" by (simp add: cached_rejection_def demo_km_call_def newCallManager_def)
  moreover have "km_byLocalTag demo_km_call (si_id cc) = Some demo_call" by (simp add: demo_km_call_def newCallManager_def cc)
  ultimately show ?thesis
    using reinvite_answered_once [of ?i demo_km_call "fst (processInvite ?i demo_km_call)" "snd (processInvite ?i demo_km_call)" cc demo_call]
      cc demo_call_fields by (auto simp: demo_in_def)
qed

section \<open>Who starts a call\<close>

lemma start_call_facts:
  assumes "start_call cmon cc km = (km', out)" "idlg_inv cc" "\<not> cm_started cmon" "\<not> cm_terminated cmon"
  shows "io_call out \<and> io_wire out = si_wire cc \<and>
    (\<exists>c. km' = km\<lparr>km_byLocalTag := (km_byLocalTag km)(si_id cc \<mapsto> c)\<rparr> \<and> ready c \<and> si_id (ic_cc c) = si_id cc \<and> ic_registered c)"
  using assms by (auto simp: start_call_def ready_def newInboundCall_def)

text \<open>What the manager keeps of an INVITE that did not become a call.\<close>

definition same_calls :: "callManager \<Rightarrow> callManager \<Rightarrow> bool" where
  "same_calls km km' \<longleftrightarrow> km_byLocalTag km' = km_byLocalTag km \<and> km_activeCalls km' = km_activeCalls km \<and>
     callsActive (km_metrics km') = callsActive (km_metrics km) \<and> km_hide km' = km_hide km \<and> km_fired km' = km_fired km"

definition added_call :: "string \<Rightarrow> callManager \<Rightarrow> callManager \<Rightarrow> bool" where
  "added_call tag km km' \<longleftrightarrow> (\<exists>c. km_byLocalTag km' = (km_byLocalTag km)(tag \<mapsto> c) \<and> ready c \<and> si_id (ic_cc c) = tag \<and> ic_registered c) \<and>
     km_activeCalls km' = km_activeCalls km \<and> callsActive (km_metrics km') = callsActive (km_metrics km) \<and>
     km_hide km' = km_hide km \<and> km_fired km' = km_fired km"

lemma invite_counts [simp]:
  "callsActive (InviteReqRaw m) = callsActive m" "callsActive (InviteErrorShort t mon m) = callsActive m"
  by (simp_all add: InviteReqRaw_def InviteErrorShort_def)

definition password_ok :: "'k invite_in \<Rightarrow> AuthInfo \<Rightarrow> bool" where
  "password_ok i r \<longleftrightarrow>
     RCode (fst (handleInviteAuth (in_env i) (in_rnd i) (in_req i) (ai_Auth r) (in_now i) (in_now i))) = 200"

definition fresh_mon :: "CallMonitor \<Rightarrow> bool" where
  "fresh_mon mon \<longleftrightarrow> \<not> cm_started mon \<and> \<not> cm_terminated mon"

lemma password_effect:
  assumes p: "password_invite i r cmon cc km = (km', out)" and inv: "idlg_inv cc" "fresh_mon cmon"
  shows "if password_ok i r then io_call out \<and> added_call (si_id cc) km km' else \<not> io_call out \<and> same_calls km km'"
proof -
  define cc1 where "cc1 = (if km_hide km then
      (case Processing (in_tryOk i) (in_now i) cc of (c, sent) \<Rightarrow>
        if sent then emit (inviteResponseEvent EventTryingSent (si_tryingAt c) 100 (si_inviteCSeq c)) c else c) else cc)"
  have c1: "idlg_inv cc1" "si_id cc1 = si_id cc"
    using inv Processing_inv [of cc "in_tryOk i" "in_now i"] Processing_ident(1) [of "in_tryOk i" "in_now i" cc]
    by (cases "Processing (in_tryOk i) (in_now i) cc"; auto simp: cc1_def)+
  obtain res hdr where a: "handleInviteAuth (in_env i) (in_rnd i) (in_req i) (ai_Auth r) (in_now i) (in_now i) = (res, hdr)"
    by fastforce
  then have ok: "password_ok i r \<longleftrightarrow> RCode res = 200" by (simp add: password_ok_def)
  obtain n km1 where g: "getCallInfo (si_id cc1) km = (n, km1)" by fastforce
  note gf = getCallInfo_fields [OF g]
  define km2 where "km2 = upd_info n (countInvite (inviteHasAuth (in_req i)) (im_cseq (in_msg i))) (stopChallengeTimer n km1)"
  have k2: "same_calls km km2" using gf by (simp add: same_calls_def km2_def)
  show ?thesis
  proof (cases "RCode res = 200")
    case True
    then have "start_call cmon cc1 km2 = (km', out)"
      using p unfolding password_invite_def Let_def cc1_def [symmetric] g prod.case km2_def [symmetric] a by simp
    from start_call_facts [OF this] show ?thesis using c1 inv k2 ok True
      by (auto simp: added_call_def same_calls_def fresh_mon_def)
  next
    case False
    define km3 where "km3 = km2\<lparr>km_provisional := (km_provisional km2)((si_sipCallID cc1, si_tag cc1) \<mapsto> si_id cc1),
        km_metrics := InviteErrorShort (ClientError ''unauthorized'') cmon (km_metrics km2)\<rparr>"
    have k3: "same_calls km km3" using k2 by (simp add: same_calls_def km3_def)
    have "same_calls km km' \<and> \<not> io_call out"
      using p False k3 unfolding password_invite_def Let_def cc1_def [symmetric] g prod.case km2_def [symmetric] a
      by (auto simp: km3_def [symmetric] no_call_def same_calls_def end_without_call_def split: if_split_asm option.splits)
    then show ?thesis using ok False by simp
  qed
qed

definition auth_accepts :: "'k invite_in \<Rightarrow> AuthInfo \<Rightarrow> bool" where
  "auth_accepts i r \<longleftrightarrow> ai_Result r = AuthAccept \<or> (\<exists>n. ai_Result r = AuthOther n) \<or> ai_Result r = AuthPassword \<and> password_ok i r"

lemma same_calls_refl [simp]: "same_calls km km"
  by (simp add: same_calls_def)

lemma same_calls_cache [simp]: "same_calls km (cache_rejection x km') = same_calls km km'"
  by (simp add: same_calls_def)

lemma same_calls_metrics [simp]:
  "callsActive m = callsActive (km_metrics km') \<Longrightarrow> same_calls km (km'\<lparr>km_metrics := m\<rparr>) = same_calls km km'"
  by (simp add: same_calls_def)

lemma same_calls_left [simp]:
  "callsActive m = callsActive (km_metrics km) \<Longrightarrow> same_calls (km\<lparr>km_metrics := m\<rparr>) km' = same_calls km km'"
  "callsActive m = callsActive (km_metrics km) \<Longrightarrow> added_call t (km\<lparr>km_metrics := m\<rparr>) km' = added_call t km km'"
  "same_calls (cache_rejection x km) km' = same_calls km km'"
  by (simp_all add: same_calls_def added_call_def)

lemma same_calls_trans: "same_calls a b \<Longrightarrow> same_calls b c \<Longrightarrow> same_calls a c"
  by (simp add: same_calls_def)

lemma same_calls_added: "same_calls a b \<Longrightarrow> added_call t b c \<Longrightarrow> added_call t a c"
  by (simp add: same_calls_def added_call_def)

lemma end_without_call_same: "end_without_call i t err cc km = (km', out) \<Longrightarrow> same_calls km km' \<and> \<not> io_call out"
  by (auto simp: end_without_call_def same_calls_def no_call_def Let_def)

lemma authorized_effect:
  assumes a: "authorized_invite i r cmon cc km = (km', out)" and inv: "idlg_inv cc" "fresh_mon cmon"
  shows "if auth_accepts i r then io_call out \<and> added_call (si_id cc) km km' else \<not> io_call out \<and> same_calls km km'"
proof (cases "auth_reject (ai_Result r)")
  case None
  show ?thesis
  proof (cases "ai_Result r")
    case AuthPassword
    then have "password_invite i r cmon cc km = (km', out)" using a None by (simp add: authorized_invite_def)
    from password_effect [OF this inv] show ?thesis using AuthPassword by (simp add: auth_accepts_def)
  next
    case AuthAccept
    obtain n km1 where g: "getCallInfo (si_id cc) km = (n, km1)" by fastforce
    have s: "same_calls km (upd_info n f km1)" for f using getCallInfo_fields [OF g] by (simp add: same_calls_def)
    show ?thesis using a None AuthAccept inv g start_call_facts [of cmon cc _ km' out] s
      by (fastforce simp: authorized_invite_def auth_accepts_def added_call_def same_calls_def fresh_mon_def)
  next
    case (AuthOther n)
    then show ?thesis using a None inv start_call_facts [of cmon cc km km' out]
      by (auto simp: authorized_invite_def auth_accepts_def added_call_def fresh_mon_def)
  qed (use None in auto)
next
  case (Some x)
  then have n: "\<not> auth_accepts i r" by (auto simp: auth_accepts_def)
  obtain t resp err where x: "x = (t, resp, err)" by (cases x)
  have "same_calls km km' \<and> \<not> io_call out"
    using a Some x by (auto simp: authorized_invite_def Let_def dest!: end_without_call_same split: option.splits prod.splits)
  then show ?thesis using n by simp
qed

lemma new_invite_effect:
  assumes n: "new_invite i cc km = (km', out)" and inv: "idlg_inv cc"
  shows "if \<exists>r. in_auth i = Ok r \<and> auth_accepts i r then io_call out \<and> added_call (si_id cc) km km'
    else \<not> io_call out \<and> same_calls km km'"
proof -
  define cc1 where "cc1 = (if km_hide km then cc else fst (Processing (in_tryOk i) (in_now i) cc))"
  have c1: "idlg_inv cc1" "si_id cc1 = si_id cc" using inv by (simp_all add: cc1_def Processing_inv)
  let ?mon = "NewCall ''inbound'' (in_toHost i)"
  define km1 where "km1 = km\<lparr>km_metrics := InviteReq ?mon (km_metrics km)\<rparr>"
  have s: "same_calls km km1" by (simp add: km1_def)
  show ?thesis
  proof (cases "in_auth i")
    case (Inl e)
    then show ?thesis using n s unfolding new_invite_def cc1_def [symmetric] km1_def [symmetric] Let_def
      by (auto simp: no_call_def split: prod.splits)
  next
    case (Inr r)
    define cc2 where "cc2 = emit (lookupEvent EventInviteAuthorized (Some (in_now i)) 0 (authResultName (ai_Result r)))
        ((newState i (ai_TrunkID r) cc1)\<lparr>si_state := map_option Flush (si_state (newState i (ai_TrunkID r) cc1))\<rparr>)"
    have c2: "idlg_inv cc2" "si_id cc2 = si_id cc" using c1 by (simp_all add: cc2_def state_inv)
    have a: "authorized_invite i r (SetProvider (providerInfoLabel (ai_Provider r)) ?mon) cc2 km1 = (km', out)"
      using n Inr unfolding new_invite_def cc1_def [symmetric] km1_def [symmetric] Let_def by (simp add: cc2_def)
    have "fresh_mon (SetProvider (providerInfoLabel (ai_Provider r)) ?mon)"
      by (simp add: fresh_mon_def SetProvider_def NewCall_def)
    from authorized_effect [OF a c2(1) this] show ?thesis using c2 Inr s
      by (auto intro: same_calls_trans same_calls_added split: if_split_asm)
  qed
qed

definition kept_calls :: "callManager \<Rightarrow> callManager \<Rightarrow> bool" where
  "kept_calls km km' \<longleftrightarrow> same_calls km km' \<or>
     (\<exists>tag oc n. km_activeCalls km tag = Some oc \<and>
        same_calls (km\<lparr>km_activeCalls := (km_activeCalls km)(tag \<mapsto> oc\<lparr>oc_cc := RecordInvite n (oc_cc oc)\<rparr>)\<rparr>) km')"

lemma processInvite_effect:
  assumes p: "processInvite i km = (km', out)"
  shows "(io_call out \<longrightarrow> (\<exists>cc r. in_srcOk i \<and> newInbound (in_msg i) (km_provisional km) (in_fresh i) = Ok cc \<and>
      cached_rejection km cc = None \<and> in_auth i = Ok r \<and> auth_accepts i r \<and> added_call (si_id cc) km km')) \<and>
    (\<not> io_call out \<longrightarrow> kept_calls km km')"
proof (cases "in_srcOk i \<and> (\<exists>cc. newInbound (in_msg i) (km_provisional km) (in_fresh i) = Ok cc)")
  case False
  then show ?thesis using p
    by (auto simp: processInvite_def no_call_def kept_calls_def Let_def split: if_split_asm sum.splits)
next
  case True
  then obtain cc where src: "in_srcOk i" and cc: "newInbound (in_msg i) (km_provisional km) (in_fresh i) = Ok cc" by blast
  let ?k = "km\<lparr>km_metrics := InviteReqRaw (km_metrics km)\<rparr>"
  have s: "same_calls km ?k" by simp
  have inv: "idlg_inv cc" using newInbound_init [OF cc] by blast
  have inb: "\<not> io_call out \<and> kept_calls km km'" if "(km', out) = reinvite_inbound i cc c ?k" for c
    using that s by (auto simp: reinvite_inbound_def no_call_def kept_calls_def Let_def)
  have outb: "\<not> io_call out \<and> kept_calls km km'"
    if "(km', out) = reinvite_outbound i cc oc ?k" "km_activeCalls km (si_id cc) = Some oc" for oc
  proof -
    define oc1 where "oc1 = oc\<lparr>oc_cc := RecordInvite (si_inviteCSeq cc) (oc_cc oc)\<rparr>"
    from that(1) have c: "\<not> io_call out" "km' = ?k \<or> km' = ?k\<lparr>km_activeCalls := (km_activeCalls km)(si_id cc \<mapsto> oc1)\<rparr>"
      by (auto simp: reinvite_outbound_def no_call_def oc1_def split: sum.splits option.splits if_split_asm)
    have "same_calls (km\<lparr>km_activeCalls := (km_activeCalls km)(si_id cc \<mapsto> oc1)\<rparr>) km'" if "km' \<noteq> ?k"
      using c(2) that by (simp add: same_calls_def)
    then show ?thesis using c(1) that(2) s unfolding kept_calls_def oc1_def by (cases "km' = ?k") blast+
  qed
  have new: "(io_call out \<longrightarrow> (\<exists>r. in_auth i = Ok r \<and> auth_accepts i r \<and> added_call (si_id cc) km km')) \<and>
      (\<not> io_call out \<longrightarrow> kept_calls km km')" if "(km', out) = new_invite i cc ?k"
    using new_invite_effect [OF that [symmetric] inv] by (auto simp: kept_calls_def split: if_split_asm)
  show ?thesis
  proof (cases "cached_rejection km cc")
    case (Some x)
    then show ?thesis using processInvite_cases [OF p src cc] s by (auto simp: kept_calls_def)
  next
    case None
    then show ?thesis using processInvite_cases [OF p src cc] inb outb new src cc by auto
  qed
qed

text \<open>Only authorised callers start calls: when an INVITE makes the manager register a call,
  the auth service answered, and either accepted the caller outright or asked for a
  password; in the second case either no user name or no password is configured, or the
  INVITE carries credentials whose digest was computed from the configured password over a
  nonce this service issued for this Call-ID in the last 30 seconds. The call is registered
  under the dialog's tag and nothing else in the maps of calls changes.\<close>

theorem call_started_authorized:
  assumes "processInvite i km = (km', out)" "io_call out"
  shows "\<exists>cc r. newInbound (in_msg i) (km_provisional km) (in_fresh i) = Ok cc \<and> in_auth i = Ok r \<and>
    (\<exists>c. km_byLocalTag km' = (km_byLocalTag km)(si_id cc \<mapsto> c) \<and> si_id (ic_cc c) = si_id cc \<and> \<not> ic_done c) \<and>
    km_activeCalls km' = km_activeCalls km \<and>
    (ai_Result r = AuthAccept \<or> (\<exists>n. ai_Result r = AuthOther n) \<or>
     ai_Result r = AuthPassword \<and> (Username (ai_Auth r) = '''' \<or> Password (ai_Auth r) = '''' \<or>
       (\<exists>hv cred. ReqHeader (in_req i) ''Proxy-Authorization'' = Some hv \<and> parse_cred (env_digest (in_env i)) hv = Some cred \<and>
          cr_Username cred = Username (ai_Auth r) \<and>
          digest_fn (env_digest (in_env i)) (if Realm (ai_Auth r) = '''' then UserAgent else Realm (ai_Auth r)) (cr_Nonce cred)
            (cr_URI cred) (Username (ai_Auth r)) (Password (ai_Auth r)) = Some (cr_Response cred) \<and>
          checkDigestNonce (env_aead (in_env i)) (env_b64 (in_env i)) (env_keys (in_env i)) (cr_Nonce cred)
            (sipCallID_of (in_req i)) (in_now i) = None)))"
proof -
  from processInvite_effect [OF assms(1)] assms(2) obtain cc r where
    cc: "newInbound (in_msg i) (km_provisional km) (in_fresh i) = Ok cc" "in_auth i = Ok r" "auth_accepts i r"
      "added_call (si_id cc) km km'" by blast
  have "\<exists>hv cred. ReqHeader (in_req i) ''Proxy-Authorization'' = Some hv \<and> parse_cred (env_digest (in_env i)) hv = Some cred \<and>
      cr_Username cred = Username (ai_Auth r) \<and>
      digest_fn (env_digest (in_env i)) (if Realm (ai_Auth r) = '''' then UserAgent else Realm (ai_Auth r)) (cr_Nonce cred)
        (cr_URI cred) (Username (ai_Auth r)) (Password (ai_Auth r)) = Some (cr_Response cred) \<and>
      checkDigestNonce (env_aead (in_env i)) (env_b64 (in_env i)) (env_keys (in_env i)) (cr_Nonce cred)
        (sipCallID_of (in_req i)) (in_now i) = None"
    if ok: "password_ok i r" and u: "Username (ai_Auth r) \<noteq> ''''" "Password (ai_Auth r) \<noteq> ''''"
    by (rule handleInviteAuth_checked [OF u ok [unfolded password_ok_def]]) auto
  moreover have "\<exists>c. km_byLocalTag km' = (km_byLocalTag km)(si_id cc \<mapsto> c) \<and> si_id (ic_cc c) = si_id cc \<and> \<not> ic_done c"
    "km_activeCalls km' = km_activeCalls km" using cc(4) by (auto simp: added_call_def ready_def)
  ultimately show ?thesis using cc unfolding auth_accepts_def by blast
qed

lemma demo_invite_new: "newInbound demo_invite (km_provisional demo_km) ''SCL_1'' = Ok demo_dialog"
  by (simp add: newInbound_def demo_invite_def demo_dialog_def tag_of_def newCallManager_def Let_def)

lemma demo_in_fields [simp]: "in_srcOk (demo_in m a)" "in_respOk (demo_in m a)" "in_msg (demo_in m a) = m"
  "in_fresh (demo_in m a) = ''SCL_1''" "in_auth (demo_in m a) = Ok (demo_info a)" "ai_Result (demo_info a) = a"
  by (simp_all add: demo_in_def demo_info_def)

lemma demo_password_ok: "password_ok (demo_in m a) (demo_info b)"
  by (simp add: password_ok_def demo_in_def demo_info_def demo_auth_def handleInviteAuth_def demo_validate mk_result_def)

lemma demo_new: "processInvite (demo_in demo_invite a) demo_km =
    new_invite (demo_in demo_invite a) demo_dialog (demo_km\<lparr>km_metrics := InviteReqRaw empty_monitor\<rparr>)"
  using demo_invite_new
  by (simp add: processInvite_def Let_def cached_rejection_def newCallManager_def)

lemma demo_started: "io_call (snd (processInvite (demo_in demo_invite AuthPassword) demo_km))"
  using new_invite_effect [of "demo_in demo_invite AuthPassword" demo_dialog "demo_km\<lparr>km_metrics := InviteReqRaw empty_monitor\<rparr>"]
    demo_dialog_inv(1)
  by (cases "new_invite (demo_in demo_invite AuthPassword) demo_dialog (demo_km\<lparr>km_metrics := InviteReqRaw empty_monitor\<rparr>)")
    (auto simp: demo_new auth_accepts_def demo_password_ok)

theorem call_started_authorized_witness:
  "\<exists>hv cred. ReqHeader (demo_req ''bobpw'') ''Proxy-Authorization'' = Some hv \<and>
     parse_cred (env_digest DigestAuth.demo_env) hv = Some cred \<and> cr_Username cred = ''bob''"
proof -
  let ?i = "demo_in demo_invite AuthPassword"
  show ?thesis
    using call_started_authorized [of ?i demo_km "fst (processInvite ?i demo_km)" "snd (processInvite ?i demo_km)"] demo_started
    by (auto simp: demo_in_def demo_info_def demo_auth_def)
qed

text \<open>C20: a caller that was turned away keeps getting the same answer: after an INVITE was rejected
  on the word of the auth service, a later INVITE with the same Call-ID and From tag, for as
  long as the entry stays in the cache, is answered with the same status and reason, whatever
  the auth service would say now; it starts no call, reports no session, and changes nothing
  in the manager but the count of raw INVITEs.\<close>

theorem rejected_invite_replayed:
  assumes first: "processInvite i km = (km1, out1)" "in_srcOk i"
      "newInbound (in_msg i) (km_provisional km) (in_fresh i) = Ok cc" "cached_rejection km cc = None"
      "km_byLocalTag km (si_id cc) = None" "km_activeCalls km (si_id cc) = None"
    and rej: "in_auth i = Ok r" "auth_reject (ai_Result r) = Some (t, Some (status, reason), err)" "km_rejected km \<noteq> None"
    and kept: "cached_rejection km2 cc = cached_rejection km1 cc"
    and second: "processInvite j km2 = (km3, out2)" "in_srcOk j" "in_respOk j"
      "newInbound (in_msg j) (km_provisional km2) (in_fresh j) = Ok cc2" "si_sipCallID cc2 = si_sipCallID cc" "si_tag cc2 = si_tag cc"
  shows "io_wire out2 = [WResp status reason ''''] \<and> \<not> io_call out2 \<and> io_err out2 = None \<and> io_state out2 = None \<and>
    km3 = km2\<lparr>km_metrics := InviteReqRaw (km_metrics km2)\<rparr>"
proof -
  have ident: "cached_rejection k cc2 = cached_rejection k cc" for k using second(5,6) by (simp add: cached_rejection_def split: option.split)
  have cid: "si_sipCallID cc \<noteq> ''''" using first(3) by (auto simp: newInbound_def Let_def split: option.splits if_splits)
  have st: "300 \<le> status" "reason \<noteq> ''''" using rej(2) by (cases "ai_Result r"; auto)+
  have "(km1, out1) = new_invite i cc (km\<lparr>km_metrics := InviteReqRaw (km_metrics km)\<rparr>)"
    using processInvite_cases [OF first(1-3)] first(4-6) by auto
  then have c1: "cached_rejection km1 cc = Some (status, reason)"
    using rej st cid
    by (auto simp: new_invite_def authorized_invite_def Let_def end_without_call_def RespondAndDrop_def cache_rejection_def
        cached_rejection_def drop_dialog_def stopRinging_def emit_def respond_def split: prod.splits option.splits)
  then obtain cache where k: "km_rejected km2 = Some cache" "cache (si_sipCallID cc, si_tag cc) = Some (status, reason)"
    using kept by (auto simp: cached_rejection_def split: option.splits)
  let ?k = "km2\<lparr>km_metrics := InviteReqRaw (km_metrics km2)\<rparr>"
  have w: "si_wire cc2 = []" "si_inviteTx cc2" using newInbound_init [OF second(4)] by auto
  obtain d en where rd: "RespondAndDrop True (in_now j) status reason cc2 = (d, en)" by fastforce
  have en: "en = Some ((si_sipCallID cc, si_tag cc), (status, reason))"
    using rd st cid second(5,6) RespondAndDrop_facts(2,3) [of True "in_now j" status reason cc2]
    by (auto simp: RespondAndDrop_def Let_def)
  have same: "cache_rejection en ?k = ?k" using k en by (simp add: cache_rejection_def fun_upd_idem)
  have "processInvite j km2 = (?k, no_call (si_wire d) None None)"
    using second(2-4) c1 kept ident rd same
    by (simp add: processInvite_def Let_def cached_rejection_def)
  moreover have "si_wire d = [WResp status reason '''']"
    using RespondAndDrop_facts(4) [of True "in_now j" status reason cc2] rd w st by simp
  ultimately show ?thesis using second(1) by (auto simp: no_call_def)
qed

theorem rejected_invite_replayed_witness:
  "\<exists>km1 out1. processInvite (demo_in demo_invite AuthNotFound) demo_km = (km1, out1) \<and>
     io_wire (snd (processInvite (demo_in demo_invite AuthAccept) (km1\<lparr>km_provisional := Map.empty\<rparr>))) =
       [WResp 404 ''Does not match any SIP Trunks'' '''']"
proof -
  obtain km1 out1 where p: "processInvite (demo_in demo_invite AuthNotFound) demo_km = (km1, out1)" by fastforce
  let ?k = "km1\<lparr>km_provisional := Map.empty\<rparr>"
  have n: "newInbound demo_invite (km_provisional ?k) ''SCL_1'' = Ok demo_dialog"
    using demo_invite_new by (simp add: newCallManager_def)
  show ?thesis
    using p rejected_invite_replayed [OF p, of demo_dialog "demo_info AuthNotFound" "ClientError ''no-rule''" 404
        "''Does not match any SIP Trunks''" "EPsrpc NotFound (ENew ''no trunk configuration for call'')" ?k
        "demo_in demo_invite AuthAccept" "fst (processInvite (demo_in demo_invite AuthAccept) ?k)"
        "snd (processInvite (demo_in demo_invite AuthAccept) ?k)" demo_dialog] demo_invite_new n
    by (simp add: cached_rejection_def newCallManager_def)
qed

text \<open>C19: an INVITE gets at most one final answer before it becomes a call, and no INVITE is left
  hanging: an INVITE that becomes a call has not been answered yet; one that does not, when its
  source and its dialog are valid, its response can be sent and the auth service did not order
  it dropped, has been answered exactly once. (The cache of rejections holds final rejections
  only.)\<close>

theorem invite_answered_once:
  assumes "processInvite i km = (km', out)" "cache_ok km"
  shows "length (finals (io_wire out)) \<le> 1 \<and> (io_call out \<longrightarrow> finals (io_wire out) = []) \<and>
    (\<not> io_call out \<and> in_respOk i \<and> in_srcOk i \<and> newInbound (in_msg i) (km_provisional km) (in_fresh i) = Ok cc \<and>
       \<not> (\<exists>r. in_auth i = Ok r \<and> ai_Result r = AuthDrop) \<longrightarrow> length (finals (io_wire out)) = 1)"
  by (rule processInvite_answer [OF assms])

lemma cache_ok_rejection: "cache_ok km \<Longrightarrow> cache_ok (cache_rejection (snd (RespondAndDrop ok now st r c)) km)"
  by (auto simp: cache_ok_def cache_rejection_def RespondAndDrop_def Let_def split: option.splits if_splits)

theorem invite_answered_once_witness:
  "length (finals (io_wire (snd (processInvite (demo_in demo_invite AuthNotFound) demo_km)))) = 1"
proof -
  let ?i = "demo_in demo_invite AuthNotFound"
  have "cache_ok demo_km" by (simp add: cache_ok_def newCallManager_def)
  moreover have "\<not> io_call (snd (processInvite ?i demo_km))"
    using processInvite_effect [of ?i demo_km "fst (processInvite ?i demo_km)" "snd (processInvite ?i demo_km)"]
    by (auto simp: auth_accepts_def)
  ultimately show ?thesis
    using invite_answered_once [of ?i demo_km "fst (processInvite ?i demo_km)" "snd (processInvite ?i demo_km)" demo_dialog]
      demo_invite_new by simp
qed

end
