(* ===== verification/ManagerRun.thy ===== *)
theory ManagerRun
  imports CallManager
begin

text \<open>
  The call manager under any sequence of the events that reach it: INVITEs, the run of the calls
  they started, ACK and BYE of the peers, challenge timers, cache evictions, outbound calls and
  shutdown. An outbound call has a fresh identifier. Shutdown names the calls in the order in
  which the values of the maps come.
\<close>

section \<open>Steps of the manager\<close>

datatype 'k km_op =
    KInvite "'k invite_in"
  | KServe string hi_env
  | KAck sip_request "32 word option" int
  | KBye oc_env sip_request "32 word option" int
  | KTimer nat
  | KEvictProvisional "string \<times> string"
  | KEvictRejected "string \<times> string"
  | KEvictInfo string
  | KNewCall oc_env "string \<Rightarrow> string" string sip_uri "string list" bool CallState string string
  | KCall string oc_op
  | KStop oc_env close_env int "string list" "string list"

fun km_step :: "'k km_op \<Rightarrow> callManager \<Rightarrow> callManager option" where
  "km_step (KInvite i) km = Some (fst (processInvite i km))"
| "km_step (KServe tag h) km = map_option fst (serve_call h tag km)"
| "km_step (KAck req cseq now) km = Some (HandleAck req cseq now km)"
| "km_step (KBye e req cseq now) km = map_option fst (HandleBye e req cseq now km)"
| "km_step (KTimer i) km = Some (fireChallengeTimer i km)"
| "km_step (KEvictProvisional k) km = Some (km\<lparr>km_provisional := (km_provisional km)(k := None)\<rparr>)"
| "km_step (KEvictRejected k) km = Some (km\<lparr>km_rejected := map_option (\<lambda>c. c(k := None)) (km_rejected km)\<rparr>)"
| "km_step (KEvictInfo t) km = Some (km\<lparr>km_infos := (km_infos km)(t := None)\<rparr>)"
| "km_step (KNewCall e hash cid uri rhs srv st toHost provider) km = (if km_activeCalls km cid \<noteq> None then Some km
     else map_option (\<lambda>(oc, err). store_outbound cid oc km) (newCall e hash cid uri rhs srv st toHost provider (km_metrics km)))"
| "km_step (KCall tag x) km = (case km_activeCalls km tag of
     None \<Rightarrow> Some km
   | Some oc \<Rightarrow> map_option (\<lambda>oc1. store_outbound tag oc1 km) (oc_step x (oc\<lparr>oc_metrics := km_metrics km\<rparr>)))"
| "km_step (KStop e ce now outs ins) km =
     (if distinct outs \<and> set outs = dom (km_activeCalls km) \<and> distinct ins \<and> set ins = dom (km_byLocalTag km)
      then map_option fst (Stop e ce now outs ins km) else Some km)"

section \<open>The gauge of active calls\<close>

definition weight :: "active_key \<Rightarrow> outboundCall option \<Rightarrow> int" where
  "weight k x = (case x of Some oc \<Rightarrow> if active_under k (oc_mon oc) then 1 else 0 | None \<Rightarrow> 0)"

definition in_progress :: "active_key \<Rightarrow> (string \<rightharpoonup> outboundCall) \<Rightarrow> int" where
  "in_progress k calls = (\<Sum>tag\<in>dom calls. weight k (calls tag))"

definition oc_ready :: "outboundCall \<Rightarrow> bool" where
  "oc_ready c \<longleftrightarrow> \<not> oc_stopped c \<and> oc_registered c \<and> oc_sessionEnds c = [] \<and> \<not> cm_terminated (oc_mon c) \<and>
     (cm_started (oc_mon c) \<longrightarrow> cm_providerAtStart (oc_mon c) = Some (providerLabel (oc_mon c)))"

definition km_inv :: "callManager \<Rightarrow> bool" where
  "km_inv km \<longleftrightarrow> finite (dom (km_byLocalTag km)) \<and> finite (dom (km_activeCalls km)) \<and>
     (\<forall>tag c. km_byLocalTag km tag = Some c \<longrightarrow> si_id (ic_cc c) = tag \<and> ready c) \<and>
     (\<forall>tag oc. km_activeCalls km tag = Some oc \<longrightarrow> oc_ready oc) \<and>
     (\<forall>k. callsActive (km_metrics km) k = in_progress k (km_activeCalls km))"

lemma in_progress_upd:
  assumes "finite (dom M)"
  shows "in_progress k (M(t := x)) = in_progress k M - weight k (M t) + weight k x"
proof -
  have w: "weight k None = 0" by (simp add: weight_def)
  have all: "in_progress k N = (\<Sum>tag\<in>insert t (dom M). weight k (N tag))" if "dom N \<subseteq> insert t (dom M)" for N
    unfolding in_progress_def by (rule sum.mono_neutral_left) (use assms that w in \<open>auto simp: domIff\<close>)
  have "in_progress k (M(t := x)) = (\<Sum>tag\<in>insert t (dom M). weight k ((M(t := x)) tag))"
    by (rule all) (auto split: if_splits)
  also have "\<dots> = weight k x + (\<Sum>tag\<in>dom M - {t}. weight k (M tag))"
    using assms by (simp add: sum.insert_remove)
  moreover have "in_progress k M = weight k (M t) + (\<Sum>tag\<in>dom M - {t}. weight k (M tag))"
    using all [of M] assms by (simp add: sum.insert_remove subset_insertI)
  ultimately show ?thesis by simp
qed

lemma oc_step_registered:
  assumes "oc_acct mon0 m0 c" "oc_step x c = Some d"
  shows "oc_stopped d \<or> oc_registered d = oc_registered c"
proof (cases x)
  case (OcDial e)
  then obtain err where D: "Dial e c = Some (d, err)" using assms(2) by auto
  obtain mon m where cs: "(if oc_stopped c then (oc_mon c, oc_metrics c) else CallStart (oc_mon c) (oc_metrics c)) = (mon, m)"
    by fastforce
  let ?c = "c\<lparr>oc_mon := mon, oc_metrics := m\<rparr>"
  have a: "oc_acct mon0 m0 ?c"
    using assms(1) cs by (auto simp: oc_acct_def CallStart_def Let_def bump_def providerLabel_def split: if_splits)
  obtain c1 e1 where c1: "connectSIP e ?c = Some (c1, e1)" using D cs by (auto simp: Dial_def split: option.splits)
  have s1: "same_acct c1 d" using D cs c1 by (auto simp: Dial_def split: option.splits)
  obtain c2 e2 where c2: "dialSIP e ?c = Some (c2, e2)" using c1 by (auto simp: connectSIP_def split: option.splits)
  note s2 = dialSIP_acct [OF c2]
  show ?thesis
  proof (cases e2)
    case None
    then have "c1 = c2\<lparr>oc_started := True\<rparr>" using c1 c2 by (simp add: connectSIP_def)
    moreover have "oc_registered c2 = oc_registered c" "oc_registered d = oc_registered c1"
      using s1 s2 by (simp_all add: same_acct_def)
    ultimately show ?thesis by simp
  next
    case (Some y)
    then have "oc_stopped c1" using c1 c2 oc_close_keeps [OF same_acct_keeps [OF a s2]] by (auto simp: connectSIP_def Let_def)
    then show ?thesis using s1 by (simp add: same_acct_def)
  qed
next
  case (OcWait e evs)
  then show ?thesis using assms(2) owait_acct [OF assms(1)] by (fastforce simp: waitClose_def ensureClosed_def oc_state_def)
next
  case (OcBye e cseq reason)
  define c1 where "c1 = (if oc_byeReceived c then c else oc_emit ((new_event EventByeReceived (Some (oe_now e)))
      \<lparr>evSIPMethod := ''BYE'', evCSeq := cseq, evReason := messageCause reason\<rparr>) (c\<lparr>oc_byeReceived := True\<rparr>))"
  have "oc_acct mon0 m0 (c1\<lparr>oc_cc := AcceptBye_out (oc_cc c1)\<rparr>)" by (rule same_acct_keeps [OF assms(1)]) (simp add: c1_def)
  then show ?thesis using assms(2) OcBye oc_close_keeps [of mon0 m0 "c1\<lparr>oc_cc := AcceptBye_out (oc_cc c1)\<rparr>" e]
    unfolding c1_def [symmetric] by (auto simp: oc_bye_def Let_def c1_def [symmetric])
qed (use assms(2) oc_close_keeps [OF assms(1)] in \<open>auto simp: oc_EndCall_def oc_Close_def\<close>)

lemma active_key_eq:
  "active_under k mon \<longleftrightarrow> cm_started mon \<and> cm_providerAtStart mon \<noteq> None \<and>
     k = (cm_dir mon, cm_toHost mon, the (cm_providerAtStart mon))"
  by (auto simp: active_under_def split: option.splits)

lemma oc_ready_acct:
  assumes "oc_ready c"
  shows "oc_acct (oc_mon c) (if cm_started (oc_mon c)
    then m\<lparr>callsActive := bump (callsActive m) (cm_dir (oc_mon c), cm_toHost (oc_mon c), providerLabel (oc_mon c)) (- 1)\<rparr> else m)
    (c\<lparr>oc_metrics := m\<rparr>)"
  using assms by (cases "cm_started (oc_mon c)") (simp_all add: oc_acct_def oc_ready_def bump_def)

lemma oc_step_gauge:
  assumes r: "oc_ready c" and st: "oc_step x (c\<lparr>oc_metrics := m\<rparr>) = Some d"
  shows "(oc_registered d \<longrightarrow> oc_ready d) \<and>
    callsActive (oc_metrics d) k = callsActive m k - weight k (Some c) + weight k (if oc_registered d then Some d else None)"
proof -
  let ?key = "(cm_dir (oc_mon c), cm_toHost (oc_mon c), providerLabel (oc_mon c))"
  define m0 where "m0 = (if cm_started (oc_mon c) then m\<lparr>callsActive := bump (callsActive m) ?key (- 1)\<rparr> else m)"
  have a: "oc_acct (oc_mon c) m0 (c\<lparr>oc_metrics := m\<rparr>)" unfolding m0_def by (rule oc_ready_acct [OF r])
  have a': "oc_acct (oc_mon c) m0 d" by (rule oc_step_acct [OF a st])
  have reg: "oc_stopped d \<or> oc_registered d" using oc_step_registered [OF a st] r by (simp add: oc_ready_def)
  have pl: "providerLabel (oc_mon d) = providerLabel (oc_mon c)" using a' by (simp add: oc_acct_def providerLabel_def)
  show ?thesis
  proof (cases "oc_stopped d")
    case True
    then have d: "\<not> oc_registered d" "callsActive (oc_metrics d) = callsActive m0" using a' by (simp_all add: oc_acct_def)
    show ?thesis
      using d r by (cases "cm_started (oc_mon c)") (simp_all add: m0_def weight_def active_key_eq oc_ready_def bump_def)
  next
    case False
    then have d: "oc_registered d" "cm_dir (oc_mon d) = cm_dir (oc_mon c)" "cm_toHost (oc_mon d) = cm_toHost (oc_mon c)"
      "callsActive (oc_metrics d) = (if cm_started (oc_mon d) then bump (callsActive m0) ?key 1 else callsActive m0)"
      "cm_started (oc_mon d) \<longrightarrow> cm_providerAtStart (oc_mon d) = Some (providerLabel (oc_mon c))"
      "oc_sessionEnds d = []" "\<not> cm_terminated (oc_mon d)"
      using a' reg by (simp_all add: oc_acct_def split: if_split_asm)
    show ?thesis using d False r pl
      by (cases "cm_started (oc_mon c)"; cases "cm_started (oc_mon d)")
        (simp_all add: m0_def weight_def active_key_eq oc_ready_def bump_def)
  qed
qed

section \<open>The invariant\<close>

lemma km_invI:
  assumes "finite (dom (km_byLocalTag km))" "finite (dom (km_activeCalls km))"
    and "\<And>tag c. km_byLocalTag km tag = Some c \<Longrightarrow> si_id (ic_cc c) = tag \<and> ready c"
    and "\<And>tag oc. km_activeCalls km tag = Some oc \<Longrightarrow> oc_ready oc"
    and "\<And>k. callsActive (km_metrics km) k = in_progress k (km_activeCalls km)"
  shows "km_inv km"
  using assms by (auto simp: km_inv_def)

lemma km_inv_same: "km_inv km \<Longrightarrow> same_calls km km' \<Longrightarrow> km_inv km'"
  by (simp add: km_inv_def same_calls_def)

lemma km_inv_inbound:
  assumes "km_inv km" "km_byLocalTag km' = (km_byLocalTag km)(tag := x)" "km_activeCalls km' = km_activeCalls km"
    "callsActive (km_metrics km') = callsActive (km_metrics km)"
    and "\<And>c. x = Some c \<Longrightarrow> si_id (ic_cc c) = tag \<and> ready c"
  shows "km_inv km'"
  using assms by (auto simp: km_inv_def split: if_splits)

lemma km_inv_outbound:
  assumes "km_inv km" "km_byLocalTag km' = km_byLocalTag km" "km_activeCalls km' = (km_activeCalls km)(tag := x)"
    and "\<And>k. callsActive (km_metrics km') k = callsActive (km_metrics km) k - weight k (km_activeCalls km tag) + weight k x"
    and "\<And>oc. x = Some oc \<Longrightarrow> oc_ready oc"
  shows "km_inv km'"
  using assms by (auto simp: km_inv_def in_progress_upd split: if_splits)

lemma km_inv_store:
  assumes "km_inv km" "km_activeCalls km tag = Some c" "oc_step x (c\<lparr>oc_metrics := km_metrics km\<rparr>) = Some d"
  shows "km_inv (store_outbound tag d km)"
proof (rule km_inv_outbound [OF assms(1), where x = "if oc_registered d then Some d else None"])
  have r: "oc_ready c" using assms(1,2) by (auto simp: km_inv_def)
  show "callsActive (km_metrics (store_outbound tag d km)) k = callsActive (km_metrics km) k - weight k (km_activeCalls km tag) +
      weight k (if oc_registered d then Some d else None)" for k
    using oc_step_gauge [OF r assms(3)] assms(2) by (simp add: store_outbound_def)
  show "oc_ready oc" if "(if oc_registered d then Some d else None) = Some oc" for oc
    using oc_step_gauge [OF r assms(3)] that by (auto split: if_splits)
qed (simp_all add: store_outbound_def)

lemma km_inv_newCall:
  assumes "km_inv km" "km_activeCalls km cid = None"
    and "newCall e hash cid uri rhs srv st toHost provider (km_metrics km) = Some (oc, err)"
  shows "km_inv (store_outbound cid oc km)"
proof (rule km_inv_outbound [OF assms(1), where x = "if oc_registered oc then Some oc else None"])
  let ?mon = "SetProvider provider (NewCall ''outbound'' toHost)"
  have a: "oc_acct ?mon (km_metrics km) oc" using newCall_acct [OF assms(3)] by simp
  have pl: "providerLabel (oc_mon oc) = providerLabel ?mon" using a by (simp add: oc_acct_def providerLabel_def)
  have ns: "\<not> cm_started (oc_mon oc)"
  proof (cases "oc_stopped oc")
    case False
    then show ?thesis using assms(3) newCall_acct [OF assms(3)]
      by (auto simp: newCall_def Let_def connectToRoom_def init_call_def oc_emit_def SetProvider_def NewCall_def
          split: option.splits if_splits)
  qed (use a in \<open>simp add: oc_acct_def\<close>)
  show "callsActive (km_metrics (store_outbound cid oc km)) k = callsActive (km_metrics km) k - weight k (km_activeCalls km cid) +
      weight k (if oc_registered oc then Some oc else None)" for k
    using a ns assms(2) by (simp add: store_outbound_def weight_def active_key_eq oc_acct_def split: if_splits)
  show "oc_ready oc'" if "(if oc_registered oc then Some oc else None) = Some oc'" for oc'
    using that a ns by (auto simp: oc_ready_def oc_acct_def split: if_splits)
qed (simp_all add: store_outbound_def)

lemma stop_outbound_gauge:
  "\<forall>c\<in>set cs. oc_ready c \<Longrightarrow> stop_outbound e cs m = Some (cs', m') \<Longrightarrow>
     callsActive m' k = callsActive m k - (\<Sum>c\<leftarrow>cs. weight k (Some c))"
proof (induction cs arbitrary: m cs' m')
  case (Cons c cs)
  then obtain d cs1 where d: "oc_Close e (c\<lparr>oc_metrics := m\<rparr>) = Some d" "stop_outbound e cs (oc_metrics d) = Some (cs1, m')"
    by (auto split: option.splits)
  have r: "oc_ready c" using Cons.prems by simp
  obtain b where "oc_close e (end_out None callDropped (ServerError ''shutdown'') SERVER_SHUTDOWN) (c\<lparr>oc_metrics := m\<rparr>) = Some (d, b)"
    using d(1) by (auto simp: oc_Close_def)
  from oc_close_keeps [OF oc_ready_acct [OF r] this] have "\<not> oc_registered d" by (simp add: oc_acct_def)
  then have "callsActive (oc_metrics d) k = callsActive m k - weight k (Some c)"
    using oc_step_gauge [OF r, of "OcShutdown e" m d k] d(1) by (simp add: weight_def [of k None])
  then show ?case using Cons.IH [OF _ d(2)] Cons.prems by simp
qed simp

lemma Shutdown_gauge: "callsActive (ic_metrics (Shutdown e now c)) = callsActive (ic_metrics c)"
  by (auto simp: Shutdown_def closeWithTerm_def close_call_def close_account_def setStatus_def CallTerminate_def closeMedia_def
      ic_emit_def ic_state_def Let_def split: option.splits prod.splits)

lemma stop_inbound_gauge: "stop_inbound e now cs m = (cs', m') \<Longrightarrow> callsActive m' = callsActive m"
proof (induction cs arbitrary: m cs' m')
  case (Cons c cs)
  then show ?case using Shutdown_gauge [of e now "c\<lparr>ic_metrics := m\<rparr>"]
    by (cases "stop_inbound e now cs (ic_metrics (Shutdown e now (c\<lparr>ic_metrics := m\<rparr>)))") (auto simp: Let_def)
qed simp

lemma sum_map_filter:
  "distinct ts \<Longrightarrow> set ts \<subseteq> dom M \<Longrightarrow> (\<Sum>c\<leftarrow>List.map_filter M ts. weight k (Some c)) = (\<Sum>t\<in>set ts. weight k (M t))"
  by (induction ts) (auto simp: List.map_filter_simps)

lemma km_inv_Stop:
  assumes "km_inv km" "distinct outs" "set outs = dom (km_activeCalls km)" "Stop e ce now outs ins km = Some (km', ocs, ics)"
  shows "km_inv km'"
proof -
  obtain m1 m2 where s: "stop_outbound e (List.map_filter (km_activeCalls km) outs) (km_metrics km) = Some (ocs, m1)"
      "stop_inbound ce now (List.map_filter (km_byLocalTag km) ins) m1 = (ics, m2)"
      "km' = km\<lparr>km_closing := True, km_activeCalls := Map.empty, km_byLocalTag := Map.empty, km_metrics := m2\<rparr>"
    using assms(4) by (auto simp: Stop_def split: option.splits prod.splits)
  have "\<forall>c\<in>set (List.map_filter (km_activeCalls km) outs). oc_ready c"
    using assms(1) by (auto simp: List.map_filter_def km_inv_def)
  from stop_outbound_gauge [OF this s(1)]
  have "callsActive m1 k = callsActive (km_metrics km) k - in_progress k (km_activeCalls km)" for k
    using sum_map_filter [of outs "km_activeCalls km" k] assms(2,3) by (simp add: in_progress_def)
  then show ?thesis using assms(1) s(3) stop_inbound_gauge [OF s(2)] by (simp add: km_inv_def in_progress_def)
qed

lemma ready_cc: "ready c \<Longrightarrow> idlg_inv cc \<Longrightarrow> ready (c\<lparr>ic_cc := cc\<rparr>)"
  by (simp add: ready_def)

lemma AcceptAck_id [simp]: "si_id (AcceptAck cseq body now c) = si_id c"
  by (simp add: AcceptAck_def Let_def)

lemma handle_bye_ready:
  assumes "ready c"
  shows "ready (handle_bye reason n now c) \<and> si_id (ic_cc (handle_bye reason n now c)) = si_id (ic_cc c)"
proof -
  have "idlg_inv (AcceptBye (ic_cc c))" using assms by (simp add: ready_def AcceptBye_inv)
  moreover have "si_id (AcceptBye (ic_cc c)) = si_id (ic_cc c)" by (simp add: AcceptBye_def drop_dialog_def stopRinging_def send_def)
  ultimately show ?thesis using assms by (simp add: ready_def handle_bye_def Bye_in_def ic_emit_def Let_def)
qed

lemma HandleBye_inv:
  assumes inv: "km_inv km" and b: "HandleBye e req cseq now km = Some (km', ws)"
  shows "km_inv km'"
proof (cases "GetLocalTagUAS req")
  case (Inl x)
  then show ?thesis using inv b by (simp add: HandleBye_def Let_def)
next
  case (Inr tag)
  define n where "n = (case cseq of Some n \<Rightarrow> n | None \<Rightarrow> 0)"
  note b = b [unfolded HandleBye_def Let_def n_def [symmetric] Inr sum.case]
  show ?thesis
  proof (cases "km_byLocalTag km tag")
    case (Some c)
    then have c: "si_id (ic_cc c) = tag" "ready c" using inv by (auto simp: km_inv_def)
    show ?thesis
      by (rule km_inv_inbound [OF inv, where x = "Some (handle_bye (bye_reason req) n now c)"])
        (use b Some c handle_bye_ready in auto)
  next
    case None
    show ?thesis
    proof (cases "km_activeCalls km tag")
      case (Some oc)
      then obtain oc1 where "oc_bye e n (ReqHeader req ''Reason'') (oc\<lparr>oc_metrics := km_metrics km\<rparr>) = Some oc1"
          "km' = store_outbound tag oc1 km"
        using b None by (auto simp: onOutboundBye_def)
      then show ?thesis using km_inv_store [OF inv Some, of "OcBye e n (ReqHeader req ''Reason'')" oc1] by simp
    next
      case None
      then show ?thesis using b inv \<open>km_byLocalTag km tag = None\<close> by (simp add: onOutboundBye_def)
    qed
  qed
qed

lemma fold_cache_calls: "same_calls km (fold (\<lambda>x. cache_rejection (Some x)) xs km)"
proof (induction xs arbitrary: km)
  case (Cons x xs)
  from Cons [of "cache_rejection (Some x) km"] show ?case by simp
qed simp

lemma serve_call_inv:
  assumes inv: "km_inv km" and s: "serve_call h tag km = Some (km', err)"
  shows "km_inv km' \<and> km_byLocalTag km' tag = None"
proof (cases "km_byLocalTag km tag")
  case None
  then show ?thesis using inv s by (simp add: serve_call_def)
next
  case (Some c)
  obtain d e where d: "handleInvite h (c\<lparr>ic_metrics := km_metrics km\<rparr>) = Some (d, e)"
    using s Some by (auto simp: serve_call_def)
  have "ready (c\<lparr>ic_metrics := km_metrics km\<rparr>)" using inv Some by (auto simp: km_inv_def ready_def)
  from handleInvite_ended [OF this d] have r: "\<not> ic_registered d" "callsActive (ic_metrics d) = callsActive (km_metrics km)" by simp_all
  have k: "km_byLocalTag km' = (km_byLocalTag km)(tag := None)" "km_activeCalls km' = km_activeCalls km" "km_metrics km' = ic_metrics d"
    using s Some d r(1) fold_cache_calls [of km "ic_rejected d"] by (auto simp: serve_call_def same_calls_def Let_def)
  show ?thesis using k km_inv_inbound [OF inv k(1,2)] r by simp
qed

lemma processInvite_inv:
  assumes "km_inv km"
  shows "km_inv (fst (processInvite i km))"
proof -
  obtain km' out where p: "processInvite i km = (km', out)" by fastforce
  show ?thesis
  proof (cases "io_call out")
    case True
    then obtain tag where "added_call tag km km'" using processInvite_effect [OF p] by blast
    then show ?thesis using p km_inv_inbound [OF assms, of km' tag] unfolding added_call_def by fastforce
  next
    case False
    then have k: "kept_calls km km'" using processInvite_effect [OF p] by blast
    show ?thesis
    proof (cases "same_calls km km'")
      case False
      then obtain tag oc n where oc: "km_activeCalls km tag = Some oc" "same_calls (km\<lparr>km_activeCalls := (km_activeCalls km)
          (tag \<mapsto> oc\<lparr>oc_cc := RecordInvite n (oc_cc oc)\<rparr>)\<rparr>) km'" using k unfolding kept_calls_def by blast
      have "oc_ready (oc\<lparr>oc_cc := RecordInvite n (oc_cc oc)\<rparr>)" using assms oc(1) by (auto simp: km_inv_def oc_ready_def)
      then show ?thesis using p oc km_inv_outbound [OF assms, of km' tag "Some (oc\<lparr>oc_cc := RecordInvite n (oc_cc oc)\<rparr>)"]
        by (simp add: same_calls_def weight_def)
    qed (use p km_inv_same [OF assms] in simp)
  qed
qed

lemma HandleAck_inv:
  assumes "km_inv km"
  shows "km_inv (HandleAck req cseq now km)"
proof (cases "\<exists>tag c. GetLocalTagUAS req = Ok tag \<and> km_byLocalTag km tag = Some c")
  case True
  then obtain tag c where t: "GetLocalTagUAS req = Ok tag" "km_byLocalTag km tag = Some c" by blast
  then have c: "si_id (ic_cc c) = tag" "ready c" using assms by (auto simp: km_inv_def)
  have "ready (c\<lparr>ic_cc := AcceptAck cseq (ReqBody req) now (ic_cc c)\<rparr>)"
    by (rule ready_cc [OF c(2) same_dialog_inv [OF _ AcceptAck_same]]) (use c(2) in \<open>simp add: ready_def\<close>)
  then show ?thesis using t c
    by (intro km_inv_inbound [OF assms, where x = "Some (c\<lparr>ic_cc := AcceptAck cseq (ReqBody req) now (ic_cc c)\<rparr>)"])
      (auto simp: HandleAck_def)
qed (use assms in \<open>auto simp: HandleAck_def split: sum.splits option.splits\<close>)

lemma fire_calls: "km_byLocalTag (fireChallengeTimer i km) = km_byLocalTag km" "km_activeCalls (fireChallengeTimer i km) = km_activeCalls km"
  "km_metrics (fireChallengeTimer i km) = km_metrics km" "km_rejected (fireChallengeTimer i km) = km_rejected km"
  by (simp_all add: fireChallengeTimer_def Let_def)

lemma km_step_inv:
  assumes inv: "km_inv km" and st: "km_step x km = Some km'"
  shows "km_inv km'"
proof (cases x)
  case (KInvite i)
  then show ?thesis using processInvite_inv [OF inv] st by auto
next
  case (KServe tag h)
  then show ?thesis using serve_call_inv [OF inv] st by auto
next
  case (KAck req cseq now)
  then show ?thesis using HandleAck_inv [OF inv] st by auto
next
  case (KBye e req cseq now)
  then show ?thesis using HandleBye_inv [OF inv] st by auto
next
  case (KNewCall e hash cid uri rhs srv s toHost provider)
  then show ?thesis using inv st by (auto split: if_splits intro: km_inv_newCall)
next
  case (KCall tag y)
  then show ?thesis using inv st km_inv_store [OF inv] by (auto split: option.splits)
next
  case (KStop e ce now outs ins)
  then show ?thesis using inv st km_inv_Stop [OF inv] by (auto split: if_splits)
qed (use inv st fire_calls in \<open>auto simp: km_inv_def\<close>)

interpretation manager: keeps_inv km_step km_inv
  by unfold_locales (rule km_step_inv)

lemma km_inv_new: "km_inv (newCallManager hide dis empty_monitor)"
  by (simp add: km_inv_def newCallManager_def empty_monitor_def in_progress_def)

lemma in_progress_card:
  assumes "finite (dom M)"
  shows "in_progress k M = int (card {tag. \<exists>oc. M tag = Some oc \<and> active_under k (oc_mon oc)})"
proof -
  let ?A = "{tag. \<exists>oc. M tag = Some oc \<and> active_under k (oc_mon oc)}"
  have "in_progress k M = (\<Sum>tag\<in>dom M. if tag \<in> ?A then 1 else 0)"
    unfolding in_progress_def by (rule sum.cong) (auto simp: weight_def)
  also have "\<dots> = int (card (dom M \<inter> ?A))" using assms by (simp add: sum.If_cases)
  also have "dom M \<inter> ?A = ?A" by auto
  finally show ?thesis .
qed

section \<open>Properties of every run\<close>


abbreviation demo_ops :: "string km_op list" where
  "demo_ops \<equiv> [KInvite (demo_in demo_invite AuthAccept),
     KNewCall (demo_oc_env (\<lambda>_. 200)) (\<lambda>x. x) ''SCL_2'' demo_uri [] False demo_ostate ''h'' ''p'',
     KCall ''SCL_2'' (OcDial (demo_oc_env (\<lambda>_. 200)))]"

lemma demo_newCall_any: "\<exists>oc. newCall (demo_oc_env (\<lambda>_. 200)) (\<lambda>x. x) cid demo_uri [] False demo_ostate ''h'' ''p'' m = Some (oc, None)"
  by (simp add: newCall_def connectToRoom_def Let_def demo_oc_env_def)

lemma demo_ops_run: "\<exists>km. run km_step demo_ops demo_km = Some km"
proof -
  let ?e = "demo_oc_env (\<lambda>_. 200)"
  define k1 where "k1 = fst (processInvite (demo_in demo_invite AuthAccept) demo_km)"
  obtain oc where oc: "newCall ?e (\<lambda>x. x) ''SCL_2'' demo_uri [] False demo_ostate ''h'' ''p'' (km_metrics k1) = Some (oc, None)"
    using demo_newCall_any by blast
  show ?thesis
  proof (cases "km_activeCalls k1 ''SCL_2'' = None \<and> oc_registered oc")
    case True
    obtain d where "Dial ?e (oc\<lparr>oc_metrics := oc_metrics oc\<rparr>) = Some (d, None)" using demo_Dial by blast
    then show ?thesis using oc True by (simp add: k1_def [symmetric] store_outbound_def)
  next
    case False
    then show ?thesis using oc demo_Dial [of "the (km_activeCalls k1 ''SCL_2'')\<lparr>oc_metrics := km_metrics k1\<rparr>"]
      by (auto simp: k1_def [symmetric] store_outbound_def split: option.split)
  qed
qed


lemma stop_outbound_done:
  "\<forall>c\<in>set cs. oc_ready c \<Longrightarrow> stop_outbound e cs m = Some (cs', m') \<Longrightarrow>
     length cs' = length cs \<and> (\<forall>d\<in>set cs'. oc_stopped d \<and> \<not> oc_registered d \<and> length (oc_sessionEnds d) = 1)"
proof (induction cs arbitrary: m cs' m')
  case (Cons c cs)
  then obtain d cs1 where d: "oc_Close e (c\<lparr>oc_metrics := m\<rparr>) = Some d" "stop_outbound e cs (oc_metrics d) = Some (cs1, m')"
      "cs' = d # cs1" by (auto split: option.splits)
  have r: "oc_ready c" using Cons.prems by simp
  obtain b where "oc_close e (end_out None callDropped (ServerError ''shutdown'') SERVER_SHUTDOWN) (c\<lparr>oc_metrics := m\<rparr>) = Some (d, b)"
    using d(1) by (auto simp: oc_Close_def)
  from oc_close_keeps [OF oc_ready_acct [OF r] this]
  have "oc_stopped d \<and> \<not> oc_registered d \<and> length (oc_sessionEnds d) = 1" by (auto simp: oc_acct_def)
  then show ?case using Cons.IH [OF _ d(2)] Cons.prems d(3) by simp
qed simp

lemma Shutdown_done:
  assumes "ready c"
  shows "ic_done (Shutdown e now c) \<and> closed_in (ic_cc (Shutdown e now c)) \<and> length (ic_sessionEnds (Shutdown e now c)) = 1"
proof -
  have "live True c c" using assms by (simp add: ready_def live_def)
  then have "ended True c (Shutdown e now c)" unfolding Shutdown_def by (rule closers_end)
  then show ?thesis using assms by (auto simp: ended_def ready_def)
qed

lemma stop_inbound_done:
  "\<forall>c\<in>set cs. ready c \<Longrightarrow> stop_inbound e now cs m = (cs', m') \<Longrightarrow>
     length cs' = length cs \<and> (\<forall>d\<in>set cs'. ic_done d \<and> closed_in (ic_cc d) \<and> length (ic_sessionEnds d) = 1)"
proof (induction cs arbitrary: m cs' m')
  case (Cons c cs)
  have "ready (c\<lparr>ic_metrics := m\<rparr>)" using Cons.prems by (simp add: ready_def)
  note d = Shutdown_done [OF this, of e now]
  obtain cs1 m1 where "stop_inbound e now cs (ic_metrics (Shutdown e now (c\<lparr>ic_metrics := m\<rparr>))) = (cs1, m1)" by fastforce
  then show ?case using Cons d by (fastforce simp: Let_def)
qed simp

lemma stop_outbound_total: "\<forall>c\<in>set cs. oc_ready c \<Longrightarrow> \<exists>r. stop_outbound e cs m = Some r"
proof (induction cs arbitrary: m)
  case (Cons c cs)
  have "oc_ready c" using Cons.prems by simp
  from oc_close_acct [OF oc_ready_acct [OF this]] obtain d where "oc_Close e (c\<lparr>oc_metrics := m\<rparr>) = Some d"
    by (fastforce simp: oc_Close_def)
  then show ?case using Cons.IH [of "oc_metrics d"] Cons.prems by auto
qed simp

lemma map_filter_length: "set ts \<subseteq> dom M \<Longrightarrow> length (List.map_filter M ts) = length ts"
  by (induction ts) (auto simp: List.map_filter_simps)


lemma demo_accepted:
  "\<exists>c. km_byLocalTag (fst (processInvite (demo_in demo_invite AuthAccept) demo_km)) = [''SCL_1'' \<mapsto> c]"
  "km_activeCalls (fst (processInvite (demo_in demo_invite AuthAccept) demo_km)) = Map.empty"
proof -
  let ?k = "demo_km\<lparr>km_metrics := InviteReqRaw empty_monitor\<rparr>"
  obtain km' out where n: "new_invite (demo_in demo_invite AuthAccept) demo_dialog ?k = (km', out)" by fastforce
  have "added_call (si_id demo_dialog) ?k km'"
    using new_invite_effect [OF n demo_dialog_inv(1)] by (simp add: auth_accepts_def)
  then have "\<exists>c. km_byLocalTag km' = [''SCL_1'' \<mapsto> c]" "km_activeCalls km' = Map.empty"
    by (auto simp: added_call_def newCallManager_def demo_dialog_def)
  then show "\<exists>c. km_byLocalTag (fst (processInvite (demo_in demo_invite AuthAccept) demo_km)) = [''SCL_1'' \<mapsto> c]"
    "km_activeCalls (fst (processInvite (demo_in demo_invite AuthAccept) demo_km)) = Map.empty"
    unfolding demo_new n by simp_all
qed


section \<open>Pending challenges\<close>

text \<open>The part of the state the challenge timers live in, and what an INVITE does to it: it looks
  up or creates the caller's information, counts, stops the caller's timer and starts another.
  Whatever these four operations keep, the admission of an INVITE keeps.\<close>

definition same_timers :: "callManager \<Rightarrow> callManager \<Rightarrow> bool" where
  "same_timers km km' \<longleftrightarrow> km_infos km' = km_infos km \<and> km_store km' = km_store km \<and> km_timers km' = km_timers km \<and>
     km_fired km' = km_fired km"

lemma countInvite_timer [simp]: "ci_timer (countInvite h n c) = ci_timer c"
  by (simp add: countInvite_def Let_def split: option.split)

lemma same_timers_refl [simp]: "same_timers km km"
  by (simp add: same_timers_def)

lemma same_timers_cache [simp]: "same_timers km (cache_rejection x km') = same_timers km km'"
  by (simp add: same_timers_def)

lemma same_timers_upd [simp]:
  "same_timers km (km'\<lparr>km_metrics := m\<rparr>) = same_timers km km'" "same_timers km (km'\<lparr>km_provisional := p\<rparr>) = same_timers km km'"
  "same_timers km (km'\<lparr>km_byLocalTag := b\<rparr>) = same_timers km km'" "same_timers km (km'\<lparr>km_activeCalls := a\<rparr>) = same_timers km km'"
  "same_timers km (km'\<lparr>km_ended := e\<rparr>) = same_timers km km'" "same_timers km (km'\<lparr>km_rejected := r\<rparr>) = same_timers km km'"
  "same_timers km (km'\<lparr>km_closing := cl\<rparr>) = same_timers km km'"
  by (simp_all add: same_timers_def)

lemma end_without_call_timers: "end_without_call i t err cc km = (km', out) \<Longrightarrow> same_timers km km'"
  by (auto simp: end_without_call_def Let_def)

lemma start_call_timers: "start_call cmon cc km = (km', out) \<Longrightarrow> same_timers km km'"
  by (auto simp: start_call_def)

lemma reinvite_outbound_cases:
  "fst (reinvite_outbound i cc oc km) = km \<or> (\<exists>a. fst (reinvite_outbound i cc oc km) = km\<lparr>km_activeCalls := a\<rparr>)"
  by (simp add: reinvite_outbound_def split: sum.split option.split) blast

locale challenge_inv =
  fixes P :: "callManager \<Rightarrow> bool"
  assumes wf: "P km \<Longrightarrow> km_infos km tag = Some a \<Longrightarrow> a < length (km_store km)"
    and frame: "P km \<Longrightarrow> same_timers km km' \<Longrightarrow> P km'"
    and info: "P km \<Longrightarrow> getCallInfo tag km = (a, km') \<Longrightarrow> P km'"
    and count: "P km \<Longrightarrow> a < length (km_store km) \<Longrightarrow> (\<And>c. ci_timer (f c) = ci_timer c) \<Longrightarrow> P (upd_info a f km)"
    and stop: "P km \<Longrightarrow> a < length (km_store km) \<Longrightarrow> P (stopChallengeTimer a km)"
    and start: "P km \<Longrightarrow> a < length (km_store km) \<Longrightarrow> P (startChallengeTimer a st t c s km)"
begin

lemma info_bound: "P km \<Longrightarrow> getCallInfo tag km = (a, km') \<Longrightarrow> a < length (km_store km')"
  using wf [of km tag a] by (auto simp: getCallInfo_def Let_def split: option.splits)

lemma password_from:
  assumes p: "password_invite i r cmon cc km = (km', out)" and g: "getCallInfo (si_id cc) km = (n, km1)"
    and n: "n < length (km_store km1)"
    and P2: "P (upd_info n (countInvite (inviteHasAuth (in_req i)) (im_cseq (in_msg i))) (stopChallengeTimer n km1))"
  shows "P km'"
proof -
  define cc1 where "cc1 = (if km_hide km then
      (case Processing (in_tryOk i) (in_now i) cc of (c, sent) \<Rightarrow>
        if sent then emit (inviteResponseEvent EventTryingSent (si_tryingAt c) 100 (si_inviteCSeq c)) c else c) else cc)"
  have id: "si_id cc1 = si_id cc" using Processing_ident(1) [of "in_tryOk i" "in_now i" cc]
    by (cases "Processing (in_tryOk i) (in_now i) cc") (auto simp: cc1_def)
  then have g1: "getCallInfo (si_id cc1) km = (n, km1)" using g by simp
  obtain res hdr where a: "handleInviteAuth (in_env i) (in_rnd i) (in_req i) (ai_Auth r) (in_now i) (in_now i) = (res, hdr)"
    by fastforce
  define km2 where "km2 = upd_info n (countInvite (inviteHasAuth (in_req i)) (im_cseq (in_msg i))) (stopChallengeTimer n km1)"
  have l: "n < length (km_store km2)" using n by (simp add: km2_def upd_info_def stopChallengeTimer_def)
  note P2 = P2 [folded km2_def]
  define km3 where "km3 = km2\<lparr>km_provisional := (km_provisional km2)((si_sipCallID cc1, si_tag cc1) \<mapsto> si_id cc1),
      km_metrics := InviteErrorShort (ClientError ''unauthorized'') cmon (km_metrics km2)\<rparr>"
  have P3: "P km3" by (rule frame [OF P2]) (simp add: km3_def)
  have P4: "P (startChallengeTimer n st t c s km3)" for st t c s by (rule start [OF P3]) (use l in \<open>simp add: km3_def\<close>)
  show ?thesis
    using p P3 P4 frame [OF P2 start_call_timers] frame [OF P3 end_without_call_timers]
    unfolding password_invite_def Let_def cc1_def [symmetric] g1 prod.case km2_def [symmetric] a
    by (auto simp: km3_def [symmetric] split: if_split_asm option.splits)
qed

lemma password_keeps:
  assumes P: "P km" and p: "password_invite i r cmon cc km = (km', out)"
  shows "P km'"
proof -
  obtain n km1 where g: "getCallInfo (si_id cc) km = (n, km1)" by fastforce
  note n = info_bound [OF P g]
  have "n < length (km_store (stopChallengeTimer n km1))" using n by (simp add: stopChallengeTimer_def upd_info_def)
  then have "P (upd_info n (countInvite h cs) (stopChallengeTimer n km1))" for h cs
    by (rule count [OF stop [OF info [OF P g] n]]) simp
  from password_from [OF p g n this] show ?thesis .
qed

lemma authorized_keeps:
  assumes P: "P km" and a: "authorized_invite i r cmon cc km = (km', out)"
  shows "P km'"
proof (cases "auth_reject (ai_Result r)")
  case None
  obtain n km1 where g: "getCallInfo (si_id cc) km = (n, km1)" by fastforce
  have u: "P (upd_info n (countInvite h cs) km1)" for h cs by (rule count [OF info [OF P g] info_bound [OF P g]]) simp
  show ?thesis using a None g password_keeps [OF P] frame [OF P start_call_timers] frame [OF u start_call_timers]
    by (auto simp: authorized_invite_def split: if_split_asm)
next
  case (Some x)
  have "P (cache_rejection en (km\<lparr>km_metrics := m\<rparr>))" "P (km\<lparr>km_metrics := m\<rparr>)" for en m by (rule frame [OF P], simp)+
  then show ?thesis using a Some frame [OF _ end_without_call_timers]
    by (fastforce simp: authorized_invite_def Let_def split: prod.splits option.splits)
qed

lemma processInvite_keeps:
  assumes P: "P km"
  shows "P (fst (processInvite i km))"
proof -
  obtain km' out where p: "processInvite i km = (km', out)" by fastforce
  have f: "P (km\<lparr>km_metrics := m\<rparr>)" "P (cache_rejection en (km\<lparr>km_metrics := m\<rparr>))"
    "P (km\<lparr>km_metrics := m, km_activeCalls := a\<rparr>)" for m en a
    by (rule frame [OF P], simp)+
  have new: "P k'" if k: "P k" and n: "new_invite i cc k = (k', o')" for cc k k' o'
  proof -
    have k1: "P (k\<lparr>km_metrics := m\<rparr>)" "P (cache_rejection en (k\<lparr>km_metrics := m\<rparr>))" for m en by (rule frame [OF k], simp)+
    show ?thesis using n k1(2) authorized_keeps [OF k1(1)]
      by (auto simp: new_invite_def Let_def split: sum.splits prod.splits)
  qed
  have "P km'"
  proof (cases "in_srcOk i \<and> (\<exists>cc. newInbound (in_msg i) (km_provisional km) (in_fresh i) = Ok cc)")
    case False
    then show ?thesis using p f(1) by (auto simp: processInvite_def Let_def split: if_split_asm sum.splits)
  next
    case True
    then obtain cc where src: "in_srcOk i" and cc: "newInbound (in_msg i) (km_provisional km) (in_fresh i) = Ok cc" by blast
    have inb: "P km'" if "(km', out) = reinvite_inbound i cc c (km\<lparr>km_metrics := m\<rparr>)" for c m
      using that f(1) by (simp add: reinvite_inbound_def Let_def)
    have outb: "P km'" if "(km', out) = reinvite_outbound i cc oc (km\<lparr>km_metrics := m\<rparr>)" for oc m
      using that [symmetric] f reinvite_outbound_cases [of i cc oc "km\<lparr>km_metrics := m\<rparr>"] by auto
    have new': "P km'" if "(km', out) = new_invite i cc (km\<lparr>km_metrics := m\<rparr>)" for m
      using new [OF f(1) that [symmetric]] .
    show ?thesis using processInvite_cases [OF p src cc]
      by (elim disjE exE conjE) (use f inb outb new' in blast)+
  qed
  then show ?thesis by (simp add: p)
qed

end

definition timers_inv :: "callManager \<Rightarrow> bool" where
  "timers_inv km \<longleftrightarrow>
     (\<forall>tag a. km_infos km tag = Some a \<longrightarrow> a < length (km_store km)) \<and>
     (\<forall>i<length (km_timers km). ct_info (km_timers km ! i) < length (km_store km)) \<and>
     (\<forall>a<length (km_store km). \<forall>i. ci_timer (km_store km ! a) = Some i \<longrightarrow>
        i < length (km_timers km) \<and> ct_info (km_timers km ! i) = a \<and> ct_pending (km_timers km ! i)) \<and>
     (\<forall>x\<in>set (km_fired km). fst x < length (km_timers km) \<and> \<not> ct_pending (km_timers km ! fst x)) \<and>
     distinct (map fst (km_fired km))"

definition superseded :: "nat \<Rightarrow> callManager \<Rightarrow> bool" where
  "superseded i km \<longleftrightarrow> i < length (km_timers km) \<and> ci_timer (km_store km ! ct_info (km_timers km ! i)) \<noteq> Some i \<and>
     i \<notin> fst ` set (km_fired km)"

lemma upd_info_nth: "a < length (km_store km) \<Longrightarrow>
    km_store (upd_info a f km) ! b = (if b = a then f (km_store km ! a) else km_store km ! b)"
  by (simp add: upd_info_def)

lemma upd_info_length [simp]: "length (km_store (upd_info a f km)) = length (km_store km)"
  by (simp add: upd_info_def)

lemma stop_nth: "a < length (km_store km) \<Longrightarrow>
    km_store (stopChallengeTimer a km) ! b = (if b = a then (km_store km ! a)\<lparr>ci_timer := None\<rparr> else km_store km ! b)"
  "length (km_store (stopChallengeTimer a km)) = length (km_store km)"
  by (simp_all add: stopChallengeTimer_def upd_info_nth)

lemma start_nth: "a < length (km_store km) \<Longrightarrow> km_store (startChallengeTimer a st t c s km) ! b =
    (if b = a then (km_store km ! a)\<lparr>ci_timer := Some (length (km_timers km))\<rparr> else km_store km ! b)"
  "length (km_store (startChallengeTimer a st t c s km)) = length (km_store km)"
  "km_timers (startChallengeTimer a st t c s km) = km_timers km @
     [\<lparr>ct_info = a, ct_state = st, ct_at = t, ct_code = c, ct_status = s, ct_pending = True\<rparr>]"
  by (simp_all add: startChallengeTimer_def stopChallengeTimer_def upd_info_def Let_def)

lemma timers_inv_info:
  assumes "timers_inv km" "getCallInfo tag km = (a, km')"
  shows "timers_inv km' \<and> (superseded i km \<longrightarrow> superseded i km')"
proof (cases "km_infos km tag")
  case None
  then have k: "km' = km\<lparr>km_store := km_store km @ [empty_info], km_infos := (km_infos km)(tag \<mapsto> length (km_store km))\<rparr>"
    using assms(2) by (auto simp: getCallInfo_def Let_def)
  show ?thesis using assms(1) unfolding k
    by (auto simp: timers_inv_def superseded_def nth_append empty_info_def less_Suc_eq)
qed (use assms in \<open>auto simp: getCallInfo_def\<close>)

lemma timers_inv_count:
  assumes "timers_inv km" "a < length (km_store km)" "\<And>c. ci_timer (f c) = ci_timer c"
  shows "timers_inv (upd_info a f km) \<and> (superseded i km \<longrightarrow> superseded i (upd_info a f km))"
proof -
  have t: "ci_timer (km_store (upd_info a f km) ! b) = ci_timer (km_store km ! b)" for b using assms(2,3) by (simp add: upd_info_nth)
  show ?thesis using assms(1) by (simp add: timers_inv_def superseded_def t)
qed

lemma timers_inv_stop:
  assumes "timers_inv km" "a < length (km_store km)"
  shows "timers_inv (stopChallengeTimer a km) \<and> (superseded i km \<longrightarrow> superseded i (stopChallengeTimer a km))"
  using assms by (simp add: timers_inv_def superseded_def stop_nth)

lemma timers_inv_start:
  assumes "timers_inv km" "a < length (km_store km)"
  shows "timers_inv (startChallengeTimer a st t c s km) \<and> (superseded i km \<longrightarrow> superseded i (startChallengeTimer a st t c s km))"
proof -
  have "timers_inv (startChallengeTimer a st t c s km)"
    using assms unfolding timers_inv_def start_nth(2,3) by (auto simp: start_nth(1) nth_append less_Suc_eq)
  moreover have "superseded i (startChallengeTimer a st t c s km)" if "superseded i km"
    using assms that unfolding superseded_def start_nth(2,3) by (auto simp: start_nth(1) nth_append timers_inv_def)
  ultimately show ?thesis by blast
qed

interpretation timers: challenge_inv timers_inv
proof
  fix km km' :: callManager and tag a f st t c s
  show "timers_inv km \<Longrightarrow> km_infos km tag = Some a \<Longrightarrow> a < length (km_store km)" by (auto simp: timers_inv_def)
  show "timers_inv km \<Longrightarrow> same_timers km km' \<Longrightarrow> timers_inv km'" by (simp add: timers_inv_def same_timers_def)
qed (use timers_inv_info timers_inv_count timers_inv_stop timers_inv_start in blast)+

interpretation superseded_timer: challenge_inv "\<lambda>km. timers_inv km \<and> superseded i km" for i
proof
  fix km km' :: callManager and tag a f st t c s
  show "timers_inv km \<and> superseded i km \<Longrightarrow> km_infos km tag = Some a \<Longrightarrow> a < length (km_store km)" by (auto simp: timers_inv_def)
  show "timers_inv km \<and> superseded i km \<Longrightarrow> same_timers km km' \<Longrightarrow> timers_inv km' \<and> superseded i km'"
    by (simp add: timers_inv_def superseded_def same_timers_def)
qed (use timers_inv_info timers_inv_count timers_inv_stop timers_inv_start in blast)+

lemma fire_inv:
  assumes inv: "timers_inv km"
  shows "timers_inv (fireChallengeTimer j km) \<and> (superseded i km \<longrightarrow> superseded i (fireChallengeTimer j km))"
proof (cases "j < length (km_timers km) \<and> ct_pending (km_timers km ! j)")
  case True
  define t where "t = km_timers km ! j"
  define km1 where "km1 = km\<lparr>km_timers := (km_timers km)[j := t\<lparr>ct_pending := False\<rparr>]\<rparr>"
  have t: "ct_info t < length (km_store km)" using inv True by (simp add: timers_inv_def t_def)
  have nf: "j \<notin> fst ` set (km_fired km)" using inv True by (auto simp: timers_inv_def)
  show ?thesis
  proof (cases "ci_timer (km_store km ! ct_info t) = Some j")
    case fire: True
    have k: "fireChallengeTimer j km = (stopChallengeTimer (ct_info t) km1)\<lparr>km_fired := km_fired km @ [(j, challenge_timed_out t)]\<rparr>"
      using True fire by (simp add: fireChallengeTimer_def t_def km1_def Let_def)
    have uniq: "a = ct_info t" if "a < length (km_store km)" "ci_timer (km_store km ! a) = Some j" for a
      using inv that unfolding timers_inv_def t_def by blast
    have "timers_inv (fireChallengeTimer j km)"
      using inv True nf uniq t unfolding k timers_inv_def
      by (auto simp: stop_nth km1_def t nth_list_update t_def [symmetric])
    moreover have "superseded i (fireChallengeTimer j km)" if s: "superseded i km"
    proof -
      have "i \<noteq> j" using s fire by (auto simp: superseded_def t_def)
      then show ?thesis using s True unfolding k superseded_def
        by (auto simp: stop_nth km1_def t nth_list_update t_def [symmetric] split: if_split_asm)
    qed
    ultimately show ?thesis by blast
  next
    case stale: False
    have k: "fireChallengeTimer j km = km1" using True stale by (simp add: fireChallengeTimer_def t_def km1_def Let_def)
    have ne: "i \<noteq> j" if "a < length (km_store km)" "ci_timer (km_store km ! a) = Some i" for a i
      using inv that stale unfolding timers_inv_def t_def by blast
    have "timers_inv km1" using inv True ne unfolding km1_def timers_inv_def
      by (auto simp: nth_list_update t_def)
    moreover have "superseded i km1" if "superseded i km"
      using that True unfolding km1_def superseded_def by (auto simp: nth_list_update t_def)
    ultimately show ?thesis unfolding k by blast
  qed
next
  case False
  then have "fireChallengeTimer j km = km" by (auto simp: fireChallengeTimer_def)
  then show ?thesis using inv by simp
qed

lemma password_supersedes:
  assumes p: "password_invite j r cmon cc km = (km', out)" and ti: "timers_inv km"
    and pend: "km_infos km (si_id cc) = Some a" "ci_timer (km_store km ! a) = Some i" and nf: "i \<notin> fst ` set (km_fired km)"
  shows "timers_inv km' \<and> superseded i km'"
proof (rule superseded_timer.password_from [OF p])
  show "getCallInfo (si_id cc) km = (a, km)" using pend(1) by (simp add: getCallInfo_def)
  have a: "a < length (km_store km)" "i < length (km_timers km)" "ct_info (km_timers km ! i) = a"
    using ti pend unfolding timers_inv_def by blast+
  then show "a < length (km_store km)" by simp
  have P1: "timers_inv (stopChallengeTimer a km) \<and> superseded i (stopChallengeTimer a km)"
    using timers_inv_stop [OF ti a(1)] a nf by (simp add: superseded_def stop_nth)
  show "timers_inv (upd_info a (countInvite (inviteHasAuth (in_req j)) (im_cseq (in_msg j))) (stopChallengeTimer a km)) \<and>
      superseded i (upd_info a (countInvite (inviteHasAuth (in_req j)) (im_cseq (in_msg j))) (stopChallengeTimer a km))"
    by (rule superseded_timer.count [OF P1]) (use a in \<open>simp_all add: stop_nth\<close>)
qed

lemma store_timers: "same_timers km (store_outbound tag oc km)"
  by (simp add: store_outbound_def same_timers_def)

lemma fold_cache_timers: "same_timers km (fold (\<lambda>x. cache_rejection (Some x)) xs km)"
proof (induction xs arbitrary: km)
  case (Cons x xs)
  from Cons [of "cache_rejection (Some x) km"] show ?case by (simp add: same_timers_def)
qed simp

lemma other_timers:
  assumes "km_step x km = Some km'" "\<And>i. x \<noteq> KInvite i" "\<And>i. x \<noteq> KTimer i" "\<And>t. x \<noteq> KEvictInfo t"
  shows "same_timers km km'"
proof (cases x)
  case (KServe tag h)
  then show ?thesis using assms(1) fold_cache_timers [of km]
    by (auto simp: serve_call_def Let_def same_timers_def split: option.splits)
next
  case (KAck req cseq now)
  then show ?thesis using assms(1) by (auto simp: HandleAck_def split: sum.splits option.splits)
next
  case (KBye e req cseq now)
  then show ?thesis using assms(1) store_timers
    by (auto simp: HandleBye_def onOutboundBye_def Let_def split: sum.splits option.splits)
next
  case (KStop e ce now outs ins)
  then show ?thesis using assms(1) by (auto simp: Stop_def split: if_splits option.splits prod.splits)
qed (use assms store_timers in \<open>auto split: if_splits option.splits\<close>)

lemma evict_timers: "timers_inv km \<Longrightarrow> timers_inv (km\<lparr>km_infos := (km_infos km)(t := None)\<rparr>)"
  "superseded i km \<Longrightarrow> superseded i (km\<lparr>km_infos := (km_infos km)(t := None)\<rparr>)"
  by (auto simp: timers_inv_def superseded_def)

interpretation manager_timers: keeps_inv km_step timers_inv
proof
  fix s s' and x :: "'k km_op"
  assume inv: "timers_inv s" and st: "km_step x s = Some s'"
  show "timers_inv s'"
  proof (cases x)
    case (KInvite i)
    then show ?thesis using st timers.processInvite_keeps [OF inv] by auto
  qed (use st inv fire_inv evict_timers timers.frame [OF inv other_timers [OF st]] in auto)
qed

interpretation manager_superseded: keeps_inv km_step "\<lambda>km. timers_inv km \<and> superseded i km" for i
proof
  fix s s' and x :: "'k km_op"
  assume inv: "timers_inv s \<and> superseded i s" and st: "km_step x s = Some s'"
  show "timers_inv s' \<and> superseded i s'"
  proof (cases x)
    case (KInvite j)
    then show ?thesis using st superseded_timer.processInvite_keeps [OF inv] by auto
  qed (use st inv fire_inv evict_timers superseded_timer.frame [OF inv other_timers [OF st]] in auto)
qed

lemma timers_inv_new: "timers_inv (newCallManager hide dis m)"
  by (simp add: timers_inv_def newCallManager_def)

text \<open>A challenge the caller does not answer is reported once: in every run of the manager,
  whatever timers fire, however late and in whatever order, no challenge ends a call session
  twice.\<close>

theorem challenge_reported_once:
  assumes "run km_step ops (newCallManager hide dis m) = Some km"
  shows "distinct (map fst (km_fired km)) \<and> (\<forall>x\<in>set (km_fired km). \<not> ct_pending (km_timers km ! fst x))"
  using manager_timers.run_keeps [OF timers_inv_new assms] by (auto simp: timers_inv_def)


section \<open>The challenge\<close>

definition fresh_invite :: "'k invite_in \<Rightarrow> sipInbound \<Rightarrow> callManager \<Rightarrow> bool" where
  "fresh_invite i cc km \<longleftrightarrow> in_srcOk i \<and> newInbound (in_msg i) (km_provisional km) (in_fresh i) = Ok cc \<and>
     cached_rejection km cc = None \<and> km_byLocalTag km (si_id cc) = None \<and> km_activeCalls km (si_id cc) = None"

lemma fresh_invite_password:
  assumes "processInvite i km = (km', out)" "fresh_invite i cc km" "in_auth i = Ok r" "ai_Result r = AuthPassword"
  obtains cmon cc1 m where "password_invite i r cmon cc1 (km\<lparr>km_metrics := m\<rparr>) = (km', out)" "si_id cc1 = si_id cc" "si_tag cc1 = si_tag cc"
    "si_sipCallID cc1 = si_sipCallID cc" "finals (si_wire cc1) = []" "si_state cc1 \<noteq> None"
proof -
  let ?k0 = "km\<lparr>km_metrics := InviteReqRaw (km_metrics km)\<rparr>"
  have w: "si_wire cc = []" using assms(2) newInbound_init unfolding fresh_invite_def by blast
  have n: "(km', out) = new_invite i cc ?k0" using processInvite_cases [OF assms(1)] assms(2) by (auto simp: fresh_invite_def)
  define cc0 where "cc0 = (if km_hide km then cc else fst (Processing (in_tryOk i) (in_now i) cc))"
  define cc1 where "cc1 = emit (lookupEvent EventInviteAuthorized (Some (in_now i)) 0 (authResultName (ai_Result r)))
      ((newState i (ai_TrunkID r) cc0)\<lparr>si_state := map_option Flush (si_state (newState i (ai_TrunkID r) cc0))\<rparr>)"
  have c0: "si_id cc0 = si_id cc" "si_tag cc0 = si_tag cc" "si_sipCallID cc0 = si_sipCallID cc" "finals (si_wire cc0) = []"
    using w by (simp_all add: cc0_def)
  have p: "password_invite i r (SetProvider (providerInfoLabel (ai_Provider r)) (NewCall ''inbound'' (in_toHost i))) cc1
      (km\<lparr>km_metrics := InviteReq (NewCall ''inbound'' (in_toHost i)) (InviteReqRaw (km_metrics km))\<rparr>) = (km', out)"
    using n assms(3,4) by (simp add: new_invite_def authorized_invite_def Let_def cc1_def cc0_def)
  have "si_state cc1 \<noteq> None" using newState_fields(8) [of i "ai_TrunkID r" cc0] by (simp add: cc1_def emit_def emit_opt_def)
  then show thesis using that [OF p] c0 by (simp add: cc1_def)
qed

lemma send_auth_response_state: "si_state cc \<noteq> None \<Longrightarrow> si_state (send_auth_response ok now res cc) \<noteq> None"
  by (auto simp: send_auth_response_def newResponse_def Let_def setLastStatus_def emitRejected_def send_def emit_def emit_opt_def
      split: option.splits)

lemma challenge_issued:
  assumes p: "processInvite i km = (km', out)" "fresh_invite i cc km" "in_auth i = Ok r" "ai_Result r = AuthPassword"
    and h: "handleInviteAuth (in_env i) (in_rnd i) (in_req i) (ai_Auth r) (in_now i) (in_now i) = (res, hdr)" "RCode res = 407"
    and ok: "in_respOk i" and ti: "timers_inv km"
  shows "\<not> io_call out \<and> io_challenge out = hdr \<and> finals (io_wire out) = [407] \<and> km_rejected km' = km_rejected km \<and>
    km_byLocalTag km' = km_byLocalTag km \<and> km_activeCalls km' = km_activeCalls km \<and>
    km_provisional km' = (km_provisional km)((si_sipCallID cc, si_tag cc) \<mapsto> si_id cc) \<and>
    (\<exists>a. km_infos km' (si_id cc) = Some a \<and> ci_timer (km_store km' ! a) = Some (length (km_timers km)))"
proof -
  obtain cmon cc0 m where q: "password_invite i r cmon cc0 (km\<lparr>km_metrics := m\<rparr>) = (km', out)" "si_id cc0 = si_id cc" "si_tag cc0 = si_tag cc"
    "si_sipCallID cc0 = si_sipCallID cc" "finals (si_wire cc0) = []" "si_state cc0 \<noteq> None"
    by (rule fresh_invite_password [OF p])
  let ?k = "km\<lparr>km_metrics := m\<rparr>"
  define cc1 where "cc1 = (if km_hide ?k then
      (case Processing (in_tryOk i) (in_now i) cc0 of (c, sent) \<Rightarrow>
        if sent then emit (inviteResponseEvent EventTryingSent (si_tryingAt c) 100 (si_inviteCSeq c)) c else c) else cc0)"
  have c1: "si_id cc1 = si_id cc" "si_tag cc1 = si_tag cc" "si_sipCallID cc1 = si_sipCallID cc" "finals (si_wire cc1) = []"
    using q Processing_ident [of "in_tryOk i" "in_now i" cc0]
    by (cases "Processing (in_tryOk i) (in_now i) cc0"; auto simp: cc1_def)+
  have "si_state cc1 \<noteq> None" using q(6)
    by (auto simp: cc1_def Processing_def respond_def respondWithData_def emitRejected_def setLastStatus_def send_def emit_def emit_opt_def
        Let_def split: option.splits prod.splits)
  then obtain st where st: "si_state (send_auth_response (in_respOk i) (in_now i) res cc1) = Some st"
    using send_auth_response_state by blast
  obtain a k1 where g: "getCallInfo (si_id cc1) ?k = (a, k1)" by fastforce
  have a: "a < length (km_store k1)" "km_infos k1 (si_id cc) = Some a"
  proof -
    have "timers_inv ?k" using ti by (simp add: timers_inv_def)
    from timers.info_bound [OF this g] show "a < length (km_store k1)" .
    show "km_infos k1 (si_id cc) = Some a" using g c1(1) by (auto simp: getCallInfo_def Let_def split: option.splits)
  qed
  note gf = getCallInfo_fields [OF g]
  define k3 where "k3 = (upd_info a (countInvite (inviteHasAuth (in_req i)) (im_cseq (in_msg i))) (stopChallengeTimer a k1))
      \<lparr>km_provisional := (km_provisional k1)((si_sipCallID cc1, si_tag cc1) \<mapsto> si_id cc1),
       km_metrics := InviteErrorShort (ClientError ''unauthorized'') cmon (km_metrics k1)\<rparr>"
  have l: "a < length (km_store k3)" using a by (simp add: k3_def stop_nth)
  have "km' = startChallengeTimer a st (in_now i) 407 (RStatus res) k3 \<and> io_challenge out = hdr \<and> \<not> io_call out \<and>
      io_wire out = si_wire (send_auth_response (in_respOk i) (in_now i) res cc1)"
    using q(1) h ok st unfolding password_invite_def Let_def cc1_def [symmetric] g prod.case k3_def
    by (auto simp: no_call_def)
  then show ?thesis using c1 h(2) ok gf a start_nth(1) [OF l, of st "in_now i" 407 "RStatus res" a]
    by (auto simp: k3_def)
qed

definition demo_challenged :: "string invite_in" where
  "demo_challenged = (demo_in demo_invite AuthPassword)
     \<lparr>in_req := (demo_req '''')\<lparr>ReqHeader := map_of [(''Call-ID'', ''cid'')]\<rparr>, in_rnd := Some (replicate 12 CHR ''r'')\<rparr>"

lemma demo_challenged_fields [simp]: "in_srcOk demo_challenged" "in_msg demo_challenged = demo_invite" "in_fresh demo_challenged = ''SCL_1''"
  "in_auth demo_challenged = Ok (demo_info AuthPassword)" "in_respOk demo_challenged"
  by (simp_all add: demo_challenged_def)

lemma demo_challenge:
  "\<exists>hdr. handleInviteAuth (in_env demo_challenged) (in_rnd demo_challenged) (in_req demo_challenged) (ai_Auth (demo_info AuthPassword))
     (in_now demo_challenged) (in_now demo_challenged) = (mk_result 407 ''Unauthorized'', Some hdr)"
  by (simp add: demo_challenged_def demo_in_def demo_info_def demo_auth_def demo_req_def DigestAuth.demo_env_def handleInviteAuth_def
      validateAuthorization_def mk_result_def issueDigestNonce_def Seal_def demo_b64_def Let_def)

lemma demo_fresh: "fresh_invite demo_challenged demo_dialog demo_km"
  using demo_invite_new by (simp add: fresh_invite_def cached_rejection_def newCallManager_def)


theorem challenge_reported_once_witness:
  "\<exists>km. run km_step [KInvite demo_challenged, KTimer 0, KTimer 0] demo_km = Some km \<and> distinct (map fst (km_fired km))"
  using challenge_reported_once [of "[KInvite demo_challenged, KTimer 0, KTimer 0]" False False empty_monitor] by simp

end
