(* ===== verification/CallTransfer.thy ===== *)
theory CallTransfer
  imports CallManager
begin

text \<open>
  Transfers of calls on request of the RPC (service.go, transferCall of inbound.go and outbound.go,
  rpc.go): the check that a call may be transferred, the transfer itself with its record in the
  call's state, the counters, the classification of failures, and the service that lets repeated
  requests for the same transfer wait for one outcome.

  Parameters stand for the protocol package: the names of SIP status codes, their psrpc codes, the
  parser of name-addr targets and the list of emergency numbers. The interleaving of the worker of
  a transfer with the requests waiting for it is a sequence of atomic steps: the send on the
  channel of capacity one, the store of the outcome, the close of the channel, the removal from
  the map, and each request's receive.
\<close>

section \<open>Classification of outcomes\<close>

datatype SIPTransferReason = STR_UNSPECIFIED | STR_COMPLETED | STR_CALL_ENDED | STR_SUBSCRIPTION_TERMINATED
  | STR_REJECTED | STR_RINGING_TIMEOUT

definition transferReason :: "go_error option \<Rightarrow> SIPTransferReason \<times> (int \<times> string) option" where
  "transferReason err = (case err of
     None \<Rightarrow> (STR_COMPLETED, None)
   | Some e \<Rightarrow>
       if errors_Is e errTransferCallEnded then (STR_CALL_ENDED, None)
       else if errors_Is e errReferSubscriptionTerminated then (STR_SUBSCRIPTION_TERMINATED, None)
       else (case as_SIPStatus e of
           Some st \<Rightarrow> (STR_REJECTED, Some st)
         | None \<Rightarrow> if errors_Is e CtxDeadlineExceeded then (STR_RINGING_TIMEOUT, None) else (STR_UNSPECIFIED, None)))"

definition extractTransferErrorReason :: "(int \<Rightarrow> string) \<Rightarrow> go_error option \<Rightarrow> string" where
  "extractTransferErrorReason shortName err = (case err of
     None \<Rightarrow> ''unknown''
   | Some e \<Rightarrow> (case as_SIPStatus e of
       Some (code, _) \<Rightarrow> ToLower (shortName code)
     | None \<Rightarrow>
         if errors_Is e errTransferCallEnded then ''call_ended''
         else if errors_Is e errReferSubscriptionTerminated then ''refer_terminated''
         else (case as_psrpc e of
             Some code \<Rightarrow> (case code of
                 NotFound \<Rightarrow> ''not_found'' | Canceled \<Rightarrow> ''canceled'' | DeadlineExceeded \<Rightarrow> ''timeout''
               | InvalidArgument \<Rightarrow> ''invalid_argument'' | PermissionDenied \<Rightarrow> ''permission_denied''
               | Internal \<Rightarrow> ''internal_error'' | _ \<Rightarrow> ''psrpc_error'')
           | None \<Rightarrow> if errors_Is e CtxCanceled then ''canceled''
               else if errors_Is e CtxDeadlineExceeded then ''timeout'' else ''other'')))"

record transferOutcome =
  to_TransferID :: string
  to_Err :: "go_error option"

record transfer_error =
  te_code :: psrpc_code
  te_err :: go_error
  te_TransferID :: string
  te_Reason :: SIPTransferReason
  te_SipStatus :: "(int \<times> string) option"

definition transferError :: "(int \<Rightarrow> psrpc_code) \<Rightarrow> transferOutcome \<Rightarrow> transfer_error option" where
  "transferError grpc out = (case to_Err out of
     None \<Rightarrow> None
   | Some e \<Rightarrow> (case transferReason (Some e) of (reason, st) \<Rightarrow>
       Some \<lparr>te_code = (case as_psrpc (ApplySIPStatus grpc e) of Some c \<Rightarrow> c | None \<Rightarrow> Unknown), te_err = e,
         te_TransferID = to_TransferID out, te_Reason = reason, te_SipStatus = st\<rparr>))"

section \<open>Counters\<close>

record transfer_metrics =
  transfersTotal :: "string \<Rightarrow> int"
  transfersActive :: "string \<Rightarrow> int"
  transfersSucceeded :: "string \<Rightarrow> int"
  transfersFailed :: "string \<times> string \<Rightarrow> int"

definition TransferStarted :: "string \<Rightarrow> transfer_metrics \<Rightarrow> transfer_metrics" where
  "TransferStarted dir m = m\<lparr>transfersTotal := bump (transfersTotal m) dir 1, transfersActive := bump (transfersActive m) dir 1\<rparr>"

definition TransferSucceeded :: "string \<Rightarrow> transfer_metrics \<Rightarrow> transfer_metrics" where
  "TransferSucceeded dir m = m\<lparr>transfersSucceeded := bump (transfersSucceeded m) dir 1,
     transfersActive := bump (transfersActive m) dir (- 1)\<rparr>"

definition TransferFailed :: "string \<Rightarrow> string \<Rightarrow> bool \<Rightarrow> transfer_metrics \<Rightarrow> transfer_metrics" where
  "TransferFailed dir reason changeActive m = (let m1 = m\<lparr>transfersFailed := bump (transfersFailed m) (dir, reason) 1\<rparr> in
     if changeActive then m1\<lparr>transfersActive := bump (transfersActive m1) dir (- 1)\<rparr> else m1)"

section \<open>The transfer of one call\<close>

text \<open>What the environment contributes: the identifier and time of the record, whether a dial tone
  is to be played, whether the call is being closed when the REFER is built, the outcome of sending
  it (an error before the transaction, or its events), what happens while the result is awaited, and
  whether the call was over when the transfer returned.\<close>

record transfer_env =
  xe_msg :: "go_error \<Rightarrow> string"
  xe_guid :: string
  xe_now :: int
  xe_dialtone :: bool
  xe_closing :: bool
  xe_start :: "go_error option"
  xe_tx :: "tx_event list"
  xe_events :: "xfer_event list"
  xe_over :: bool
  xe_grpc :: "int \<Rightarrow> psrpc_code"

definition refer_and_wait :: "transfer_env \<Rightarrow> 32 word \<Rightarrow> go_error option option" where
  "refer_and_wait x cseq = (case sendRefer (xe_start x) (xe_tx x) of
     None \<Rightarrow> None
   | Some (_, Some e) \<Rightarrow> Some (Some e)
   | Some (_, None) \<Rightarrow> transfer_outcome (xe_grpc x) (uint cseq) (xe_events x))"

definition TransferCall_in :: "transfer_env \<Rightarrow> string \<Rightarrow> sipInbound \<Rightarrow> (sipInbound \<times> go_error option) option" where
  "TransferCall_in x transferTo c = (case newReferReq transferTo c of
     (c1, Inl e) \<Rightarrow> Some (c1, Some e)
   | (c1, Inr cseq) \<Rightarrow> map_option (\<lambda>r. (if xe_start x = None then send (WRefer cseq transferTo) c1 else c1, r)) (refer_and_wait x cseq))"

definition TransferCall_out :: "transfer_env \<Rightarrow> string \<Rightarrow> sipOutbound \<Rightarrow> (sipOutbound \<times> go_error option) option" where
  "TransferCall_out x transferTo c = (case transferCall_out (xe_closing x) transferTo c of
     (c1, Inl e) \<Rightarrow> Some (c1, Some e)
   | (c1, Inr cseq) \<Rightarrow> map_option (\<lambda>r. (if xe_start x = None then c1 else c1\<lparr>so_wire := so_wire c\<rparr>, r)) (refer_and_wait x cseq))"

text \<open>The result of a transfer: the call, the identifier, the error, whether the room's audio is
  still detached from the peer, and whether the hang-up after a successful transfer is armed.\<close>

record 'c transfer_result =
  xr_call :: 'c
  xr_id :: string
  xr_err :: "go_error option"
  xr_muted :: bool
  xr_hangup :: bool

definition finish_transfer ::
  "transfer_env \<Rightarrow> ((CallState \<Rightarrow> CallState) \<Rightarrow> 'c \<Rightarrow> 'c) \<Rightarrow> bool \<Rightarrow> 'c \<Rightarrow> go_error option \<Rightarrow> 'c transfer_result" where
  "finish_transfer x upd muted c err =
     \<lparr>xr_call = upd (EndTransfer (xe_msg x) (xe_now x) (xe_guid x) err) c, xr_id = xe_guid x, xr_err = err,
      xr_muted = (muted \<and> \<not> (err \<noteq> None \<and> \<not> xe_over x)), xr_hangup = (err = None)\<rparr>"

definition transferCall_inbound :: "transfer_env \<Rightarrow> string \<Rightarrow> inboundCall \<Rightarrow> inboundCall transfer_result option" where
  "transferCall_inbound x transferTo c0 = (let
     c = ic_state (\<lambda>s. fst (StartTransfer (xe_guid x) (xe_now x) transferTo s)) c0;
     tone = (xe_dialtone x \<and> ic_started c \<and> \<not> ic_done c)
   in if tone \<and> \<not> ic_media c then Some (finish_transfer x ic_state False c (Some (ENew ''media port not found'')))
      else (case TransferCall_in x transferTo (ic_cc c) of
          None \<Rightarrow> None
        | Some (cc, err) \<Rightarrow> Some (finish_transfer x ic_state tone (c\<lparr>ic_cc := cc\<rparr>) err)))"

definition transferCall_outbound :: "transfer_env \<Rightarrow> string \<Rightarrow> outboundCall \<Rightarrow> outboundCall transfer_result option" where
  "transferCall_outbound x transferTo c0 = (let
     c = oc_state (\<lambda>s. fst (StartTransfer (xe_guid x) (xe_now x) transferTo s)) c0;
     tone = (xe_dialtone x \<and> oc_started c \<and> \<not> oc_stopped c)
   in case TransferCall_out x transferTo (oc_cc c) of
        None \<Rightarrow> None
      | Some (cc, err) \<Rightarrow> Some (finish_transfer x oc_state tone (c\<lparr>oc_cc := cc\<rparr>) err))"

section \<open>Requests\<close>

definition validateCallProvider :: "(string \<Rightarrow> (string, string) result) \<Rightarrow> (string \<Rightarrow> bool) \<Rightarrow> ProviderInfo option \<Rightarrow> string \<Rightarrow> go_error option" where
  "validateCallProvider parse emergency p transferTo = (case p of
     None \<Rightarrow> None
   | Some info \<Rightarrow>
       if pi_Type info \<noteq> PROVIDER_TYPE_INTERNAL then None
       else if pi_PreventTransfer info then
         Some (EPsrpc PermissionDenied (ENew ''transfers are not supported for this phone number type''))
       else (let target = (if CHR ''<'' \<notin> set transferTo then ''<'' @ transferTo @ ''>'' else transferTo) in
         case parse target of
           Inl m \<Rightarrow> Some (EPsrpc InvalidArgument (ENew (''invalid transfer target: '' @ m)))
         | Inr user \<Rightarrow> if emergency (fst (Cut user CHR ''?''))
             then Some (EPsrpc InvalidArgument
               (ENew ''transfers to an emergency number are not supported from LiveKit phone numbers''))
             else None))"

definition rejectTransfer :: "(int \<Rightarrow> string) \<Rightarrow> string \<Rightarrow> go_error option \<Rightarrow> transfer_metrics \<Rightarrow> transfer_metrics" where
  "rejectTransfer shortName dir err m = (case err of
     None \<Rightarrow> m
   | Some e \<Rightarrow> TransferFailed dir (extractTransferErrorReason shortName (Some e)) True (TransferStarted dir m))"

definition checkInternalProviderRequest ::
  "(int \<Rightarrow> string) \<Rightarrow> (string \<Rightarrow> ProviderInfo option \<Rightarrow> go_error option) \<Rightarrow> (string \<Rightarrow> ProviderInfo option) \<Rightarrow> string \<Rightarrow> string \<Rightarrow>
   callManager \<Rightarrow> transfer_metrics \<Rightarrow> transfer_metrics \<times> go_error option" where
  "checkInternalProviderRequest shortName validate provider callID transferTo km m =
     (if km_activeCalls km callID \<noteq> None then (let e = validate transferTo (provider callID) in
        (rejectTransfer shortName ''outbound'' e m, e))
      else if km_byLocalTag km callID \<noteq> None then (let e = validate transferTo (provider callID) in
        (rejectTransfer shortName ''inbound'' e m, e))
      else (m, Some (EPsrpc NotFound (ENew ''unknown call''))))"

definition count_result :: "(int \<Rightarrow> string) \<Rightarrow> string \<Rightarrow> go_error option \<Rightarrow> transfer_metrics \<Rightarrow> transfer_metrics" where
  "count_result shortName dir err m = (case err of
     Some e \<Rightarrow> TransferFailed dir (extractTransferErrorReason shortName (Some e)) True m
   | None \<Rightarrow> TransferSucceeded dir m)"

definition processParticipantTransfer ::
  "(int \<Rightarrow> string) \<Rightarrow> transfer_env \<Rightarrow> string \<Rightarrow> string \<Rightarrow> callManager \<Rightarrow> transfer_metrics \<Rightarrow>
   (callManager \<times> transfer_metrics \<times> transferOutcome) option" where
  "processParticipantTransfer shortName x callID transferTo km m = (case km_activeCalls km callID of
     Some oc \<Rightarrow> map_option (\<lambda>r. (km\<lparr>km_activeCalls := (km_activeCalls km)(callID \<mapsto> xr_call r)\<rparr>,
         count_result shortName ''outbound'' (xr_err r) (TransferStarted ''outbound'' m),
         \<lparr>to_TransferID = xr_id r, to_Err = xr_err r\<rparr>)) (transferCall_outbound x transferTo oc)
   | None \<Rightarrow> (case km_byLocalTag km callID of
       Some c \<Rightarrow> map_option (\<lambda>r. (km\<lparr>km_byLocalTag := (km_byLocalTag km)(callID \<mapsto> xr_call r)\<rparr>,
           count_result shortName ''inbound'' (xr_err r) (TransferStarted ''inbound'' m),
           \<lparr>to_TransferID = xr_id r, to_Err = xr_err r\<rparr>)) (transferCall_inbound x transferTo c)
     | None \<Rightarrow> Some (km, TransferFailed ''inbound'' ''unknown_call'' False m,
         \<lparr>to_TransferID = '''', to_Err = Some (EPsrpc NotFound (ENew ''unknown call''))\<rparr>)))"

section \<open>Pending transfers\<close>

datatype worker = WRunning | WSent | WStored | WClosed | WGone

record PendingTransfer =
  pt_CallID :: string
  pt_TransferTo :: string
  pt_Outcome :: "transferOutcome option"
  pt_Done :: "transferOutcome option"
  pt_closed :: bool
  pt_worker :: worker
  pt_out :: "transferOutcome option"

text \<open>Requests are numbered. The log records, for every request that returned, the transfer it
  waited for, if it was answered with that transfer's outcome, and what it returned.\<close>

record transfer_service =
  ts_pending :: "string \<rightharpoonup> nat"
  ts_store :: "PendingTransfer list"
  ts_waiting :: "nat \<rightharpoonup> nat"
  ts_log :: "(nat \<times> nat option \<times> transferOutcome) list"

definition newPendingTransfer :: "string \<Rightarrow> string \<Rightarrow> PendingTransfer" where
  "newPendingTransfer callID transferTo = \<lparr>pt_CallID = callID, pt_TransferTo = transferTo, pt_Outcome = None, pt_Done = None,
     pt_closed = False, pt_worker = WRunning, pt_out = None\<rparr>"

definition getOrCreatePendingTransfer :: "string \<Rightarrow> string \<Rightarrow> transfer_service \<Rightarrow> transfer_service \<times> nat \<times> bool" where
  "getOrCreatePendingTransfer callID transferTo s = (case ts_pending s callID of
     Some a \<Rightarrow> (s, a, False)
   | None \<Rightarrow> (let a = length (ts_store s) in
       (s\<lparr>ts_store := ts_store s @ [newPendingTransfer callID transferTo], ts_pending := (ts_pending s)(callID \<mapsto> a)\<rparr>, a, True)))"

definition return_outcome :: "nat \<Rightarrow> nat option \<Rightarrow> transferOutcome \<Rightarrow> transfer_service \<Rightarrow> transfer_service" where
  "return_outcome rid a out s = s\<lparr>ts_log := ts_log s @ [(rid, a, out)], ts_waiting := (ts_waiting s)(rid := None)\<rparr>"

definition failed_outcome :: "go_error \<Rightarrow> transferOutcome" where
  "failed_outcome e = \<lparr>to_TransferID = '''', to_Err = Some e\<rparr>"

definition request_transfer :: "nat \<Rightarrow> string \<Rightarrow> string \<Rightarrow> go_error option \<Rightarrow> transfer_service \<Rightarrow> transfer_service" where
  "request_transfer rid callID transferTo check s = (case check of
     Some e \<Rightarrow> return_outcome rid None (failed_outcome e) s
   | None \<Rightarrow> (case getOrCreatePendingTransfer callID transferTo s of (s1, a, isNew) \<Rightarrow>
       if \<not> isNew \<and> pt_TransferTo (ts_store s1 ! a) \<noteq> transferTo then
         return_outcome rid None (failed_outcome (EPsrpc InvalidArgument (ENew ''call already being transferred elsewhere''))) s1
       else s1\<lparr>ts_waiting := (ts_waiting s1)(rid \<mapsto> a)\<rparr>))"

definition upd_pending :: "nat \<Rightarrow> PendingTransfer \<Rightarrow> transfer_service \<Rightarrow> transfer_service" where
  "upd_pending a p s = s\<lparr>ts_store := (ts_store s)[a := p]\<rparr>"

definition worker_send :: "nat \<Rightarrow> transferOutcome \<Rightarrow> transfer_service \<Rightarrow> transfer_service" where
  "worker_send a out s = (let p = ts_store s ! a in
     upd_pending a (p\<lparr>pt_Done := (case pt_Done p of None \<Rightarrow> Some out | Some v \<Rightarrow> Some v), pt_worker := WSent, pt_out := Some out\<rparr>) s)"

definition worker_store :: "nat \<Rightarrow> transfer_service \<Rightarrow> transfer_service" where
  "worker_store a s = (let p = ts_store s ! a in upd_pending a (p\<lparr>pt_Outcome := pt_out p, pt_worker := WStored\<rparr>) s)"

definition worker_close :: "nat \<Rightarrow> transfer_service \<Rightarrow> transfer_service" where
  "worker_close a s = (let p = ts_store s ! a in upd_pending a (p\<lparr>pt_closed := True, pt_worker := WClosed\<rparr>) s)"

definition worker_delete :: "nat \<Rightarrow> transfer_service \<Rightarrow> transfer_service" where
  "worker_delete a s = (let p = ts_store s ! a in
     (upd_pending a (p\<lparr>pt_worker := WGone\<rparr>) s)\<lparr>ts_pending := (ts_pending s)(pt_CallID p := None)\<rparr>)"

definition zero_outcome :: transferOutcome where
  "zero_outcome = \<lparr>to_TransferID = '''', to_Err = None\<rparr>"

definition receive_outcome :: "nat \<Rightarrow> nat \<Rightarrow> transfer_service \<Rightarrow> transfer_service" where
  "receive_outcome rid a s = (let p = ts_store s ! a;
       load = (\<lambda>out. if to_Err out = None then (case pt_Outcome p of Some o' \<Rightarrow> o' | None \<Rightarrow> out) else out)
     in case pt_Done p of
          Some out \<Rightarrow> return_outcome rid (Some a) (load out) (upd_pending a (p\<lparr>pt_Done := None\<rparr>) s)
        | None \<Rightarrow> if pt_closed p then return_outcome rid (Some a) (load zero_outcome) s else s)"

datatype ts_op = TRequest nat string string "go_error option" | TSend nat transferOutcome | TStore nat | TClose nat | TDelete nat
  | TReceive nat | TCancel nat go_error

definition at_worker :: "nat \<Rightarrow> worker \<Rightarrow> transfer_service \<Rightarrow> bool" where
  "at_worker a w s \<longleftrightarrow> a < length (ts_store s) \<and> pt_worker (ts_store s ! a) = w"

fun ts_step :: "ts_op \<Rightarrow> transfer_service \<Rightarrow> transfer_service option" where
  "ts_step (TRequest rid callID to chk) s =
     Some (if ts_waiting s rid \<noteq> None then s else request_transfer rid callID to chk s)"
| "ts_step (TSend a out) s = Some (if at_worker a WRunning s then worker_send a out s else s)"
| "ts_step (TStore a) s = Some (if at_worker a WSent s then worker_store a s else s)"
| "ts_step (TClose a) s = Some (if at_worker a WStored s then worker_close a s else s)"
| "ts_step (TDelete a) s = Some (if at_worker a WClosed s then worker_delete a s else s)"
| "ts_step (TReceive rid) s = Some (case ts_waiting s rid of Some a \<Rightarrow> receive_outcome rid a s | None \<Rightarrow> s)"
| "ts_step (TCancel rid e) s = Some (case ts_waiting s rid of
     Some a \<Rightarrow> return_outcome rid None (failed_outcome (EPsrpc Canceled e)) s | None \<Rightarrow> s)"

definition ts_init :: transfer_service where
  "ts_init = \<lparr>ts_pending = Map.empty, ts_store = [], ts_waiting = Map.empty, ts_log = []\<rparr>"

section \<open>Specification of the service\<close>

text \<open>What the service promises, without channels: a transfer is a call, a target and, once it is
  over, an outcome; a call has at most one open transfer; a request opens a transfer, joins the
  open one with the same target, or is refused; a request that waits is answered with the outcome
  of its transfer, once there is one, or gives up.\<close>

record transfer_spec =
  sp_transfers :: "(string \<times> string \<times> transferOutcome option) list"
  sp_open :: "string \<rightharpoonup> nat"
  sp_waiting :: "nat \<rightharpoonup> nat"
  sp_log :: "(nat \<times> nat option \<times> transferOutcome) list"

definition sp_outcome :: "transfer_spec \<Rightarrow> nat \<Rightarrow> transferOutcome option" where
  "sp_outcome S a = snd (snd (sp_transfers S ! a))"

inductive transfer_step :: "transfer_spec \<Rightarrow> transfer_spec \<Rightarrow> bool" where
  opens: "sp_open S call = None \<Longrightarrow> transfer_step S
    (S\<lparr>sp_transfers := sp_transfers S @ [(call, to, None)], sp_open := (sp_open S)(call \<mapsto> length (sp_transfers S)),
       sp_waiting := (sp_waiting S)(rid \<mapsto> length (sp_transfers S))\<rparr>)"
| joins: "sp_open S call = Some a \<Longrightarrow> fst (snd (sp_transfers S ! a)) = to \<Longrightarrow>
    transfer_step S (S\<lparr>sp_waiting := (sp_waiting S)(rid \<mapsto> a)\<rparr>)"
| refused: "transfer_step S (S\<lparr>sp_log := sp_log S @ [(rid, None, failed_outcome e)], sp_waiting := (sp_waiting S)(rid := None)\<rparr>)"
| ends: "a < length (sp_transfers S) \<Longrightarrow> sp_transfers S ! a = (call, to, None) \<Longrightarrow>
    transfer_step S (S\<lparr>sp_transfers := (sp_transfers S)[a := (call, to, Some out)]\<rparr>)"
| closes: "a < length (sp_transfers S) \<Longrightarrow> sp_transfers S ! a = (call, to, Some out) \<Longrightarrow> sp_open S call = Some a \<Longrightarrow>
    transfer_step S (S\<lparr>sp_open := (sp_open S)(call := None)\<rparr>)"
| answers: "sp_waiting S rid = Some a \<Longrightarrow> a < length (sp_transfers S) \<Longrightarrow> sp_outcome S a = Some out \<Longrightarrow>
    transfer_step S (S\<lparr>sp_log := sp_log S @ [(rid, Some a, out)], sp_waiting := (sp_waiting S)(rid := None)\<rparr>)"

definition ts_abs :: "transfer_service \<Rightarrow> transfer_spec" where
  "ts_abs s = \<lparr>sp_transfers = map (\<lambda>p. (pt_CallID p, pt_TransferTo p, pt_out p)) (ts_store s), sp_open = ts_pending s,
     sp_waiting = ts_waiting s, sp_log = ts_log s\<rparr>"

definition pending_ok :: "PendingTransfer \<Rightarrow> bool" where
  "pending_ok p \<longleftrightarrow> (pt_worker p = WRunning \<longleftrightarrow> pt_out p = None) \<and>
     (\<forall>out. pt_Done p = Some out \<longrightarrow> pt_out p = Some out) \<and>
     (\<forall>out. pt_Outcome p = Some out \<longrightarrow> pt_out p = Some out) \<and>
     (pt_worker p \<in> {WStored, WClosed, WGone} \<longleftrightarrow> pt_Outcome p \<noteq> None) \<and>
     (pt_closed p \<longleftrightarrow> pt_worker p \<in> {WClosed, WGone})"

definition ts_inv :: "transfer_service \<Rightarrow> bool" where
  "ts_inv s \<longleftrightarrow> (\<forall>p\<in>set (ts_store s). pending_ok p) \<and>
     (\<forall>call a. ts_pending s call = Some a \<longleftrightarrow>
        a < length (ts_store s) \<and> pt_CallID (ts_store s ! a) = call \<and> pt_worker (ts_store s ! a) \<noteq> WGone) \<and>
     (\<forall>rid a. ts_waiting s rid = Some a \<longrightarrow> a < length (ts_store s))"

lemma ts_invD:
  assumes "ts_inv s"
  shows "a < length (ts_store s) \<Longrightarrow> pending_ok (ts_store s ! a)"
    "ts_pending s call = Some a \<longleftrightarrow> a < length (ts_store s) \<and> pt_CallID (ts_store s ! a) = call \<and> pt_worker (ts_store s ! a) \<noteq> WGone"
    "ts_waiting s rid = Some a \<Longrightarrow> a < length (ts_store s)"
  using assms by (auto simp: ts_inv_def)

lemma ts_inv_upd:
  assumes inv: "ts_inv s" and a: "a < length (ts_store s)" and p: "pending_ok p" "pt_CallID p = pt_CallID (ts_store s ! a)"
    "pt_worker p = WGone \<longleftrightarrow> pt_worker (ts_store s ! a) = WGone"
  shows "ts_inv (upd_pending a p s)"
proof -
  have "\<forall>q\<in>set ((ts_store s)[a := p]). pending_ok q"
    using inv p(1) set_update_subset_insert [of "ts_store s" a p] by (auto simp: ts_inv_def)
  then show ?thesis using inv a p(2,3) by (simp add: ts_inv_def upd_pending_def nth_list_update)
qed

lemma ts_inv_return: "ts_inv s \<Longrightarrow> ts_inv (return_outcome rid a out s)"
  by (simp add: ts_inv_def return_outcome_def)

lemma request_inv:
  assumes inv: "ts_inv s"
  shows "ts_inv (request_transfer rid call to chk s)"
proof (cases "chk = None \<and> ts_pending s call = None")
  case True
  let ?s = "s\<lparr>ts_store := ts_store s @ [newPendingTransfer call to], ts_pending := (ts_pending s)(call \<mapsto> length (ts_store s))\<rparr>"
  have none: "\<not> (a < length (ts_store s) \<and> pt_CallID (ts_store s ! a) = call \<and> pt_worker (ts_store s ! a) \<noteq> WGone)" for a
    using ts_invD(2) [OF inv, of call a] True by simp
  have new: "pending_ok (newPendingTransfer call to)" by (simp add: pending_ok_def newPendingTransfer_def)
  have "ts_inv (?s\<lparr>ts_waiting := (ts_waiting s)(rid \<mapsto> length (ts_store s))\<rparr>)"
    using inv none new unfolding ts_inv_def
    by (auto simp: nth_append newPendingTransfer_def less_Suc_eq)
  then show ?thesis using True by (simp add: request_transfer_def getOrCreatePendingTransfer_def Let_def)
next
  case False
  have w: "ts_inv (s\<lparr>ts_waiting := (ts_waiting s)(rid \<mapsto> a)\<rparr>)" if "ts_pending s call = Some a" for a
    using inv that by (auto simp: ts_inv_def)
  show ?thesis using False w ts_inv_return [OF inv]
    by (auto simp: request_transfer_def getOrCreatePendingTransfer_def split: option.split)
qed

lemma ts_step_inv:
  assumes inv: "ts_inv s" and st: "ts_step x s = Some s'"
  shows "ts_inv s'"
proof (cases x)
  case (TRequest rid call to chk)
  then show ?thesis using inv st request_inv [OF inv] by auto
next
  case (TSend a out)
  show ?thesis
  proof (cases "at_worker a WRunning s")
    case True
    then have ok: "pending_ok (ts_store s ! a)" "a < length (ts_store s)" "pt_worker (ts_store s ! a) = WRunning"
      using ts_invD(1) [OF inv] by (simp_all add: at_worker_def)
    then show ?thesis using st TSend True
      by (auto simp: worker_send_def Let_def intro!: ts_inv_upd [OF inv] simp: pending_ok_def split: option.split)
  qed (use inv st TSend in simp)
next
  case (TStore a)
  show ?thesis
  proof (cases "at_worker a WSent s")
    case True
    then have ok: "pending_ok (ts_store s ! a)" "a < length (ts_store s)" "pt_worker (ts_store s ! a) = WSent"
      using ts_invD(1) [OF inv] by (simp_all add: at_worker_def)
    then show ?thesis using st TStore True
      by (auto simp: worker_store_def Let_def intro!: ts_inv_upd [OF inv] simp: pending_ok_def)
  qed (use inv st TStore in simp)
next
  case (TClose a)
  show ?thesis
  proof (cases "at_worker a WStored s")
    case True
    then have ok: "pending_ok (ts_store s ! a)" "a < length (ts_store s)" "pt_worker (ts_store s ! a) = WStored"
      using ts_invD(1) [OF inv] by (simp_all add: at_worker_def)
    then show ?thesis using st TClose True
      by (auto simp: worker_close_def Let_def intro!: ts_inv_upd [OF inv] simp: pending_ok_def)
  qed (use inv st TClose in simp)
next
  case (TDelete a)
  show ?thesis
  proof (cases "at_worker a WClosed s")
    case True
    then have ok: "pending_ok (ts_store s ! a)" "a < length (ts_store s)" "pt_worker (ts_store s ! a) = WClosed"
      using ts_invD(1) [OF inv] by (simp_all add: at_worker_def)
    let ?p = "(ts_store s ! a)\<lparr>pt_worker := WGone\<rparr>"
    have p: "pending_ok ?p" using ok by (simp add: pending_ok_def)
    have uniq: "b = a" if "b < length (ts_store s)" "pt_CallID (ts_store s ! b) = pt_CallID (ts_store s ! a)"
        "pt_worker (ts_store s ! b) \<noteq> WGone" for b
      using ts_invD(2) [OF inv, of "pt_CallID (ts_store s ! a)" a] ts_invD(2) [OF inv, of "pt_CallID (ts_store s ! a)" b] ok that by simp
    have "\<forall>q\<in>set ((ts_store s)[a := ?p]). pending_ok q"
      using inv p set_update_subset_insert [of "ts_store s" a ?p] by (auto simp: ts_inv_def)
    moreover have "ts_pending s call = Some b \<longleftrightarrow>
        b < length (ts_store s) \<and> pt_CallID (ts_store s ! b) = call \<and> pt_worker (ts_store s ! b) \<noteq> WGone" for call b
      by (rule ts_invD(2) [OF inv])
    ultimately have "ts_inv (worker_delete a s)"
      using uniq ok(2) ts_invD(3) [OF inv] by (auto simp: ts_inv_def worker_delete_def upd_pending_def Let_def nth_list_update)
    then show ?thesis using st TDelete True by simp
  qed (use inv st TDelete in simp)
next
  case (TReceive rid)
  show ?thesis
  proof (cases "ts_waiting s rid")
    case (Some a)
    then have a: "a < length (ts_store s)" by (rule ts_invD(3) [OF inv])
    have "ts_inv (upd_pending a ((ts_store s ! a)\<lparr>pt_Done := None\<rparr>) s)"
      by (rule ts_inv_upd [OF inv a]) (use ts_invD(1) [OF inv a] in \<open>simp_all add: pending_ok_def\<close>)
    then show ?thesis using st TReceive Some inv by (auto simp: receive_outcome_def Let_def ts_inv_return split: option.split)
  qed (use inv st TReceive in simp)
next
  case (TCancel rid e)
  then show ?thesis using inv st ts_inv_return by (auto split: option.splits)
qed

lemma ts_abs_upd:
  assumes "a < length (ts_store s)" "pt_CallID p = pt_CallID (ts_store s ! a)" "pt_TransferTo p = pt_TransferTo (ts_store s ! a)"
    "pt_out p = pt_out (ts_store s ! a)"
  shows "ts_abs (upd_pending a p s) = ts_abs s"
  using assms by (simp add: ts_abs_def upd_pending_def map_update list_update_same_conv)

lemma ts_abs_return: "ts_abs (return_outcome rid a out s) =
    (ts_abs s)\<lparr>sp_log := sp_log (ts_abs s) @ [(rid, a, out)], sp_waiting := (sp_waiting (ts_abs s))(rid := None)\<rparr>"
  by (simp add: ts_abs_def return_outcome_def)

lemma ts_abs_outcome: "a < length (ts_store s) \<Longrightarrow> sp_outcome (ts_abs s) a = pt_out (ts_store s ! a)"
  by (simp add: ts_abs_def sp_outcome_def)

lemma request_simulates:
  assumes inv: "ts_inv s"
  shows "transfer_step (ts_abs s) (ts_abs (request_transfer rid call to chk s))"
proof (cases chk)
  case (Some e)
  then show ?thesis using refused [of "ts_abs s" rid e] by (simp add: request_transfer_def ts_abs_return)
next
  case None
  show ?thesis
  proof (cases "ts_pending s call")
    case None
    then have "sp_open (ts_abs s) call = None" by (simp add: ts_abs_def)
    from opens [OF this, where to = to and rid = rid] show ?thesis using \<open>chk = None\<close> None
      by (simp add: request_transfer_def getOrCreatePendingTransfer_def Let_def ts_abs_def newPendingTransfer_def)
  next
    case (Some a)
    then have a: "a < length (ts_store s)" "sp_open (ts_abs s) call = Some a" using ts_invD(2) [OF inv] by (auto simp: ts_abs_def)
    show ?thesis
    proof (cases "pt_TransferTo (ts_store s ! a) = to")
      case True
      then have "fst (snd (sp_transfers (ts_abs s) ! a)) = to" using a(1) by (simp add: ts_abs_def)
      from joins [OF a(2) this, where rid = rid] show ?thesis using True Some \<open>chk = None\<close>
        by (simp add: request_transfer_def getOrCreatePendingTransfer_def ts_abs_def)
    next
      case False
      then show ?thesis using Some \<open>chk = None\<close> refused [of "ts_abs s" rid]
        by (simp add: request_transfer_def getOrCreatePendingTransfer_def ts_abs_return)
    qed
  qed
qed

lemma receive_simulates:
  assumes inv: "ts_inv s" and w: "ts_waiting s rid = Some a"
  shows "ts_abs (receive_outcome rid a s) = ts_abs s \<or> transfer_step (ts_abs s) (ts_abs (receive_outcome rid a s))"
proof -
  have a: "a < length (ts_store s)" by (rule ts_invD(3) [OF inv w])
  have ok: "pending_ok (ts_store s ! a)" by (rule ts_invD(1) [OF inv a])
  have w': "sp_waiting (ts_abs s) rid = Some a" "a < length (sp_transfers (ts_abs s))" using w a by (simp_all add: ts_abs_def)
  have ans: "transfer_step (ts_abs s) (ts_abs (return_outcome rid (Some a) out s))" if "pt_out (ts_store s ! a) = Some out" for out
    using answers [OF w', of out] that a by (simp add: ts_abs_outcome ts_abs_return)
  have same: "ts_abs (return_outcome rid (Some a) out (upd_pending a ((ts_store s ! a)\<lparr>pt_Done := None\<rparr>) s)) =
      ts_abs (return_outcome rid (Some a) out s)" for out
    using ts_abs_upd [OF a, of "(ts_store s ! a)\<lparr>pt_Done := None\<rparr>"] by (simp add: ts_abs_return)
  show ?thesis
  proof (cases "pt_Done (ts_store s ! a)")
    case None
    then show ?thesis using ok ans by (auto simp: receive_outcome_def Let_def pending_ok_def zero_outcome_def)
  next
    case (Some out)
    then have "pt_out (ts_store s ! a) = Some out" "pt_Outcome (ts_store s ! a) \<in> {None, Some out}"
      using ok by (auto simp: pending_ok_def)
    then show ?thesis using ans Some by (auto simp: receive_outcome_def Let_def same)
  qed
qed

interpretation transfer_service: refines ts_step ts_inv ts_abs transfer_step
proof
  show "ts_inv s \<Longrightarrow> ts_step x s = Some s' \<Longrightarrow> ts_inv s'" for x s s' by (rule ts_step_inv)
  show "ts_abs s' = ts_abs s \<or> transfer_step (ts_abs s) (ts_abs s')" if inv: "ts_inv s" and st: "ts_step x s = Some s'" for x s s'
  proof (cases x)
    case (TRequest rid call to chk)
    then show ?thesis using st request_simulates [OF inv] by auto
  next
    case (TSend a out)
    show ?thesis
    proof (cases "at_worker a WRunning s")
      case True
      then have a: "a < length (ts_store s)" "pt_out (ts_store s ! a) = None"
        using ts_invD(1) [OF inv, of a] by (auto simp: at_worker_def pending_ok_def)
      then have "sp_transfers (ts_abs s) ! a = (pt_CallID (ts_store s ! a), pt_TransferTo (ts_store s ! a), None)"
        "a < length (sp_transfers (ts_abs s))" by (simp_all add: ts_abs_def)
      from ends [OF this(2,1), of out] have "transfer_step (ts_abs s) (ts_abs (worker_send a out s))"
        by (simp add: ts_abs_def worker_send_def upd_pending_def map_update Let_def)
      then show ?thesis using st TSend True by simp
    qed (use st TSend in simp)
  next
    case (TStore a)
    then show ?thesis using st ts_abs_upd [of a s] by (auto simp: at_worker_def worker_store_def Let_def)
  next
    case (TClose a)
    then show ?thesis using st ts_abs_upd [of a s] by (auto simp: at_worker_def worker_close_def Let_def)
  next
    case (TDelete a)
    show ?thesis
    proof (cases "at_worker a WClosed s")
      case True
      then have a: "a < length (ts_store s)" "pt_worker (ts_store s ! a) = WClosed" by (auto simp: at_worker_def)
      then obtain out where out: "pt_out (ts_store s ! a) = Some out"
        using ts_invD(1) [OF inv a(1)] by (auto simp: pending_ok_def)
      have "transfer_step (ts_abs s) ((ts_abs s)\<lparr>sp_open := (sp_open (ts_abs s))(pt_CallID (ts_store s ! a) := None)\<rparr>)"
        by (rule closes [of a _ _ "pt_TransferTo (ts_store s ! a)" out]) (use a out ts_invD(2) [OF inv] in \<open>auto simp: ts_abs_def\<close>)
      moreover have "ts_abs (worker_delete a s) = (ts_abs s)\<lparr>sp_open := (sp_open (ts_abs s))(pt_CallID (ts_store s ! a) := None)\<rparr>"
        using a(1) ts_abs_upd [of a s "(ts_store s ! a)\<lparr>pt_worker := WGone\<rparr>"]
        by (simp add: worker_delete_def Let_def ts_abs_def upd_pending_def)
      ultimately show ?thesis using st TDelete True by simp
    qed (use st TDelete in simp)
  next
    case (TReceive rid)
    then show ?thesis using st receive_simulates [OF inv] by (auto split: option.splits)
  next
    case (TCancel rid e)
    then show ?thesis using st refused [of "ts_abs s" rid] by (auto simp: ts_abs_return split: option.splits)
  qed
qed

lemma ts_init_inv: "ts_inv ts_init"
  by (simp add: ts_inv_def ts_init_def)

section \<open>What the service guarantees\<close>

text \<open>C4: the service of pending transfers, with its channel of capacity one, the outcome stored
  beside it and the four separate steps of the worker, implements the specification: every
  interleaving of requests, worker steps, receives and cancelled waits is, seen through the
  abstraction, a run in which a request opens a transfer, joins the open one with the same target
  or is refused, a transfer ends once, and a waiting request is answered with the outcome of its
  transfer.\<close>

theorem transfer_service_refines:
  assumes "run ts_step ops ts_init = Some s"
  shows "transfer_step\<^sup>*\<^sup>* (ts_abs ts_init) (ts_abs s)"
  by (rule transfer_service.run_refines [OF ts_init_inv assms])

definition demo_ts_ops :: "ts_op list" where
  "demo_ts_ops = [TRequest 0 ''SCL_1'' ''sip:a'' None, TRequest 1 ''SCL_1'' ''sip:a'' None, TRequest 2 ''SCL_1'' ''sip:b'' None,
     TSend 0 (failed_outcome (ESentinel errTransferCallEnded)), TReceive 1, TReceive 0, TStore 0, TClose 0, TReceive 0, TDelete 0,
     TRequest 3 ''SCL_1'' ''sip:b'' None]"

lemmas ts_eval = demo_ts_ops_def ts_init_def request_transfer_def getOrCreatePendingTransfer_def return_outcome_def
  newPendingTransfer_def worker_send_def worker_store_def worker_close_def worker_delete_def receive_outcome_def
  upd_pending_def at_worker_def failed_outcome_def zero_outcome_def Let_def

lemma demo_ts_run: "\<exists>s. run ts_step demo_ts_ops ts_init = Some s \<and>
    ts_log s = [(2, None, failed_outcome (EPsrpc InvalidArgument (ENew ''call already being transferred elsewhere''))),
      (1, Some 0, failed_outcome (ESentinel errTransferCallEnded)), (0, Some 0, failed_outcome (ESentinel errTransferCallEnded))] \<and>
    ts_pending s = [''SCL_1'' \<mapsto> 1]"
  by (simp add: ts_eval fun_eq_iff)

theorem transfer_service_refines_witness:
  "\<exists>s. run ts_step demo_ts_ops ts_init = Some s \<and> transfer_step\<^sup>*\<^sup>* (ts_abs ts_init) (ts_abs s)"
  using demo_ts_run transfer_service_refines by blast

definition log_agrees :: "transfer_spec \<Rightarrow> bool" where
  "log_agrees S \<longleftrightarrow> (\<forall>rid a out. (rid, Some a, out) \<in> set (sp_log S) \<longrightarrow> a < length (sp_transfers S) \<and> sp_outcome S a = Some out)"

lemma spec_log_agrees:
  assumes J: "log_agrees S" and st: "transfer_step S S'"
  shows "log_agrees S'"
  using st J
proof (cases rule: transfer_step.cases)
  case (ends a call to out)
  then have keep: "sp_outcome S b = Some out' \<Longrightarrow> sp_outcome S' b = Some out'" for b out'
    by (auto simp: sp_outcome_def nth_list_update)
  have "sp_log S' = sp_log S" "length (sp_transfers S') = length (sp_transfers S)" using ends(1) by simp_all
  then show ?thesis using J keep by (simp add: log_agrees_def)
qed (auto simp: log_agrees_def sp_outcome_def nth_append intro: less_SucI)

lemma ts_abs_log: "sp_log (ts_abs s) = ts_log s"
  by (simp add: ts_abs_def)

text \<open>Repeated requests for one transfer get the same answer: whatever the interleaving, two
  requests that were answered with the outcome of the same transfer returned the same identifier
  and the same error, also when the first of them took the value out of the channel and the others
  only saw it closed.\<close>

theorem transfer_waiters_agree:
  assumes "run ts_step ops ts_init = Some s"
    and "(r1, Some a, out1) \<in> set (ts_log s)" "(r2, Some a, out2) \<in> set (ts_log s)"
  shows "out1 = out2"
proof -
  have "log_agrees (ts_abs s)"
    by (rule transfer_service.transport [OF spec_log_agrees ts_init_inv _ assms(1)]) (simp_all add: log_agrees_def ts_abs_def ts_init_def)
  then have "sp_outcome (ts_abs s) a = Some out1" "sp_outcome (ts_abs s) a = Some out2"
    using assms(2,3) unfolding log_agrees_def ts_abs_log by blast+
  then show ?thesis by simp
qed

theorem transfer_waiters_agree_witness:
  "\<exists>s out1 out2. run ts_step demo_ts_ops ts_init = Some s \<and> (1, Some 0, out1) \<in> set (ts_log s) \<and>
     (0, Some 0, out2) \<in> set (ts_log s) \<and> out1 = out2"
proof -
  obtain s where s: "run ts_step demo_ts_ops ts_init = Some s"
    "(1, Some 0, failed_outcome (ESentinel errTransferCallEnded)) \<in> set (ts_log s)" "(0, Some 0, failed_outcome (ESentinel errTransferCallEnded)) \<in> set (ts_log s)"
    using demo_ts_run by auto
  then show ?thesis using transfer_waiters_agree [OF s] by blast
qed

lemma run_ts_inv: "run ts_step ops ts_init = Some s \<Longrightarrow> ts_inv s"
  by (rule transfer_service.run_keeps [OF ts_init_inv])

text \<open>C22: no request waits in vain: wherever the worker of the transfer is, once it has gone through
  its remaining steps the next receive of a waiting request returns, with the outcome the worker
  had, or now has, reached.\<close>

theorem transfer_waiters_answered:
  assumes "run ts_step ops ts_init = Some s" "ts_waiting s rid = Some a"
  shows "\<exists>s' out. run ts_step [TSend a new, TStore a, TClose a, TReceive rid] s = Some s' \<and>
    ts_log s' = ts_log s @ [(rid, Some a, out)] \<and> ts_waiting s' rid = None \<and>
    out = (case pt_out (ts_store s ! a) of Some old \<Rightarrow> old | None \<Rightarrow> new)"
proof -
  have inv: "ts_inv s" by (rule run_ts_inv [OF assms(1)])
  have a: "a < length (ts_store s)" by (rule ts_invD(3) [OF inv assms(2)])
  have ok: "pending_ok (ts_store s ! a)" by (rule ts_invD(1) [OF inv a])
  show ?thesis
    using a ok assms(2)
    by (cases "pt_worker (ts_store s ! a)"; cases "pt_Done (ts_store s ! a)"; cases "pt_Outcome (ts_store s ! a)")
      (auto simp: at_worker_def worker_send_def worker_store_def worker_close_def receive_outcome_def upd_pending_def
        return_outcome_def zero_outcome_def pending_ok_def Let_def)
qed

theorem transfer_waiters_answered_witness:
  "\<exists>s' out. run ts_step [TSend 0 zero_outcome, TStore 0, TClose 0, TReceive 5]
      (the (run ts_step [TRequest 5 ''SCL_1'' ''sip:a'' None] ts_init)) = Some s' \<and> ts_log s' = [(5, Some 0, out)]"
  using transfer_waiters_answered [of "[TRequest 5 ''SCL_1'' ''sip:a'' None]" _ 5 0 zero_outcome] by (simp add: ts_eval)

section \<open>What a transfer reports and counts\<close>

definition refer_completed :: "transfer_env \<Rightarrow> 32 word \<Rightarrow> bool" where
  "refer_completed x cseq \<longleftrightarrow> (\<exists>resp. sendRefer (xe_start x) (xe_tx x) = Some (Some resp, None) \<and> StatusCode resp \<in> {200, 202}) \<and>
     (\<exists>req info. XNotify req \<in> set (xe_events x) \<and> handleNotify req = Ok info \<and> niStatus info = 200 \<and>
        (niCSeq info = 0 \<or> niCSeq info = uint cseq))"

lemma refer_and_wait_success:
  assumes "refer_and_wait x cseq = Some None"
  shows "refer_completed x cseq" "xe_start x = None"
  using assms transfer_outcome_success
  by (fastforce simp: refer_and_wait_def refer_completed_def sendRefer_def split: option.splits sum.splits if_splits)+

lemma transferCall_inbound_success:
  assumes "transferCall_inbound x to c = Some r" "xr_err r = None"
  shows "refer_completed x (si_referCseq (ic_cc (xr_call r))) \<and>
    WRefer (si_referCseq (ic_cc (xr_call r))) to \<in> set (si_wire (ic_cc (xr_call r)))"
  using assms refer_and_wait_success
  by (auto simp: transferCall_inbound_def TransferCall_in_def newReferReq_def finish_transfer_def ic_state_def send_def Let_def
      split: if_splits option.splits)

lemma transferCall_outbound_success:
  assumes "transferCall_outbound x to c = Some r" "xr_err r = None"
  shows "refer_completed x (so_referCseq (oc_cc (xr_call r))) \<and>
    WRefer (so_referCseq (oc_cc (xr_call r))) to \<in> set (so_wire (oc_cc (xr_call r)))"
  using assms refer_and_wait_success
  by (auto simp: transferCall_outbound_def TransferCall_out_def transferCall_out_def finish_transfer_def oc_state_def osend_def Let_def
      split: if_splits option.splits prod.splits)

text \<open>C23: the service reports a completed transfer only when the peer confirmed it: if a transfer of
  a call comes back without an error, the call is known, a REFER to the requested target went out
  on its dialog, it was answered with 200 or 202, and a NOTIFY for the CSeq of that REFER (or with
  no id) reported 200.\<close>

theorem transfer_completed_end_to_end:
  assumes "processParticipantTransfer shortName x callID to km m = Some (km', m', out)" "to_Err out = None"
  shows "(\<exists>c. km_activeCalls km' callID = Some c \<and> refer_completed x (so_referCseq (oc_cc c)) \<and>
            WRefer (so_referCseq (oc_cc c)) to \<in> set (so_wire (oc_cc c))) \<or>
         (\<exists>c. km_byLocalTag km' callID = Some c \<and> refer_completed x (si_referCseq (ic_cc c)) \<and>
            WRefer (si_referCseq (ic_cc c)) to \<in> set (si_wire (ic_cc c)))"
  using assms transferCall_inbound_success transferCall_outbound_success
  by (auto simp: processParticipantTransfer_def split: option.splits)

definition demo_transfer_env :: transfer_env where
  "demo_transfer_env = \<lparr>xe_msg = (\<lambda>_. ''e''), xe_guid = ''T1'', xe_now = 5, xe_dialtone = False, xe_closing = False, xe_start = None,
     xe_tx = [TxResponse (Some \<lparr>StatusCode = 202, RespReason = ''Accepted'', RespHeader = Map.empty, RespBody = ''''\<rparr>)],
     xe_events = [XNotify notify_200], xe_over = False, xe_grpc = (\<lambda>_. Internal)\<rparr>"

definition demo_established :: callManager where
  "demo_established = demo_km\<lparr>km_byLocalTag := [''SCL_1'' \<mapsto> demo_call\<lparr>ic_cc := (ic_cc demo_call)\<lparr>si_invite := True, si_inviteOk := True,
     si_nextRequestCSeq := 7\<rparr>\<rparr>]\<rparr>"

definition zero_transfers :: transfer_metrics where
  "zero_transfers = \<lparr>transfersTotal = (\<lambda>_. 0), transfersActive = (\<lambda>_. 0), transfersSucceeded = (\<lambda>_. 0), transfersFailed = (\<lambda>_. 0)\<rparr>"

lemma demo_transfer:
  "\<exists>km' m'. processParticipantTransfer (\<lambda>_. ''s'') demo_transfer_env ''SCL_1'' ''sip:x'' demo_established zero_transfers =
     Some (km', m', \<lparr>to_TransferID = ''T1'', to_Err = None\<rparr>)"
  by (simp add: processParticipantTransfer_def demo_established_def newCallManager_def transferCall_inbound_def Let_def demo_transfer_env_def
      TransferCall_in_def newReferReq_def ic_state_def refer_and_wait_def sendRefer_def sipResponse_def transfer_outcome_def
      dialog_handleNotify_def notify_200_parsed handleReferNotify_def finish_transfer_def)

theorem transfer_completed_end_to_end_witness:
  "\<exists>km' m'. processParticipantTransfer (\<lambda>_. ''s'') demo_transfer_env ''SCL_1'' ''sip:x'' demo_established zero_transfers =
     Some (km', m', \<lparr>to_TransferID = ''T1'', to_Err = None\<rparr>) \<and>
     (\<exists>cseq. refer_completed demo_transfer_env cseq)"
proof -
  obtain km' m' where r: "processParticipantTransfer (\<lambda>_. ''s'') demo_transfer_env ''SCL_1'' ''sip:x'' demo_established zero_transfers =
     Some (km', m', \<lparr>to_TransferID = ''T1'', to_Err = None\<rparr>)" using demo_transfer by blast
  then show ?thesis using transfer_completed_end_to_end [OF r] by auto
qed


lemma count_result_once:
  "transfersActive (count_result sn dir err (TransferStarted dir m)) = transfersActive m"
  "transfersTotal (count_result sn dir err (TransferStarted dir m)) = bump (transfersTotal m) dir 1"
  "transfersSucceeded (count_result sn dir err (TransferStarted dir m)) =
     (if err = None then bump (transfersSucceeded m) dir 1 else transfersSucceeded m)"
  "transfersFailed (count_result sn dir err (TransferStarted dir m)) =
     (if err = None then transfersFailed m else bump (transfersFailed m) (dir, extractTransferErrorReason sn err) 1)"
  by (auto simp: count_result_def TransferStarted_def TransferFailed_def TransferSucceeded_def Let_def bump_back split: option.split)

text \<open>C25: a transfer of a call the manager knows is counted once as an attempt and once by its
  outcome, as a success or as a failure under the reason of its error, and no longer as active when
  it returns.\<close>

theorem transfer_counted_once:
  assumes "processParticipantTransfer sn x callID to km m = Some (km', m', out)"
    and "dir = ''outbound'' \<and> km_activeCalls km callID \<noteq> None \<or>
         dir = ''inbound'' \<and> km_activeCalls km callID = None \<and> km_byLocalTag km callID \<noteq> None"
  shows "transfersActive m' = transfersActive m \<and> transfersTotal m' = bump (transfersTotal m) dir 1 \<and>
    (case to_Err out of
       None \<Rightarrow> transfersSucceeded m' = bump (transfersSucceeded m) dir 1 \<and> transfersFailed m' = transfersFailed m
     | Some e \<Rightarrow> transfersSucceeded m' = transfersSucceeded m \<and>
         transfersFailed m' = bump (transfersFailed m) (dir, extractTransferErrorReason sn (Some e)) 1)"
  using assms by (auto simp: processParticipantTransfer_def count_result_once split: option.split)

theorem transfer_counted_once_witness:
  "\<exists>km' m' out. processParticipantTransfer (\<lambda>_. ''s'') demo_transfer_env ''SCL_1'' ''sip:x'' demo_established zero_transfers =
     Some (km', m', out) \<and> transfersTotal m' ''inbound'' = 1 \<and> transfersActive m' ''inbound'' = 0"
proof -
  obtain km' m' where r: "processParticipantTransfer (\<lambda>_. ''s'') demo_transfer_env ''SCL_1'' ''sip:x'' demo_established zero_transfers =
     Some (km', m', \<lparr>to_TransferID = ''T1'', to_Err = None\<rparr>)" using demo_transfer by blast
  then show ?thesis using transfer_counted_once [OF r, of "''inbound''"]
    by (auto simp: demo_established_def newCallManager_def zero_transfers_def bump_def)
qed

text \<open>A transfer whose call ended between the check of the request and its worker is counted as
  a failure without being counted as an attempt: the failures of a direction can outnumber its
  attempts.\<close>

theorem vanished_transfer_failure_uncounted_attempt:
  assumes "km_activeCalls km callID = None" "km_byLocalTag km callID = None"
  shows "\<exists>m' out. processParticipantTransfer sn x callID to km m = Some (km, m', out) \<and>
    transfersTotal m' = transfersTotal m \<and> transfersFailed m' = bump (transfersFailed m) (''inbound'', ''unknown_call'') 1"
  using assms by (simp add: processParticipantTransfer_def TransferFailed_def)

theorem vanished_transfer_failure_uncounted_attempt_witness:
  "\<exists>m' out. processParticipantTransfer (\<lambda>_. ''s'') demo_transfer_env ''SCL_9'' ''sip:x'' demo_km zero_transfers = Some (demo_km, m', out) \<and>
    transfersTotal m' ''inbound'' = 0 \<and> transfersFailed m' (''inbound'', ''unknown_call'') = 1"
  using vanished_transfer_failure_uncounted_attempt [of demo_km "''SCL_9''" "\<lambda>_. ''s''" demo_transfer_env "''sip:x''" zero_transfers]
  by (auto simp: newCallManager_def zero_transfers_def bump_def)

end
