(* ===== verification/Client.thy ===== *)
theory Client
  imports ManagerRun
begin

text \<open>
  Creation of SIP participants (client.go, media\_codecs.go, features.go): the request URI and the
  From and To headers of an outbound call, its media configuration, and \<open>createSIPParticipant\<close>,
  which creates the call, dials it and reports its status.

  Code outside the repository is a parameter: the URI parser and the parameter list of the SIP
  stack, the names of the transports, the codec set of the media package, the upgrade of legacy
  request fields. Messages of errors are kept, except that \<open>%q\<close> only adds the quotes.
\<close>

section \<open>Feature flags\<close>

definition ParseBool :: "string \<Rightarrow> bool option" where
  "ParseBool s = (if s \<in> {''1'', ''t'', ''T'', ''TRUE'', ''true'', ''True''} then Some True
     else if s \<in> {''0'', ''f'', ''F'', ''FALSE'', ''false'', ''False''} then Some False else None)"

definition featureFlagEnabled :: "(string \<rightharpoonup> string) \<Rightarrow> string \<Rightarrow> bool" where
  "featureFlagEnabled flags flag = (case ParseBool (case flags flag of Some v \<Rightarrow> v | None \<Rightarrow> '''') of
     Some b \<Rightarrow> b | None \<Rightarrow> False)"

section \<open>URIs\<close>

record uri_env =
  ue_trName :: "SIPTransport \<Rightarrow> string"
  ue_parse :: "string \<Rightarrow> sip_uri option"
  ue_add :: "params \<Rightarrow> string \<Rightarrow> string \<Rightarrow> params"

datatype dest = DestRaw string | DestValues SIPUri | DestUnset

record SIPNamedDest =
  nd_DisplayName :: string
  nd_Uri :: dest

record named_header =
  nh_Address :: sip_uri
  nh_DisplayName :: string

fun transport_String :: "SIPTransport \<Rightarrow> string" where
  "transport_String SIP_TRANSPORT_AUTO = ''SIP_TRANSPORT_AUTO''"
| "transport_String SIP_TRANSPORT_UDP = ''SIP_TRANSPORT_UDP''"
| "transport_String SIP_TRANSPORT_TCP = ''SIP_TRANSPORT_TCP''"
| "transport_String SIP_TRANSPORT_TLS = ''SIP_TRANSPORT_TLS''"

definition quote :: "string \<Rightarrow> string" where
  "quote s = [CHR 0x22] @ s @ [CHR 0x22]"

definition setUriTransport :: "uri_env \<Rightarrow> SIPTransport \<Rightarrow> sip_uri \<Rightarrow> sip_uri" where
  "setUriTransport x tr p = (if tr \<noteq> SIP_TRANSPORT_AUTO
     then p\<lparr>UriParams := ue_add x (UriParams p) ''transport'' (ue_trName x tr)\<rparr> else p)"

definition empty_uri :: sip_uri where
  "empty_uri = \<lparr>User = '''', Host = '''', Port = 0, UriParams = []\<rparr>"

definition buildLegacyURI :: "uri_env \<Rightarrow> string \<Rightarrow> string \<Rightarrow> SIPTransport \<Rightarrow> (go_error, sip_uri) result" where
  "buildLegacyURI x user addr tr =
     (if user = '''' then Err (ENew ''number must be set'')
      else if CHR ''@'' \<in> set user then Err (ENew ''should be a phone number or SIP user, not a full SIP URI'')
      else if addr = '''' then Err (ENew ''address must be set'')
      else if HasPrefix addr ''sip:'' \<or> HasPrefix addr ''sips:'' then
        Err (ENew ''address must be a hostname without 'sip:' prefix'')
      else if Contains addr ''transport='' then Err (ENew ''legacy address must not contain parameters; use transport field'')
      else if CHR '';'' \<in> set addr \<or> CHR ''='' \<in> set addr then Err (ENew ''legacy address must not contain parameters'')
      else (let p = (setUriTransport x tr empty_uri)\<lparr>User := user\<rparr> in
        case SplitHostPort addr of
          Some (host, sport) \<Rightarrow>
            if sport \<noteq> '''' then (case Atoi sport of
                (port, None) \<Rightarrow> Ok (p\<lparr>Host := host, Port := port\<rparr>)
              | (_, Some _) \<Rightarrow> Err (ENew (''invalid port in hostname: '' @ quote sport)))
            else Ok (p\<lparr>Host := addr\<rparr>)
        | None \<Rightarrow> Ok (p\<lparr>Host := addr\<rparr>)))"

definition buildRawURI :: "uri_env \<Rightarrow> string \<Rightarrow> SIPTransport \<Rightarrow> (go_error, sip_uri) result" where
  "buildRawURI x raw0 tr = (let
     raw = (if raw0 \<noteq> '''' \<and> hd raw0 = CHR ''<'' \<and> last raw0 = CHR ''>'' then butlast (tl raw0) else raw0)
   in case ue_parse x raw of
        None \<Rightarrow> Err (ENew ''invalid request URI'')
      | Some p \<Rightarrow> Ok (setUriTransport x tr p))"

definition merge_transport :: "SIPTransport \<Rightarrow> SIPTransport \<Rightarrow> (go_error, SIPTransport) result" where
  "merge_transport tr u = (if tr \<noteq> u then
       if u = SIP_TRANSPORT_AUTO then Ok tr
       else if tr = SIP_TRANSPORT_AUTO then Ok u
       else Err (ENew (''different transports specified: '' @ transport_String tr @ '' vs '' @ transport_String u))
     else Ok tr)"

definition buildValuesURI :: "uri_env \<Rightarrow> SIPUri \<Rightarrow> SIPTransport \<Rightarrow> (go_error, sip_uri) result" where
  "buildValuesURI x u tr0 = (case merge_transport tr0 (sTransport u) of
     Inl e \<Rightarrow> Err e
   | Inr tr \<Rightarrow> (let p = setUriTransport x tr empty_uri in
       if sUser u = '''' then Err (ENew ''username or number must be set'')
       else if sHost u = '''' \<and> sIp u = '''' then Err (ENew ''host or ip must be set'')
       else (let host = (if sHost u = '''' then sIp u else sHost u) in
         case SplitHostPort host of
           Some (_, sport) \<Rightarrow> if sport \<noteq> '''' then Err (ENew ''host or ip must not contain port'')
             else Ok (p\<lparr>User := sUser u, Host := host, Port := sPort u\<rparr>)
         | None \<Rightarrow> Ok (p\<lparr>User := sUser u, Host := host, Port := sPort u\<rparr>))))"

definition buildRequestURI :: "uri_env \<Rightarrow> dest option \<Rightarrow> string \<Rightarrow> string \<Rightarrow> SIPTransport \<Rightarrow> (go_error, sip_uri) result" where
  "buildRequestURI x u legacyUser legacyAddr tr = (case u of
     None \<Rightarrow> buildLegacyURI x legacyUser legacyAddr tr
   | Some (DestRaw raw) \<Rightarrow> buildRawURI x raw tr
   | Some (DestValues v) \<Rightarrow> buildValuesURI x v tr
   | Some DestUnset \<Rightarrow> Err (ENew ''invalid request URI type''))"

definition buildFromToURI :: "uri_env \<Rightarrow> SIPNamedDest option \<Rightarrow> string \<Rightarrow> string \<Rightarrow> SIPTransport \<Rightarrow> (go_error, sip_uri) result" where
  "buildFromToURI x u legacyUser legacyAddr tr = (case u of
     None \<Rightarrow> buildLegacyURI x legacyUser legacyAddr tr
   | Some d \<Rightarrow> (case nd_Uri d of
       DestRaw raw \<Rightarrow> buildRawURI x raw tr
     | DestValues v \<Rightarrow> buildValuesURI x v tr
     | DestUnset \<Rightarrow> Err (ENew ''invalid URI type'')))"

definition buildFromHeader ::
  "uri_env \<Rightarrow> SIPNamedDest option \<Rightarrow> string option \<Rightarrow> string \<Rightarrow> string \<Rightarrow> SIPTransport \<Rightarrow> (go_error, named_header) result" where
  "buildFromHeader x u legacyName legacyUser legacyAddr tr = (case buildFromToURI x u legacyUser legacyAddr tr of
     Inl e \<Rightarrow> Err e
   | Inr su \<Rightarrow> Ok \<lparr>nh_Address = su, nh_DisplayName = (case u of
         Some d \<Rightarrow> nd_DisplayName d
       | None \<Rightarrow> (case legacyName of Some n \<Rightarrow> n | None \<Rightarrow> User su))\<rparr>)"

definition token_char :: "char \<Rightarrow> bool" where
  "token_char c \<longleftrightarrow> of_char c \<in> ({48..57} \<union> {97..122} \<union> {65..90} :: nat set) \<or> c \<in> set ''-.!%*_+`'~''"

definition isSIPUserToken :: "string \<Rightarrow> bool" where
  "isSIPUserToken s \<longleftrightarrow> list_all token_char s"

definition buildToHeader ::
  "uri_env \<Rightarrow> SIPNamedDest option \<Rightarrow> string \<Rightarrow> string \<Rightarrow> string \<Rightarrow> SIPTransport \<Rightarrow> (go_error, named_header) result" where
  "buildToHeader x u userOverride legacyUser legacyAddr tr =
     (if u \<noteq> None \<and> legacyUser \<noteq> '''' then Err (ENew ''cannot use both CallTo and SipToHeader'')
      else (case buildFromToURI x u legacyUser legacyAddr tr of
          Inl e \<Rightarrow> Err e
        | Inr su \<Rightarrow>
            if userOverride \<noteq> '''' \<and> \<not> isSIPUserToken userOverride then
              Err (ENew ''to user override should be a phone number or SIP user, not a full SIP URI'')
            else Ok \<lparr>nh_Address = (if userOverride \<noteq> '''' then su\<lparr>User := userOverride\<rparr> else su),
              nh_DisplayName = (case u of Some d \<Rightarrow> nd_DisplayName d | None \<Rightarrow> '''')\<rparr>))"

section \<open>Media configuration\<close>

datatype SIPMediaEncryption = SIP_MEDIA_ENCRYPT_DISABLE | SIP_MEDIA_ENCRYPT_ALLOW | SIP_MEDIA_ENCRYPT_REQUIRE | SIP_MEDIA_ENCRYPT_OTHER int

datatype Encryption = EncryptionNone | EncryptionAllow | EncryptionRequire

fun sdpEncryption :: "SIPMediaEncryption option \<Rightarrow> (go_error, Encryption) result" where
  "sdpEncryption None = Ok EncryptionNone"
| "sdpEncryption (Some SIP_MEDIA_ENCRYPT_DISABLE) = Ok EncryptionNone"
| "sdpEncryption (Some SIP_MEDIA_ENCRYPT_ALLOW) = Ok EncryptionAllow"
| "sdpEncryption (Some SIP_MEDIA_ENCRYPT_REQUIRE) = Ok EncryptionRequire"
| "sdpEncryption (Some (SIP_MEDIA_ENCRYPT_OTHER n)) = Err (ENew ''invalid SIP media encryption type'')"

text \<open>The codec set of the media package: the empty set, the set inheriting from the defaults, and
  the operation that enables or disables a codec by name.\<close>

record 'cs codec_ops =
  co_empty :: 'cs
  co_defaults :: 'cs
  co_set :: "string \<Rightarrow> bool \<Rightarrow> 'cs \<Rightarrow> 'cs"
  co_amrwb :: string
  co_dtmf :: string

record SIPMediaConfig =
  mc_Encryption :: "SIPMediaEncryption option"
  mc_OnlyListedCodecs :: bool
  mc_Codecs :: "string list"
  mc_MediaTimeout :: "int option"
  mc_DropAudioDuringDtmf :: bool

record 'cs sipMediaConfig =
  sm_Encryption :: Encryption
  sm_Codecs :: 'cs
  sm_MediaTimeout :: int
  sm_DropAudioDuringDTMF :: bool

fun enable_codecs :: "'cs codec_ops \<Rightarrow> string list \<Rightarrow> 'cs \<Rightarrow> (go_error, 'cs) result" where
  "enable_codecs o' [] s = Ok s"
| "enable_codecs o' (name # names) s = (if name = '''' then Err (ENew ''no codec name specified'')
     else enable_codecs o' names (co_set o' name True s))"

definition codecSet :: "'cs codec_ops \<Rightarrow> SIPMediaConfig \<Rightarrow> (go_error, 'cs) result" where
  "codecSet o' m = (if mc_OnlyListedCodecs m \<and> mc_Codecs m = [] then Err (ENew ''no codecs specified'')
     else (case enable_codecs o' (mc_Codecs m) (if mc_OnlyListedCodecs m then co_empty o' else co_defaults o') of
         Inl e \<Rightarrow> Err e
       | Inr s \<Rightarrow> Ok (co_set o' (co_dtmf o') True (co_set o' (co_amrwb o') False s))))"

definition newMediaConfig :: "'cs codec_ops \<Rightarrow> SIPMediaConfig \<Rightarrow> int \<Rightarrow> (go_error, 'cs sipMediaConfig) result" where
  "newMediaConfig o' m defaultTimeout = (case sdpEncryption (mc_Encryption m) of
     Inl e \<Rightarrow> Err e
   | Inr enc \<Rightarrow> (case codecSet o' m of
       Inl e \<Rightarrow> Err e
     | Inr s \<Rightarrow> Ok \<lparr>sm_Encryption = enc, sm_Codecs = s,
         sm_MediaTimeout = (case mc_MediaTimeout m of Some t \<Rightarrow> if t > 0 then t else defaultTimeout | None \<Rightarrow> defaultTimeout),
         sm_DropAudioDuringDTMF = mc_DropAudioDuringDtmf m\<rparr>))"

section \<open>Creating a participant\<close>

record create_request =
  cr_RoomName :: string
  cr_SipCallId :: string
  cr_SipTrunkId :: string
  cr_SipRequestUri :: "dest option"
  cr_SipToHeader :: "SIPNamedDest option"
  cr_SipFromHeader :: "SIPNamedDest option"
  cr_CallTo :: string
  cr_Address :: string
  cr_Number :: string
  cr_Hostname :: string
  cr_DisplayName :: "string option"
  cr_ToUserOverride :: string
  cr_Transport :: SIPTransport
  cr_Media :: SIPMediaConfig
  cr_FeatureFlags :: "string \<rightharpoonup> string"
  cr_WaitUntilAnswered :: bool

definition buildOutboundHeaders ::
  "uri_env \<Rightarrow> create_request \<Rightarrow> string \<Rightarrow> (go_error, sip_uri \<times> named_header \<times> named_header) result" where
  "buildOutboundHeaders x req defaultHost =
     (case buildRequestURI x (cr_SipRequestUri req) (cr_CallTo req) (cr_Address req) (cr_Transport req) of
        Inl e \<Rightarrow> Err (EPsrpc InvalidArgument (EWrap ''invalid request URI'' e))
      | Inr uri \<Rightarrow> (case buildToHeader x (cr_SipToHeader req) (cr_ToUserOverride req) (cr_CallTo req) (cr_Address req) (cr_Transport req) of
          Inl e \<Rightarrow> Err (EPsrpc InvalidArgument (EWrap ''invalid To header'' e))
        | Inr to \<Rightarrow> (let fromHost = (if cr_Hostname req = '''' then defaultHost else cr_Hostname req) in
            case buildFromHeader x (cr_SipFromHeader req) (cr_DisplayName req) (cr_Number req) fromHost (cr_Transport req) of
              Inl e \<Rightarrow> Err (EPsrpc InvalidArgument (EWrap ''invalid From header'' e))
            | Inr from \<Rightarrow> Ok (uri, from, to))))"

text \<open>The fields of the call's information that later operations read; the others are copied from
  the request and the configuration.\<close>

definition createSIPCallInfo :: "create_request \<Rightarrow> SIPCallInfo" where
  "createSIPCallInfo req = \<lparr>CallId = cr_SipCallId req, SipCallId = '''', ciDirection = SCD_OUTBOUND, TrunkId = cr_SipTrunkId req,
     RoomId = '''', DispatchRuleId = '''', ciStatus = SCS_CALL_INCOMING, ciStatusCode = None, ciError = '''', ciReason = UNKNOWN_REASON,
     StartedAtNs = 0, EndedAtNs = 0\<rparr>"

text \<open>What the deferred function of \<open>createSIPParticipant\<close> does to the call's information.\<close>

definition created_info :: "(go_error \<Rightarrow> string) \<Rightarrow> go_error option \<Rightarrow> SIPCallInfo \<Rightarrow> SIPCallInfo" where
  "created_info msg retErr info = (case retErr of
     None \<Rightarrow> info\<lparr>ciStatus := SCS_PARTICIPANT_JOINED\<rparr>
   | Some e \<Rightarrow> info\<lparr>ciStatus := SCS_ERROR, ciReason := UNKNOWN_REASON, ciError := msg e\<rparr>)"

record 'cs create_env =
  ce_uri :: uri_env
  ce_health :: HealthStatus
  ce_upgrade :: "create_request \<Rightarrow> create_request"
  ce_ports :: sip_ports
  ce_ip :: "string option"
  ce_codecs :: "'cs codec_ops"
  ce_mediaTimeout :: int
  ce_events :: bool
  ce_hash :: "string \<Rightarrow> string"
  ce_routeHeaders :: "string list"
  ce_provider :: string

definition ErrUnavailable :: go_error where
  "ErrUnavailable = EPsrpc Unavailable (ENew ''cpu exhausted'')"

text \<open>The result is the manager, the call as the request leaves it (also when it failed and is no
  longer registered), and the identifier of the call or the error. \<open>e\<close> is the environment of the
  creation of the call, \<open>e'\<close> that of dialling it. An asynchronous dial is a later step of the
  manager.\<close>

definition createSIPParticipant ::
  "'cs create_env \<Rightarrow> oc_env \<Rightarrow> oc_env \<Rightarrow> create_request \<Rightarrow> callManager \<Rightarrow>
   (callManager \<times> outboundCall option \<times> (go_error, string) result) option" where
  "createSIPParticipant x e e' req0 km =
     (if ce_health x \<noteq> HealthOK then Some (km, None, Err ErrUnavailable)
      else (let req = ce_upgrade x req0 in
        if cr_RoomName req = '''' then Some (km, None, Err (EPsrpc InvalidArgument (ENew ''room name must be set'')))
        else (let defaultHost = GetHost (getContactURI (ce_ports x) (ce_ip x) (TransportFrom (cr_Transport req))) in
          case newMediaConfig (ce_codecs x) (cr_Media req) (ce_mediaTimeout x) of
            Inl err \<Rightarrow> Some (km, None, Err err)
          | Inr mconf \<Rightarrow> (case buildOutboundHeaders (ce_uri x) req defaultHost of
              Inl err \<Rightarrow> Some (km, None, Err err)
            | Inr (uri, from, to) \<Rightarrow> (let
                tag = cr_SipCallId req;
                rhs = (if cr_FeatureFlags req ''sip.outbound_route_headers'' = Some ''true'' then ce_routeHeaders x else []);
                srv = featureFlagEnabled (cr_FeatureFlags req) ''sip.outbound_prefer_srv'';
                done = (\<lambda>c err. (let c1 = oc_state (Update (created_info (oe_msg e) err)) c in
                  (store_outbound tag c1 km, Some c1, (case err of None \<Rightarrow> Ok tag | Some er \<Rightarrow> Err er))))
              in case newCall e (ce_hash x) tag uri rhs srv (NewCallState (ce_events x) (createSIPCallInfo req))
                        (Host (nh_Address to)) (ce_provider x) (km_metrics km) of
                   None \<Rightarrow> None
                 | Some (c, Some err) \<Rightarrow> Some (done c (Some err))
                 | Some (c, None) \<Rightarrow>
                     if \<not> cr_WaitUntilAnswered req then Some (done c None)
                     else map_option (\<lambda>(d, err). done d err) (Dial e' c))))))"

section \<open>The addresses of an outbound call\<close>

definition overwrites :: "(params \<Rightarrow> string \<Rightarrow> string \<Rightarrow> params) \<Rightarrow> bool" where
  "overwrites add \<longleftrightarrow> (\<forall>ps k v. get_param (add ps k v) k = v)"

lemma setUriTransport_param:
  "overwrites (ue_add x) \<Longrightarrow> tr \<noteq> SIP_TRANSPORT_AUTO \<Longrightarrow> get_param (UriParams (setUriTransport x tr p)) ''transport'' = ue_trName x tr"
  by (simp add: setUriTransport_def overwrites_def)

lemma setUriTransport_fields [simp]:
  "User (setUriTransport x tr p) = User p" "Host (setUriTransport x tr p) = Host p" "Port (setUriTransport x tr p) = Port p"
  by (simp_all add: setUriTransport_def)

lemma build_transport:
  assumes "overwrites (ue_add x)" "tr \<noteq> SIP_TRANSPORT_AUTO"
  shows "buildLegacyURI x user addr tr = Ok p \<Longrightarrow> get_param (UriParams p) ''transport'' = ue_trName x tr"
    "buildRawURI x raw tr = Ok p \<Longrightarrow> get_param (UriParams p) ''transport'' = ue_trName x tr"
    "buildValuesURI x v tr = Ok p \<Longrightarrow> get_param (UriParams p) ''transport'' = ue_trName x tr"
  using setUriTransport_param [OF assms]
  by (auto simp: buildLegacyURI_def buildRawURI_def buildValuesURI_def merge_transport_def Let_def assms(2)
      split: if_splits option.splits prod.splits sum.splits)

lemma buildFromToURI_transport:
  assumes "overwrites (ue_add x)" "tr \<noteq> SIP_TRANSPORT_AUTO" "buildFromToURI x u user addr tr = Ok p"
  shows "get_param (UriParams p) ''transport'' = ue_trName x tr"
  using assms(3) build_transport [OF assms(1,2)]
  by (auto simp: buildFromToURI_def split: option.splits dest.splits)

text \<open>An outbound call uses the transport it was asked to use: when the request names one, the
  request URI, the To and the From header all carry it, whether they are given as raw URIs, as
  values or by the legacy fields; a URI given by values with another transport is refused. The
  hypothesis is the SIP stack's promise that adding a parameter sets it.\<close>

theorem outbound_transport_kept:
  assumes "overwrites (ue_add x)" "cr_Transport req \<noteq> SIP_TRANSPORT_AUTO"
    and "buildOutboundHeaders x req host = Ok (uri, from, to)"
  shows "get_param (UriParams uri) ''transport'' = ue_trName x (cr_Transport req) \<and>
    get_param (UriParams (nh_Address from)) ''transport'' = ue_trName x (cr_Transport req) \<and>
    get_param (UriParams (nh_Address to)) ''transport'' = ue_trName x (cr_Transport req) \<and>
    (\<forall>v. cr_SipRequestUri req = Some (DestValues v) \<longrightarrow> sTransport v \<in> {SIP_TRANSPORT_AUTO, cr_Transport req})"
proof -
  note b = build_transport [OF assms(1,2)] and ft = buildFromToURI_transport [OF assms(1,2)]
  have u: "buildRequestURI x (cr_SipRequestUri req) (cr_CallTo req) (cr_Address req) (cr_Transport req) = Ok uri"
    and t: "buildToHeader x (cr_SipToHeader req) (cr_ToUserOverride req) (cr_CallTo req) (cr_Address req) (cr_Transport req) = Ok to"
    and f: "\<exists>h. buildFromHeader x (cr_SipFromHeader req) (cr_DisplayName req) (cr_Number req) h (cr_Transport req) = Ok from"
    using assms(3) by (auto simp: buildOutboundHeaders_def Let_def split: sum.splits)
  have "get_param (UriParams uri) ''transport'' = ue_trName x (cr_Transport req)"
    using u b by (auto simp: buildRequestURI_def split: option.splits dest.splits)
  moreover have "get_param (UriParams (nh_Address to)) ''transport'' = ue_trName x (cr_Transport req)"
    using t ft by (auto simp: buildToHeader_def split: if_splits sum.splits)
  moreover have "get_param (UriParams (nh_Address from)) ''transport'' = ue_trName x (cr_Transport req)"
    using f ft by (force simp: buildFromHeader_def split: sum.splits)
  moreover have "sTransport v \<in> {SIP_TRANSPORT_AUTO, cr_Transport req}" if "cr_SipRequestUri req = Some (DestValues v)" for v
    using u that assms(2) by (auto simp: buildRequestURI_def buildValuesURI_def merge_transport_def split: sum.splits if_splits)
  ultimately show ?thesis by blast
qed

definition demo_uri_env :: uri_env where
  "demo_uri_env = \<lparr>ue_trName = (\<lambda>tr. TransportFrom tr), ue_parse = (\<lambda>_. None), ue_add = (\<lambda>ps k v. (k, v) # ps)\<rparr>"

definition demo_media_config :: SIPMediaConfig where
  "demo_media_config = \<lparr>mc_Encryption = None, mc_OnlyListedCodecs = True, mc_Codecs = [''PCMU'', ''AMR-WB''], mc_MediaTimeout = None,
     mc_DropAudioDuringDtmf = False\<rparr>"

definition demo_create :: "bool \<Rightarrow> create_request" where
  "demo_create wait = \<lparr>cr_RoomName = ''room'', cr_SipCallId = ''SCL_1'', cr_SipTrunkId = '''', cr_SipRequestUri = None, cr_SipToHeader = None,
     cr_SipFromHeader = None, cr_CallTo = ''+15551'', cr_Address = ''sip.example.com:5070'', cr_Number = ''+15552'', cr_Hostname = ''me'',
     cr_DisplayName = None, cr_ToUserOverride = '''', cr_Transport = SIP_TRANSPORT_TLS, cr_Media = demo_media_config,
     cr_FeatureFlags = Map.empty, cr_WaitUntilAnswered = wait\<rparr>"

lemma demo_atoi: "Atoi ''5070'' = (5070, None)"
  by code_simp

lemma demo_headers: "\<exists>uri from to. buildOutboundHeaders demo_uri_env (demo_create w) host = Ok (uri, from, to) \<and> Host (nh_Address to) = ''sip.example.com''"
proof -
  have s: "SplitHostPort ''sip.example.com:5070'' = Some (''sip.example.com'', ''5070'')"
    "SplitHostPort ''me'' = None" by code_simp+
  have "\<not> Contains ''sip.example.com:5070'' ''transport=''" "\<not> Contains ''me'' ''transport=''" by code_simp+
  then show ?thesis using s demo_atoi
    by (simp add: buildOutboundHeaders_def buildRequestURI_def buildToHeader_def buildFromHeader_def buildFromToURI_def buildLegacyURI_def
        demo_create_def HasPrefix_def Let_def)
qed

theorem outbound_transport_kept_witness:
  "\<exists>uri from to. buildOutboundHeaders demo_uri_env (demo_create True) '''' = Ok (uri, from, to) \<and>
     get_param (UriParams uri) ''transport'' = ''tls''"
proof -
  obtain uri fr to where h: "buildOutboundHeaders demo_uri_env (demo_create True) '''' = Ok (uri, fr, to)"
    using demo_headers by blast
  have "overwrites (ue_add demo_uri_env)" by (simp add: overwrites_def demo_uri_env_def get_param_def)
  from outbound_transport_kept [OF this _ h] h show ?thesis by (auto simp: demo_create_def demo_uri_env_def transport_defs)
qed

lemma HasPrefix_char: "HasPrefix s p \<Longrightarrow> set p \<subseteq> set s"
  unfolding HasPrefix_def by (metis set_take_subset)

lemma Contains_char: "Contains s p \<Longrightarrow> set p \<subseteq> set s"
proof (induction s p rule: Contains.induct)
  case (2 x xs p)
  then show ?case using HasPrefix_char [of "x # xs" p] by auto
qed simp

lemma HasPrefix_colon:
  assumes "HasPrefix (h @ CHR '':'' # s) (p @ '':'')" "CHR '':'' \<notin> set h" "CHR '':'' \<notin> set p"
  shows "h = p"
proof (cases "length p < length h")
  case True
  then have "CHR '':'' \<in> set (take (Suc (length p)) h)" using assms(1) by (simp add: HasPrefix_def)
  then show ?thesis using assms(2) by (auto dest: in_set_takeD)
next
  case False
  then obtain t where t: "h @ CHR '':'' # t = p @ '':''" using assms(1) by (auto simp: HasPrefix_def Suc_diff_le)
  then show ?thesis
  proof (cases t rule: rev_cases)
    case (snoc u c)
    then have "p = h @ CHR '':'' # u" using t by simp
    then show ?thesis using assms(3) by simp
  qed simp
qed

text \<open>C27: the legacy address of an outbound call is taken apart and put together without loss: for a
  host name and a port, the URI built from \<open>host:port\<close> has exactly that user, host and port, and
  the destination computed from it (the host and port of its converted form) is \<open>host:port\<close> again.\<close>

theorem legacy_address_roundtrip:
  assumes "user \<noteq> ''''" "CHR ''@'' \<notin> set user" "0 < port" "port < 2 ^ 16"
    and "h \<noteq> ''''" "set h \<inter> set '':[];='' = {}"
    and "h \<noteq> ''sip''" "h \<noteq> ''sips''"
  shows "\<exists>p. buildLegacyURI x user (h @ '':'' @ Itoa port) tr = Ok p \<and> User p = user \<and> Host p = h \<and> Port p = port \<and>
    GetHostPort (ConvertURI p) = h @ '':'' @ Itoa port"
proof -
  let ?a = "h @ '':'' @ Itoa port"
  have i: "c \<notin> set (Itoa port)" if "c \<in> set '':[];=''" for c
    using that by (intro Itoa_not_in) auto
  have split: "SplitHostPort ?a = Some (h, Itoa port)"
    by (rule SplitHostPort_plain) (use assms(6) i in auto)
  have h': "SplitHostPort h = None"
    using assms(6) by (simp add: SplitHostPort_def Cut_def)
  have semi: "CHR '';'' \<notin> set ?a" "CHR ''='' \<notin> set ?a" using assms(6) i by auto
  have pre: "\<not> HasPrefix ?a ''sip:''" "\<not> HasPrefix ?a ''sips:''"
    using HasPrefix_colon [of h "Itoa port" "''sip''"] HasPrefix_colon [of h "Itoa port" "''sips''"] assms(6-8) by auto
  have con: "\<not> Contains ?a ''transport=''" using Contains_char [of ?a "''transport=''"] semi(2) by auto
  have "Itoa port \<noteq> ''''" using Atoi_Itoa [of port] assms(3,4) by (auto simp: Atoi_def ParseInt_def)
  then have p: "buildLegacyURI x user ?a tr = Ok ((setUriTransport x tr empty_uri)\<lparr>User := user, Host := h, Port := port\<rparr>)"
    using assms(1,2,5) semi pre con split Atoi_Itoa [of port] assms(3,4) by (simp add: buildLegacyURI_def Let_def)
  have "GetHostPort (ConvertURI ((setUriTransport x tr empty_uri)\<lparr>User := user, Host := h, Port := port\<rparr>)) = h @ '':'' @ Itoa port"
    using assms(3-5) h' by (simp add: ConvertURI_def Let_def Normalize_def GetHostPort_def GetHost_def GetPort_def to_uint16_id)
  then show ?thesis using p by simp
qed

theorem legacy_address_roundtrip_witness:
  "\<exists>p. buildLegacyURI demo_uri_env ''bob'' (''sip.example.com'' @ '':'' @ Itoa 5070) SIP_TRANSPORT_TCP = Ok p \<and> Host p = ''sip.example.com''"
  using legacy_address_roundtrip [of "''bob''" 5070 "''sip.example.com''" demo_uri_env SIP_TRANSPORT_TCP] by auto

section \<open>Codecs\<close>

definition codec_laws :: "'cs codec_ops \<Rightarrow> ('cs \<Rightarrow> string \<Rightarrow> bool) \<Rightarrow> bool" where
  "codec_laws o' enabled \<longleftrightarrow> co_amrwb o' \<noteq> co_dtmf o' \<and> (\<forall>n. \<not> enabled (co_empty o') n) \<and>
     (\<forall>n b s m. enabled (co_set o' n b s) m = (if m = n then b else enabled s m))"

lemma enable_codecs_enabled:
  assumes "codec_laws o' enabled"
  shows "enable_codecs o' names s = Ok s' \<Longrightarrow> enabled s' n = (n \<in> set names \<or> enabled s n)"
proof (induction names arbitrary: s)
  case (Cons a names)
  then have "enabled s' n = (n \<in> set names \<or> enabled (co_set o' a True s) n)" by (auto split: if_splits)
  then show ?case using assms by (auto simp: codec_laws_def)
qed simp

text \<open>A call negotiates the codecs it was configured with: AMR-WB never, telephone events always,
  and of the others exactly the listed ones, together with the defaults unless only the listed ones
  are allowed. The hypotheses are the codec set's documented behaviour: the new set is empty, and
  enabling or disabling a name changes that name only.\<close>

theorem codec_set_configured:
  assumes "codec_laws o' enabled" "codecSet o' m = Ok s"
  shows "enabled s n = (n \<noteq> co_amrwb o' \<and> (n = co_dtmf o' \<or> n \<in> set (mc_Codecs m) \<or>
    \<not> mc_OnlyListedCodecs m \<and> enabled (co_defaults o') n))"
proof -
  from assms(2) obtain s1 where s1: "enable_codecs o' (mc_Codecs m) (if mc_OnlyListedCodecs m then co_empty o' else co_defaults o') = Ok s1"
    "s = co_set o' (co_dtmf o') True (co_set o' (co_amrwb o') False s1)"
    by (auto simp: codecSet_def split: if_splits sum.splits)
  show ?thesis using enable_codecs_enabled [OF assms(1) s1(1)] assms(1) s1(2) by (auto simp: codec_laws_def)
qed

definition demo_codecs :: "(string list) codec_ops" where
  "demo_codecs = \<lparr>co_empty = [], co_defaults = [''PCMU'', ''PCMA''], co_set = (\<lambda>n b s. if b then n # s else removeAll n s),
     co_amrwb = ''AMR-WB'', co_dtmf = ''telephone-event''\<rparr>"

theorem codec_set_configured_witness:
  "\<exists>s. codecSet demo_codecs demo_media_config = Ok s \<and> ''AMR-WB'' \<notin> set s \<and> ''PCMU'' \<in> set s \<and> ''PCMA'' \<notin> set s"
proof -
  have l: "codec_laws demo_codecs (\<lambda>s n. n \<in> set s)" by (auto simp: codec_laws_def demo_codecs_def)
  obtain s where s: "codecSet demo_codecs demo_media_config = Ok s"
    by (simp add: codecSet_def demo_media_config_def)
  from codec_set_configured [OF l s] s show ?thesis by (auto simp: demo_codecs_def demo_media_config_def)
qed

section \<open>The outcome of creating a participant\<close>

lemma created_state [simp]:
  "oc_stopped (oc_state f c) = oc_stopped c" "oc_started (oc_state f c) = oc_started c" "oc_registered (oc_state f c) = oc_registered c"
  "so_invite (oc_cc (oc_state f c)) = so_invite (oc_cc c)" "so_inviteOk (oc_cc (oc_state f c)) = so_inviteOk (oc_cc c)"
  "so_wire (oc_cc (oc_state f c)) = so_wire (oc_cc c)" "so_finalStatus (oc_cc (oc_state f c)) = so_finalStatus (oc_cc c)"
  "so_inviteCSeq (oc_cc (oc_state f c)) = so_inviteCSeq (oc_cc c)"
  by (simp_all add: oc_state_def)

lemma store_outbound_tag: "km_activeCalls (store_outbound tag c km) tag = (if oc_registered c then Some c else None)"
  by (simp add: store_outbound_def)

lemma newCall_registered: "newCall e hash cid uri rhs srv st toHost provider m = Some (c, None) \<Longrightarrow> oc_registered c"
  by (auto simp: newCall_def Let_def split: option.splits prod.splits)

lemma Dial_registered:
  assumes "newCall e hash cid uri rhs srv st toHost provider m = Some (c, None)" "Dial e' c = Some (d, err)" "\<not> ob_closing (oe_bye e')"
  shows "oc_registered d \<longleftrightarrow> err = None"
proof -
  let ?mon = "SetProvider provider (NewCall ''outbound'' toHost)"
  have a: "oc_acct ?mon m c" using newCall_acct [OF assms(1)] by blast
  have s: "oc_step (OcDial e') c = Some d" using assms(2) by simp
  have "oc_acct ?mon m d" using outbound_acct.step_keeps [OF a s] .
  moreover have "oc_stopped d \<longleftrightarrow> err \<noteq> None" using Dial_outcome [OF assms] by (auto split: if_splits)
  ultimately show ?thesis using oc_step_registered [OF a s] newCall_registered [OF assms(1)] by (auto simp: oc_acct_def)
qed

lemma createSIPParticipant_call:
  assumes "createSIPParticipant x e e' req km = Some (km', Some c, res)"
  shows "\<exists>uri rhs srv st toHost c0 err0 d err.
    newCall e (ce_hash x) (cr_SipCallId (ce_upgrade x req)) uri rhs srv st toHost (ce_provider x) (km_metrics km) = Some (c0, err0) \<and>
    (if err0 \<noteq> None \<or> \<not> cr_WaitUntilAnswered (ce_upgrade x req) then d = c0 \<and> err = err0 else Dial e' c0 = Some (d, err)) \<and>
    c = oc_state (Update (created_info (oe_msg e) err)) d \<and> km' = store_outbound (cr_SipCallId (ce_upgrade x req)) c km \<and>
    res = (case err of None \<Rightarrow> Ok (cr_SipCallId (ce_upgrade x req)) | Some er \<Rightarrow> Err er)"
proof -
  let ?req = "ce_upgrade x req"
  from assms obtain uri f to where h:
    "buildOutboundHeaders (ce_uri x) ?req (GetHost (getContactURI (ce_ports x) (ce_ip x) (TransportFrom (cr_Transport ?req)))) = Ok (uri, f, to)"
    by (auto simp: createSIPParticipant_def Let_def split: if_splits sum.splits)
  let ?nc = "newCall e (ce_hash x) (cr_SipCallId ?req) uri
    (if cr_FeatureFlags ?req ''sip.outbound_route_headers'' = Some ''true'' then ce_routeHeaders x else [])
    (featureFlagEnabled (cr_FeatureFlags ?req) ''sip.outbound_prefer_srv'')
    (NewCallState (ce_events x) (createSIPCallInfo ?req)) (Host (nh_Address to)) (ce_provider x) (km_metrics km)"
  from assms h obtain c0 err0 where n: "?nc = Some (c0, err0)"
    by (auto simp: createSIPParticipant_def Let_def split: if_splits sum.splits option.splits)
  have "\<exists>d err. (if err0 \<noteq> None \<or> \<not> cr_WaitUntilAnswered ?req then d = c0 \<and> err = err0 else Dial e' c0 = Some (d, err)) \<and>
    c = oc_state (Update (created_info (oe_msg e) err)) d \<and> km' = store_outbound (cr_SipCallId ?req) c km \<and>
    res = (case err of None \<Rightarrow> Ok (cr_SipCallId ?req) | Some er \<Rightarrow> Err er)"
    using assms h n by (cases err0) (auto simp: createSIPParticipant_def Let_def split: if_splits sum.splits)
  then show ?thesis using n by blast
qed



definition demo_create_env :: "(string list) create_env" where
  "demo_create_env = \<lparr>ce_uri = demo_uri_env, ce_health = HealthOK, ce_upgrade = (\<lambda>r. r),
     ce_ports = \<lparr>cfg_SIPPort = 5060, cfg_TLSPort = None, cfg_SIPHostname = ''me''\<rparr>, ce_ip = Some ''10.0.0.1'', ce_codecs = demo_codecs,
     ce_mediaTimeout = 15, ce_events = True, ce_hash = (\<lambda>s. s), ce_routeHeaders = [], ce_provider = ''p''\<rparr>"

lemma demo_codec_config: "\<exists>m. newMediaConfig demo_codecs demo_media_config t = Ok m"
  by (simp add: newMediaConfig_def codecSet_def demo_media_config_def)

lemma newCall_ok: "\<exists>c. newCall (demo_oc_env (\<lambda>_. 200)) hash cid uri rhs srv st toHost provider m = Some (c, None)"
  by (simp add: newCall_def init_call_def demo_oc_env_def Let_def connectToRoom_def oc_emit_def)

lemma demo_participant:
  "\<exists>km' c. createSIPParticipant demo_create_env (demo_oc_env (\<lambda>_. 200)) (demo_oc_env (\<lambda>_. 200)) (demo_create True) demo_km =
     Some (km', Some c, Ok ''SCL_1'')"
proof -
  obtain mc where mc: "newMediaConfig demo_codecs demo_media_config 15 = Ok mc" using demo_codec_config by blast
  obtain uri fr to where h: "buildOutboundHeaders demo_uri_env (demo_create True)
      (GetHost (getContactURI \<lparr>cfg_SIPPort = 5060, cfg_TLSPort = None, cfg_SIPHostname = ''me''\<rparr> (Some ''10.0.0.1'') (TransportFrom SIP_TRANSPORT_TLS))) =
      Ok (uri, fr, to)" using demo_headers by blast
  let ?st = "NewCallState True (createSIPCallInfo (demo_create True))"
  obtain c where c: "newCall (demo_oc_env (\<lambda>_. 200)) (\<lambda>s. s) ''SCL_1'' uri [] False ?st (Host (nh_Address to)) ''p'' (km_metrics demo_km) = Some (c, None)"
    using newCall_ok by blast
  obtain d where d: "Dial (demo_oc_env (\<lambda>_. 200)) c = Some (d, None)" using demo_Dial by blast
  have f: "cr_RoomName (demo_create True) = ''room''" "cr_Transport (demo_create True) = SIP_TRANSPORT_TLS" "cr_Media (demo_create True) = demo_media_config"
    "cr_SipCallId (demo_create True) = ''SCL_1''" "cr_FeatureFlags (demo_create True) = Map.empty" "cr_WaitUntilAnswered (demo_create True)"
    by (simp_all add: demo_create_def)
  have "\<not> featureFlagEnabled Map.empty ''sip.outbound_prefer_srv''" by (simp add: featureFlagEnabled_def ParseBool_def)
  then show ?thesis using mc h c d f by (simp add: createSIPParticipant_def demo_create_env_def Let_def)
qed


lemma demo_media_failure:
  "\<exists>km' c st. createSIPParticipant demo_create_env ((demo_oc_env (\<lambda>_. 200))\<lparr>oe_mediaErr := Some (ENew ''no ports'')\<rparr>)
      (demo_oc_env (\<lambda>_. 200)) (demo_create True) demo_km = Some (km', Some c, Err (ENew ''no ports'')) \<and> so_state (oc_cc c) = Some st \<and>
    (\<exists>info. HUpdate info \<in> set (cs_calls st) \<and> ciReason info = MEDIA_FAILURE)"
proof -
  let ?e = "(demo_oc_env (\<lambda>_. 200))\<lparr>oe_mediaErr := Some (ENew ''no ports'')\<rparr>"
  obtain mc where mc: "newMediaConfig demo_codecs demo_media_config 15 = Ok mc" using demo_codec_config by blast
  obtain uri fr to where h: "buildOutboundHeaders demo_uri_env (demo_create True)
      (GetHost (getContactURI \<lparr>cfg_SIPPort = 5060, cfg_TLSPort = None, cfg_SIPHostname = ''me''\<rparr> (Some ''10.0.0.1'') (TransportFrom SIP_TRANSPORT_TLS))) =
      Ok (uri, fr, to)" using demo_headers by blast
  let ?st = "NewCallState True (createSIPCallInfo (demo_create True))"
  have "\<exists>c st. newCall ?e (\<lambda>s. s) ''SCL_1'' uri [] False ?st (Host (nh_Address to)) ''p'' (km_metrics demo_km) = Some (c, Some (ENew ''no ports'')) \<and>
      so_state (oc_cc c) = Some st \<and> (\<exists>info. HUpdate info \<in> set (cs_calls st) \<and> ciReason info = MEDIA_FAILURE)"
    by (auto simp: newCall_def init_call_def oc_close_def Let_def oc_emit_def emitEvent_def emit_opt_def EmitSignalingEvent_def oc_state_def
        Update_def DeferUpdate_def flushLocked_def deliver_def close_info_def end_out_def CallEnd_def SetProvider_def NewCall_def setStatusWith_def
        stopSIP_def CallTerminate_def Close_out_def newOutbound_def odrop_def demo_oc_env_def NewCallState_def split: prod.split option.split)
  then obtain c st where c: "newCall ?e (\<lambda>s. s) ''SCL_1'' uri [] False ?st (Host (nh_Address to)) ''p'' (km_metrics demo_km) = Some (c, Some (ENew ''no ports''))"
      "so_state (oc_cc c) = Some st" "\<exists>info. HUpdate info \<in> set (cs_calls st) \<and> ciReason info = MEDIA_FAILURE" by blast
  have f: "cr_RoomName (demo_create True) = ''room''" "cr_Transport (demo_create True) = SIP_TRANSPORT_TLS" "cr_Media (demo_create True) = demo_media_config"
    "cr_SipCallId (demo_create True) = ''SCL_1''" "cr_FeatureFlags (demo_create True) = Map.empty"
    by (simp_all add: demo_create_def)
  have "\<not> featureFlagEnabled Map.empty ''sip.outbound_prefer_srv''" by (simp add: featureFlagEnabled_def ParseBool_def)
  then show ?thesis using mc h c f
    by (auto simp: createSIPParticipant_def demo_create_env_def Let_def oc_state_def Update_def flushLocked_def deliver_def)
qed


end
