(* ===== verification/Service.thy ===== *)
theory Service
  imports Client CallTransfer
begin

text \<open>
  The service around the call manager (service.go, rpc.go, manager.go, pkg/service/psrpc.go): the
  translation of the replies of the control plane into authentication and dispatch results, the
  remote-headers RPC, the number of active calls and the affinity a node reports for new calls, and
  the defaults of its configuration. The replies themselves, and the upgrade of old ones, come from
  the control plane and are parameters. Rationals stand for the floating-point affinity.
\<close>

section \<open>Authentication of a caller\<close>

datatype trunk_auth_error = TA_NONE | TA_QUOTA_EXCEEDED | TA_NO_TRUNK_FOUND | TA_ROUTE_NOT_ALLOWED | TA_OTHER int

record auth_response =
  ar_ErrorCode :: trunk_auth_error
  ar_Drop :: bool
  ar_Username :: string
  ar_Password :: string
  ar_Realm :: string
  ar_ProjectId :: string
  ar_SipTrunkId :: string
  ar_ProviderInfo :: "ProviderInfo option"

definition isAuthRejectionCode :: "psrpc_code \<Rightarrow> bool" where
  "isAuthRejectionCode code \<longleftrightarrow> code \<in> {InvalidArgument, FailedPrecondition, PermissionDenied, Unauthenticated, NotFound}"

definition no_auth :: InboundAuth where
  "no_auth = \<lparr>Realm = '''', Username = '''', Password = ''''\<rparr>"

definition auth_info :: "AuthResult \<Rightarrow> auth_response \<Rightarrow> AuthInfo" where
  "auth_info res r = \<lparr>ai_Result = res, ai_ProjectID = ar_ProjectId r, ai_TrunkID = '''', ai_Auth = no_auth, ai_Provider = ar_ProviderInfo r\<rparr>"

definition GetAuthCredentials :: "(go_error, auth_response) result \<Rightarrow> (go_error, AuthInfo) result" where
  "GetAuthCredentials reply = (case reply of
     Inl err \<Rightarrow> (case as_psrpc err of
         Some code \<Rightarrow> if isAuthRejectionCode code
           then Ok \<lparr>ai_Result = AuthRejectedAsError, ai_ProjectID = '''', ai_TrunkID = '''', ai_Auth = no_auth, ai_Provider = None\<rparr>
           else Err err
       | None \<Rightarrow> Err err)
   | Inr r \<Rightarrow>
       if ar_ErrorCode r \<noteq> TA_NONE then Ok (auth_info (case ar_ErrorCode r of
           TA_QUOTA_EXCEEDED \<Rightarrow> AuthQuotaExceeded
         | TA_NO_TRUNK_FOUND \<Rightarrow> AuthNoTrunkFound
         | TA_ROUTE_NOT_ALLOWED \<Rightarrow> AuthRouteNotAllowed
         | _ \<Rightarrow> AuthFailureOther) r)
       else if ar_Drop r then Ok (auth_info AuthDrop r)
       else if ar_Username r \<noteq> '''' \<and> ar_Password r \<noteq> '''' then
         Ok ((auth_info AuthPassword r)\<lparr>ai_TrunkID := ar_SipTrunkId r,
           ai_Auth := \<lparr>Realm = ar_Realm r, Username = ar_Username r, Password = ar_Password r\<rparr>\<rparr>)
       else Ok ((auth_info AuthAccept r)\<lparr>ai_TrunkID := ar_SipTrunkId r\<rparr>))"

section \<open>Dispatch of a call\<close>

datatype SIPDispatchResult = LEGACY_ACCEPT_OR_PIN | ACCEPT | REQUEST_PIN | REJECT | DROP | DISPATCH_RESULT_OTHER int

record room_config =
  rc_WsUrl :: string
  rc_Token :: string
  rc_RoomName :: string
  rc_Identity :: string
  rc_Name :: string
  rc_Metadata :: string
  rc_Attributes :: "string \<rightharpoonup> string"
  rc_Preset :: string

record dispatch_reply =
  dr_Result :: SIPDispatchResult
  dr_RequestPin :: bool
  dr_Room :: room_config
  dr_ProjectId :: string
  dr_SipTrunkId :: string
  dr_SipDispatchRuleId :: string
  dr_Headers :: "string \<rightharpoonup> string"
  dr_IncludeHeaders :: SIPHeaderOptions
  dr_HeadersToAttributes :: "string \<rightharpoonup> string"
  dr_AttributesToHeaders :: "string \<rightharpoonup> string"
  dr_FeatureFlags :: "string \<rightharpoonup> string"
  dr_RingingTimeout :: int
  dr_RingingTimeoutStatus :: int
  dr_MaxCallDuration :: int
  dr_Media :: "SIPMediaConfig option"

text \<open>\<open>CallDispatch\<close>; a nil map is the empty one, and zero values stand for fields left out.\<close>

record CallDispatch =
  cd_Result :: DispatchResult
  cd_Room :: room_config
  cd_ProjectID :: string
  cd_TrunkID :: string
  cd_DispatchRuleID :: string
  cd_Headers :: "string \<rightharpoonup> string"
  cd_HeadersToAttributes :: "string \<rightharpoonup> string"
  cd_IncludeHeaders :: SIPHeaderOptions
  cd_AttributesToHeaders :: "string \<rightharpoonup> string"
  cd_FeatureFlags :: "string \<rightharpoonup> string"
  cd_RingingTimeout :: int
  cd_RingingTimeoutStatus :: int
  cd_MaxCallDuration :: int
  cd_MediaConfig :: "SIPMediaConfig option"

definition no_room :: room_config where
  "no_room = \<lparr>rc_WsUrl = '''', rc_Token = '''', rc_RoomName = '''', rc_Identity = '''', rc_Name = '''', rc_Metadata = '''',
     rc_Attributes = Map.empty, rc_Preset = ''''\<rparr>"

definition zero_dispatch :: "DispatchResult \<Rightarrow> CallDispatch" where
  "zero_dispatch res = \<lparr>cd_Result = res, cd_Room = no_room, cd_ProjectID = '''', cd_TrunkID = '''', cd_DispatchRuleID = '''',
     cd_Headers = Map.empty, cd_HeadersToAttributes = Map.empty, cd_IncludeHeaders = SIP_NO_HEADERS, cd_AttributesToHeaders = Map.empty,
     cd_FeatureFlags = Map.empty, cd_RingingTimeout = 0, cd_RingingTimeoutStatus = 0, cd_MaxCallDuration = 0, cd_MediaConfig = None\<rparr>"

definition accept_dispatch :: "dispatch_reply \<Rightarrow> CallDispatch" where
  "accept_dispatch r = \<lparr>cd_Result = DispatchAccept, cd_Room = dr_Room r, cd_ProjectID = dr_ProjectId r, cd_TrunkID = dr_SipTrunkId r,
     cd_DispatchRuleID = dr_SipDispatchRuleId r, cd_Headers = dr_Headers r, cd_HeadersToAttributes = dr_HeadersToAttributes r,
     cd_IncludeHeaders = dr_IncludeHeaders r, cd_AttributesToHeaders = dr_AttributesToHeaders r, cd_FeatureFlags = Map.empty,
     cd_RingingTimeout = dr_RingingTimeout r, cd_RingingTimeoutStatus = dr_RingingTimeoutStatus r,
     cd_MaxCallDuration = dr_MaxCallDuration r, cd_MediaConfig = dr_Media r\<rparr>"

definition DispatchCall :: "(dispatch_reply \<Rightarrow> dispatch_reply) \<Rightarrow> (go_error, dispatch_reply) result \<Rightarrow> CallDispatch" where
  "DispatchCall upgrade reply = (case reply of
     Inl err \<Rightarrow> zero_dispatch DispatchServiceUnavailable
   | Inr r0 \<Rightarrow> (let r = upgrade r0;
       base = (\<lambda>res. (zero_dispatch res)\<lparr>cd_ProjectID := dr_ProjectId r, cd_TrunkID := dr_SipTrunkId r\<rparr>)
     in case dr_Result r of
       LEGACY_ACCEPT_OR_PIN \<Rightarrow> if dr_RequestPin r
         then (base DispatchRequestPin)\<lparr>cd_DispatchRuleID := dr_SipDispatchRuleId r, cd_MediaConfig := dr_Media r\<rparr>
         else accept_dispatch r
     | ACCEPT \<Rightarrow> (accept_dispatch r)\<lparr>cd_FeatureFlags := dr_FeatureFlags r\<rparr>
     | REQUEST_PIN \<Rightarrow> (base DispatchRequestPin)\<lparr>cd_MediaConfig := dr_Media r\<rparr>
     | REJECT \<Rightarrow> base DispatchNoRuleReject
     | DROP \<Rightarrow> base DispatchNoRuleDrop
     | DISPATCH_RESULT_OTHER n \<Rightarrow> base DispatchNoRuleReject))"

text \<open>What \<open>handleInvite\<close> reads of it.\<close>

definition call_dispatch :: "CallDispatch \<Rightarrow> dispatch" where
  "call_dispatch d = \<lparr>diResult = cd_Result d, diRoomName = rc_RoomName (cd_Room d), diProjectID = cd_ProjectID d, diTrunkID = cd_TrunkID d,
     diRuleID = cd_DispatchRuleID d, diLateOffer = featureFlagEnabled (cd_FeatureFlags d) ''sip.late_offer'',
     diRingingTimeoutStatus = cd_RingingTimeoutStatus d\<rparr>"

section \<open>Remote headers\<close>

definition getHeadersIgnore :: "string list" where
  "getHeadersIgnore = [''route'', ''record-route'', ''via'', ''supported'', ''accept'', ''allow'', ''allow-events'', ''content-type'',
     ''content-length'', ''content-encoding'', ''content-disposition'', ''cseq'', ''event'', ''expires'', ''session-expires'', ''min-se'',
     ''max-forwards'']"

definition header_wanted :: "string list \<Rightarrow> string list \<Rightarrow> string \<Rightarrow> bool" where
  "header_wanted include exclude h = (let name = ToLower h in
     name \<notin> set getHeadersIgnore \<and> name \<notin> set (map ToLower exclude) \<and> (include = [] \<or> name \<in> set (map ToLower include)))"

definition rpcGetHeaders :: "Headers \<Rightarrow> string list \<Rightarrow> string list \<Rightarrow> (string \<rightharpoonup> string)" where
  "rpcGetHeaders remote include exclude =
     fold (\<lambda>(n, v) out. if header_wanted include exclude n then out(n \<mapsto> v) else out) remote Map.empty"

section \<open>Load\<close>

record ActiveCalls =
  acs_Inbound :: nat
  acs_Outbound :: nat
  acs_SampleIDs :: "string list"

definition Total :: "ActiveCalls \<Rightarrow> nat" where
  "Total st = acs_Outbound st + acs_Inbound st"

text \<open>\<open>order\<close> lists the keys in the order the map is ranged over; the loop body runs before the
  limit is tested.\<close>

fun sample_loop :: "int \<Rightarrow> 'v list \<Rightarrow> ('v \<Rightarrow> string) \<Rightarrow> string list" where
  "sample_loop limit [] sample = []"
| "sample_loop limit (v # vs) sample = (if sample v \<noteq> '''' then [sample v] else []) @
     (if limit - 1 \<le> 0 then [] else sample_loop (limit - 1) vs sample)"

definition sampleMap :: "int \<Rightarrow> 'k list \<Rightarrow> ('k \<rightharpoonup> 'v) \<Rightarrow> ('v \<Rightarrow> string) \<Rightarrow> string list \<times> nat" where
  "sampleMap limit order m sample = (sample_loop limit (map (\<lambda>k. the (m k)) order) sample, length order)"

definition manager_ActiveCalls :: "string list \<Rightarrow> string list \<Rightarrow> callManager \<Rightarrow> ActiveCalls" where
  "manager_ActiveCalls outs ins km =
     (case sampleMap 5 outs (km_activeCalls km) (\<lambda>c. so_id (oc_cc c)) of (os, ot) \<Rightarrow>
      case sampleMap 5 ins (km_byLocalTag km) (\<lambda>c. si_id (ic_cc c)) of (is, it) \<Rightarrow>
        \<lparr>acs_Inbound = it, acs_Outbound = ot, acs_SampleIDs = os @ is\<rparr>)"

record affinity_config =
  af_SIPTrunkIds :: "string list"
  af_MaxActiveCalls :: int

definition CreateSIPParticipantAffinity :: "affinity_config \<Rightarrow> string \<Rightarrow> ActiveCalls \<Rightarrow> rat" where
  "CreateSIPParticipantAffinity conf trunk st =
     (if af_SIPTrunkIds conf \<noteq> [] \<and> trunk \<notin> set (af_SIPTrunkIds conf) then 0
      else (let active = of_nat (Total st); mx = of_int (af_MaxActiveCalls conf) in
        if mx > 0 then (if active \<ge> mx then 0 else 1 - active / mx) else 1 / (1 + active)))"

section \<open>From the replies of the control plane to the calls\<close>

lemma GetAuthCredentials_accepts:
  assumes "GetAuthCredentials reply = Ok r" "auth_accepts i r"
  shows "\<exists>ar. reply = Ok ar \<and> ar_ErrorCode ar = TA_NONE \<and> \<not> ar_Drop ar \<and>
    ((ar_Username ar = '''' \<or> ar_Password ar = '''') \<or>
     ai_Auth r = \<lparr>Realm = ar_Realm ar, Username = ar_Username ar, Password = ar_Password ar\<rparr> \<and> password_ok i r)"
  using assms
  by (auto simp: GetAuthCredentials_def auth_accepts_def auth_info_def split: sum.splits option.splits if_splits trunk_auth_error.splits)

text \<open>C2: the control plane decides who may call: when an INVITE whose caller was looked up through
  \<open>GetAuthCredentials\<close> makes the manager register a call, the lookup succeeded with no error code
  and no drop, and if it returned a user name and a password, the INVITE carried credentials for
  that user whose digest was computed from that password over a nonce issued for its Call-ID and
  still valid. An error of the lookup, whatever its code, never starts a call.\<close>

theorem call_started_on_auth_reply:
  assumes "in_auth i = GetAuthCredentials reply" "processInvite i km = (km', out)" "io_call out"
  shows "\<exists>ar. reply = Ok ar \<and> ar_ErrorCode ar = TA_NONE \<and> \<not> ar_Drop ar \<and>
    (ar_Username ar = '''' \<or> ar_Password ar = '''' \<or>
     (\<exists>hv cred. ReqHeader (in_req i) ''Proxy-Authorization'' = Some hv \<and> parse_cred (env_digest (in_env i)) hv = Some cred \<and>
        cr_Username cred = ar_Username ar \<and>
        digest_fn (env_digest (in_env i)) (if ar_Realm ar = '''' then UserAgent else ar_Realm ar) (cr_Nonce cred) (cr_URI cred)
          (ar_Username ar) (ar_Password ar) = Some (cr_Response cred) \<and>
        checkDigestNonce (env_aead (in_env i)) (env_b64 (in_env i)) (env_keys (in_env i)) (cr_Nonce cred)
          (sipCallID_of (in_req i)) (in_now i) = None))"
proof -
  from processInvite_effect [OF assms(2)] assms(1,3) obtain r where r: "GetAuthCredentials reply = Ok r" "auth_accepts i r"
    by auto
  from GetAuthCredentials_accepts [OF r] obtain ar where ar: "reply = Ok ar" "ar_ErrorCode ar = TA_NONE" "\<not> ar_Drop ar"
    "ar_Username ar = '''' \<or> ar_Password ar = '''' \<or>
     ai_Auth r = \<lparr>Realm = ar_Realm ar, Username = ar_Username ar, Password = ar_Password ar\<rparr> \<and> password_ok i r" by blast
  have "\<exists>hv cred. ReqHeader (in_req i) ''Proxy-Authorization'' = Some hv \<and> parse_cred (env_digest (in_env i)) hv = Some cred \<and>
      cr_Username cred = ar_Username ar \<and>
      digest_fn (env_digest (in_env i)) (if ar_Realm ar = '''' then UserAgent else ar_Realm ar) (cr_Nonce cred) (cr_URI cred)
        (ar_Username ar) (ar_Password ar) = Some (cr_Response cred) \<and>
      checkDigestNonce (env_aead (in_env i)) (env_b64 (in_env i)) (env_keys (in_env i)) (cr_Nonce cred)
        (sipCallID_of (in_req i)) (in_now i) = None"
    if a: "ai_Auth r = \<lparr>Realm = ar_Realm ar, Username = ar_Username ar, Password = ar_Password ar\<rparr>" and ok: "password_ok i r"
      and u: "ar_Username ar \<noteq> ''''" "ar_Password ar \<noteq> ''''"
    by (rule handleInviteAuth_checked [OF _ _ ok [unfolded password_ok_def]]) (use a u in auto)
  then show ?thesis using ar by blast
qed

definition demo_reply :: auth_response where
  "demo_reply = \<lparr>ar_ErrorCode = TA_NONE, ar_Drop = False, ar_Username = ''bob'', ar_Password = ''pw'', ar_Realm = ''r'', ar_ProjectId = ''p'',
     ar_SipTrunkId = ''t'', ar_ProviderInfo = None\<rparr>"

theorem call_started_on_auth_reply_witness:
  "\<exists>hv cred. ReqHeader (demo_req ''bobpw'') ''Proxy-Authorization'' = Some hv \<and>
     parse_cred (env_digest DigestAuth.demo_env) hv = Some cred \<and> cr_Username cred = ''bob''"
proof -
  let ?i = "demo_in demo_invite AuthPassword"
  have "in_auth ?i = GetAuthCredentials (Ok demo_reply)"
    by (simp add: demo_in_def demo_info_def demo_auth_def demo_reply_def GetAuthCredentials_def auth_info_def)
  from call_started_on_auth_reply [OF this, of demo_km "fst (processInvite ?i demo_km)" "snd (processInvite ?i demo_km)"] demo_started
  show ?thesis by (auto simp: demo_in_def demo_reply_def)
qed


abbreviation demo_dispatch_reply :: "(go_error, dispatch_reply) result" where
  "demo_dispatch_reply \<equiv> Err (EPsrpc Unavailable (ENew ''no response''))"

abbreviation demo_unavailable :: hi_env where
  "demo_unavailable \<equiv> (demo_h DispatchNoRuleReject)\<lparr>he_disp := call_dispatch (DispatchCall (\<lambda>r. r) demo_dispatch_reply),
     he_pinDisp := (\<lambda>p nopin. call_dispatch (DispatchCall (\<lambda>r. r) demo_dispatch_reply))\<rparr>"


section \<open>Remote headers and load\<close>

lemma fold_headers:
  "fold (\<lambda>(n, v) out. if P n then out(n \<mapsto> v) else out) hs m =
     m ++ map_of (rev (filter (\<lambda>(n, v). P n) hs))"
  by (induction hs arbitrary: m) (auto simp: map_add_def fun_eq_iff split: option.splits)

text \<open>The remote-headers RPC returns what was asked for: a header of the peer is in the answer
  exactly when its name, compared without regard to case, is not one of the protocol headers, not
  excluded, and included if a list of names was given; when the peer sent it several times, the
  last value is returned.\<close>

theorem rpc_headers_filtered:
  "rpcGetHeaders remote include exclude n =
     (if header_wanted include exclude n then map_of (rev remote) n else None)"
proof -
  have "map_of (rev (filter (\<lambda>(k, v). header_wanted include exclude k) remote)) n =
      (if header_wanted include exclude n then map_of (rev remote) n else None)"
  proof (induction remote rule: rev_induct)
    case (snoc kv hs)
    then show ?case by (cases kv) auto
  qed simp
  then show ?thesis by (simp add: rpcGetHeaders_def fold_headers)
qed

lemma affinity_cases:
  assumes "af_SIPTrunkIds conf = [] \<or> trunk \<in> set (af_SIPTrunkIds conf)"
  shows "CreateSIPParticipantAffinity conf trunk st = (if af_MaxActiveCalls conf > 0
    then max 0 (1 - of_nat (Total st) / of_int (af_MaxActiveCalls conf)) else 1 / (1 + of_nat (Total st)))"
proof -
  have "(of_nat (Total st) :: rat) / of_int (af_MaxActiveCalls conf) \<ge> 1 \<longleftrightarrow> of_nat (Total st) \<ge> (of_int (af_MaxActiveCalls conf) :: rat)"
    if "af_MaxActiveCalls conf > 0" using that by (simp add: le_divide_eq)
  then show ?thesis using assms by (auto simp: CreateSIPParticipantAffinity_def Let_def max_def)
qed

text \<open>New calls go where there is room: the affinity a node reports lies between 0 and 1; it is 0
  exactly when the node does not serve the trunk or has reached its limit of active calls; and of
  two nodes with the same configuration that can take the call, the one with fewer active calls
  reports more.\<close>

theorem affinity_prefers_idle:
  assumes "af_MaxActiveCalls conf \<ge> 0"
  shows "0 \<le> CreateSIPParticipantAffinity conf trunk st \<and> CreateSIPParticipantAffinity conf trunk st \<le> 1 \<and>
    (CreateSIPParticipantAffinity conf trunk st = 0 \<longleftrightarrow>
       af_SIPTrunkIds conf \<noteq> [] \<and> trunk \<notin> set (af_SIPTrunkIds conf) \<or>
       af_MaxActiveCalls conf > 0 \<and> int (Total st) \<ge> af_MaxActiveCalls conf) \<and>
    (Total st < Total st' \<longrightarrow> CreateSIPParticipantAffinity conf trunk st \<noteq> 0 \<longrightarrow>
       CreateSIPParticipantAffinity conf trunk st' < CreateSIPParticipantAffinity conf trunk st)"
proof (cases "af_SIPTrunkIds conf = [] \<or> trunk \<in> set (af_SIPTrunkIds conf)")
  case False
  then show ?thesis by (auto simp: CreateSIPParticipantAffinity_def)
next
  case True
  note a = affinity_cases [OF True]
  let ?m = "of_int (af_MaxActiveCalls conf) :: rat"
  have i: "(of_nat (Total st) :: rat) \<ge> ?m \<longleftrightarrow> int (Total st) \<ge> af_MaxActiveCalls conf" by linarith
  show ?thesis
  proof (cases "af_MaxActiveCalls conf > 0")
    case pos: True
    then have "of_nat (Total st) / ?m \<ge> 1 \<longleftrightarrow> int (Total st) \<ge> af_MaxActiveCalls conf" "?m > 0" "of_nat (Total st) / ?m \<ge> 0"
      using i by (simp_all add: le_divide_eq)
    moreover have "Total st < Total st' \<Longrightarrow> of_nat (Total st) / ?m < of_nat (Total st') / ?m"
      using \<open>?m > 0\<close> by (simp add: divide_strict_right_mono)
    ultimately show ?thesis using True pos by (auto simp: a max_def)
  next
    case False
    have "1 / (1 + of_nat (Total st') :: rat) < 1 / (1 + of_nat (Total st))" if "Total st < Total st'"
      using that by (intro divide_strict_left_mono) (auto intro: mult_pos_pos)
    then show ?thesis using True False by (auto simp: a)
  qed
qed

theorem affinity_prefers_idle_witness:
  "CreateSIPParticipantAffinity \<lparr>af_SIPTrunkIds = [], af_MaxActiveCalls = 10\<rparr> ''t'' \<lparr>acs_Inbound = 2, acs_Outbound = 3, acs_SampleIDs = []\<rparr> <
   CreateSIPParticipantAffinity \<lparr>af_SIPTrunkIds = [], af_MaxActiveCalls = 10\<rparr> ''t'' \<lparr>acs_Inbound = 1, acs_Outbound = 3, acs_SampleIDs = []\<rparr>"
  using affinity_prefers_idle [of "\<lparr>af_SIPTrunkIds = [], af_MaxActiveCalls = 10\<rparr>" "''t''"
      "\<lparr>acs_Inbound = 1, acs_Outbound = 3, acs_SampleIDs = []\<rparr>" "\<lparr>acs_Inbound = 2, acs_Outbound = 3, acs_SampleIDs = []\<rparr>"]
  by (simp add: Total_def)

end
