(* ===== verification/Spec2Isabelle.thy ===== *)
theory Spec2Isabelle
  imports Prelude Stats GoErrors SipTypes Protocol Refer InviteErrors SilenceFiller DigestAuth Analytics MediaStats MediaPort
    MediaPipeline MediaNegotiation Room Configuration ServiceProcess MediaWriters RtpConn OpusCodec DialogRequest
    InboundDialog OutboundDialog InboundCall OutboundCall CallManager ManagerRun CallTransfer Client Service
begin

text \<open>
  \<^bold>\<open>The SIP bridge of LiveKit.\<close> The program connects telephone calls (SIP signaling, RTP media) with
  LiveKit rooms. An INVITE that reaches the server is admitted by the call manager: the control plane says
  whether the caller is accepted, rejected or must authenticate, and a digest challenge may be needed in
  between. An admitted INVITE becomes an inbound call, which asks for a pin if the dispatch rule says so,
  joins a room, answers with a 200 and lives until one of the sides ends it. On request of the control plane
  the client creates an outbound call, which dials a number, with authentication if the callee asks for it, and
  joins a room. Either kind of call can be transferred by REFER. Each call owns a dialog (the signaling state),
  a media port (UDP connection, offer and answer, pipeline), a room, a call state that reports to
  analytics, and a monitor that moves the metrics.

  \<^bold>\<open>Theories and sources\<close> (paths under src/pkg).

  \<^item> \<open>Prelude\<close>: Go strings, numbers and their parsers, and the interfaces the components share: \<open>run\<close> (a sequence of
    operations, \<open>None\<close> when an operation is not possible) and the locales \<open>keeps_inv\<close> (an invariant every operation
    keeps), \<open>never_stuck\<close> (every operation is always possible), \<open>hangup_once\<close> (at most one BYE, only after
    an answer) and \<open>refines\<close> (a simulation). Each component interprets those it meets with its own step function.
  \<^item> \<open>GoErrors\<close>, \<open>InviteErrors\<close> (sip/errors.go, errors/errors.go): error values, \<open>errors.Is/As\<close>, the verdict on a
    failed INVITE, retries, SIP status and psrpc code of an error.
  \<^item> \<open>Stats\<close> (stats/monitor.go, stats/termination.go): termination results, the call monitor, the health report.
  \<^item> \<open>SipTypes\<close>, \<open>Protocol\<close> (sip/types.go, participant.go, protocol.go): URIs, transports, headers and
    attributes, status names, transactions, NOTIFY, Event, Subscription-State and Reason.
  \<^item> \<open>Refer\<close>, \<open>DialogRequest\<close> (protocol.go, inbound.go, outbound.go): the wait for the outcome of a REFER; the headers and route sets of
    the requests inside a dialog.
  \<^item> \<open>DigestAuth\<close> (sealer/sealer.go, sip/digest\_nonce.go, inbound.go): the sealed nonce and \<open>handleInviteAuth\<close>.
  \<^item> \<open>Analytics\<close> (analytics.go, signaling\_events.go): the call state and its flushes.
  \<^item> \<open>InboundDialog\<close>, \<open>OutboundDialog\<close> (inbound.go, outbound.go): \<open>sipInbound\<close> and \<open>sipOutbound\<close>, with the messages
    each puts on the wire in order.
  \<^item> \<open>InboundCall\<close>, \<open>OutboundCall\<close> (inbound.go, outbound.go): \<open>inboundCall\<close> and \<open>outboundCall\<close> from creation to close.
  \<^item> \<open>CallManager\<close>, \<open>ManagerRun\<close> (manager.go, inbound.go, client.go): \<open>processInvite\<close> on every branch, the maps and caches,
    challenge timers, BYE, ACK, NOTIFY, OPTIONS, shutdown; and all sequences of these events.
  \<^item> \<open>CallTransfer\<close> (service.go, rpc.go): transfers on request, and the service that shares one transfer between requests.
  \<^item> \<open>Client\<close> (client.go, media\_codecs.go, features.go), \<open>Service\<close> (service.go, rpc.go, manager.go, service/psrpc.go): creation of
    SIP participants; the replies of the control plane; active calls and affinity.
  \<^item> \<open>SilenceFiller\<close>, \<open>MediaStats\<close>, \<open>MediaPort\<close>, \<open>MediaPipeline\<close>, \<open>MediaNegotiation\<close> (silence\_filler.go, media.go, media\_latency.go,
    media\_port.go, media\_pipeline.go): the media of a call.
  \<^item> \<open>MediaWriters\<close> (media.go, media\_latency.go, signal\_logger.go, signaling\_timestamps.go, room.go, stats/monitor.go): the wrappers that
    observe a chain of writers, under the contract \<open>observers\<close> they share, the signal logger, media metrics and rates.
  \<^item> \<open>OpusCodec\<close>, \<open>RtpConn\<close> (media/opus/opus.go, media/rtpconn/conn.go): the framing of audio for the codec; the supervised RTP connection.
  \<^item> \<open>Room\<close> (room.go): joining, subscribing, recovery of the connection, closing, DTMF.
  \<^item> \<open>Configuration\<close> (config/config.go, config/tls.go, sip/config.go, sip/tls.go, service.go, draining\_port.go): settings,
    addresses, TLS policy, creation and start of the service, draining of ports.
  \<^item> \<open>ServiceProcess\<close> (service/service.go, sip/server.go, cmd/livekit-sip/main.go): the listeners of the SIP server, the life of the process and
    its graceful stop.

  \<^bold>\<open>How the code is represented.\<close> A struct is a record whose fields carry a prefix and the name in the source; a method that changes it
  returns the updated record, with what it sends or counts as fields (the messages on the wire, the metrics, the handlers called). An error
  is a value of \<open>go_error\<close>, in a sum or an option; its text does not embed the texts of its causes. Sequence numbers, timestamps and
  counters are words of their width; Go's \<open>int\<close> and durations are integers where their range is not at stake. Goroutines are steps: a
  component's step function performs one atomic operation (a section under its lock, a send, a receive, a callback), and theorems over \<open>run\<close>
  hold for every interleaving. \<open>Room.Subscribe\<close> is one step, that is, it is not interrupted by a close. A \<open>select\<close> with several
  ready branches takes the one named by an argument.

  \<^bold>\<open>Parameters.\<close> Code outside the repository is an argument: the SIP stack's transactions (what the peer answers), the SDP package and the
  constructors of the media library, the LiveKit SDK (a record of its room and the steps it takes on its own), the control plane's replies, AES-GCM, base64 and the
  digest computation (with \<open>aead_ok\<close> and \<open>b64_ok\<close>: opening returns what was sealed, forging fails), X.509, YAML, STUN, random
  generators and clocks. Every theorem with such a hypothesis has a witness on concrete functions.

  \<^bold>\<open>Loops.\<close> Loops over data are structural recursions. \<open>invite_loop\<close> (the repeated INVITE of an outbound call) numbers its attempts,
  and an argument says how each is answered; \<open>outbound_invite_ends\<close> shows that it is over after five transactions whatever the callee answers, as soon as each of them returns. The waits of a call consume
  the events they wait for: a wait that has not ended is \<open>None\<close>, and the theorems on ends of calls say what holds of every run that has
  ended, with \<open>outbound_dial_outcome\<close>, \<open>shutdown_ends_every_call\<close>, \<open>transfer_waiters_answered\<close> and \<open>media_timeout_exact\<close> saying that the ends come about.
  Draining and read loops consume the results of their reads.

  \<^bold>\<open>What is shown.\<close>

  \<^item> Admission: a call is started only when the control plane accepted the caller or a digest over a nonce
    of ours is right (\<open>challenge_handshake\<close> follows the whole handshake below); every INVITE gets one final answer; repeated INVITEs
    are answered alike; a superseded challenge never times out.
  \<^item> Calls: however a call ends, it is closed, reported and counted once, and the active-call metrics return to where they
    were; shutdown ends every call; dialogs send at most one BYE, and only after an answer; INVITEs send one final response.
  \<^item> Transfers: concurrent requests for a transfer are served by one transfer and get its one outcome (a refinement of an
    abstract service); attempts, successes and failures are counted once; the REFER carries the route set of its dialog.
  \<^item> Media: codecs and keys are negotiated once, later offers only move the address; failed negotiation changes nothing; a pipeline is
    built whole or released whole; every packet is handled, ignored or dropped by count; media goes only where signaling, or in symmetric mode the peer,
    says; the media timeout fires exactly when no packet came in time; gaps of silence keep the timeline; observing a chain does not change it; the
    encoder loses no sample.
  \<^item> Room: after a reconnect every audio track is subscribed again once the workers are done, and nothing is requested
    outside of an answered call.
  \<^item> Configuration: a service that is created has usable settings; with TLS it has certificates, checks its peers and
    applies its policy; ports are drained for a bounded time.
  \<^item> Process: a requested stop waits for the calls unless killed, stops the SIP service once, and is visible to the health check
    from the first moment.

  \<^bold>\<open>Not modelled.\<close> Logging and tracing (otel.go), the registration of Prometheus collectors (most of monitor.go) and of handlers with the SIP
  stack, and the wiring of the parts in main.go have no state of their own to reason about. Audio prompts, dial tones, resampling, mixing and the
  switching of writers between room and port go through the media library, whose writers the sources only call. The JSON
  snapshots of statistics only format. pkg/siptest, audiotest and test are test tools. Generated and embedded files are data.
\<close>

section \<open>The challenge handshake\<close>

lemma newInbound_cached_id:
  assumes "newInbound m cached fresh = Ok cc" "\<And>ps. im_to m = Some ps \<Longrightarrow> tag_of ps = None"
    and "cached (si_sipCallID cc, si_tag cc) = Some t" "t \<noteq> ''''"
  shows "si_id cc = t"
  using assms by (auto simp: newInbound_def Let_def split: option.splits if_splits)

text \<open>C1: a caller that knows the password gets through: an INVITE without credentials, from a
  caller of whom a password is asked, is answered with 407 and a challenge; when the caller
  then repeats the INVITE within 30 seconds, with the same Call-ID and From tag, no To tag,
  and the digest of the configured password over the nonce of that challenge, a call is
  started, and it is registered under the tag the challenge was sent with, although the
  second INVITE does not name it.\<close>

theorem challenge_handshake:
  assumes run: "run km_step ops (newCallManager hide dis m) = Some km"
    and crypto: "aead_ok (env_aead E)" "b64_ok (env_b64 E)" "keys_separate (env_aead E) (env_keys E)" "env_keys E \<noteq> []"
    and first: "processInvite i km = (km1, out1)" "fresh_invite i cc km" "si_id cc \<noteq> ''''" "in_env i = E" "in_respOk i"
      "in_auth i = Ok r" "ai_Result r = AuthPassword" "Username (ai_Auth r) \<noteq> ''''" "Password (ai_Auth r) \<noteq> ''''"
      "ReqHeader (in_req i) ''Proxy-Authorization'' = None" "in_rnd i = Some rnd" "length rnd = nonceSize"
      "0 \<le> in_now i" "in_now i < 2 ^ 62"
    and second: "in_srcOk j" "in_env j = E" "in_auth j = Ok r'" "ai_Result r' = AuthPassword" "ai_Auth r' = ai_Auth r"
      "newInbound (in_msg j) (km_provisional km1) (in_fresh j) = Ok cc2" "si_sipCallID cc2 = si_sipCallID cc" "si_tag cc2 = si_tag cc"
      "\<And>ps. im_to (in_msg j) = Some ps \<Longrightarrow> tag_of ps = None"
      "sipCallID_of (in_req j) = sipCallID_of (in_req i)" "in_now i \<le> in_now j" "in_now j \<le> UnixMicro (in_now i) * 1000 + 30 * second"
      "ReqHeader (in_req j) ''Proxy-Authorization'' = Some hv" "parse_cred (env_digest E) hv = Some cred"
      "cr_Username cred = Username (ai_Auth r)"
  shows "\<exists>ch. io_challenge out1 = Some ch \<and> finals (io_wire out1) = [407] \<and> \<not> io_call out1 \<and>
    (cr_Nonce cred = ch_Nonce ch \<and>
     digest_fn (env_digest E) (ch_Realm ch) (ch_Nonce ch) (cr_URI cred) (Username (ai_Auth r)) (Password (ai_Auth r)) =
       Some (cr_Response cred) \<longrightarrow>
     io_call (snd (processInvite j km1)) \<and> (\<exists>c. km_byLocalTag (fst (processInvite j km1)) (si_id cc) = Some c))"
proof -
  let ?realm = "if Realm (ai_Auth r) = '''' then UserAgent else Realm (ai_Auth r)"
  obtain nonce where nonce: "issueDigestNonce (env_aead E) (env_b64 E) (env_keys E) (Some rnd) (sipCallID_of (in_req i)) (in_now i) = Ok nonce"
    by (auto simp: issueDigestNonce_def Seal_def)
  have h: "handleInviteAuth (in_env i) (in_rnd i) (in_req i) (ai_Auth r) (in_now i) (in_now i) = (mk_result 407 ''Unauthorized'',
      Some \<lparr>ch_Realm = ?realm, ch_Nonce = nonce, ch_Stale = False\<rparr>)"
    unfolding first(4,11) by (rule handleInviteAuth_challenge [OF first(10,8,9) nonce])
  have ti: "timers_inv km" by (rule manager_timers.run_keeps [OF timers_inv_new run])
  note ci = challenge_issued [OF first(1,2,6,7) h _ first(5) ti, unfolded mk_result_def, simplified]
  have f: "cached_rejection km cc = None" "km_byLocalTag km (si_id cc) = None" "km_activeCalls km (si_id cc) = None"
    using first(2) by (simp_all add: fresh_invite_def)
  have id: "si_id cc2 = si_id cc"
    by (rule newInbound_cached_id [OF second(6,9)]) (use ci second(7,8) first(3) in simp_all)
  have fr: "fresh_invite j cc2 km1"
    using second(1,6-8) ci f id by (auto simp: fresh_invite_def cached_rejection_def split: option.splits)
  have chk: "checkDigestNonce (env_aead E) (env_b64 E) (env_keys E) nonce (sipCallID_of (in_req j)) (in_now j) = None"
  proof -
    have u: "- (2 ^ 63) \<le> UnixMicro (in_now i)" "UnixMicro (in_now i) < 2 ^ 63" "UnixMicro (in_now i) * 1000 \<le> in_now i"
      using first(13,14) by (simp_all add: UnixMicro_def)
    have "0 \<le> in_now j - UnixMicro (in_now i) * 1000" "in_now j - UnixMicro (in_now i) * 1000 \<le> 30 * second"
      using u(3) second(11,12) by simp_all
    then show ?thesis
      using checkDigestNonce_fresh [OF crypto(1-3) _ first(12) nonce u(1,2), of "in_now j"] crypto(4) second(10)
      by (simp add: time_Sub_def digestNonceTTL_def authChallengeTimeout_def second_def)
  qed
  have "io_call (snd (processInvite j km1)) \<and> (\<exists>c. km_byLocalTag (fst (processInvite j km1)) (si_id cc) = Some c)"
    if d: "cr_Nonce cred = nonce" "digest_fn (env_digest E) ?realm nonce (cr_URI cred) (Username (ai_Auth r)) (Password (ai_Auth r)) =
      Some (cr_Response cred)"
  proof -
    have "password_ok j r'" unfolding password_ok_def second(2,5)
      by (rule handleInviteAuth_complete [OF second(13-15)]) (use chk d in simp_all)
    then have acc: "\<exists>q. in_auth j = Ok q \<and> auth_accepts j q" using second(3,4) by (simp add: auth_accepts_def)
    obtain km2 out2 where p2: "processInvite j km1 = (km2, out2)" by fastforce
    have n: "(km2, out2) = new_invite j cc2 (km1\<lparr>km_metrics := InviteReqRaw (km_metrics km1)\<rparr>)"
      using processInvite_cases [OF p2 second(1,6)] fr by (auto simp: fresh_invite_def)
    have "idlg_inv cc2" using newInbound_init [OF second(6)] by blast
    from new_invite_effect [OF n [symmetric] this] show ?thesis using acc p2 id by (auto simp: added_call_def)
  qed
  then show ?thesis using ci by auto
qed

definition demo_first :: "string invite_in" where
  "demo_first = demo_challenged\<lparr>in_now := 5000000\<rparr>"

lemma demo_first_issue:
  "issueDigestNonce (env_aead DigestAuth.demo_env) (env_b64 DigestAuth.demo_env) (env_keys DigestAuth.demo_env) (in_rnd demo_first)
     (sipCallID_of (in_req demo_first)) (in_now demo_first) = Ok demo_nonce"
  by (simp add: demo_first_def demo_challenged_def DigestAuth.demo_env_def sipCallID_of_def demo_nonce_def issueDigestNonce_def
      Seal_def demo_aead_def demo_b64_def UnixMicro_def)

lemma demo_first_challenge:
  assumes "processInvite demo_first demo_km = (km1, out1)"
  shows "io_challenge out1 = Some \<lparr>ch_Realm = ''r'', ch_Nonce = demo_nonce, ch_Stale = False\<rparr> \<and>
    km_provisional km1 = [(''cid'', ''ft'') \<mapsto> ''SCL_1'']"
proof -
  have e: "in_env demo_first = DigestAuth.demo_env" "in_auth demo_first = Ok (demo_info AuthPassword)" "in_respOk demo_first"
    by (simp_all add: demo_first_def demo_challenged_def demo_in_def)
  have f: "fresh_invite demo_first demo_dialog demo_km" using demo_fresh by (simp add: fresh_invite_def demo_first_def)
  have "ReqHeader (in_req demo_first) ''Proxy-Authorization'' = None" by (simp add: demo_first_def demo_challenged_def)
  then have h: "handleInviteAuth (in_env demo_first) (in_rnd demo_first) (in_req demo_first) (ai_Auth (demo_info AuthPassword)) (in_now demo_first)
      (in_now demo_first) = (mk_result 407 ''Unauthorized'', Some \<lparr>ch_Realm = ''r'', ch_Nonce = demo_nonce, ch_Stale = False\<rparr>)"
    using handleInviteAuth_challenge [of "in_req demo_first" demo_auth DigestAuth.demo_env] demo_first_issue e
    by (simp add: demo_info_def demo_auth_def)
  show ?thesis using challenge_issued [OF assms f e(2) _ h _ e(3) timers_inv_new]
    by (simp add: mk_result_def newCallManager_def demo_dialog_def)
qed

theorem challenge_handshake_witness:
  "\<exists>km1 out1. processInvite demo_first demo_km = (km1, out1) \<and> io_call (snd (processInvite (demo_in demo_invite AuthPassword) km1))"
proof -
  obtain km1 out1 where p: "processInvite demo_first demo_km = (km1, out1)" by fastforce
  note ch = demo_first_challenge [OF p]
  have n: "newInbound demo_invite (km_provisional km1) ''SCL_1'' = Ok demo_dialog"
    using ch by (simp add: newInbound_def demo_invite_def demo_dialog_def tag_of_def Let_def)
  have f: "fresh_invite demo_first demo_dialog demo_km" using demo_fresh by (simp add: fresh_invite_def demo_first_def)
  let ?cred = "\<lparr>cr_Username = ''bob'', cr_Nonce = demo_nonce, cr_URI = ''sip:h'', cr_Response = ''bobpw''\<rparr>"
  have c: "aead_ok (env_aead DigestAuth.demo_env)" "b64_ok (env_b64 DigestAuth.demo_env)"
    "keys_separate (env_aead DigestAuth.demo_env) (env_keys DigestAuth.demo_env)" "env_keys DigestAuth.demo_env \<noteq> []"
    using demo_aead_ok demo_b64_ok demo_keys_separate by (simp_all add: DigestAuth.demo_env_def)
  have "\<exists>ch. io_challenge out1 = Some ch \<and> finals (io_wire out1) = [407] \<and> \<not> io_call out1 \<and>
    (cr_Nonce ?cred = ch_Nonce ch \<and>
     digest_fn (env_digest DigestAuth.demo_env) (ch_Realm ch) (ch_Nonce ch) (cr_URI ?cred) (Username (ai_Auth (demo_info AuthPassword)))
       (Password (ai_Auth (demo_info AuthPassword))) = Some (cr_Response ?cred) \<longrightarrow>
     io_call (snd (processInvite (demo_in demo_invite AuthPassword) km1)) \<and>
       (\<exists>c. km_byLocalTag (fst (processInvite (demo_in demo_invite AuthPassword) km1)) (si_id demo_dialog) = Some c))"
    by (rule challenge_handshake [of "[]" False False empty_monitor demo_km, OF _ c p f, where rnd = "replicate 12 CHR ''r''" and hv = "''bobpw''" and
        r' = "demo_info AuthPassword" and ?cc2.0 = demo_dialog])
      (use n in \<open>simp_all add: demo_first_def demo_challenged_def demo_in_def demo_info_def demo_auth_def demo_dialog_def demo_req_def
        DigestAuth.demo_env_def nonceSize_def UnixMicro_def second_def sipCallID_of_def demo_invite_def tag_of_def\<close>)
  then show ?thesis using p ch by (auto simp: DigestAuth.demo_env_def demo_info_def demo_auth_def)
qed

end
